(* ===== verification/Prelude.thy ===== *)
theory Prelude
  imports Complex_Main "HOL-Library.AList" "HOL-Library.List_Lexorder" "HOL-Library.Char_ord"
    "HOL-Library.Multiset"
begin

text \<open>
  Shared vocabulary of the development: Python's insertion-ordered dictionaries as association
  lists, fallible computations as sums, generic facts on lists and dictionaries, the two fact
  collections the component theories fill, and the generic locale of a transition system with
  an invariant.
\<close>

named_theorems dict_simps \<open>lookup laws of the ordered dictionary\<close>
named_theorems unfold_defs \<open>definitions a witness unfolds\<close>

section \<open>Insertion-ordered dictionaries\<close>

text \<open>
  A Python dict keeps insertion order: a new key goes last, an update of a known key stays in
  place, iteration is in that order. \<open>AList.update\<close> and \<open>AList.delete\<close> do exactly that.
\<close>

type_synonym ('k, 'v) dict = "('k \<times> 'v) list"

abbreviation dict_get :: "('k, 'v) dict \<Rightarrow> 'k \<Rightarrow> 'v option" where
  "dict_get d k \<equiv> map_of d k"

abbreviation dict_set :: "'k \<Rightarrow> 'v \<Rightarrow> ('k, 'v) dict \<Rightarrow> ('k, 'v) dict" where
  "dict_set \<equiv> AList.update"

abbreviation dict_pop :: "'k \<Rightarrow> ('k, 'v) dict \<Rightarrow> ('k, 'v) dict" where
  "dict_pop \<equiv> AList.delete"

abbreviation dict_keys :: "('k, 'v) dict \<Rightarrow> 'k list" where
  "dict_keys d \<equiv> map fst d"

abbreviation dict_values :: "('k, 'v) dict \<Rightarrow> 'v list" where
  "dict_values d \<equiv> map snd d"

abbreviation dict_ok :: "('k, 'v) dict \<Rightarrow> bool" where
  "dict_ok d \<equiv> distinct (dict_keys d)"

definition dict_has :: "('k, 'v) dict \<Rightarrow> 'k \<Rightarrow> bool" where
  "dict_has d k \<longleftrightarrow> map_of d k \<noteq> None"

text \<open>\<open>d.update(e)\<close>: the entries of \<open>e\<close> in order, each set on \<open>d\<close>.\<close>

definition dict_update :: "('k, 'v) dict \<Rightarrow> ('k, 'v) dict \<Rightarrow> ('k, 'v) dict" where
  "dict_update d e = fold (\<lambda>(k, v). dict_set k v) e d"

lemma dict_get_set [dict_simps]:
  "dict_get (dict_set k v d) k' = (if k = k' then Some v else dict_get d k')"
  by (auto simp: update_conv)

lemma dict_get_pop [dict_simps]:
  "dict_get (dict_pop k d) k' = (if k = k' then None else dict_get d k')"
  by (auto simp: delete_conv)

lemma dict_get_filter_key:
  "dict_get (filter (\<lambda>(i, b). P i) d) i = (if P i then dict_get d i else None)"
  by (induction d) auto

lemma dict_ok_set [intro, dict_simps]: "dict_ok d \<Longrightarrow> dict_ok (dict_set k v d)"
  by (simp add: distinct_update)

lemma dict_ok_pop [intro, dict_simps]: "dict_ok d \<Longrightarrow> dict_ok (dict_pop k d)"
  by (simp add: distinct_delete)

lemma dict_has_iff [dict_simps]: "dict_has d k \<longleftrightarrow> k \<in> fst ` set d"
  by (simp add: dict_has_def map_of_eq_None_iff)

lemma dict_keys_set [dict_simps]:
  "fst ` set (dict_set k v d) = insert k (fst ` set d)"
  by (simp add: dom_update)

lemma dict_set_fresh: "k \<notin> fst ` set d \<Longrightarrow> dict_set k v d = d @ [(k, v)]"
  by (induction d) auto

lemma dict_pop_fresh: "k \<notin> fst ` set d \<Longrightarrow> dict_pop k d = d"
  by (simp add: delete_id)

lemma dict_pop_Cons_head [simp]: "dict_ok ((k, v) # d) \<Longrightarrow> dict_pop k ((k, v) # d) = d"
  by (simp add: dict_pop_fresh)

lemma set_dict_pop: "set (dict_pop k d) \<subseteq> set d"
  by (auto simp: AList.delete_eq)

lemma set_dict_set: "set (dict_set k v d) \<subseteq> insert (k, v) (set d)"
  by (induction d) auto

lemma dict_get_update:
  "dict_ok e \<Longrightarrow> dict_get (dict_update d e) k = (case dict_get e k of Some v \<Rightarrow> Some v | None \<Rightarrow> dict_get d k)"
  unfolding dict_update_def
proof (induction e arbitrary: d)
  case (Cons p e)
  obtain a b where p: "p = (a, b)" by (cases p)
  with Cons.prems have "dict_get e a = None" by (auto simp: map_of_eq_None_iff)
  with Cons p show ?case by (auto simp: dict_simps split: option.splits)
qed simp

lemma dict_ok_update: "dict_ok d \<Longrightarrow> dict_ok (dict_update d e)"
  unfolding dict_update_def by (induction e arbitrary: d) (auto simp: dict_simps)

lemma set_dict_update: "set (dict_update d e) \<subseteq> set d \<union> set e"
  unfolding dict_update_def
proof (induction e arbitrary: d)
  case (Cons p e)
  from Cons [of "dict_set (fst p) (snd p) d"] set_dict_set [of "fst p" "snd p" d] show ?case
    by (cases p) auto
qed simp

lemma dict_get_Some_in: "dict_get d k = Some v \<Longrightarrow> (k, v) \<in> set d"
  by (rule map_of_SomeD)

lemma dict_get_in: "dict_ok d \<Longrightarrow> (k, v) \<in> set d \<Longrightarrow> dict_get d k = Some v"
  by simp

text \<open>Summing a measure of the values: what a deletion of a known key takes away.\<close>

lemma sum_list_pop:
  fixes f :: "'v \<Rightarrow> nat"
  assumes "dict_ok d" "dict_get d k = Some v"
  shows "sum_list (map f (dict_values (dict_pop k d))) + f v = sum_list (map f (dict_values d))"
  using assms
proof (induction d)
  case (Cons p d)
  then show ?case
    by (cases p) (auto simp: dict_pop_fresh image_iff split: if_splits)
qed simp

lemma sum_list_set:
  fixes f :: "'v \<Rightarrow> nat"
  assumes "dict_ok d" "dict_get d k = Some v"
  shows "sum_list (map f (dict_values (dict_set k w d))) + f v = sum_list (map f (dict_values d)) + f w"
  using assms
proof (induction d)
  case (Cons p d)
  then show ?case by (cases p) auto
qed simp

lemma sum_list_set_fresh:
  fixes f :: "'v \<Rightarrow> nat"
  assumes "dict_get d k = None"
  shows "sum_list (map f (dict_values (dict_set k w d))) = sum_list (map f (dict_values d)) + f w"
  using assms by (simp add: dict_set_fresh map_of_eq_None_iff)

lemma length_pop:
  assumes "dict_ok d" "dict_get d k = Some v"
  shows "Suc (length (dict_pop k d)) = length d"
  using assms
proof (induction d)
  case (Cons p d)
  then show ?case
    by (cases p) (auto simp: dict_pop_fresh image_iff split: if_splits)
qed simp

section \<open>Fallible computations\<close>

text \<open>An exception is the left summand; a sequence of statements stops at the first one.\<close>

fun res_bind :: "'e + 'a \<Rightarrow> ('a \<Rightarrow> 'e + 'b) \<Rightarrow> 'e + 'b" where
  "res_bind (Inl e) f = Inl e"
| "res_bind (Inr x) f = f x"

fun map_result :: "('e \<Rightarrow> 'f) \<Rightarrow> 'e + 'a \<Rightarrow> 'f + 'a" where
  "map_result g (Inl e) = Inl (g e)"
| "map_result g (Inr x) = Inr x"

definition require :: "bool \<Rightarrow> 'e \<Rightarrow> 'e + unit" where
  "require b e = (if b then Inr () else Inl e)"

lemma res_bind_Inr [simp]:
  "res_bind r f = Inr y \<longleftrightarrow> (\<exists>x. r = Inr x \<and> f x = Inr y)"
  by (cases r) auto

lemma res_bind_Inl [simp]:
  "res_bind r f = Inl e \<longleftrightarrow> r = Inl e \<or> (\<exists>x. r = Inr x \<and> f x = Inl e)"
  by (cases r) auto

lemma require_Inr [simp]: "require b e = Inr u \<longleftrightarrow> b"
  by (simp add: require_def)

lemma require_Inl [simp]: "require b e = Inl e' \<longleftrightarrow> \<not> b \<and> e' = e"
  by (auto simp: require_def)

lemma map_sum_id_Inr [simp]: "map_sum id f r = Inr y \<longleftrightarrow> (\<exists>x. r = Inr x \<and> y = f x)"
  by (cases r) auto

lemma map_sum_id_Inl [simp]: "map_sum id f r = Inl e \<longleftrightarrow> r = Inl e"
  by (cases r) auto

lemma map_result_Inr [simp]: "map_result g r = Inr y \<longleftrightarrow> r = Inr y"
  by (cases r) auto

lemma map_result_Inl [simp]: "map_result g r = Inl e \<longleftrightarrow> (\<exists>e'. r = Inl e' \<and> e = g e')"
  by (cases r) auto

text \<open>The first \<open>Some\<close> of a list, Python's \<open>next((p for p in ps if p is not None), None)\<close>.\<close>

fun first_some :: "'a option list \<Rightarrow> 'a option" where
  "first_some [] = None"
| "first_some (Some x # xs) = Some x"
| "first_some (None # xs) = first_some xs"

lemma first_some_None [simp]: "first_some xs = None \<longleftrightarrow> (\<forall>x\<in>set xs. x = None)"
  by (induction xs rule: first_some.induct) auto

lemma first_some_Cons:
  "first_some (x # xs) = Some y \<longleftrightarrow> x = Some y \<or> x = None \<and> first_some xs = Some y"
  by (cases x) auto

lemma first_some_in: "first_some xs = Some x \<Longrightarrow> Some x \<in> set xs"
  by (induction xs rule: first_some.induct) auto

section \<open>Lists\<close>

lemma sum_list_length_concat: "length (concat xss) = sum_list (map length xss)"
  by (simp add: length_concat)

lemma mset_drop_subseteq: "mset (drop n xs) \<subseteq># mset xs"
  by (metis append_take_drop_id mset_append mset_subset_eq_add_right)

lemma mset_tl_subseteq: "mset (tl xs) \<subseteq># mset xs"
  by (metis drop_Suc drop0 mset_drop_subseteq)

lemma distinct_map_subseteq:
  assumes "mset xs \<subseteq># mset ys" "distinct (map f ys)"
  shows "distinct (map f xs)"
proof -
  have "image_mset f (mset xs) \<subseteq># image_mset f (mset ys)"
    using assms(1) by (rule image_mset_subseteq_mono)
  moreover have "count (image_mset f (mset ys)) a \<le> 1" for a
    using assms(2) distinct_count_atmost_1 [of "map f ys"] by (simp split: if_splits)
  ultimately have le: "count (mset (map f xs)) a \<le> 1" for a
    by (metis le_trans mset_map mset_subset_eq_count)
  show ?thesis
  proof (subst distinct_count_atmost_1, rule allI)
    fix a
    show "count (mset (map f xs)) a = (if a \<in> set (map f xs) then 1 else 0)"
      using le [of a] count_mset_0_iff [of "map f xs" a] by (cases "a \<in> set (map f xs)") (auto simp: le_Suc_eq)
  qed
qed

lemma mset_concat_pop:
  "mset (concat (dict_values (dict_pop k d))) \<subseteq># mset (concat (dict_values d))"
  by (induction d) (auto intro: subset_mset.add_mono subset_mset.add_increasing)

lemma takeWhile_full: "(\<And>x. x \<in> set xs \<Longrightarrow> P x) \<Longrightarrow> takeWhile P xs = xs"
  by simp

section \<open>Transition systems with an invariant\<close>

text \<open>
  Several components are machines driven by a list of operations. The contract: the invariant
  holds at the start and each operation keeps it; then it holds after every run.
\<close>

primrec legal :: "('s \<Rightarrow> 'op \<Rightarrow> 's) \<Rightarrow> ('s \<Rightarrow> 'op \<Rightarrow> bool) \<Rightarrow> 's \<Rightarrow> 'op list \<Rightarrow> bool" where
  "legal step allowed s [] = True"
| "legal step allowed s (a # as) = (allowed s a \<and> legal step allowed (step s a) as)"

abbreviation run :: "('s \<Rightarrow> 'op \<Rightarrow> 's) \<Rightarrow> 's \<Rightarrow> 'op list \<Rightarrow> 's" where
  "run step s as \<equiv> foldl step s as"

locale machine =
  fixes step :: "'s \<Rightarrow> 'op \<Rightarrow> 's"
    and allowed :: "'s \<Rightarrow> 'op \<Rightarrow> bool"
    and inv :: "'s \<Rightarrow> bool"
  assumes step_inv: "inv s \<Longrightarrow> allowed s a \<Longrightarrow> inv (step s a)"
begin

lemma run_inv: "inv s \<Longrightarrow> legal step allowed s as \<Longrightarrow> inv (run step s as)"
  by (induction as arbitrary: s) (auto intro: step_inv)

text \<open>A relation every step respects, with its reflexive and transitive laws, holds of runs.\<close>

lemma run_rel:
  assumes "\<And>s a. inv s \<Longrightarrow> allowed s a \<Longrightarrow> R s (step s a)"
    and "\<And>s. R s s" and "\<And>s t u. R s t \<Longrightarrow> R t u \<Longrightarrow> R s u"
    and "inv s" "legal step allowed s as"
  shows "R s (run step s as)"
  using assms(4,5)
proof (induction as arbitrary: s)
  case (Cons a as)
  then have "R s (step s a)" "R (step s a) (run step (step s a) as)"
    using assms(1) step_inv by auto
  then show ?case using assms(3) by auto
qed (simp add: assms(2))

end

end
