(* ===== verification/Python.thy ===== *)
theory Python
  imports Prelude
begin

text \<open>
  The Python built-ins the agent's code leans on: decimal and hexadecimal text, \<open>repr\<close> of a
  string, UTF-8 length, \<open>strip\<close>, \<open>startswith\<close>, substring tests and slices. A Python
  \<open>str\<close> is a HOL \<open>string\<close> whose characters are its code points, so the model's
  texts range over the code points below 256; a byte string is a \<open>string\<close> of bytes.
\<close>

section \<open>Characters and numbers as text\<close>

definition ord_of :: "char \<Rightarrow> nat" where
  "ord_of c = of_char c"

lemma ord_of_less: "ord_of c < 256"
  using nat_of_char_less_256 [of c] by (simp add: ord_of_def)

lemma ord_of_inject [simp]: "ord_of c = ord_of d \<longleftrightarrow> c = d"
  unfolding ord_of_def by simp

definition digit :: "nat \<Rightarrow> char" where
  "digit n = (if n < 10 then char_of (48 + n) else char_of (87 + n))"

definition is_digit :: "char \<Rightarrow> bool" where
  "is_digit c \<longleftrightarrow> 48 \<le> ord_of c \<and> ord_of c \<le> 57"

definition is_lower_hex :: "char \<Rightarrow> bool" where
  "is_lower_hex c \<longleftrightarrow> c \<in> set ''0123456789abcdef''"

fun nat_str :: "nat \<Rightarrow> string" where
  "nat_str n = (if n < 10 then [digit n] else nat_str (n div 10) @ [digit (n mod 10)])"

declare nat_str.simps [simp del]

definition int_str :: "int \<Rightarrow> string" where
  "int_str i = (if i < 0 then ''-'' @ nat_str (nat (- i)) else nat_str (nat i))"

definition hex2 :: "nat \<Rightarrow> string" where
  "hex2 n = [digit (n div 16), digit (n mod 16)]"

lemma ord_of_digit: "n < 16 \<Longrightarrow> ord_of (digit n) = (if n < 10 then 48 + n else 87 + n)"
  by (simp add: ord_of_def digit_def of_char_of)

lemma digit_inject: "m < 16 \<Longrightarrow> n < 16 \<Longrightarrow> digit m = digit n \<longleftrightarrow> m = n"
proof -
  assume mn: "m < 16" "n < 16"
  have "ord_of (digit m) = ord_of (digit n) \<longleftrightarrow> m = n"
    using mn by (auto simp: ord_of_digit split: if_splits)
  then show ?thesis by simp
qed

lemma hex2_inject: "m < 256 \<Longrightarrow> n < 256 \<Longrightarrow> hex2 m = hex2 n \<longleftrightarrow> m = n"
  by (auto simp: hex2_def digit_inject less_mult_imp_div_less) (metis div_mult_mod_eq)

lemma digit_is_digit [simp]: "n < 10 \<Longrightarrow> is_digit (digit n)"
  by (simp add: is_digit_def ord_of_digit)

lemma nat_str_digits: "c \<in> set (nat_str n) \<Longrightarrow> is_digit c"
proof (induction n rule: nat_str.induct)
  case (1 n)
  then show ?case
    by (subst (asm) (2) nat_str.simps) (auto split: if_splits)
qed

lemma nat_str_not_Nil [simp]: "nat_str n \<noteq> []"
  by (subst nat_str.simps) simp

lemma nat_str_inject [simp]: "nat_str m = nat_str n \<longleftrightarrow> m = n"
proof
  assume "nat_str m = nat_str n"
  then show "m = n"
  proof (induction m arbitrary: n rule: nat_str.induct)
    case (1 m)
    have len: "length (nat_str k) = 1 \<longleftrightarrow> k < 10" for k
      by (subst nat_str.simps) auto
    show ?case
    proof (cases "m < 10")
      case True
      with 1 len have "n < 10" by metis
      with True 1 show ?thesis by (simp add: nat_str.simps [of m] nat_str.simps [of n] digit_inject)
    next
      case False
      with 1 len have "\<not> n < 10" by metis
      with False "1.prems" have "nat_str (m div 10) = nat_str (n div 10)"
        and "digit (m mod 10) = digit (n mod 10)"
        by (simp_all add: nat_str.simps [of m] nat_str.simps [of n])
      with False "1.IH" have "m div 10 = n div 10" and "m mod 10 = n mod 10"
        by (simp_all add: digit_inject)
      then show ?thesis by (metis div_mult_mod_eq)
    qed
  qed
qed simp

lemma minus_not_digit [simp]: "\<not> is_digit (CHR ''-'')"
  by (simp add: is_digit_def ord_of_def)

lemma int_str_inject [simp]: "int_str i = int_str j \<longleftrightarrow> i = j"
proof
  have minus: "nat_str n \<noteq> ''-'' @ s" for n s
  proof
    assume "nat_str n = ''-'' @ s"
    then have "CHR ''-'' \<in> set (nat_str n)" by simp
    then show False using nat_str_digits minus_not_digit by blast
  qed
  assume "int_str i = int_str j"
  then show "i = j"
    using minus minus [symmetric] by (auto simp: int_str_def split: if_splits)
qed simp

lemma int_str_not_Nil [simp]: "int_str i \<noteq> []"
  by (simp add: int_str_def)

section \<open>Text operations\<close>

text \<open>\<open>len(s.encode("utf-8"))\<close>: a code point from 128 to 255 takes two bytes.\<close>

definition utf8_len :: "string \<Rightarrow> nat" where
  "utf8_len s = sum_list (map (\<lambda>c. if ord_of c < 128 then 1 else 2) s)"

lemma utf8_len_ge_length: "length s \<le> utf8_len s"
  by (induction s) (auto simp: utf8_len_def)

lemma utf8_len_ascii: "\<forall>c\<in>set s. ord_of c < 128 \<Longrightarrow> utf8_len s = length s"
  by (induction s) (auto simp: utf8_len_def)

text \<open>The white space \<open>str.strip\<close> removes.\<close>

definition is_space :: "char \<Rightarrow> bool" where
  "is_space c \<longleftrightarrow> c \<in> {CHR 0x09, CHR 0x0A, CHR 0x0B, CHR 0x0C, CHR 0x0D, CHR 0x1C, CHR 0x1D, CHR 0x1E, CHR 0x1F, CHR 0x20, CHR 0x85, CHR 0xA0}"

definition strip :: "string \<Rightarrow> string" where
  "strip s = rev (dropWhile is_space (rev (dropWhile is_space s)))"

lemma strip_empty_iff: "strip s = [] \<longleftrightarrow> (\<forall>c\<in>set s. is_space c)"
  by (induction s) (auto simp: strip_def dropWhile_eq_Nil_conv)

definition starts_with :: "string \<Rightarrow> string \<Rightarrow> bool" where
  "starts_with p s \<longleftrightarrow> take (length p) s = p"

fun contains :: "string \<Rightarrow> string \<Rightarrow> bool" where
  "contains p [] \<longleftrightarrow> p = []"
| "contains p (c # s) \<longleftrightarrow> starts_with p (c # s) \<or> contains p s"

lemma contains_Nil [simp]: "contains [] s"
  by (induction s) (auto simp: starts_with_def)

lemma contains_iff: "contains p s \<longleftrightarrow> (\<exists>a b. s = a @ p @ b)"
proof (induction s)
  case (Cons c s)
  have "starts_with p (c # s) \<longleftrightarrow> (\<exists>b. c # s = p @ b)"
    by (metis append_eq_conv_conj starts_with_def)
  moreover have "(\<exists>a b. c # s = a @ p @ b) \<longleftrightarrow>
      (\<exists>b. c # s = p @ b) \<or> (\<exists>a b. s = a @ p @ b)"
    by (metis Cons_eq_append_conv append_Cons append_Nil)
  ultimately show ?case using Cons.IH by simp
qed simp

text \<open>\<open>sep.join(parts)\<close> and \<open>s.split(sep)\<close> on a one-character separator.\<close>

fun join :: "string \<Rightarrow> string list \<Rightarrow> string" where
  "join sep [] = []"
| "join sep [x] = x"
| "join sep (x # y # xs) = x @ sep @ join sep (y # xs)"

fun split_on :: "char \<Rightarrow> string \<Rightarrow> string list" where
  "split_on c [] = [[]]"
| "split_on c (x # xs) =
     (if x = c then [] # split_on c xs
      else (case split_on c xs of [] \<Rightarrow> [[x]] | p # ps \<Rightarrow> (x # p) # ps))"

lemma split_on_not_Nil [simp]: "split_on c s \<noteq> []"
  by (induction s) (auto split: list.splits)

lemma join_split_on: "join [c] (split_on c s) = s"
proof (induction s)
  case (Cons x s)
  obtain p ps where *: "split_on c s = p # ps"
    using split_on_not_Nil by (cases "split_on c s") blast+
  with Cons show ?case by (cases ps) auto
qed simp

text \<open>
  \<open>repr\<close> of a string: single quotes unless the text holds one and no double quote, the
  quote and the backslash escaped, tab, newline and return by name, every other
  unprintable code point as \<open>\xNN\<close>.
\<close>

definition py_printable :: "char \<Rightarrow> bool" where
  "py_printable c \<longleftrightarrow> (32 \<le> ord_of c \<and> ord_of c \<le> 126) \<or> (161 \<le> ord_of c \<and> ord_of c \<noteq> 173)"

definition repr_char :: "char \<Rightarrow> char \<Rightarrow> string" where
  "repr_char q c =
     (if c = q \<or> c = CHR 0x5C then [CHR 0x5C, c]
      else if c = CHR 0x09 then [CHR 0x5C, CHR ''t'']
      else if c = CHR 0x0A then [CHR 0x5C, CHR ''n'']
      else if c = CHR 0x0D then [CHR 0x5C, CHR ''r'']
      else if py_printable c then [c]
      else [CHR 0x5C, CHR ''x''] @ hex2 (ord_of c))"

definition py_repr :: "string \<Rightarrow> string" where
  "py_repr s =
     (let q = (if CHR 0x27 \<in> set s \<and> CHR 0x22 \<notin> set s then CHR 0x22 else CHR 0x27)
      in [q] @ concat (map (repr_char q) s) @ [q])"

text \<open>\<open>s.replace(p, q)\<close>: every occurrence, left to right, never overlapping; \<open>p\<close> is not empty.\<close>

function replace :: "string \<Rightarrow> string \<Rightarrow> string \<Rightarrow> string" where
  "replace p q s =
     (if p = [] then s
      else case s of
        [] \<Rightarrow> []
      | c # cs \<Rightarrow> if take (length p) s = p then q @ replace p q (drop (length p) s)
                  else c # replace p q cs)"
  by pat_completeness auto
termination
  by (relation "measure (\<lambda>(p, q, s). length s)") auto

declare replace.simps [simp del]

lemma replace_Nil [simp]: "replace p q [] = []"
  by (simp add: replace.simps)

lemma replace_char:
  "replace [c] q (x # s) = (if x = c then q else [x]) @ replace [c] q s"
  by (subst replace.simps) simp

lemma replace_char_append: "replace [c] q (s @ t) = replace [c] q s @ replace [c] q t"
  by (induction s) (simp_all add: replace_char)

lemma replace_char_absent: "c \<notin> set s \<Longrightarrow> replace [c] q s = s"
  by (induction s) (auto simp: replace_char)

text \<open>Replacing a text by one fresh character and back.\<close>

lemma replace_back:
  "c \<notin> set s \<Longrightarrow> c \<notin> set p \<Longrightarrow> p \<noteq> [] \<Longrightarrow> replace [c] p (replace p [c] s) = s"
proof (induction s rule: length_induct)
  case (1 s)
  show ?case
  proof (cases s)
    case (Cons x xs)
    show ?thesis
    proof (cases "take (length p) s = p")
      case True
      then have s: "s = p @ drop (length p) s" by (metis append_take_drop_id)
      have "length (drop (length p) s) < length s" using "1.prems"(3) Cons by simp
      moreover have "c \<notin> set (drop (length p) s)" using "1.prems"(1) by (auto dest: in_set_dropD)
      ultimately have IH: "replace [c] p (replace p [c] (drop (length p) s)) = drop (length p) s"
        using "1.IH" "1.prems" by blast
      have "replace p [c] s = [c] @ replace p [c] (drop (length p) s)"
        using True Cons "1.prems"(3) by (subst replace.simps) simp
      with IH s show ?thesis by (simp add: replace_char)
    next
      case False
      then have "replace p [c] s = x # replace p [c] xs"
        using Cons "1.prems"(3) by (subst replace.simps) simp
      with 1 Cons show ?thesis by (auto simp: replace_char)
    qed
  qed simp
qed

section \<open>Lines\<close>

text \<open>\<open>splitlines(keepends=True)\<close>.\<close>

definition line_break :: "char \<Rightarrow> bool" where
  "line_break c \<longleftrightarrow> c \<in> {CHR 0x0A, CHR 0x0B, CHR 0x0C, CHR 0x0D, CHR 0x1C, CHR 0x1D, CHR 0x1E, CHR 0x85}"

fun split_lines :: "string \<Rightarrow> string list" where
  "split_lines [] = []"
| "split_lines [c] = [[c]]"
| "split_lines (c # d # cs) =
     (if c = CHR 0x0D \<and> d = CHR 0x0A then [c, d] # split_lines cs
      else if line_break c then [c] # split_lines (d # cs)
      else case split_lines (d # cs) of [] \<Rightarrow> [[c]] | l # ls \<Rightarrow> (c # l) # ls)"

lemma split_lines_Cons [simp]: "split_lines (c # cs) \<noteq> []"
  by (cases cs) (auto split: list.split)

lemma concat_split_lines [simp]: "concat (split_lines s) = s"
  by (induction s rule: split_lines.induct) (auto split: list.split)

text \<open>Text between single quotes, as f-strings put it.\<close>

definition quoted :: "string \<Rightarrow> string" where
  "quoted s = [CHR 0x27] @ s @ [CHR 0x27]"

text \<open>\<open>s.replace(old, new, 1)\<close> with \<open>old\<close> not empty.\<close>

fun replace_first :: "string \<Rightarrow> string \<Rightarrow> string \<Rightarrow> string" where
  "replace_first old new [] = []"
| "replace_first old new (c # cs) =
     (if starts_with old (c # cs) then new @ drop (length old) (c # cs) else c # replace_first old new cs)"

end
