(* ===== verification/Json.thy ===== *)
theory Json
  imports Python
begin

text \<open>
  JSON values as the agent holds them after \<open>json.loads\<close>, the one canonical encoder
  (\<open>sdk/declaration.py: canonical_json\<close>), and the proof that on float-free values the
  encoder has exactly one spelling per value, so that a signature over the text is a signature
  over the value. A float is kept as its Python \<open>repr\<close>, which determines it.
\<close>

datatype json =
    JNull
  | JBool bool
  | JInt int
  | JFloat string
  | JStr string
  | JArr "json list"
  | JObj "(string \<times> json) list"

fun type_name :: "json \<Rightarrow> string" where
  "type_name JNull = ''NoneType''"
| "type_name (JBool _) = ''bool''"
| "type_name (JInt _) = ''int''"
| "type_name (JFloat _) = ''float''"
| "type_name (JStr _) = ''str''"
| "type_name (JArr _) = ''list''"
| "type_name (JObj _) = ''dict''"

fun is_str :: "json \<Rightarrow> bool" where
  "is_str (JStr _) = True"
| "is_str _ = False"

fun is_int :: "json \<Rightarrow> bool" where
  "is_int (JInt _) = True"
| "is_int _ = False"

text \<open>Python's truth value: null, false, zero and the empty containers are false.\<close>

fun truthy :: "json \<Rightarrow> bool" where
  "truthy JNull = False"
| "truthy (JBool b) = b"
| "truthy (JInt i) = (i \<noteq> 0)"
| "truthy (JFloat f) = (f \<noteq> ''0.0'' \<and> f \<noteq> ''-0.0'')"
| "truthy (JStr s) = (s \<noteq> [])"
| "truthy (JArr xs) = (xs \<noteq> [])"
| "truthy (JObj kvs) = (kvs \<noteq> [])"

text \<open>No key twice in any object: what a decoded dict always satisfies.\<close>

fun wf_json :: "json \<Rightarrow> bool" where
  "wf_json (JArr xs) = (\<forall>x\<in>set xs. wf_json x)"
| "wf_json (JObj kvs) = (dict_ok kvs \<and> (\<forall>p\<in>set kvs. wf_json (snd p)))"
| "wf_json _ = True"

section \<open>The canonical encoder\<close>

text \<open>ASCII escapes of \<open>json.dumps(ensure_ascii=True)\<close>.\<close>

definition esc :: "char \<Rightarrow> string" where
  "esc c =
     (if c = CHR 0x22 then [CHR 0x5C, CHR 0x22]
      else if c = CHR 0x5C then [CHR 0x5C, CHR 0x5C]
      else if c = CHR 0x08 then [CHR 0x5C, CHR ''b'']
      else if c = CHR 0x0C then [CHR 0x5C, CHR ''f'']
      else if c = CHR 0x0A then [CHR 0x5C, CHR ''n'']
      else if c = CHR 0x0D then [CHR 0x5C, CHR ''r'']
      else if c = CHR 0x09 then [CHR 0x5C, CHR ''t'']
      else if 32 \<le> ord_of c \<and> ord_of c \<le> 126 then [c]
      else [CHR 0x5C, CHR ''u'', CHR ''0'', CHR ''0''] @ hex2 (ord_of c))"

definition render_str :: "string \<Rightarrow> string" where
  "render_str s = CHR 0x22 # concat (map esc s) @ [CHR 0x22]"

fun render :: "json \<Rightarrow> string" where
  "render JNull = ''null''"
| "render (JBool b) = (if b then ''true'' else ''false'')"
| "render (JInt i) = int_str i"
| "render (JFloat f) = f"
| "render (JStr s) = render_str s"
| "render (JArr xs) = ''['' @ join '','' (map render xs) @ '']''"
| "render (JObj kvs) =
     ''{'' @ join '','' (map (\<lambda>(k, v). render_str k @ '':'' @ render v) kvs) @ ''}''"

text \<open>\<open>sort_keys=True\<close>: every object's entries in the order of their keys.\<close>

fun canonicalize :: "json \<Rightarrow> json" where
  "canonicalize (JArr xs) = JArr (map canonicalize xs)"
| "canonicalize (JObj kvs) = JObj (sort_key fst (map (\<lambda>(k, v). (k, canonicalize v)) kvs))"
| "canonicalize v = v"

fun finite_floats :: "json \<Rightarrow> bool" where
  "finite_floats (JFloat f) = (f \<notin> {''nan'', ''inf'', ''-inf''})"
| "finite_floats (JArr xs) = (\<forall>x\<in>set xs. finite_floats x)"
| "finite_floats (JObj kvs) = (\<forall>p\<in>set kvs. finite_floats (snd p))"
| "finite_floats _ = True"

text \<open>\<open>None\<close> is the \<open>ValueError\<close> of \<open>allow_nan=False\<close>.\<close>

definition canonical_json :: "json \<Rightarrow> string option" where
  "canonical_json v = (if finite_floats v then Some (render (canonicalize v)) else None)"

text \<open>The values a signature may cover (\<open>auth.py: _check_signed_values\<close>): no float anywhere.\<close>

fun check_signed_values :: "json \<Rightarrow> bool" where
  "check_signed_values (JObj kvs) = (\<forall>p\<in>set kvs. check_signed_values (snd p))"
| "check_signed_values (JArr xs) = (\<forall>x\<in>set xs. check_signed_values x)"
| "check_signed_values (JFloat _) = False"
| "check_signed_values _ = True"

lemma check_signed_finite: "check_signed_values v \<Longrightarrow> finite_floats v"
  by (induction v) auto

lemma canonicalize_signed [simp]: "check_signed_values (canonicalize v) = check_signed_values v"
proof (induction v rule: canonicalize.induct)
  case (2 kvs)
  then show ?case by (fastforce split: prod.splits)
qed auto

section \<open>One text per value\<close>

text \<open>A rendered value is read back up to a delimiter, so nothing that follows can be mistaken for it.\<close>

definition delim :: "string \<Rightarrow> bool" where
  "delim r \<longleftrightarrow> (case r of [] \<Rightarrow> True | c # _ \<Rightarrow> c \<in> {CHR '','', CHR '']'', CHR ''}''})"

text \<open>The inverse of the escape, on a text that starts with an escaped character.\<close>

definition hex_val :: "char \<Rightarrow> nat" where
  "hex_val c = (if ord_of c < 58 then ord_of c - 48 else ord_of c - 87)"

fun unesc :: "string \<Rightarrow> (char \<times> string) option" where
  "unesc [] = None"
| "unesc (x # s) =
     (if x \<noteq> CHR 0x5C then Some (x, s)
      else case s of
        [] \<Rightarrow> None
      | y # s' \<Rightarrow>
          if y = CHR ''u'' then
            Some (char_of (16 * hex_val (s' ! 2) + hex_val (s' ! 3)), drop 4 s')
          else if y = CHR ''b'' then Some (CHR 0x08, s')
          else if y = CHR ''f'' then Some (CHR 0x0C, s')
          else if y = CHR ''n'' then Some (CHR 0x0A, s')
          else if y = CHR ''r'' then Some (CHR 0x0D, s')
          else if y = CHR ''t'' then Some (CHR 0x09, s')
          else Some (y, s'))"

lemma hex_val_digit: "n < 16 \<Longrightarrow> hex_val (digit n) = n"
  by (simp add: hex_val_def ord_of_digit)

lemma unesc_esc: "unesc (esc c @ r) = Some (c, r)"
proof -
  have hex: "char_of (16 * hex_val (digit (ord_of c div 16)) + hex_val (digit (ord_of c mod 16))) = c"
    using ord_of_less [of c] by (simp add: hex_val_digit less_mult_imp_div_less) (simp add: ord_of_def)
  show ?thesis
  proof (cases "c \<in> {CHR 0x22, CHR 0x5C, CHR 0x08, CHR 0x0C, CHR 0x0A, CHR 0x0D, CHR 0x09}")
    case True
    then show ?thesis by (auto simp: esc_def)
  next
    case False
    show ?thesis
    proof (cases "32 \<le> ord_of c \<and> ord_of c \<le> 126")
      case True
      with False show ?thesis by (simp add: esc_def)
    next
      case other: False
      with False have "esc c = [CHR 0x5C, CHR ''u'', CHR ''0'', CHR ''0''] @ hex2 (ord_of c)"
        by (auto simp: esc_def)
      then show ?thesis using hex by (simp add: hex2_def)
    qed
  qed
qed

lemma esc_decode: "esc c @ r = esc d @ r' \<Longrightarrow> c = d \<and> r = r'"
  by (metis unesc_esc option.inject prod.inject)

lemma esc_no_quote: "esc c @ r \<noteq> CHR 0x22 # r'"
  by (simp add: esc_def)

lemma render_chars_decode:
  "concat (map esc s) @ CHR 0x22 # r = concat (map esc t) @ CHR 0x22 # r' \<Longrightarrow> s = t \<and> r = r'"
proof (induction s arbitrary: t)
  case Nil
  then show ?case by (cases t) (simp_all add: esc_no_quote [symmetric])
next
  case (Cons c s)
  then obtain d t' where t: "t = d # t'"
    by (cases t) (simp_all add: esc_no_quote)
  with Cons.prems have "esc c @ (concat (map esc s) @ CHR 0x22 # r)
      = esc d @ (concat (map esc t') @ CHR 0x22 # r')" by simp
  from esc_decode [OF this] Cons.IH [of t'] t show ?case by simp
qed

lemma render_str_decode: "render_str s @ r = render_str t @ r' \<Longrightarrow> s = t \<and> r = r'"
  by (rule render_chars_decode) (simp add: render_str_def)

lemma span_digits:
  assumes "\<forall>c\<in>set a. P c" "\<forall>c\<in>set b. P c" "r = [] \<or> \<not> P (hd r)" "r' = [] \<or> \<not> P (hd r')"
    and "a @ r = b @ r'"
  shows "a = b \<and> r = r'"
proof -
  have "takeWhile P (xs @ q) = xs" if "\<forall>c\<in>set xs. P c" "q = [] \<or> \<not> P (hd q)" for xs q
    using that by (cases q) simp_all
  then have "takeWhile P (a @ r) = a" "takeWhile P (b @ r') = b" using assms(1-4) by blast+
  with assms(5) have "a = b" by metis
  with assms(5) show ?thesis by simp
qed

lemma int_str_chars: "c \<in> set (int_str i) \<Longrightarrow> is_digit c \<or> c = CHR ''-''"
  by (auto simp: int_str_def dest: nat_str_digits split: if_splits)

lemma delim_hd: "delim r \<Longrightarrow> r = [] \<or> \<not> (is_digit (hd r) \<or> hd r = CHR ''-'')"
  by (auto simp: delim_def is_digit_def ord_of_def split: list.splits)

lemma int_str_decode: "delim r \<Longrightarrow> delim r' \<Longrightarrow> int_str i @ r = int_str j @ r' \<Longrightarrow> i = j \<and> r = r'"
  using span_digits [of "int_str i" "\<lambda>c. is_digit c \<or> c = CHR ''-''" "int_str j" r r', OF _ _ delim_hd delim_hd]
  by (simp add: int_str_chars)

lemma join_Cons: "join sep (x # xs) = x @ concat (map (\<lambda>y. sep @ y) xs)"
  by (induction xs arbitrary: x) auto

text \<open>A comma-separated list of items is read back item by item.\<close>

lemma tail_decode:
  assumes "\<And>x y r r'. x \<in> set xs \<Longrightarrow> y \<in> set ys \<Longrightarrow> delim r \<Longrightarrow> delim r' \<Longrightarrow>
      enc x @ r = enc y @ r' \<Longrightarrow> x = y \<and> r = r'"
    and "close \<in> {CHR '']'', CHR ''}''}"
    and "concat (map (\<lambda>x. '','' @ enc x) xs) @ close # r = concat (map (\<lambda>x. '','' @ enc x) ys) @ close # r'"
  shows "xs = ys \<and> r = r'"
  using assms(1,3)
proof (induction xs arbitrary: ys)
  case Nil
  with assms(2) show ?case by (cases ys) auto
next
  case (Cons x xs)
  from Cons.prems(2) assms(2) obtain y ys' where ys: "ys = y # ys'" by (cases ys) auto
  have d: "delim (concat (map (\<lambda>x. '','' @ enc x) zs) @ close # q)" for zs q
    using assms(2) by (cases zs) (auto simp: delim_def)
  from Cons.prems(2) ys have "enc x @ (concat (map (\<lambda>x. '','' @ enc x) xs) @ close # r)
      = enc y @ (concat (map (\<lambda>x. '','' @ enc x) ys') @ close # r')" by simp
  from Cons.prems(1) [OF _ _ d d this] ys
  have "x = y" "concat (map (\<lambda>x. '','' @ enc x) xs) @ close # r
      = concat (map (\<lambda>x. '','' @ enc x) ys') @ close # r'" by auto
  with Cons.IH [of ys'] Cons.prems(1) ys show ?case by auto
qed

lemma join_decode:
  assumes dec: "\<And>x y r r'. x \<in> set xs \<Longrightarrow> y \<in> set ys \<Longrightarrow> delim r \<Longrightarrow> delim r' \<Longrightarrow>
      enc x @ r = enc y @ r' \<Longrightarrow> x = y \<and> r = r'"
    and close: "close \<in> {CHR '']'', CHR ''}''}"
    and start: "\<And>x q q'. x \<in> set xs \<union> set ys \<Longrightarrow> enc x @ q \<noteq> close # q'"
    and eq: "join '','' (map enc xs) @ close # r = join '','' (map enc ys) @ close # r'"
  shows "xs = ys \<and> r = r'"
proof (cases xs)
  case Nil
  with eq start show ?thesis by (cases ys) (auto simp: join_Cons, metis list.set_intros(1))
next
  case (Cons x xs')
  note xs = Cons
  show ?thesis
  proof (cases ys)
    case Nil
    with eq start xs show ?thesis by (auto simp: join_Cons)
  next
    case (Cons y ys')
    have d: "delim (concat (map (\<lambda>x. '','' @ enc x) zs) @ close # q)" for zs q
      using close by (cases zs) (auto simp: delim_def)
    from eq xs Cons have "enc x @ (concat (map (\<lambda>x. '','' @ enc x) xs') @ close # r)
        = enc y @ (concat (map (\<lambda>x. '','' @ enc x) ys') @ close # r')"
      by (simp add: join_Cons comp_def)
    from dec [OF _ _ d d this] xs Cons tail_decode [of xs' ys' enc close r r'] dec close
    show ?thesis by auto
  qed
qed

lemma int_str_hd: "\<exists>c s. int_str i = c # s \<and> (is_digit c \<or> c = CHR ''-'')"
  using int_str_chars [of _ i] by (cases "int_str i") auto

text \<open>The kind of a value shows in the first character of its text.\<close>

fun json_kind :: "json \<Rightarrow> nat" where
  "json_kind JNull = 0"
| "json_kind (JBool b) = (if b then 1 else 2)"
| "json_kind (JStr _) = 3"
| "json_kind (JArr _) = 4"
| "json_kind (JObj _) = 5"
| "json_kind _ = 6"

definition head_kind :: "char \<Rightarrow> nat" where
  "head_kind c =
     (if c = CHR ''n'' then 0 else if c = CHR ''t'' then 1 else if c = CHR ''f'' then 2
      else if c = CHR 0x22 then 3 else if c = CHR ''['' then 4 else if c = CHR ''{'' then 5
      else if c \<in> {CHR '','', CHR '']'', CHR ''}''} then 7 else 6)"

lemma head_kind_int: "is_digit c \<or> c = CHR ''-'' \<Longrightarrow> head_kind c = 6"
proof -
  assume c: "is_digit c \<or> c = CHR ''-''"
  have "\<not> is_digit (CHR ''n'')" "\<not> is_digit (CHR ''t'')" "\<not> is_digit (CHR ''f'')"
    "\<not> is_digit (CHR 0x22)" "\<not> is_digit (CHR ''['')" "\<not> is_digit (CHR ''{'')"
    "\<not> is_digit (CHR '','')" "\<not> is_digit (CHR '']'')" "\<not> is_digit (CHR ''}'')"
    by (simp_all add: is_digit_def ord_of_def)
  with c have "c \<notin> {CHR ''n'', CHR ''t'', CHR ''f'', CHR 0x22, CHR ''['', CHR ''{'', CHR '','', CHR '']'', CHR ''}''}"
    by auto
  then show ?thesis by (simp add: head_kind_def)
qed

lemma render_start: "check_signed_values v \<Longrightarrow> \<exists>c s. render v = c # s \<and> head_kind c = json_kind v"
proof (cases v)
  case (JInt i)
  with int_str_hd [of i] show ?thesis by (auto simp: head_kind_int)
qed (auto simp: head_kind_def render_str_def)

lemma render_kind:
  assumes "check_signed_values v" "check_signed_values w" "render v @ r = render w @ r'"
  shows "json_kind v = json_kind w"
  using render_start [OF assms(1)] render_start [OF assms(2)] assms(3) by auto

lemma render_not_close:
  assumes "check_signed_values v" "close \<in> {CHR '']'', CHR ''}''}"
  shows "render v @ q \<noteq> close # q'"
  using render_start [OF assms(1)] assms(2) by (cases v) (auto simp: head_kind_def)

lemma render_decode:
  "check_signed_values v \<Longrightarrow> check_signed_values w \<Longrightarrow> delim r \<Longrightarrow> delim r' \<Longrightarrow>
    render v @ r = render w @ r' \<Longrightarrow> v = w \<and> r = r'"
proof (induction v arbitrary: w r r')
  case JNull
  with render_kind [OF JNull.prems(1,2,5)] show ?case by (cases w) (auto split: if_splits)
next
  case (JBool b)
  with render_kind [OF JBool.prems(1,2,5)] show ?case by (cases w) (auto split: if_splits)
next
  case (JInt i)
  from render_kind [OF JInt.prems(1,2,5)] JInt.prems(2) obtain j where w: "w = JInt j"
    by (cases w) (auto split: if_splits)
  with JInt.prems(3-5) int_str_decode [of r r' i j] show ?case by simp
next
  case (JFloat f)
  then show ?case by simp
next
  case (JStr s)
  from render_kind [OF JStr.prems(1,2,5)] obtain t where w: "w = JStr t"
    by (cases w) (auto split: if_splits)
  with JStr.prems(5) render_str_decode [of s r t r'] show ?case by simp
next
  case (JArr xs)
  from render_kind [OF JArr.prems(1,2,5)] obtain ys where w: "w = JArr ys"
    by (cases w) (auto split: if_splits)
  have "xs = ys \<and> r = r'"
  proof (rule join_decode)
    show "x = y \<and> q = q'" if "x \<in> set xs" "y \<in> set ys" "delim q" "delim q'"
      "render x @ q = render y @ q'" for x y q q'
      using JArr.IH [OF that(1) _ _ that(3,4,5)] JArr.prems(1,2) w that(1,2) by simp
    show "render x @ q \<noteq> CHR '']'' # q'" if "x \<in> set xs \<union> set ys" for x q q'
      using that JArr.prems(1,2) w by (intro render_not_close) auto
    show "join '','' (map render xs) @ CHR '']'' # r = join '','' (map render ys) @ CHR '']'' # r'"
      using JArr.prems(5) w by simp
  qed simp
  with w show ?case by simp
next
  case (JObj kvs)
  from render_kind [OF JObj.prems(1,2,5)] obtain kws where w: "w = JObj kws"
    by (cases w) (auto split: if_splits)
  let ?enc = "\<lambda>(k, v). render_str k @ '':'' @ render v"
  have "kvs = kws \<and> r = r'"
  proof (rule join_decode [where enc = ?enc])
    show "x = y \<and> q = q'" if that: "x \<in> set kvs" "y \<in> set kws" "delim q" "delim q'"
      "?enc x @ q = ?enc y @ q'" for x y q q'
    proof -
      obtain k v k' v' where [simp]: "x = (k, v)" "y = (k', v')" by (cases x, cases y) auto
      from that(5) render_str_decode [of k "'':'' @ render v @ q" k' "'':'' @ render v' @ q'"]
      have "k = k'" "render v @ q = render v' @ q'" by auto
      with JObj.IH [OF that(1), of v v' q q'] JObj.prems(1,2) w that show ?thesis by fastforce
    qed
    show "?enc x @ q \<noteq> CHR ''}'' # q'" for x q q'
      by (cases x) (simp add: render_str_def)
    show "join '','' (map ?enc kvs) @ CHR ''}'' # r = join '','' (map ?enc kws) @ CHR ''}'' # r'"
      using JObj.prems(5) w by simp
  qed simp
  with w show ?case by simp
qed

lemma canonical_json_inject:
  assumes "check_signed_values v" "check_signed_values w" "canonical_json v = canonical_json w"
  shows "canonicalize v = canonicalize w"
  using assms render_decode [of "canonicalize v" "canonicalize w" "[]" "[]"]
  by (simp add: canonical_json_def check_signed_finite delim_def)

section \<open>Equality of decoded values\<close>

text \<open>
  Python compares two dicts by their entries, whatever the order they were inserted in. On
  values without repeated keys, an equal canonical form is that equality.
\<close>

inductive py_eq :: "json \<Rightarrow> json \<Rightarrow> bool" where
  leaf: "(\<And>xs. v \<noteq> JArr xs) \<Longrightarrow> (\<And>kvs. v \<noteq> JObj kvs) \<Longrightarrow> py_eq v v"
| arr: "list_all2 py_eq xs ys \<Longrightarrow> py_eq (JArr xs) (JArr ys)"
| obj: "(\<And>k. rel_option py_eq (map_of kvs k) (map_of kws k)) \<Longrightarrow> py_eq (JObj kvs) (JObj kws)"
monos list_all2_mono option.rel_mono

text \<open>Sorting by the key and mapping the values leaves every lookup as it was.\<close>

lemma map_of_sort_key: "dict_ok kvs \<Longrightarrow> map_of (sort_key fst kvs) = map_of kvs"
  by (subst map_of_inject_set) (simp_all add: distinct_map)

lemma map_of_map_values: "map_of (map (\<lambda>(k, v). (k, f v)) kvs) k = map_option f (map_of kvs k)"
  by (induction kvs) auto

lemma dict_keys_map_values: "map (fst \<circ> (\<lambda>(k, v). (k, f v))) kvs = dict_keys kvs"
  by (induction kvs) auto

lemma map_of_canonicalize:
  "dict_ok kvs \<Longrightarrow> map_of (sort_key fst (map (\<lambda>(k, v). (k, canonicalize v)) kvs)) k
    = map_option canonicalize (map_of kvs k)"
  by (simp add: map_of_sort_key dict_keys_map_values map_of_map_values)

lemma py_eq_leaf:
  assumes "\<And>xs. v \<noteq> JArr xs" "\<And>kvs. v \<noteq> JObj kvs" "canonicalize v = canonicalize w"
  shows "py_eq v w"
proof -
  have "v = w" using assms by (cases v; cases w) simp_all
  then show ?thesis using assms by (simp add: py_eq.leaf)
qed

lemma canonicalize_eq_py_eq:
  "wf_json v \<Longrightarrow> wf_json w \<Longrightarrow> canonicalize v = canonicalize w \<Longrightarrow> py_eq v w"
proof (induction v arbitrary: w)
  case (JArr xs)
  from JArr.prems(3) obtain ys where w: "w = JArr ys" by (cases w) auto
  with JArr.prems have "map canonicalize xs = map canonicalize ys" by simp
  then have "list_all2 (\<lambda>x y. canonicalize x = canonicalize y) xs ys"
    by (simp add: list_all2_conv_all_nth list_eq_iff_nth_eq)
  then have "list_all2 py_eq xs ys"
    using JArr.IH JArr.prems(1,2) w by (auto simp: list_all2_conv_all_nth)
  with w show ?case by (auto intro: py_eq.arr)
next
  case (JObj kvs)
  from JObj.prems(3) obtain kws where w: "w = JObj kws" by (cases w) auto
  with JObj.prems have eq: "sort_key fst (map (\<lambda>(k, v). (k, canonicalize v)) kvs)
      = sort_key fst (map (\<lambda>(k, v). (k, canonicalize v)) kws)" by simp
  have "rel_option py_eq (map_of kvs k) (map_of kws k)" for k
  proof -
    from eq JObj.prems(1,2) w
    have *: "map_option canonicalize (map_of kvs k) = map_option canonicalize (map_of kws k)"
      using map_of_canonicalize [of kvs k] map_of_canonicalize [of kws k] by simp
    show ?thesis
    proof (cases "map_of kvs k")
      case None
      with * show ?thesis by simp
    next
      case (Some x)
      with * obtain y where y: "map_of kws k = Some y" "canonicalize x = canonicalize y"
        by (cases "map_of kws k") auto
      have "(k, x) \<in> set kvs" "(k, y) \<in> set kws" using Some y by (auto dest: map_of_SomeD)
      with JObj.IH [of "(k, x)" x y] JObj.prems(1,2) w y Some show ?thesis by fastforce
    qed
  qed
  with w show ?case by (auto intro: py_eq.obj)
qed (rule py_eq_leaf; (assumption | simp only: json.distinct not_False_eq_True))+

lemma canonical_json_py_eq:
  assumes "check_signed_values v" "check_signed_values w" "wf_json v" "wf_json w"
    and "canonical_json v = canonical_json w"
  shows "py_eq v w"
  using canonical_json_inject [OF assms(1,2,5)] assms(3,4) by (rule canonicalize_eq_py_eq [rotated 2])

section \<open>\<open>str\<close> and \<open>repr\<close> of a decoded value\<close>

fun json_repr :: "json \<Rightarrow> string" where
  "json_repr JNull = ''None''"
| "json_repr (JBool b) = (if b then ''True'' else ''False'')"
| "json_repr (JInt i) = int_str i"
| "json_repr (JFloat f) = f"
| "json_repr (JStr s) = py_repr s"
| "json_repr (JArr xs) = ''['' @ join '', '' (map json_repr xs) @ '']''"
| "json_repr (JObj kvs) =
     ''{'' @ join '', '' (map (\<lambda>(k, v). py_repr k @ '': '' @ json_repr v) kvs) @ ''}''"

fun json_to_str :: "json \<Rightarrow> string" where
  "json_to_str (JStr s) = s"
| "json_to_str v = json_repr v"

end
