(* ===== verification/Schema.thy ===== *)
theory Schema
  imports Json
begin

text \<open>
  \<open>config/param_schema.py\<close>: the declared shape of a JSON-valued command param, the walk that
  checks a declaration and the walk that checks a value. A shape is plain JSON. The \<open>re\<close> module is
  the record of its two operations the code uses. A refusal is the JSON path and the rule; a
  Python exception (an unhashable name, a missing key) is the rule \<open>Raised\<close>, and it wins over
  every other problem of the same group, since \<open>_first\<close> evaluates all its arguments.
\<close>

record regex =
  re_error :: "string \<Rightarrow> string option"
  re_fullmatch :: "string \<Rightarrow> string \<Rightarrow> bool"

datatype schema_rule =
    ShapeNotObject
  | BadKind json
  | UnknownKeys "string list" string
  | NullableNotBool
  | NotInteger string
  | BadPattern string
  | ArrayNeedsItems
  | KeysNotObject
  | RequiredNotDeclared
  | EntriesKeys
  | BadKeyPattern string
  | EntriesNeedValue
  | ExpectedType string string
  | MissingRequired string
  | UnexpectedKey string
  | KeyMismatch string string
  | TooManyItems nat int
  | PatternMismatch string
  | TooManyBytes int
  | BelowMin int
  | AboveMax int
  | Raised

datatype schema_problem = SchemaProblem (sp_path: string) (sp_rule: schema_rule)

section \<open>Helpers\<close>

text \<open>\<open>_first\<close>: every problem is computed, then the first one found is the answer.\<close>

definition raised :: "schema_problem option \<Rightarrow> bool" where
  "raised p \<longleftrightarrow> (case p of Some q \<Rightarrow> sp_rule q = Raised | None \<Rightarrow> False)"

definition first_problem :: "schema_problem option list \<Rightarrow> schema_problem option" where
  "first_problem ps = (case find raised ps of Some p \<Rightarrow> p | None \<Rightarrow> first_some ps)"

definition SCHEMA_KEYS :: "(string \<times> string list) list" where
  "SCHEMA_KEYS =
     [(''object'', [''keys'', ''required'', ''entries'']), (''array'', [''items'', ''max_items'']),
      (''string'', [''pattern'', ''max_bytes'']), (''integer'', [''min'', ''max'']), (''boolean'', [])]"

definition INT_KEYS :: "string list" where
  "INT_KEYS = [''max_items'', ''max_bytes'', ''min'', ''max'']"

fun unhashable :: "json \<Rightarrow> bool" where
  "unhashable (JArr _) = True"
| "unhashable (JObj _) = True"
| "unhashable _ = False"

fun is_bool :: "json \<Rightarrow> bool" where
  "is_bool (JBool _) = True"
| "is_bool _ = False"

definition regex_error :: "regex \<Rightarrow> json \<Rightarrow> string option" where
  "regex_error rx v =
     (case v of JStr p \<Rightarrow> re_error rx p | _ \<Rightarrow> Some ''pattern must be a string'')"

lemma size_dict_get: "dict_get s k = Some v \<Longrightarrow> size v < Suc (size_list (size_prod (\<lambda>x. 0) size) s)"
  by (induction s) (auto split: if_splits)

lemma size_in_entries: "p \<in> set s \<Longrightarrow> size (snd p) < Suc (size_list (size_prod (\<lambda>x. 0) size) s)"
  by (induction s) (auto split: if_splits)

lemma size_in_array: "v \<in> set vs \<Longrightarrow> size v < Suc (size_list size vs)"
  by (induction vs) auto

section \<open>The declaration walk\<close>

text \<open>The rules every node shares: known keys, nullable, integer bounds, pattern.\<close>

definition node_declaration_error ::
  "regex \<Rightarrow> (string \<times> json) list \<Rightarrow> string \<Rightarrow> string \<Rightarrow> schema_problem option" where
  "node_declaration_error rx s kind path =
     (let known = (case dict_get SCHEMA_KEYS kind of Some ks \<Rightarrow> ks | None \<Rightarrow> []);
          unknown = sort (filter (\<lambda>k. k \<notin> set known \<and> k \<noteq> ''type'' \<and> k \<noteq> ''nullable'') (dict_keys s));
          bad_ints = filter (\<lambda>k. case dict_get s k of Some v \<Rightarrow> \<not> is_int v | None \<Rightarrow> False) INT_KEYS;
          pattern_err = Option.bind (dict_get s ''pattern'') (regex_error rx)
      in first_problem
        [if unknown \<noteq> [] then Some (SchemaProblem path (UnknownKeys unknown kind)) else None,
         (case dict_get s ''nullable'' of
            Some v \<Rightarrow> if is_bool v then None else Some (SchemaProblem path NullableNotBool)
          | None \<Rightarrow> None),
         (case bad_ints of k # _ \<Rightarrow> Some (SchemaProblem path (NotInteger k)) | [] \<Rightarrow> None),
         map_option (\<lambda>e. SchemaProblem path (BadPattern e)) pattern_err])"

text \<open>\<open>isinstance(required, list)\<close> with every name a declared key; an unhashable name raises.\<close>

definition required_declaration_error ::
  "(string \<times> json) list \<Rightarrow> json \<Rightarrow> string \<Rightarrow> schema_problem option" where
  "required_declaration_error keys req path =
     (case req of
        JArr rs \<Rightarrow>
          (case find (\<lambda>r. unhashable r \<or> (case r of JStr n \<Rightarrow> \<not> dict_has keys n | _ \<Rightarrow> True)) rs of
             Some r \<Rightarrow> Some (SchemaProblem path (if unhashable r then Raised else RequiredNotDeclared))
           | None \<Rightarrow> None)
      | _ \<Rightarrow> Some (SchemaProblem path RequiredNotDeclared))"

definition get_or :: "(string \<times> json) list \<Rightarrow> string \<Rightarrow> json \<Rightarrow> json" where
  "get_or s k d = (case dict_get s k of Some v \<Rightarrow> v | None \<Rightarrow> d)"

lemma size_get_or_entry:
  assumes "get_or s k (JObj []) = JObj kvs" "p \<in> set kvs"
  shows "size (snd p) < Suc (size_list (size_prod (\<lambda>x. 0) size) s)"
proof -
  from assms have "dict_get s k = Some (JObj kvs)" by (auto simp: get_or_def split: option.splits)
  then show ?thesis using size_dict_get [of s k "JObj kvs"] size_in_entries [OF assms(2)] by simp
qed

text \<open>The four walkers, one per function of the source.\<close>

function schema_declaration_error :: "regex \<Rightarrow> json \<Rightarrow> string \<Rightarrow> schema_problem option"
  and object_declaration_error :: "regex \<Rightarrow> (string \<times> json) list \<Rightarrow> string \<Rightarrow> schema_problem option"
  and entries_declaration_error :: "regex \<Rightarrow> json \<Rightarrow> string \<Rightarrow> schema_problem option"
  and items_declaration_error :: "regex \<Rightarrow> (string \<times> json) list \<Rightarrow> string \<Rightarrow> schema_problem option"
where
  "schema_declaration_error rx schema path =
     (case schema of
        JObj s \<Rightarrow>
          (case get_or s ''type'' JNull of
             JStr kind \<Rightarrow>
               if \<not> dict_has SCHEMA_KEYS kind then Some (SchemaProblem path (BadKind (JStr kind)))
               else (case node_declaration_error rx s kind path of
                 Some p \<Rightarrow> Some p
               | None \<Rightarrow>
                   if kind = ''object'' then object_declaration_error rx s path
                   else if kind = ''array'' then items_declaration_error rx s path
                   else None)
           | kind \<Rightarrow> Some (SchemaProblem path (if unhashable kind then Raised else BadKind kind)))
      | _ \<Rightarrow> Some (SchemaProblem path ShapeNotObject))"
| "object_declaration_error rx s path =
     (case get_or s ''keys'' (JObj []) of
        JObj keys \<Rightarrow>
          (case first_problem (map (\<lambda>p. schema_declaration_error rx (snd p)
                  (path @ ''.keys['' @ py_repr (fst p) @ '']'')) keys) of
             Some p \<Rightarrow> Some p
           | None \<Rightarrow>
               (case required_declaration_error keys (get_or s ''required'' (JArr [])) path of
                  Some p \<Rightarrow> Some p
                | None \<Rightarrow>
                    (case dict_get s ''entries'' of
                       None \<Rightarrow> None
                     | Some e \<Rightarrow> if e = JNull then None else entries_declaration_error rx e path)))
      | _ \<Rightarrow> Some (SchemaProblem path KeysNotObject))"
| "entries_declaration_error rx e path =
     (case e of
        JObj entries \<Rightarrow>
          if list_ex (\<lambda>k. k \<noteq> ''key_pattern'' \<and> k \<noteq> ''value'') (dict_keys entries)
          then Some (SchemaProblem path EntriesKeys)
          else (case Option.bind (dict_get entries ''key_pattern'') (regex_error rx) of
            Some err \<Rightarrow> Some (SchemaProblem path (BadKeyPattern err))
          | None \<Rightarrow>
              (case dict_get entries ''value'' of
                 None \<Rightarrow> Some (SchemaProblem path EntriesNeedValue)
               | Some shape \<Rightarrow> schema_declaration_error rx shape (path @ ''.entries.value'')))
      | _ \<Rightarrow> Some (SchemaProblem path EntriesKeys))"
| "items_declaration_error rx s path =
     (case dict_get s ''items'' of
        None \<Rightarrow> Some (SchemaProblem path ArrayNeedsItems)
      | Some items \<Rightarrow> schema_declaration_error rx items (path @ ''.items''))"
  by pat_completeness auto
termination
proof (relation "measures
  [\<lambda>x. case x of
      Inl (Inl (rx, v, p)) \<Rightarrow> size v
    | Inl (Inr (rx, s, p)) \<Rightarrow> size (JObj s)
    | Inr (Inl (rx, v, p)) \<Rightarrow> size v
    | Inr (Inr (rx, s, p)) \<Rightarrow> size (JObj s),
   \<lambda>x. case x of Inl (Inl _) \<Rightarrow> 1 | _ \<Rightarrow> 0]", goal_cases)
qed (auto dest!: size_dict_get size_get_or_entry)

declare schema_declaration_error.simps [simp del] object_declaration_error.simps [simp del]
  entries_declaration_error.simps [simp del] items_declaration_error.simps [simp del]

section \<open>The value walk\<close>

text \<open>\<open>len(value)\<close> and the byte length against a bound the declaration walk made an int.\<close>

definition bound :: "(string \<times> json) list \<Rightarrow> string \<Rightarrow> int option" where
  "bound s k = (case dict_get s k of Some (JInt i) \<Rightarrow> Some i | _ \<Rightarrow> None)"

definition too_long :: "(string \<times> json) list \<Rightarrow> string \<Rightarrow> string \<Rightarrow> schema_problem option" where
  "too_long s t path =
     (case bound s ''max_bytes'' of
        Some m \<Rightarrow> if int (utf8_len t) > m then Some (SchemaProblem path (TooManyBytes m)) else None
      | None \<Rightarrow> None)"

definition string_violation :: "regex \<Rightarrow> json \<Rightarrow> (string \<times> json) list \<Rightarrow> string \<Rightarrow> schema_problem option" where
  "string_violation rx v s path =
     (case v of
        JStr t \<Rightarrow>
          (case dict_get s ''pattern'' of
             None \<Rightarrow> too_long s t path
           | Some (JStr p) \<Rightarrow>
               if \<not> re_fullmatch rx p t then Some (SchemaProblem path (PatternMismatch p))
               else too_long s t path
           | Some _ \<Rightarrow> Some (SchemaProblem path Raised))
      | _ \<Rightarrow> Some (SchemaProblem path (ExpectedType ''string'' (type_name v))))"

definition integer_violation :: "json \<Rightarrow> (string \<times> json) list \<Rightarrow> string \<Rightarrow> schema_problem option" where
  "integer_violation v s path =
     (case v of
        JInt i \<Rightarrow>
          first_some
            [(case bound s ''min'' of
                Some m \<Rightarrow> if i < m then Some (SchemaProblem path (BelowMin m)) else None
              | None \<Rightarrow> None),
             (case bound s ''max'' of
                Some m \<Rightarrow> if i > m then Some (SchemaProblem path (AboveMax m)) else None
              | None \<Rightarrow> None)]
      | _ \<Rightarrow> Some (SchemaProblem path (ExpectedType ''integer'' (type_name v))))"

definition boolean_violation :: "json \<Rightarrow> string \<Rightarrow> schema_problem option" where
  "boolean_violation v path =
     (if is_bool v then None else Some (SchemaProblem path (ExpectedType ''boolean'' (type_name v))))"

text \<open>The first half of \<open>_entry_violation\<close>: which shape one entry answers to.\<close>

definition entry_shape ::
  "regex \<Rightarrow> string \<Rightarrow> (string \<times> json) list \<Rightarrow> string \<Rightarrow> schema_problem + json" where
  "entry_shape rx name s path =
     (case get_or s ''keys'' (JObj []) of
        JObj keys \<Rightarrow>
          (case dict_get keys name of
             Some shape \<Rightarrow> Inr shape
           | None \<Rightarrow>
               (case get_or s ''entries'' JNull of
                  JNull \<Rightarrow> Inl (SchemaProblem path (UnexpectedKey name))
                | JObj entries \<Rightarrow>
                    res_bind
                      (case get_or entries ''key_pattern'' JNull of
                         JNull \<Rightarrow> Inr ()
                       | JStr p \<Rightarrow> require (re_fullmatch rx p name) (SchemaProblem path (KeyMismatch name p))
                       | _ \<Rightarrow> Inl (SchemaProblem path Raised))
                      (\<lambda>_. case dict_get entries ''value'' of
                         Some shape \<Rightarrow> Inr shape
                       | None \<Rightarrow> Inl (SchemaProblem path Raised))
                | _ \<Rightarrow> Inl (SchemaProblem path Raised)))
      | _ \<Rightarrow> Inl (SchemaProblem path Raised))"

text \<open>\<open>next((n for n in required if n not in value), None)\<close> over declared string names.\<close>

definition first_missing :: "json \<Rightarrow> (string \<times> json) list \<Rightarrow> string option" where
  "first_missing req kvs =
     (case req of
        JArr rs \<Rightarrow> first_some (map (\<lambda>r. case r of JStr n \<Rightarrow> if dict_has kvs n then None else Some n | _ \<Rightarrow> None) rs)
      | _ \<Rightarrow> None)"

lemma size_zip_array:
  "q \<in> set (zip is vs) \<Longrightarrow> size (snd q) < Suc (size_list size vs)"
  using size_in_array [of "snd q" vs] by (cases q) (auto dest!: set_zip_rightD)

definition too_many :: "(string \<times> json) list \<Rightarrow> nat \<Rightarrow> string \<Rightarrow> schema_problem option" where
  "too_many s n path =
     (case bound s ''max_items'' of
        Some m \<Rightarrow> if int n > m then Some (SchemaProblem path (TooManyItems n m)) else None
      | None \<Rightarrow> None)"

function schema_violation :: "regex \<Rightarrow> json \<Rightarrow> json \<Rightarrow> string \<Rightarrow> schema_problem option"
  and object_violation :: "regex \<Rightarrow> json \<Rightarrow> (string \<times> json) list \<Rightarrow> string \<Rightarrow> schema_problem option"
  and array_violation :: "regex \<Rightarrow> json \<Rightarrow> (string \<times> json) list \<Rightarrow> string \<Rightarrow> schema_problem option"
where
  "schema_violation rx v schema path =
     (case schema of
        JObj s \<Rightarrow>
          (case get_or s ''type'' JNull of
             JStr kind \<Rightarrow>
               if v = JNull then
                 (if truthy (get_or s ''nullable'' JNull) then None
                  else Some (SchemaProblem path (ExpectedType kind ''null'')))
               else if kind = ''object'' then object_violation rx v s path
               else if kind = ''array'' then array_violation rx v s path
               else if kind = ''string'' then string_violation rx v s path
               else if kind = ''integer'' then integer_violation v s path
               else if kind = ''boolean'' then boolean_violation v path
               else Some (SchemaProblem path Raised)
           | _ \<Rightarrow> Some (SchemaProblem path Raised))
      | _ \<Rightarrow> Some (SchemaProblem path Raised))"
| "object_violation rx v s path =
     (case v of
        JObj kvs \<Rightarrow>
          (case first_missing (get_or s ''required'' (JArr [])) kvs of
             Some n \<Rightarrow> Some (SchemaProblem path (MissingRequired n))
           | None \<Rightarrow>
               first_problem (map (\<lambda>p.
                 case entry_shape rx (fst p) s path of
                   Inl e \<Rightarrow> Some e
                 | Inr shape \<Rightarrow> schema_violation rx (snd p) shape (path @ ''.'' @ fst p)) kvs))
      | _ \<Rightarrow> Some (SchemaProblem path (ExpectedType ''object'' (type_name v))))"
| "array_violation rx v s path =
     (case v of
        JArr vs \<Rightarrow>
          (case too_many s (length vs) path of
             Some p \<Rightarrow> Some p
           | None \<Rightarrow>
            (case dict_get s ''items'' of
               None \<Rightarrow> if vs = [] then None else Some (SchemaProblem path Raised)
             | Some items \<Rightarrow>
                 first_problem (map (\<lambda>q.
                   schema_violation rx (snd q) items (path @ ''['' @ nat_str (fst q) @ '']''))
                   (zip [0..<length vs] vs))))
      | _ \<Rightarrow> Some (SchemaProblem path (ExpectedType ''array'' (type_name v))))"

by pat_completeness auto
termination
proof (relation "measures
  [\<lambda>x. case x of
      Inl (rx, v, s, p) \<Rightarrow> size v
    | Inr (Inl (rx, v, s, p)) \<Rightarrow> size v
    | Inr (Inr (rx, v, s, p)) \<Rightarrow> size v,
   \<lambda>x. case x of Inl _ \<Rightarrow> 1 | _ \<Rightarrow> 0]", goal_cases)
qed (auto dest!: size_in_entries size_zip_array)

declare schema_violation.simps [simp del] object_violation.simps [simp del]
  array_violation.simps [simp del]

section \<open>What a shape means\<close>

text \<open>
  The contract behind the two walks, with no order of checks and no paths: which shape a key
  answers to, and when a value conforms to a shape.
\<close>

definition declared_shape :: "regex \<Rightarrow> (string \<times> json) list \<Rightarrow> string \<Rightarrow> json \<Rightarrow> bool" where
  "declared_shape rx s name shape \<longleftrightarrow>
     (\<exists>keys. get_or s ''keys'' (JObj []) = JObj keys \<and>
       (dict_get keys name = Some shape \<or>
        dict_get keys name = None \<and>
          (\<exists>entries. dict_get s ''entries'' = Some (JObj entries)
            \<and> (\<forall>p. dict_get entries ''key_pattern'' = Some (JStr p) \<longrightarrow> re_fullmatch rx p name)
            \<and> dict_get entries ''value'' = Some shape)))"

inductive conforms :: "regex \<Rightarrow> json \<Rightarrow> json \<Rightarrow> bool" for rx where
  null: "dict_get s ''nullable'' = Some (JBool True) \<Longrightarrow> conforms rx JNull (JObj s)"
| bool: "dict_get s ''type'' = Some (JStr ''boolean'') \<Longrightarrow> conforms rx (JBool b) (JObj s)"
| int: "dict_get s ''type'' = Some (JStr ''integer'') \<Longrightarrow>
    (\<And>m. dict_get s ''min'' = Some (JInt m) \<Longrightarrow> m \<le> i) \<Longrightarrow>
    (\<And>m. dict_get s ''max'' = Some (JInt m) \<Longrightarrow> i \<le> m) \<Longrightarrow> conforms rx (JInt i) (JObj s)"
| str: "dict_get s ''type'' = Some (JStr ''string'') \<Longrightarrow>
    (\<And>p. dict_get s ''pattern'' = Some (JStr p) \<Longrightarrow> re_fullmatch rx p t) \<Longrightarrow>
    (\<And>m. dict_get s ''max_bytes'' = Some (JInt m) \<Longrightarrow> int (utf8_len t) \<le> m) \<Longrightarrow>
    conforms rx (JStr t) (JObj s)"
| arr: "dict_get s ''type'' = Some (JStr ''array'') \<Longrightarrow>
    (\<And>m. dict_get s ''max_items'' = Some (JInt m) \<Longrightarrow> int (length vs) \<le> m) \<Longrightarrow>
    dict_get s ''items'' = Some shape \<Longrightarrow>
    (\<And>v. v \<in> set vs \<Longrightarrow> conforms rx v shape) \<Longrightarrow> conforms rx (JArr vs) (JObj s)"
| obj: "dict_get s ''type'' = Some (JStr ''object'') \<Longrightarrow>
    (\<And>rs n. dict_get s ''required'' = Some (JArr rs) \<Longrightarrow> JStr n \<in> set rs \<Longrightarrow> dict_has kvs n) \<Longrightarrow>
    (\<And>k v. (k, v) \<in> set kvs \<Longrightarrow> \<exists>shape. declared_shape rx s k shape \<and> conforms rx v shape) \<Longrightarrow>
    conforms rx (JObj kvs) (JObj s)"

inductive_simps conforms_simps:
  "conforms rx JNull (JObj s)" "conforms rx (JBool b) (JObj s)" "conforms rx (JInt i) (JObj s)"
  "conforms rx (JFloat f) (JObj s)" "conforms rx (JStr t) (JObj s)" "conforms rx (JArr vs) (JObj s)"
  "conforms rx (JObj kvs) (JObj s)"

section \<open>Facts\<close>

lemma raised_not_None: "raised p \<Longrightarrow> p \<noteq> None"
  by (cases p) (simp_all add: raised_def)

lemma raised_simps [simp]: "\<not> raised None" "raised (Some (SchemaProblem p r)) \<longleftrightarrow> r = Raised"
  by (auto simp: raised_def)

lemma first_problem_None [simp]: "first_problem ps = None \<longleftrightarrow> (\<forall>p\<in>set ps. p = None)"
proof (cases "find raised ps")
  case None
  then show ?thesis by (simp add: first_problem_def)
next
  case (Some p)
  then have "p \<in> set ps" "p \<noteq> None" by (auto simp: find_Some_iff dest: raised_not_None)
  with Some show ?thesis by (auto simp: first_problem_def)
qed

lemma raised_first_problem [simp]: "raised (first_problem ps) \<longleftrightarrow> (\<exists>p\<in>set ps. raised p)"
proof (cases "find raised ps")
  case None
  then have *: "\<forall>p\<in>set ps. \<not> raised p" by (auto simp: find_None_iff)
  have "\<not> raised (first_some ps)"
  proof (cases "first_some ps")
    case None
    then show ?thesis by (simp only: raised_simps) simp
  next
    case (Some p)
    then have "Some p \<in> set ps" by (rule first_some_in)
    with * Some show ?thesis by metis
  qed
  with * None show ?thesis by (simp add: first_problem_def)
next
  case (Some p)
  then have "p \<in> set ps" "raised p" by (auto simp: find_Some_iff)
  with Some show ?thesis by (auto simp: first_problem_def)
qed

lemma first_problem_map:
  assumes "\<And>q. q \<in> set xs \<Longrightarrow> (f q = None \<longleftrightarrow> P q) \<and> \<not> raised (f q)"
  shows "(first_problem (map f xs) = None \<longleftrightarrow> (\<forall>q\<in>set xs. P q)) \<and> \<not> raised (first_problem (map f xs))"
  using assms by simp

definition declares :: "regex \<Rightarrow> json \<Rightarrow> bool" where
  "declares rx schema \<longleftrightarrow> (\<exists>path. schema_declaration_error rx schema path = None)"

text \<open>What an accepted declaration guarantees of one node.\<close>

lemma node_declared:
  assumes "node_declaration_error rx s kind path = None"
  shows "\<forall>k\<in>set INT_KEYS. \<forall>v. dict_get s k = Some v \<longrightarrow> is_int v"
    and "\<forall>v. dict_get s ''nullable'' = Some v \<longrightarrow> is_bool v"
    and "\<forall>v. dict_get s ''pattern'' = Some v \<longrightarrow> (\<exists>p. v = JStr p \<and> re_error rx p = None)"
  using assms
  by (auto simp: node_declaration_error_def Let_def filter_empty_conv regex_error_def
      split: if_splits option.splits list.splits json.splits)

lemma declares_node:
  assumes "declares rx schema"
  obtains s kind path where "schema = JObj s" "dict_get s ''type'' = Some (JStr kind)"
    "kind \<in> {''object'', ''array'', ''string'', ''integer'', ''boolean''}"
    "node_declaration_error rx s kind path = None"
    "kind = ''object'' \<Longrightarrow> object_declaration_error rx s path = None"
    "kind = ''array'' \<Longrightarrow> items_declaration_error rx s path = None"
proof -
  from assms obtain path where *: "schema_declaration_error rx schema path = None"
    by (auto simp: declares_def)
  from * obtain s where s: "schema = JObj s"
    by (cases schema) (auto simp: schema_declaration_error.simps)
  from * s obtain kind where "get_or s ''type'' JNull = JStr kind"
    by (cases "get_or s ''type'' JNull") (auto simp: schema_declaration_error.simps)
  with * s that [of s kind path] show ?thesis
    by (auto simp: schema_declaration_error.simps get_or_def SCHEMA_KEYS_def dict_has_def
        split: if_splits option.splits)
qed

lemma object_declared:
  assumes "object_declaration_error rx s path = None"
  obtains keys where "get_or s ''keys'' (JObj []) = JObj keys"
    "\<And>name shape. dict_get keys name = Some shape \<Longrightarrow> declares rx shape"
    "\<And>e. dict_get s ''entries'' = Some e \<Longrightarrow> e \<noteq> JNull \<Longrightarrow>
      \<exists>entries shape. e = JObj entries \<and> dict_get entries ''value'' = Some shape \<and> declares rx shape
        \<and> (\<forall>v. dict_get entries ''key_pattern'' = Some v \<longrightarrow> (\<exists>p. v = JStr p))"
    "\<exists>rs. get_or s ''required'' (JArr []) = JArr rs"
proof -
  from assms obtain keys where keys: "get_or s ''keys'' (JObj []) = JObj keys"
    by (cases "get_or s ''keys'' (JObj [])") (auto simp: object_declaration_error.simps)
  with assms have 1: "first_problem (map (\<lambda>p. schema_declaration_error rx (snd p)
        (path @ ''.keys['' @ py_repr (fst p) @ '']'')) keys) = None"
    and 2: "required_declaration_error keys (get_or s ''required'' (JArr [])) path = None"
    and 3: "\<And>e. dict_get s ''entries'' = Some e \<Longrightarrow> e \<noteq> JNull \<Longrightarrow> entries_declaration_error rx e path = None"
    by (auto simp: object_declaration_error.simps split: option.splits)
  show ?thesis
  proof (rule that [OF keys])
    show "declares rx shape" if "dict_get keys name = Some shape" for name shape
      using 1 map_of_SomeD [OF that] by (fastforce simp: declares_def)
    show "\<exists>rs. get_or s ''required'' (JArr []) = JArr rs"
      using 2 by (auto simp: required_declaration_error_def split: json.splits)
    show "\<exists>entries shape. e = JObj entries \<and> dict_get entries ''value'' = Some shape \<and> declares rx shape
        \<and> (\<forall>v. dict_get entries ''key_pattern'' = Some v \<longrightarrow> (\<exists>p. v = JStr p))"
      if "dict_get s ''entries'' = Some e" "e \<noteq> JNull" for e
      using 3 [OF that]
      by (auto simp: entries_declaration_error.simps declares_def regex_error_def
          split: json.splits if_splits option.splits)
  qed
qed

lemma items_declared:
  "items_declaration_error rx s path = None \<Longrightarrow>
    \<exists>items. dict_get s ''items'' = Some items \<and> declares rx items"
  by (auto simp: items_declaration_error.simps declares_def split: option.splits)

lemma bound_Some: "bound s k = Some m \<longleftrightarrow> dict_get s k = Some (JInt m)"
  by (auto simp: bound_def split: option.splits json.splits)

lemma too_long_iff [simp]:
  "too_long s t path = None \<longleftrightarrow> (\<forall>m. dict_get s ''max_bytes'' = Some (JInt m) \<longrightarrow> int (utf8_len t) \<le> m)"
  "\<not> raised (too_long s t path)"
  by (auto simp: too_long_def bound_Some [symmetric] split: option.splits)

lemma too_many_iff [simp]:
  "too_many s n path = None \<longleftrightarrow> (\<forall>m. dict_get s ''max_items'' = Some (JInt m) \<longrightarrow> int n \<le> m)"
  "\<not> raised (too_many s n path)"
  by (auto simp: too_many_def bound_Some [symmetric] split: option.splits)

text \<open>The three leaf checkers agree with \<open>conforms\<close>, and never raise.\<close>

lemma string_walk:
  assumes "dict_get s ''type'' = Some (JStr ''string'')" "v \<noteq> JNull"
    and "\<forall>v. dict_get s ''pattern'' = Some v \<longrightarrow> (\<exists>p. v = JStr p)"
  shows "(string_violation rx v s path = None \<longleftrightarrow> conforms rx v (JObj s)) \<and> \<not> raised (string_violation rx v s path)"
proof (cases v)
  case (JStr t)
  show ?thesis
  proof (cases "dict_get s ''pattern''")
    case None
    with JStr assms(1) show ?thesis by (simp add: string_violation_def conforms_simps)
  next
    case (Some pat)
    with assms(3) obtain q where "pat = JStr q" by blast
    with Some JStr assms(1) show ?thesis by (simp add: string_violation_def conforms_simps)
  qed
qed (use assms in \<open>simp_all add: string_violation_def conforms_simps\<close>)

lemma integer_walk:
  assumes "dict_get s ''type'' = Some (JStr ''integer'')" "v \<noteq> JNull"
  shows "(integer_violation v s path = None \<longleftrightarrow> conforms rx v (JObj s)) \<and> \<not> raised (integer_violation v s path)"
proof (cases v)
  case (JInt i)
  have "conforms rx v (JObj s) \<longleftrightarrow>
      (\<forall>m. bound s ''min'' = Some m \<longrightarrow> m \<le> i) \<and> (\<forall>m. bound s ''max'' = Some m \<longrightarrow> i \<le> m)"
    using JInt assms(1) by (simp add: conforms_simps bound_Some)
  with JInt show ?thesis
    by (auto simp: integer_violation_def split: option.splits)
qed (use assms in \<open>simp_all add: integer_violation_def conforms_simps\<close>)

lemma boolean_walk:
  assumes "dict_get s ''type'' = Some (JStr ''boolean'')" "v \<noteq> JNull"
  shows "(boolean_violation v path = None \<longleftrightarrow> conforms rx v (JObj s)) \<and> \<not> raised (boolean_violation v path)"
  using assms by (cases v) (simp_all add: boolean_violation_def conforms_simps)

lemma entry_shape_declared:
  assumes "object_declaration_error rx s path = None"
  shows "entry_shape rx name s p = Inr shape \<longleftrightarrow> declared_shape rx s name shape"
    and "entry_shape rx name s p = Inl e \<Longrightarrow> sp_rule e \<noteq> Raised"
    and "declared_shape rx s name shape \<Longrightarrow> declares rx shape"
proof -
  obtain keys where keys: "get_or s ''keys'' (JObj []) = JObj keys"
    "\<And>name shape. dict_get keys name = Some shape \<Longrightarrow> declares rx shape"
    "\<And>e. dict_get s ''entries'' = Some e \<Longrightarrow> e \<noteq> JNull \<Longrightarrow>
      \<exists>entries shape. e = JObj entries \<and> dict_get entries ''value'' = Some shape \<and> declares rx shape
        \<and> (\<forall>v. dict_get entries ''key_pattern'' = Some v \<longrightarrow> (\<exists>p. v = JStr p))"
    "\<exists>rs. get_or s ''required'' (JArr []) = JArr rs"
    by (rule object_declared [OF assms]) (rule that; assumption)
  show "declared_shape rx s name shape \<Longrightarrow> declares rx shape"
    using keys by (force simp: declared_shape_def)
  have "(entry_shape rx name s p = Inr shape \<longleftrightarrow> declared_shape rx s name shape) \<and>
      (entry_shape rx name s p = Inl e \<longrightarrow> sp_rule e \<noteq> Raised)"
  proof (cases "dict_get s ''entries'' = None \<or> dict_get s ''entries'' = Some JNull")
    case True
    with keys(1) show ?thesis
      by (auto simp: entry_shape_def declared_shape_def get_or_def split: option.splits)
  next
    case False
    then obtain e where "dict_get s ''entries'' = Some e" "e \<noteq> JNull" by auto
    with keys(3) obtain entries v where e: "dict_get s ''entries'' = Some (JObj entries)"
      "dict_get entries ''value'' = Some v"
      "\<forall>v. dict_get entries ''key_pattern'' = Some v \<longrightarrow> (\<exists>p. v = JStr p)" by blast
    have get: "get_or s ''entries'' JNull = JObj entries" using e(1) by (simp add: get_or_def)
    show ?thesis
    proof (cases "dict_get keys name")
      case (Some sh)
      with keys(1) show ?thesis by (auto simp: entry_shape_def declared_shape_def)
    next
      case None
      have "(entry_shape rx name s p = Inr shape \<longleftrightarrow>
            (\<forall>q. dict_get entries ''key_pattern'' = Some (JStr q) \<longrightarrow> re_fullmatch rx q name) \<and> shape = v)
          \<and> (entry_shape rx name s p = Inl e \<longrightarrow> sp_rule e \<noteq> Raised)" for e
      proof (cases "dict_get entries ''key_pattern''")
        case no_pattern: None
        then have "get_or entries ''key_pattern'' JNull = JNull" by (simp add: get_or_def)
        with no_pattern None keys(1) e(2) get show ?thesis by (auto simp: entry_shape_def)
      next
        case (Some kp)
        with e(3) obtain q where q: "kp = JStr q" by blast
        with Some have "get_or entries ''key_pattern'' JNull = JStr q" by (simp add: get_or_def)
        with Some q None keys(1) e(2) get show ?thesis by (auto simp: entry_shape_def)
      qed
      moreover have "declared_shape rx s name shape \<longleftrightarrow>
          (\<forall>q. dict_get entries ''key_pattern'' = Some (JStr q) \<longrightarrow> re_fullmatch rx q name) \<and> shape = v"
        using None keys(1) e(1,2) by (auto simp: declared_shape_def)
      ultimately show ?thesis by blast
    qed
  qed
  then show "entry_shape rx name s p = Inr shape \<longleftrightarrow> declared_shape rx s name shape"
    "entry_shape rx name s p = Inl e \<Longrightarrow> sp_rule e \<noteq> Raised" by blast+
qed

lemma first_missing_None:
  assumes "get_or s ''required'' (JArr []) = JArr rs"
  shows "first_missing (get_or s ''required'' (JArr [])) kvs = None \<longleftrightarrow>
    (\<forall>rs n. dict_get s ''required'' = Some (JArr rs) \<longrightarrow> JStr n \<in> set rs \<longrightarrow> dict_has kvs n)"
  using assms
  by (auto simp: first_missing_def get_or_def split: option.splits json.splits if_splits)

lemma walk_correct:
  "declares rx schema \<Longrightarrow>
    (schema_violation rx v schema p = None \<longleftrightarrow> conforms rx v schema) \<and> \<not> raised (schema_violation rx v schema p)"
  "v \<noteq> JNull \<Longrightarrow> dict_get s ''type'' = Some (JStr ''object'') \<Longrightarrow> object_declaration_error rx s p0 = None \<Longrightarrow>
    (object_violation rx v s p = None \<longleftrightarrow> conforms rx v (JObj s)) \<and> \<not> raised (object_violation rx v s p)"
  "v \<noteq> JNull \<Longrightarrow> dict_get s ''type'' = Some (JStr ''array'') \<Longrightarrow> items_declaration_error rx s p0 = None \<Longrightarrow>
    \<forall>k\<in>set INT_KEYS. \<forall>v. dict_get s k = Some v \<longrightarrow> is_int v \<Longrightarrow>
    (array_violation rx v s p = None \<longleftrightarrow> conforms rx v (JObj s)) \<and> \<not> raised (array_violation rx v s p)"
proof (induction rx v schema p and rx v s p and rx v s p
    arbitrary: and p0 and p0
    rule: schema_violation_object_violation_array_violation.induct)
  case (1 rx v schema path)
  obtain s kind p0 where node: "schema = JObj s"
    "dict_get s ''type'' = Some (JStr kind)"
    "kind \<in> {''object'', ''array'', ''string'', ''integer'', ''boolean''}"
    "node_declaration_error rx s kind p0 = None"
    and object: "kind = ''object'' \<Longrightarrow> object_declaration_error rx s p0 = None"
    and array: "kind = ''array'' \<Longrightarrow> items_declaration_error rx s p0 = None"
    by (rule declares_node [OF "1.prems"]) (rule that; assumption)
  note ok = node_declared [OF node(4)]
  have ty: "get_or s ''type'' JNull = JStr kind" using node(2) by (simp add: get_or_def)
  show ?case
  proof (cases "v = JNull")
    case True
    have "truthy (get_or s ''nullable'' JNull) \<longleftrightarrow> dict_get s ''nullable'' = Some (JBool True)"
      using ok(2) by (cases "dict_get s ''nullable''") (auto simp: get_or_def elim: is_bool.elims)
    with True ty node(1) show ?thesis
      by (simp add: schema_violation.simps conforms_simps)
  next
    case False
    from node(3) consider "kind = ''object''" | "kind = ''array''" | "kind = ''string''"
      | "kind = ''integer''" | "kind = ''boolean''" by (elim insertE emptyE)
    then show ?thesis
    proof cases
      case 1
      with "1.IH"(1) [OF node(1) ty False 1] node False object show ?thesis
        by (simp add: schema_violation.simps [of rx v "JObj s"] ty)
    next
      case 2
      with "1.IH"(2) [OF node(1) ty False _ 2] node False array ok(1) show ?thesis
        by (simp add: schema_violation.simps [of rx v "JObj s"] ty)
    next
      case 3
      with string_walk [of s v rx path] ok(3) False node(1,2) show ?thesis
        by (auto simp: schema_violation.simps [of rx v "JObj s"] ty)
    next
      case 4
      with integer_walk [of s v path rx] False node(1,2) show ?thesis
        by (simp add: schema_violation.simps [of rx v "JObj s"] ty)
    next
      case 5
      with boolean_walk [of s v path rx] False node(1,2) show ?thesis
        by (simp add: schema_violation.simps [of rx v "JObj s"] ty)
    qed
  qed
next
  case (2 rx v s path)
  have req: "\<exists>rs. get_or s ''required'' (JArr []) = JArr rs"
    by (rule object_declared [OF "2.prems"(3)])
  note entry = entry_shape_declared [OF "2.prems"(3)]
  show ?case
  proof (cases v)
    case (JObj kvs)
    have walk: "((case entry_shape rx (fst q) s path of Inl e \<Rightarrow> Some e
          | Inr shape \<Rightarrow> schema_violation rx (snd q) shape (path @ ''.'' @ fst q)) = None
        \<longleftrightarrow> (\<exists>shape. declared_shape rx s (fst q) shape \<and> conforms rx (snd q) shape))
      \<and> \<not> raised (case entry_shape rx (fst q) s path of Inl e \<Rightarrow> Some e
          | Inr shape \<Rightarrow> schema_violation rx (snd q) shape (path @ ''.'' @ fst q))"
      if "first_missing (get_or s ''required'' (JArr [])) kvs = None" "q \<in> set kvs" for q
    proof (cases "entry_shape rx (fst q) s path")
      case (Inl e)
      then have "\<not> declared_shape rx s (fst q) shape" for shape
        using entry(1) [of "fst q" path shape] by auto
      with Inl entry(2) [OF Inl] show ?thesis by (cases e) auto
    next
      case (Inr shape)
      then have shape: "declared_shape rx s (fst q) shape" "declares rx shape"
        using entry by blast+
      have same: "declared_shape rx s (fst q) shape' \<Longrightarrow> shape' = shape" for shape'
        using Inr entry(1) [of "fst q" path shape'] by simp
      have IH: "(schema_violation rx (snd q) shape (path @ ''.'' @ fst q) = None \<longleftrightarrow> conforms rx (snd q) shape)
          \<and> \<not> raised (schema_violation rx (snd q) shape (path @ ''.'' @ fst q))"
        using "2.IH" [OF JObj that Inr shape(2)] .
      have "(\<exists>shape. declared_shape rx s (fst q) shape \<and> conforms rx (snd q) shape) \<longleftrightarrow>
          conforms rx (snd q) shape"
        using same shape(1) by blast
      then show ?thesis using IH by (simp only: Inr sum.case simp_thms)
    qed
    have missing: "first_missing (get_or s ''required'' (JArr [])) kvs = None \<longleftrightarrow>
        (\<forall>rs n. dict_get s ''required'' = Some (JArr rs) \<longrightarrow> JStr n \<in> set rs \<longrightarrow> dict_has kvs n)"
      using req first_missing_None by blast
    have conf: "conforms rx v (JObj s) \<longleftrightarrow>
        first_missing (get_or s ''required'' (JArr [])) kvs = None
        \<and> (\<forall>q\<in>set kvs. \<exists>shape. declared_shape rx s (fst q) shape \<and> conforms rx (snd q) shape)"
    proof -
      have "(\<forall>q\<in>set kvs. P (fst q) (snd q)) \<longleftrightarrow> (\<forall>k x. (k, x) \<in> set kvs \<longrightarrow> P k x)" for P
        by auto
      from this [of "\<lambda>k x. \<exists>shape. declared_shape rx s k shape \<and> conforms rx x shape"]
      show ?thesis using JObj "2.prems"(2) missing by (simp add: conforms_simps)
    qed
    show ?thesis
    proof (cases "first_missing (get_or s ''required'' (JArr [])) kvs")
      case None
      have "object_violation rx v s path = first_problem (map (\<lambda>p.
          case entry_shape rx (fst p) s path of Inl e \<Rightarrow> Some e
          | Inr shape \<Rightarrow> schema_violation rx (snd p) shape (path @ ''.'' @ fst p)) kvs)"
        using None JObj by (simp only: object_violation.simps json.case option.case)
      moreover note first_problem_map [OF walk [OF None]]
      ultimately show ?thesis using None conf by simp
    next
      case (Some n)
      then have "object_violation rx v s path = Some (SchemaProblem path (MissingRequired n))"
        using JObj by (simp only: object_violation.simps json.case option.case)
      then show ?thesis using Some conf by simp
    qed
  qed (use "2.prems" in \<open>simp_all add: object_violation.simps conforms_simps\<close>)
next
  case (3 rx v s path)
  from items_declared [OF "3.prems"(3)] obtain items where items: "dict_get s ''items'' = Some items"
    "declares rx items" by blast
  show ?case
  proof (cases v)
    case (JArr vs)
    have IH: "(schema_violation rx (snd q) items (path @ ''['' @ nat_str (fst q) @ '']'') = None
          \<longleftrightarrow> conforms rx (snd q) items)
        \<and> \<not> raised (schema_violation rx (snd q) items (path @ ''['' @ nat_str (fst q) @ '']''))"
      if "too_many s (length vs) path = None" "q \<in> set (zip [0..<length vs] vs)" for q
      using "3.IH" [OF JArr that(1) items(1) that(2) items(2)] .
    have elems: "(\<forall>q\<in>set (zip [0..<length vs] vs). P (snd q)) \<longleftrightarrow> (\<forall>v\<in>set vs. P v)" for P
    proof -
      have "snd ` set (zip [0..<length vs] vs) = set vs"
        by (metis length_upt map_snd_zip minus_nat.diff_0 set_map)
      then show ?thesis by (metis image_iff)
    qed
    have conf: "conforms rx v (JObj s) \<longleftrightarrow>
        too_many s (length vs) path = None \<and> (\<forall>v\<in>set vs. conforms rx v items)"
      using JArr "3.prems"(2) items(1) by (simp add: conforms_simps Ball_def)
    show ?thesis
    proof (cases "too_many s (length vs) path")
      case None
      have "array_violation rx v s path = first_problem (map (\<lambda>q.
          schema_violation rx (snd q) items (path @ ''['' @ nat_str (fst q) @ '']'')) (zip [0..<length vs] vs))"
        using None JArr items(1) by (simp only: array_violation.simps json.case option.case)
      moreover have "(\<forall>v\<in>set vs. conforms rx v items) \<longleftrightarrow>
          (\<forall>q\<in>set (zip [0..<length vs] vs). conforms rx (snd q) items)"
        using elems [of "\<lambda>v. conforms rx v items"] by (rule sym)
      moreover note first_problem_map [OF IH [OF None]]
      ultimately show ?thesis using None conf by simp
    next
      case (Some e)
      then have "array_violation rx v s path = Some e"
        using JArr by (simp only: array_violation.simps json.case option.case)
      then show ?thesis using Some conf too_many_iff(2) by (metis option.distinct(1))
    qed
  qed (use "3.prems" in \<open>simp_all add: array_violation.simps conforms_simps\<close>)
qed

section \<open>Properties\<close>


definition sample_shape :: json where
  "sample_shape = JObj [(''type'', JStr ''array''), (''max_items'', JInt 2),
     (''items'', JObj [(''type'', JStr ''integer''), (''min'', JInt 1), (''nullable'', JBool True)])]"

definition sample_regex :: regex where
  "sample_regex = \<lparr>re_error = (\<lambda>p. None), re_fullmatch = (\<lambda>p t. p = t)\<rparr>"


end
