(* ===== verification/Codec.thy ===== *)
theory Codec
  imports Json
begin

text \<open>
  \<open>protocol/codec.py\<close>: the version gate and the reflection that turns a decoded JSON object
  into a payload. A dataclass is its name and its fields, each with an annotation and, when it
  has one, a default; an annotation is the tree \<open>get_type_hints\<close> returns for it.
\<close>

section \<open>Refusals\<close>

datatype protocol_reason =
    UnsupportedVersion
  | UnknownType
  | BadEnvelope
  | DuplicateRequest

datatype protocol_detail =
    BadVersion json "int list"
  | BadType json
  | BadTimestamp json
  | NoTimezone string
  | EmptyField string
  | NotJson
  | NotObject string
  | MissingEnvelopeFields "string list"
  | PayloadNotDict string
  | ExpectedDict string string
  | MissingFields string "string list"
  | ExpectedList string string string
  | ExpectedDictField string string string
  | InvalidFieldType string string string
  | OutboundType string
  | DuplicateId string
  | Handshake string

datatype protocol_error =
  ProtocolError (pe_reason: protocol_reason) (pe_msg_type: "string option") (pe_detail: protocol_detail)

abbreviation bad_envelope :: "protocol_detail \<Rightarrow> protocol_error" where
  "bad_envelope d \<equiv> ProtocolError BadEnvelope None d"

section \<open>The version gate\<close>

definition SPEAKS :: "int list" where
  "SPEAKS = [2]"

text \<open>\<open>type(v) is int\<close>: a bool or a float never passes, whatever it equals.\<close>

definition check_version :: "json \<Rightarrow> protocol_error + int" where
  "check_version v =
     (case v of
        JInt i \<Rightarrow> if i \<in> set SPEAKS then Inr i
                  else Inl (ProtocolError UnsupportedVersion None (BadVersion v SPEAKS))
      | _ \<Rightarrow> Inl (ProtocolError UnsupportedVersion None (BadVersion v SPEAKS)))"

section \<open>Annotations and decoded values\<close>

datatype pyval =
    PVal json
  | PList "pyval list"
  | PDict "(string \<times> pyval) list"
  | PObj string "(string \<times> pyval) list"

datatype ann =
    AAny
  | ABool
  | AInt
  | AFloat
  | AStr
  | ANone
  | AList ann
  | ADict ann
  | AUnion "ann list"
  | AClass string "(string \<times> ann \<times> pyval option) list"

text \<open>
  \<open>_is_scalar\<close>: a bool is not an int, an int may stand as a float. \<open>ANone\<close> is the
  \<open>NoneType\<close> arm, an ordinary class for \<open>isinstance\<close>.
\<close>

fun is_scalar :: "ann \<Rightarrow> json \<Rightarrow> bool" where
  "is_scalar ABool (JBool _) = True"
| "is_scalar AInt (JInt _) = True"
| "is_scalar AFloat (JInt _) = True"
| "is_scalar AFloat (JFloat _) = True"
| "is_scalar AStr (JStr _) = True"
| "is_scalar ANone JNull = True"
| "is_scalar _ _ = False"

definition required :: "(string \<times> ann \<times> pyval option) list \<Rightarrow> string list" where
  "required flds = map fst (filter (\<lambda>(n, a, dflt). dflt = None) flds)"

lemma size_fields_le:
  "size_list (\<lambda>f. size (fst (snd f))) flds
    \<le> size_list (size_prod (\<lambda>x. 0) (size_prod size (\<lambda>x. 0))) flds"
  by (rule size_list_pointwise) (auto split: prod.split)

text \<open>
  One wire value against one annotation. \<open>owner\<close> and \<open>name\<close> ride the refusal. A union takes
  the first arm that decodes, \<open>None\<close> passing when the union allows it, and the last arm's
  refusal stands; a container maps its items; a dataclass is rebuilt, its missing fields named
  first, an absent optional field taking its default.
\<close>

function decode :: "string \<Rightarrow> string \<Rightarrow> ann \<Rightarrow> json \<Rightarrow> protocol_error + pyval"
  and decode_arms :: "string \<Rightarrow> string \<Rightarrow> ann list \<Rightarrow> json \<Rightarrow> protocol_error + pyval"
  and decode_items :: "string \<Rightarrow> string \<Rightarrow> ann \<Rightarrow> json list \<Rightarrow> protocol_error + pyval list"
  and decode_entries ::
    "string \<Rightarrow> string \<Rightarrow> ann \<Rightarrow> (string \<times> json) list \<Rightarrow> protocol_error + (string \<times> pyval) list"
  and decode_fields ::
    "string \<Rightarrow> (string \<times> ann \<times> pyval option) list \<Rightarrow> (string \<times> json) list
      \<Rightarrow> protocol_error + (string \<times> pyval) list"
where
  "decode owner name a v =
     (case a of
        AAny \<Rightarrow> Inr (PVal v)
      | AUnion arms \<Rightarrow>
          if v = JNull \<and> ANone \<in> set arms then Inr (PVal JNull)
          else decode_arms owner name arms v
      | AList b \<Rightarrow>
          (case v of
             JArr vs \<Rightarrow> map_sum id PList (decode_items owner name b vs)
           | _ \<Rightarrow> Inl (bad_envelope (ExpectedList owner name (type_name v))))
      | ADict b \<Rightarrow>
          (case v of
             JObj kvs \<Rightarrow> map_sum id PDict (decode_entries owner name b kvs)
           | _ \<Rightarrow> Inl (bad_envelope (ExpectedDictField owner name (type_name v))))
      | AClass cls flds \<Rightarrow>
          (case v of
             JObj kvs \<Rightarrow>
               (case filter (\<lambda>n. \<not> dict_has kvs n) (required flds) of
                  [] \<Rightarrow> map_sum id (PObj cls) (decode_fields cls flds kvs)
                | missing \<Rightarrow> Inl (bad_envelope (MissingFields cls missing)))
           | _ \<Rightarrow> Inl (bad_envelope (ExpectedDict cls (type_name v))))
      | _ \<Rightarrow>
          if is_scalar a v then Inr (PVal v)
          else Inl (bad_envelope (InvalidFieldType owner name (type_name v))))"
| "decode_arms owner name [] v = Inl (bad_envelope (InvalidFieldType owner name (type_name v)))"
| "decode_arms owner name (a # arms) v =
     (if a = ANone then decode_arms owner name arms v
      else if list_all (\<lambda>b. b = ANone) arms then decode owner name a v
      else case decode owner name a v of
        Inr w \<Rightarrow> Inr w
      | Inl e \<Rightarrow> decode_arms owner name arms v)"
| "decode_items owner name a [] = Inr []"
| "decode_items owner name a (v # vs) =
     (case decode owner name a v of
        Inl e \<Rightarrow> Inl e
      | Inr w \<Rightarrow> map_sum id (Cons w) (decode_items owner name a vs))"
| "decode_entries owner name a [] = Inr []"
| "decode_entries owner name a (kv # kvs) =
     (case decode owner name a (snd kv) of
        Inl e \<Rightarrow> Inl e
      | Inr w \<Rightarrow> map_sum id (Cons (fst kv, w)) (decode_entries owner name a kvs))"
| "decode_fields cls [] kvs = Inr []"
| "decode_fields cls (f # flds) kvs =
     (case (case dict_get kvs (fst f) of
              Some v \<Rightarrow> decode cls (fst f) (fst (snd f)) v
            | None \<Rightarrow> Inr (case snd (snd f) of Some d \<Rightarrow> d | None \<Rightarrow> PVal JNull)) of
        Inl e \<Rightarrow> Inl e
      | Inr w \<Rightarrow> map_sum id (Cons (fst f, w)) (decode_fields cls flds kvs))"
  by pat_completeness auto
termination
proof (relation "measures
  [\<lambda>x. case x of
      Inl (Inl (ow, n, a, v)) \<Rightarrow> 2 * size a
    | Inl (Inr (ow, n, as, v)) \<Rightarrow> 2 * size_list size as
    | Inr (Inl (ow, n, a, vs)) \<Rightarrow> 2 * size a
    | Inr (Inr y) \<Rightarrow> (case y of Inl (ow, n, a, kvs) \<Rightarrow> 2 * size a | Inr (c, fs, kvs) \<Rightarrow> 2 * size_list (\<lambda>f. size (fst (snd f))) fs),
   \<lambda>x. case x of
      Inl _ \<Rightarrow> 0
    | Inr (Inl (ow, n, a, vs)) \<Rightarrow> Suc (length vs)
    | Inr (Inr y) \<Rightarrow> (case y of Inl (ow, n, a, kvs) \<Rightarrow> Suc (length kvs) | Inr _ \<Rightarrow> 0)]", goal_cases)
qed (auto simp: less_Suc_eq_le le_SucI size_fields_le)

declare decode.simps [simp del] decode_arms.simps [simp del] decode_items.simps [simp del]
  decode_entries.simps [simp del] decode_fields.simps [simp del]

section \<open>Re-encoding\<close>

text \<open>\<open>dataclasses.asdict\<close> of a decoded payload, what \<open>make\<close> puts on the wire.\<close>

fun asdict :: "pyval \<Rightarrow> json" where
  "asdict (PVal v) = v"
| "asdict (PList ws) = JArr (map asdict ws)"
| "asdict (PDict kws) = JObj (map (\<lambda>(k, w). (k, asdict w)) kws)"
| "asdict (PObj cls kws) = JObj (map (\<lambda>(k, w). (k, asdict w)) kws)"

definition scalar_ann :: "ann \<Rightarrow> bool" where
  "scalar_ann a \<longleftrightarrow> a \<in> {ABool, AInt, AFloat, AStr, ANone}"

text \<open>
  The annotations payload classes use: a union is of scalars, or of one type and \<open>None\<close>;
  field names are distinct and every default decodes to itself.
\<close>

fun wf_ann :: "ann \<Rightarrow> bool" where
  "wf_ann (AList a) = wf_ann a"
| "wf_ann (ADict a) = wf_ann a"
| "wf_ann (AUnion arms) =
     ((list_all scalar_ann arms \<or> length (filter (\<lambda>a. a \<noteq> ANone) arms) = 1) \<and> (\<forall>a\<in>set arms. wf_ann a))"
| "wf_ann (AClass cls flds) =
     (distinct (map fst flds) \<and>
      (\<forall>f\<in>set flds. wf_ann (fst (snd f)) \<and>
         (case snd (snd f) of
            None \<Rightarrow> True
          | Some d \<Rightarrow> decode cls (fst f) (fst (snd f)) (asdict d) = Inr d)))"
| "wf_ann _ = True"

lemma decode_scalar: "scalar_ann a \<Longrightarrow> decode owner name a v = Inr w \<longleftrightarrow> is_scalar a v \<and> w = PVal v"
  by (auto simp: scalar_ann_def decode.simps)

lemma decode_arms_scalar:
  "list_all scalar_ann arms \<Longrightarrow> decode_arms owner name arms v = Inr w \<Longrightarrow> w = PVal v"
  by (induction arms) (auto simp: decode_arms.simps decode_scalar split: if_splits sum.splits)

lemma decode_arms_single:
  "filter (\<lambda>a. a \<noteq> ANone) arms = [b] \<Longrightarrow> decode_arms owner name arms v = decode owner name b v"
proof (induction arms)
  case (Cons a arms)
  show ?case
  proof (cases "a = ANone")
    case True
    with Cons show ?thesis by (simp add: decode_arms.simps)
  next
    case False
    with Cons.prems have "list_all (\<lambda>b. b = ANone) arms" "a = b"
      by (auto simp: filter_empty_conv list_all_iff)
    with False show ?thesis by (simp add: decode_arms.simps)
  qed
qed simp

lemma map_of_asdict: "map_of (map (\<lambda>(k, w). (k, asdict w)) kws) n = map_option asdict (map_of kws n)"
  by (rule map_of_map_values)

lemma decode_fields_names: "decode_fields cls flds kvs = Inr kws \<Longrightarrow> map fst kws = map fst flds"
  by (induction flds arbitrary: kws) (auto simp: decode_fields.simps split: sum.splits option.splits)

text \<open>Every decoded field is the image of what its annotation makes of its own re-encoding.\<close>

definition redecodes :: "string \<Rightarrow> string \<times> ann \<times> pyval option \<Rightarrow> pyval \<Rightarrow> bool" where
  "redecodes cls f w \<longleftrightarrow> decode cls (fst f) (fst (snd f)) (asdict w) = Inr w"

lemma decode_fields_redecode:
  assumes "list_all2 (\<lambda>f p. fst p = fst f \<and> redecodes cls f (snd p)) flds kws"
    and "\<forall>p\<in>set kws. dict_get kvs (fst p) = Some (asdict (snd p))"
  shows "decode_fields cls flds kvs = Inr kws"
  using assms
proof (induction rule: list_all2_induct)
  case (Cons f fs p ps)
  then show ?case
    by (cases p) (auto simp: decode_fields.simps redecodes_def)
qed (simp add: decode_fields.simps)

lemma missing_none:
  "filter (\<lambda>n. \<not> dict_has kvs n) (required flds) = [] \<Longrightarrow> f \<in> set flds \<Longrightarrow> snd (snd f) = None \<Longrightarrow>
    dict_get kvs (fst f) \<noteq> None"
proof -
  assume *: "filter (\<lambda>n. \<not> dict_has kvs n) (required flds) = []" "f \<in> set flds" "snd (snd f) = None"
  obtain n a d where "f = (n, a, d)" by (cases f) blast
  with *(2,3) have "f \<in> set (filter (\<lambda>(n, a, dflt). dflt = None) flds)" by simp
  then have "fst f \<in> set (required flds)" by (simp add: required_def)
  with *(1) show ?thesis by (simp add: filter_empty_conv dict_has_def)
qed

lemma asdict_JNull: "asdict w = JNull \<longleftrightarrow> w = PVal JNull"
  by (cases w) auto

lemma redecode_items:
  assumes "\<And>v w. decode owner name a v = Inr w \<Longrightarrow> decode owner name a (asdict w) = Inr w"
    and "decode_items owner name a vs = Inr ws"
  shows "decode_items owner name a (map asdict ws) = Inr ws"
  using assms(2)
proof (induction vs arbitrary: ws)
  case (Cons v vs)
  then show ?case
    using assms(1) by (auto simp: decode_items.simps split: sum.splits)
qed (simp add: decode_items.simps)

lemma redecode_entries:
  assumes "\<And>v w. decode owner name a v = Inr w \<Longrightarrow> decode owner name a (asdict w) = Inr w"
    and "decode_entries owner name a kvs = Inr kws"
  shows "decode_entries owner name a (map (\<lambda>(k, w). (k, asdict w)) kws) = Inr kws"
  using assms(2)
proof (induction kvs arbitrary: kws)
  case (Cons v vs)
  then show ?case
    using assms(1) by (auto simp: decode_entries.simps split: sum.splits)
qed (simp add: decode_entries.simps)

lemma redecode_fields:
  assumes "\<And>f v w. f \<in> set flds \<Longrightarrow> decode cls (fst f) (fst (snd f)) v = Inr w \<Longrightarrow> redecodes cls f w"
    and "\<And>f d. f \<in> set flds \<Longrightarrow> snd (snd f) = Some d \<Longrightarrow> redecodes cls f d"
    and "\<And>f. f \<in> set flds \<Longrightarrow> snd (snd f) = None \<Longrightarrow> dict_get kvs (fst f) \<noteq> None"
    and "decode_fields cls flds kvs = Inr kws"
  shows "list_all2 (\<lambda>f p. fst p = fst f \<and> redecodes cls f (snd p)) flds kws"
  using assms
proof (induction flds arbitrary: kws)
  case (Cons f flds)
  from Cons.prems(4) obtain w kws' where kws: "kws = (fst f, w) # kws'"
    and head: "(case dict_get kvs (fst f) of Some v \<Rightarrow> decode cls (fst f) (fst (snd f)) v
       | None \<Rightarrow> Inr (case snd (snd f) of Some d \<Rightarrow> d | None \<Rightarrow> PVal JNull)) = Inr w"
    and tail: "decode_fields cls flds kvs = Inr kws'"
    by (auto simp: decode_fields.simps split: sum.splits)
  have "redecodes cls f w"
    using head Cons.prems(1) [of f] Cons.prems(2,3) [of f] by (auto split: option.splits)
  moreover have "list_all2 (\<lambda>f p. fst p = fst f \<and> redecodes cls f (snd p)) flds kws'"
    using Cons.IH [OF _ _ _ tail] Cons.prems(1-3) by simp
  ultimately show ?case by (simp add: kws)
qed (simp add: decode_fields.simps)

lemma redecode: "wf_ann a \<Longrightarrow> decode owner name a v = Inr w \<Longrightarrow> decode owner name a (asdict w) = Inr w"
proof (induction a arbitrary: owner name v w rule: wf_ann.induct)
  case (1 a)
  then show ?case
    using redecode_items [of owner name a]
    by (auto simp: decode.simps [of owner name "AList a"] split: json.splits)
next
  case (2 a)
  then show ?case
    using redecode_entries [of owner name a]
    by (auto simp: decode.simps [of owner name "ADict a"] split: json.splits)
next
  case (3 arms)
  show ?case
  proof (cases "v = JNull \<and> ANone \<in> set arms")
    case True
    with 3 show ?thesis by (auto simp: decode.simps [of owner name "AUnion arms"])
  next
    case False
    with "3.prems"(2) have arms: "decode_arms owner name arms v = Inr w"
      by (auto simp: decode.simps [of owner name "AUnion arms"] split: if_splits)
    show ?thesis
    proof (cases "list_all scalar_ann arms")
      case True
      with arms have "w = PVal v" by (auto dest: decode_arms_scalar)
      with "3.prems"(2) show ?thesis by simp
    next
      case not_scalar: False
      with "3.prems"(1) obtain b where b: "filter (\<lambda>a. a \<noteq> ANone) arms = [b]"
        by (auto simp: length_Suc_conv)
      then have "b \<in> set arms" by (metis filter_is_subset list.set_intros(1) subsetD)
      with 3 arms have "decode owner name b (asdict w) = Inr w" by (simp add: decode_arms_single [OF b])
      then show ?thesis
        by (auto simp: decode.simps [of owner name "AUnion arms"] decode_arms_single [OF b] asdict_JNull)
    qed
  qed
next
  case (4 cls flds)
  from "4.prems"(2) obtain kvs kws where v: "v = JObj kvs" and w: "w = PObj cls kws"
    and missing: "filter (\<lambda>n. \<not> dict_has kvs n) (required flds) = []"
    and flds: "decode_fields cls flds kvs = Inr kws"
    by (auto simp: decode.simps [of owner name "AClass cls flds"] split: json.splits list.splits)
  have all2: "list_all2 (\<lambda>f p. fst p = fst f \<and> redecodes cls f (snd p)) flds kws"
  proof (rule redecode_fields [OF _ _ _ flds])
    show "redecodes cls f u" if "f \<in> set flds" "decode cls (fst f) (fst (snd f)) x = Inr u" for f x u
      unfolding redecodes_def using "4.IH" [OF that(1) _ that(2)] "4.prems"(1) that(1) by simp
    show "redecodes cls f d" if "f \<in> set flds" "snd (snd f) = Some d" for f d
      using "4.prems"(1) that by (fastforce simp: redecodes_def)
    show "dict_get kvs (fst f) \<noteq> None" if "f \<in> set flds" "snd (snd f) = None" for f
      using missing that by (rule missing_none)
  qed
  let ?kvs = "map (\<lambda>(k, w). (k, asdict w)) kws"
  have names: "map fst kws = map fst flds" using decode_fields_names [OF flds] .
  then have "dict_ok kws" using "4.prems"(1) by simp
  then have "\<forall>p\<in>set kws. dict_get ?kvs (fst p) = Some (asdict (snd p))"
    by (auto simp: map_of_asdict)
  then have "decode_fields cls flds ?kvs = Inr kws" by (rule decode_fields_redecode [OF all2])
  moreover have "filter (\<lambda>n. \<not> dict_has ?kvs n) (required flds) = []"
  proof -
    have "set (required flds) \<subseteq> set (map fst kws)" unfolding names by (auto simp: required_def)
    then show ?thesis by (auto simp: filter_empty_conv dict_has_def map_of_asdict map_of_eq_None_iff)
  qed
  ultimately show ?case by (simp add: w decode.simps [of owner name "AClass cls flds"])
qed (auto simp: decode.simps split: if_splits)

end
