(* ===== verification/Payloads.thy ===== *)
theory Payloads
  imports Codec
begin

text \<open>
  \<open>protocol/reasons.py\<close> and \<open>protocol/payloads.py\<close>: the closed reason vocabularies, every
  payload class as the annotation tree the codec walks, the message catalogue, and the rules a
  \<open>command.result\<close> obeys at construction.
\<close>

section \<open>Reason vocabularies\<close>

datatype cancel_reason =
    CancelShutdown
  | CancelOperator

fun cancel_reason_value :: "cancel_reason \<Rightarrow> string" where
  "cancel_reason_value CancelShutdown = ''shutdown''"
| "cancel_reason_value CancelOperator = ''operator''"

definition cancel_reasons :: "cancel_reason list" where
  "cancel_reasons =
     [CancelShutdown, CancelOperator]"

datatype (plugins only: code) failure_reason =
    FUnknownCommand
  | FForbidden
  | FValidationFailed
  | FSignoffSealed
  | FRestartRequired
  | FExitCode
  | FTimeout
  | FOsError
  | FAgentOverloaded
  | FSessionClosing
  | FCancelled
  | FIntegrationFailed
  | FAdminApiUnconfigured
  | FNotConfigured
  | FNotFound
  | FReadFailed
  | FAuthFailed
  | FConfigInvalid
  | FInvalidTier
  | FInvalidKeyTier
  | FRollbackFailed
  | FBucketCreateFailed
  | FBucketDeleteFailed
  | FBucketInfoFailed
  | FBucketNotEmpty
  | FBucketReadFailed
  | FBucketNotFound
  | FCorsRulesStale
  | FCorsRulesUnreadable
  | FCorsUpdateFailed
  | FClearStalled
  | FCollectionFailed
  | FDeleteRailTripped
  | FAccountKeyCreateFailed
  | FAdminKeyCreateFailed
  | FKeyReadFailed
  | FKeyDeleteFailed
  | FNewKeyCreateFailed
  | FNewKeyReadFailed
  | FNewKeyPermissionGrantFailed
  | FNewKeyAliasAttachFailed
  | FOldKeyReadFailed
  | FOldKeyDeleteFailed
  | FPurgeKeyMintFailed
  | FPurgeKeyGrantFailed
  | FPurgeAliasFailed
  | FGrantFailed
  | FGrantUnconfirmed
  | FGrantNotPresent
  | FGrantStillPresent
  | FGrantRevokeFailed
  | FGrantNarrowFailed
  | FGrantAbsenceUnconfirmed
  | FNarrowAllowFailed
  | FNarrowDenyFailed
  | FSnapshotReadFailed
  | FStrandCheckFailed
  | FWouldStrand
  | FReapFailed
  | FPersistFailed
  | FReloadFailed
  | FUsageError
  | FRcloneError
  | FPathNotFound
  | FRetryableError
  | FPartialFailure
  | FFatalError
  | FTransferLimitExceeded
  | FDurationLimitExceeded
  | FUnparseableOutput
  | FRestoreMismatch
  | FNoSampleObject

primrec failure_reason_value :: "failure_reason \<Rightarrow> string" where
  "failure_reason_value FUnknownCommand = ''unknown_command''"
| "failure_reason_value FForbidden = ''forbidden''"
| "failure_reason_value FValidationFailed = ''validation_failed''"
| "failure_reason_value FSignoffSealed = ''signoff_sealed''"
| "failure_reason_value FRestartRequired = ''restart_required''"
| "failure_reason_value FExitCode = ''exit_code''"
| "failure_reason_value FTimeout = ''timeout''"
| "failure_reason_value FOsError = ''os_error''"
| "failure_reason_value FAgentOverloaded = ''agent_overloaded''"
| "failure_reason_value FSessionClosing = ''session_closing''"
| "failure_reason_value FCancelled = ''cancelled''"
| "failure_reason_value FIntegrationFailed = ''integration_failed''"
| "failure_reason_value FAdminApiUnconfigured = ''admin_api_unconfigured''"
| "failure_reason_value FNotConfigured = ''not_configured''"
| "failure_reason_value FNotFound = ''not_found''"
| "failure_reason_value FReadFailed = ''read_failed''"
| "failure_reason_value FAuthFailed = ''auth_failed''"
| "failure_reason_value FConfigInvalid = ''config_invalid''"
| "failure_reason_value FInvalidTier = ''invalid_tier''"
| "failure_reason_value FInvalidKeyTier = ''invalid_key_tier''"
| "failure_reason_value FRollbackFailed = ''rollback_failed''"
| "failure_reason_value FBucketCreateFailed = ''bucket_create_failed''"
| "failure_reason_value FBucketDeleteFailed = ''bucket_delete_failed''"
| "failure_reason_value FBucketInfoFailed = ''bucket_info_failed''"
| "failure_reason_value FBucketNotEmpty = ''bucket_not_empty''"
| "failure_reason_value FBucketReadFailed = ''bucket_read_failed''"
| "failure_reason_value FBucketNotFound = ''bucket_not_found''"
| "failure_reason_value FCorsRulesStale = ''cors_rules_stale''"
| "failure_reason_value FCorsRulesUnreadable = ''cors_rules_unreadable''"
| "failure_reason_value FCorsUpdateFailed = ''cors_update_failed''"
| "failure_reason_value FClearStalled = ''clear_stalled''"
| "failure_reason_value FCollectionFailed = ''collection_failed''"
| "failure_reason_value FDeleteRailTripped = ''delete_rail_tripped''"
| "failure_reason_value FAccountKeyCreateFailed = ''account_key_create_failed''"
| "failure_reason_value FAdminKeyCreateFailed = ''admin_key_create_failed''"
| "failure_reason_value FKeyReadFailed = ''key_read_failed''"
| "failure_reason_value FKeyDeleteFailed = ''key_delete_failed''"
| "failure_reason_value FNewKeyCreateFailed = ''new_key_create_failed''"
| "failure_reason_value FNewKeyReadFailed = ''new_key_read_failed''"
| "failure_reason_value FNewKeyPermissionGrantFailed = ''new_key_permission_grant_failed''"
| "failure_reason_value FNewKeyAliasAttachFailed = ''new_key_alias_attach_failed''"
| "failure_reason_value FOldKeyReadFailed = ''old_key_read_failed''"
| "failure_reason_value FOldKeyDeleteFailed = ''old_key_delete_failed''"
| "failure_reason_value FPurgeKeyMintFailed = ''purge_key_mint_failed''"
| "failure_reason_value FPurgeKeyGrantFailed = ''purge_key_grant_failed''"
| "failure_reason_value FPurgeAliasFailed = ''purge_alias_failed''"
| "failure_reason_value FGrantFailed = ''grant_failed''"
| "failure_reason_value FGrantUnconfirmed = ''grant_unconfirmed''"
| "failure_reason_value FGrantNotPresent = ''grant_not_present''"
| "failure_reason_value FGrantStillPresent = ''grant_still_present''"
| "failure_reason_value FGrantRevokeFailed = ''grant_revoke_failed''"
| "failure_reason_value FGrantNarrowFailed = ''grant_narrow_failed''"
| "failure_reason_value FGrantAbsenceUnconfirmed = ''grant_absence_unconfirmed''"
| "failure_reason_value FNarrowAllowFailed = ''narrow_allow_failed''"
| "failure_reason_value FNarrowDenyFailed = ''narrow_deny_failed''"
| "failure_reason_value FSnapshotReadFailed = ''snapshot_read_failed''"
| "failure_reason_value FStrandCheckFailed = ''strand_check_failed''"
| "failure_reason_value FWouldStrand = ''would_strand''"
| "failure_reason_value FReapFailed = ''reap_failed''"
| "failure_reason_value FPersistFailed = ''persist_failed''"
| "failure_reason_value FReloadFailed = ''reload_failed''"
| "failure_reason_value FUsageError = ''usage_error''"
| "failure_reason_value FRcloneError = ''rclone_error''"
| "failure_reason_value FPathNotFound = ''path_not_found''"
| "failure_reason_value FRetryableError = ''retryable_error''"
| "failure_reason_value FPartialFailure = ''partial_failure''"
| "failure_reason_value FFatalError = ''fatal_error''"
| "failure_reason_value FTransferLimitExceeded = ''transfer_limit_exceeded''"
| "failure_reason_value FDurationLimitExceeded = ''duration_limit_exceeded''"
| "failure_reason_value FUnparseableOutput = ''unparseable_output''"
| "failure_reason_value FRestoreMismatch = ''restore_mismatch''"
| "failure_reason_value FNoSampleObject = ''no_sample_object''"

definition failure_reasons :: "failure_reason list" where
  "failure_reasons =
     [FUnknownCommand, FForbidden, FValidationFailed, FSignoffSealed,
      FRestartRequired, FExitCode, FTimeout, FOsError,
      FAgentOverloaded, FSessionClosing, FCancelled, FIntegrationFailed,
      FAdminApiUnconfigured, FNotConfigured, FNotFound, FReadFailed,
      FAuthFailed, FConfigInvalid, FInvalidTier, FInvalidKeyTier,
      FRollbackFailed, FBucketCreateFailed, FBucketDeleteFailed, FBucketInfoFailed,
      FBucketNotEmpty, FBucketReadFailed, FBucketNotFound, FCorsRulesStale,
      FCorsRulesUnreadable, FCorsUpdateFailed, FClearStalled, FCollectionFailed,
      FDeleteRailTripped, FAccountKeyCreateFailed, FAdminKeyCreateFailed, FKeyReadFailed,
      FKeyDeleteFailed, FNewKeyCreateFailed, FNewKeyReadFailed, FNewKeyPermissionGrantFailed,
      FNewKeyAliasAttachFailed, FOldKeyReadFailed, FOldKeyDeleteFailed, FPurgeKeyMintFailed,
      FPurgeKeyGrantFailed, FPurgeAliasFailed, FGrantFailed, FGrantUnconfirmed,
      FGrantNotPresent, FGrantStillPresent, FGrantRevokeFailed, FGrantNarrowFailed,
      FGrantAbsenceUnconfirmed, FNarrowAllowFailed, FNarrowDenyFailed, FSnapshotReadFailed,
      FStrandCheckFailed, FWouldStrand, FReapFailed, FPersistFailed,
      FReloadFailed, FUsageError, FRcloneError, FPathNotFound,
      FRetryableError, FPartialFailure, FFatalError, FTransferLimitExceeded,
      FDurationLimitExceeded, FUnparseableOutput, FRestoreMismatch, FNoSampleObject]"

section \<open>Message types\<close>

datatype message_type =
    MtHeartbeat
  | MtMetricsPush
  | MtCommandResult
  | MtCommandProgress
  | MtCommandCancelled
  | MtRegister
  | MtLogBatch
  | MtEventsBatch
  | MtSignoffState
  | MtCommandRequest
  | MtCommandSequence
  | MtLogBatchAck
  | MtEventsBatchAck
  | MtEventsBatchNack
  | MtRegisterOk
  | MtHeartbeatAck
  | MtMetricsAck
  | MtCommandResultAck
  | MtSignoffStateAck
  | MtError

primrec message_type_value :: "message_type \<Rightarrow> string" where
  "message_type_value MtHeartbeat = ''heartbeat''"
| "message_type_value MtMetricsPush = ''metrics.push''"
| "message_type_value MtCommandResult = ''command.result''"
| "message_type_value MtCommandProgress = ''command.progress''"
| "message_type_value MtCommandCancelled = ''command.cancelled''"
| "message_type_value MtRegister = ''register''"
| "message_type_value MtLogBatch = ''log.batch''"
| "message_type_value MtEventsBatch = ''events.batch''"
| "message_type_value MtSignoffState = ''signoff.state''"
| "message_type_value MtCommandRequest = ''command.request''"
| "message_type_value MtCommandSequence = ''command.sequence''"
| "message_type_value MtLogBatchAck = ''log.batch.ack''"
| "message_type_value MtEventsBatchAck = ''events.batch.ack''"
| "message_type_value MtEventsBatchNack = ''events.batch.nack''"
| "message_type_value MtRegisterOk = ''register.ok''"
| "message_type_value MtHeartbeatAck = ''heartbeat.ack''"
| "message_type_value MtMetricsAck = ''metrics.ack''"
| "message_type_value MtCommandResultAck = ''command.result.ack''"
| "message_type_value MtSignoffStateAck = ''signoff.state.ack''"
| "message_type_value MtError = ''error''"

definition message_types :: "message_type list" where
  "message_types =
     [MtHeartbeat, MtMetricsPush, MtCommandResult, MtCommandProgress,
      MtCommandCancelled, MtRegister, MtLogBatch, MtEventsBatch,
      MtSignoffState, MtCommandRequest, MtCommandSequence, MtLogBatchAck,
      MtEventsBatchAck, MtEventsBatchNack, MtRegisterOk, MtHeartbeatAck,
      MtMetricsAck, MtCommandResultAck, MtSignoffStateAck, MtError]"

section \<open>Payload classes\<close>

definition ann_ContainerInfo :: ann where
  "ann_ContainerInfo = AClass ''ContainerInfo''
     [(''name'', AStr, None),
      (''status'', AStr, None),
      (''image'', AStr, None)]"

definition ann_DiskInfo :: ann where
  "ann_DiskInfo = AClass ''DiskInfo''
     [(''device'', AStr, None),
      (''mount'', AStr, None),
      (''fstype'', AStr, None),
      (''used_bytes'', AInt, None),
      (''total_bytes'', AInt, None)]"

definition ann_IntegrationReport :: ann where
  "ann_IntegrationReport = AClass ''IntegrationReport''
     [(''status'', AStr, None),
      (''disabled_reason'', AUnion [AStr, ANone], None),
      (''state'', AUnion [(ADict AAny), ANone], None),
      (''command_specs_digest'', AStr, None),
      (''commands_fenced'', AUnion [AStr, ANone], None),
      (''generation'', AInt, None),
      (''complete'', ABool, None),
      (''last_full_read_at'', AStr, None),
      (''changed_ids'', AList AStr, None)]"

definition ann_MetricsPayload :: ann where
  "ann_MetricsPayload = AClass ''MetricsPayload''
     [(''cpu_percent'', AFloat, None),
      (''memory_percent'', AFloat, None),
      (''memory_used_mb'', AFloat, None),
      (''memory_total_mb'', AFloat, None),
      (''disk_percent'', AFloat, None),
      (''disk_used_gb'', AFloat, None),
      (''disk_total_gb'', AFloat, None),
      (''load_avg_1m'', AFloat, None),
      (''load_avg_5m'', AFloat, None),
      (''uptime_seconds'', AFloat, None),
      (''containers'', AList ann_ContainerInfo, None),
      (''integrations'', AUnion [(ADict ann_IntegrationReport), ANone], Some (PVal JNull)),
      (''jobs'', AUnion [(ADict AInt), ANone], Some (PVal JNull)),
      (''disks'', AUnion [(AList ann_DiskInfo), ANone], Some (PVal JNull))]"

definition ann_CommandRequestPayload :: ann where
  "ann_CommandRequestPayload = AClass ''CommandRequestPayload''
     [(''command'', AStr, None),
      (''params'', ADict AAny, None),
      (''hmac'', AStr, None),
      (''nonce'', AStr, None)]"

definition ann_Step :: ann where
  "ann_Step = AClass ''Step''
     [(''command'', AStr, None),
      (''params'', ADict AAny, None)]"

definition ann_CommandSequencePayload :: ann where
  "ann_CommandSequencePayload = AClass ''CommandSequencePayload''
     [(''sequence_id'', AStr, None),
      (''steps'', AList ann_Step, None),
      (''stop_on_failure'', ABool, None),
      (''hmac'', AStr, None),
      (''nonce'', AStr, None)]"

definition ann_CommandCancelledPayload :: ann where
  "ann_CommandCancelledPayload = AClass ''CommandCancelledPayload''
     [(''request_id'', AStr, None),
      (''command'', AStr, None),
      (''reason'', AStr, None)]"

definition ann_ResultError :: ann where
  "ann_ResultError = AClass ''ResultError''
     [(''code'', AStr, None),
      (''http_status'', AUnion [AInt, ANone], None),
      (''upstream_code'', AUnion [AStr, ANone], None),
      (''message'', AStr, None)]"

definition ann_CommandResultPayload :: ann where
  "ann_CommandResultPayload = AClass ''CommandResultPayload''
     [(''request_id'', AStr, None),
      (''command'', AStr, None),
      (''group'', AStr, None),
      (''success'', ABool, None),
      (''exit_code'', AInt, None),
      (''stdout'', AStr, None),
      (''stderr'', AStr, None),
      (''duration_ms'', AInt, None),
      (''sequence_id'', AUnion [AStr, ANone], Some (PVal JNull)),
      (''failure_reason'', AUnion [AStr, ANone], Some (PVal JNull)),
      (''result'', AUnion [(ADict AAny), ANone], Some (PVal JNull)),
      (''error'', AUnion [ann_ResultError, ANone], Some (PVal JNull)),
      (''step_index'', AUnion [AInt, ANone], Some (PVal JNull)),
      (''attempts'', AInt, Some (PVal (JInt 1))),
      (''retries_exhausted'', ABool, Some (PVal (JBool False)))]"

definition ann_CommandProgressPayload :: ann where
  "ann_CommandProgressPayload = AClass ''CommandProgressPayload''
     [(''request_id'', AStr, None),
      (''command'', AStr, None),
      (''group'', AStr, None),
      (''stage'', AStr, None),
      (''current'', AInt, None),
      (''total'', AUnion [AInt, ANone], Some (PVal JNull)),
      (''message'', AStr, Some (PVal (JStr ''''))),
      (''rate_bytes_per_sec'', AUnion [AInt, ANone], Some (PVal JNull)),
      (''eta_seconds'', AUnion [AInt, ANone], Some (PVal JNull)),
      (''objects_current'', AUnion [AInt, ANone], Some (PVal JNull)),
      (''objects_total'', AUnion [AInt, ANone], Some (PVal JNull)),
      (''bytes_freed'', AUnion [AInt, ANone], Some (PVal JNull))]"

definition ann_Component :: ann where
  "ann_Component = AClass ''Component''
     [(''name'', AStr, None),
      (''version'', AStr, None),
      (''digest'', AStr, None)]"

definition ann_RegisterPayload :: ann where
  "ann_RegisterPayload = AClass ''RegisterPayload''
     [(''version'', AStr, None),
      (''pulse_token'', AStr, None),
      (''speaks'', AList AInt, None),
      (''contract_digest'', AStr, None),
      (''wire_contract'', AStr, None),
      (''commands'', ADict AAny, None),
      (''integrations'', ADict ann_IntegrationReport, None),
      (''log_groups'', AList AStr, None),
      (''system_inventory'', ADict AAny, None),
      (''signoff_sealed'', ABool, None),
      (''unsealed_since'', AUnion [AStr, ANone], None),
      (''boot_id'', AStr, None),
      (''agent_started_at'', AStr, None),
      (''components'', AList ann_Component, None),
      (''in_flight'', AList AStr, None)]"

definition ann_SignoffStatePayload :: ann where
  "ann_SignoffStatePayload = AClass ''SignoffStatePayload''
     [(''signoff_sealed'', ABool, None),
      (''unsealed_since'', AUnion [AStr, ANone], Some (PVal JNull))]"

definition ann_LogBatchPayload :: ann where
  "ann_LogBatchPayload = AClass ''LogBatchPayload''
     [(''group'', AStr, None),
      (''parser'', AStr, None),
      (''batch_id'', AStr, None),
      (''lines'', AList (ADict AAny), None),
      (''dropped'', AInt, None),
      (''from_position'', AUnion [AInt, AStr], None),
      (''to_position'', AUnion [AInt, AStr], None)]"

definition ann_HeartbeatPayload :: ann where
  "ann_HeartbeatPayload = AClass ''HeartbeatPayload''
     []"

definition ann_EventsBatchPayload :: ann where
  "ann_EventsBatchPayload = AClass ''EventsBatchPayload''
     [(''batch_id'', AStr, None),
      (''events'', AList (ADict AAny), None)]"

definition ann_LogBatchAckPayload :: ann where
  "ann_LogBatchAckPayload = AClass ''LogBatchAckPayload''
     [(''batch_id'', AStr, None),
      (''group'', AUnion [AStr, ANone], Some (PVal JNull))]"

definition ann_EventsBatchAckPayload :: ann where
  "ann_EventsBatchAckPayload = AClass ''EventsBatchAckPayload''
     [(''batch_id'', AStr, None)]"

definition ann_EventsBatchNackPayload :: ann where
  "ann_EventsBatchNackPayload = AClass ''EventsBatchNackPayload''
     [(''batch_id'', AStr, None),
      (''reason'', AStr, None)]"

definition ann_RegisterOkPayload :: ann where
  "ann_RegisterOkPayload = AClass ''RegisterOkPayload''
     [(''protocol'', AInt, None),
      (''contract_digest'', AStr, None)]"

definition ann_MetricsAckPayload :: ann where
  "ann_MetricsAckPayload = AClass ''MetricsAckPayload''
     [(''push_id'', AStr, None)]"

definition ann_AckPayload :: ann where
  "ann_AckPayload = AClass ''AckPayload''
     []"

definition ann_ErrorPayload :: ann where
  "ann_ErrorPayload = AClass ''ErrorPayload''
     [(''error'', AStr, None),
      (''type'', AUnion [AStr, ANone], Some (PVal JNull))]"

lemmas payload_anns = ann_ContainerInfo_def ann_DiskInfo_def ann_IntegrationReport_def ann_MetricsPayload_def ann_CommandRequestPayload_def ann_Step_def ann_CommandSequencePayload_def ann_CommandCancelledPayload_def ann_ResultError_def ann_CommandResultPayload_def ann_CommandProgressPayload_def ann_Component_def ann_RegisterPayload_def ann_SignoffStatePayload_def ann_LogBatchPayload_def ann_HeartbeatPayload_def ann_EventsBatchPayload_def ann_LogBatchAckPayload_def ann_EventsBatchAckPayload_def ann_EventsBatchNackPayload_def ann_RegisterOkPayload_def ann_MetricsAckPayload_def ann_AckPayload_def ann_ErrorPayload_def

section \<open>The catalogue\<close>

datatype direction = AgentToDashboard | DashboardToAgent | BothWays

definition MESSAGES :: "(message_type \<times> direction \<times> ann) list" where
  "MESSAGES =
     [(MtHeartbeat, AgentToDashboard, ann_HeartbeatPayload),
      (MtMetricsPush, AgentToDashboard, ann_MetricsPayload),
      (MtCommandResult, AgentToDashboard, ann_CommandResultPayload),
      (MtCommandProgress, AgentToDashboard, ann_CommandProgressPayload),
      (MtCommandCancelled, AgentToDashboard, ann_CommandCancelledPayload),
      (MtRegister, AgentToDashboard, ann_RegisterPayload),
      (MtLogBatch, AgentToDashboard, ann_LogBatchPayload),
      (MtEventsBatch, AgentToDashboard, ann_EventsBatchPayload),
      (MtSignoffState, AgentToDashboard, ann_SignoffStatePayload),
      (MtCommandRequest, DashboardToAgent, ann_CommandRequestPayload),
      (MtCommandSequence, DashboardToAgent, ann_CommandSequencePayload),
      (MtLogBatchAck, DashboardToAgent, ann_LogBatchAckPayload),
      (MtEventsBatchAck, DashboardToAgent, ann_EventsBatchAckPayload),
      (MtEventsBatchNack, DashboardToAgent, ann_EventsBatchNackPayload),
      (MtRegisterOk, DashboardToAgent, ann_RegisterOkPayload),
      (MtHeartbeatAck, DashboardToAgent, ann_AckPayload),
      (MtMetricsAck, DashboardToAgent, ann_MetricsAckPayload),
      (MtCommandResultAck, DashboardToAgent, ann_AckPayload),
      (MtSignoffStateAck, DashboardToAgent, ann_AckPayload),
      (MtError, BothWays, ann_ErrorPayload)]"

section \<open>Reading a decoded payload\<close>

text \<open>
  Attribute access on a decoded instance. The codec has checked every type by then, so the
  catch-all equations are never reached on its results.
\<close>

definition attr :: "pyval \<Rightarrow> string \<Rightarrow> pyval" where
  "attr w n = (case w of PObj cls kws \<Rightarrow> (case dict_get kws n of Some x \<Rightarrow> x | None \<Rightarrow> PVal JNull)
                       | _ \<Rightarrow> PVal JNull)"

fun pv_str :: "pyval \<Rightarrow> string" where
  "pv_str (PVal (JStr s)) = s" | "pv_str _ = []"

fun pv_int :: "pyval \<Rightarrow> int" where
  "pv_int (PVal (JInt i)) = i" | "pv_int _ = 0"

fun pv_bool :: "pyval \<Rightarrow> bool" where
  "pv_bool (PVal (JBool b)) = b" | "pv_bool _ = False"

fun pv_list :: "pyval \<Rightarrow> pyval list" where
  "pv_list (PList ws) = ws" | "pv_list _ = []"

fun pv_dict :: "pyval \<Rightarrow> (string \<times> json) list" where
  "pv_dict (PDict kws) = map (\<lambda>(k, w). (k, asdict w)) kws" | "pv_dict _ = []"

definition pv_opt :: "(pyval \<Rightarrow> 'a) \<Rightarrow> pyval \<Rightarrow> 'a option" where
  "pv_opt f w = (if w = PVal JNull then None else Some (f w))"

section \<open>Commands\<close>

record command_request =
  rq_command :: string
  rq_params :: "(string \<times> json) list"
  rq_hmac :: string
  rq_nonce :: string

record seq_step =
  st_command :: string
  st_params :: "(string \<times> json) list"

record command_sequence =
  sq_id :: string
  sq_steps :: "seq_step list"
  sq_stop_on_failure :: bool
  sq_hmac :: string
  sq_nonce :: string

definition as_request :: "pyval \<Rightarrow> command_request" where
  "as_request w =
     \<lparr>rq_command = pv_str (attr w ''command''), rq_params = pv_dict (attr w ''params''),
      rq_hmac = pv_str (attr w ''hmac''), rq_nonce = pv_str (attr w ''nonce'')\<rparr>"

definition as_step :: "pyval \<Rightarrow> seq_step" where
  "as_step w = \<lparr>st_command = pv_str (attr w ''command''), st_params = pv_dict (attr w ''params'')\<rparr>"

definition as_sequence :: "pyval \<Rightarrow> command_sequence" where
  "as_sequence w =
     \<lparr>sq_id = pv_str (attr w ''sequence_id''), sq_steps = map as_step (pv_list (attr w ''steps'')),
      sq_stop_on_failure = pv_bool (attr w ''stop_on_failure''),
      sq_hmac = pv_str (attr w ''hmac''), sq_nonce = pv_str (attr w ''nonce'')\<rparr>"

text \<open>\<open>from_dict\<close> of a top-level payload; the class names itself in the refusal.\<close>

definition from_dict :: "ann \<Rightarrow> json \<Rightarrow> protocol_error + pyval" where
  "from_dict a v = decode [] [] a v"

section \<open>A command's result\<close>

record result_error =
  re_code :: string
  re_http_status :: "int option"
  re_upstream_code :: "string option"
  re_message :: string

text \<open>
  The constructor's arguments and the constructed value differ only in \<open>failure_reason\<close>: a
  string on the way in, a member of the closed set afterwards.
\<close>

record 'r result_of =
  res_request_id :: string
  res_command :: string
  res_group :: string
  res_success :: bool
  res_exit_code :: int
  res_stdout :: string
  res_stderr :: string
  res_duration_ms :: int
  res_sequence_id :: "string option"
  res_failure_reason :: "'r option"
  res_result :: "(string \<times> json) list option"
  res_error :: "result_error option"
  res_step_index :: "int option"
  res_attempts :: int
  res_retries_exhausted :: bool

type_synonym result_args = "string result_of"
type_synonym command_result = "failure_reason result_of"

datatype result_fault =
    UnknownReason string string
  | SuccessWithError string

definition lift_reason :: "string \<Rightarrow> failure_reason option" where
  "lift_reason s = find (\<lambda>r. failure_reason_value r = s) failure_reasons"

definition derived_error :: "failure_reason option \<Rightarrow> string \<Rightarrow> result_error" where
  "derived_error reason stderr =
     \<lparr>re_code = (case reason of Some r \<Rightarrow> failure_reason_value r | None \<Rightarrow> ''unspecified''),
      re_http_status = None, re_upstream_code = None, re_message = stderr\<rparr>"

text \<open>\<open>CommandResultPayload.__post_init__\<close>: lift the reason, then the error rule.\<close>

definition with_reason :: "result_args \<Rightarrow> failure_reason option \<Rightarrow> result_error option \<Rightarrow> command_result" where
  "with_reason a reason err =
     \<lparr>res_request_id = res_request_id a, res_command = res_command a, res_group = res_group a,
      res_success = res_success a, res_exit_code = res_exit_code a, res_stdout = res_stdout a,
      res_stderr = res_stderr a, res_duration_ms = res_duration_ms a,
      res_sequence_id = res_sequence_id a, res_failure_reason = reason, res_result = res_result a,
      res_error = err, res_step_index = res_step_index a, res_attempts = res_attempts a,
      res_retries_exhausted = res_retries_exhausted a\<rparr>"

definition result_init :: "result_args \<Rightarrow> result_fault + command_result" where
  "result_init a =
     (case (case res_failure_reason a of
              None \<Rightarrow> Inr None
            | Some s \<Rightarrow> (case lift_reason s of
                          Some r \<Rightarrow> Inr (Some r)
                        | None \<Rightarrow> Inl (UnknownReason (res_command a) s))) of
        Inl e \<Rightarrow> Inl e
      | Inr reason \<Rightarrow>
          if res_success a \<and> res_error a \<noteq> None then Inl (SuccessWithError (res_command a))
          else if \<not> res_success a \<and> res_error a = None
            then Inr (with_reason a reason (Some (derived_error reason (res_stderr a))))
          else Inr (with_reason a reason (res_error a)))"

text \<open>\<open>CommandResultPayload.failed\<close>: refused, not found or never started.\<close>

definition result_failed ::
  "string \<Rightarrow> string \<Rightarrow> string \<Rightarrow> failure_reason \<Rightarrow> string \<Rightarrow> string option \<Rightarrow> int option \<Rightarrow> int
    \<Rightarrow> result_fault + command_result" where
  "result_failed request_id command grp reason message sequence_id step_index duration_ms =
     result_init
       \<lparr>res_request_id = request_id, res_command = command, res_group = grp,
        res_success = False, res_exit_code = -1, res_stdout = [], res_stderr = message,
        res_duration_ms = duration_ms, res_sequence_id = sequence_id,
        res_failure_reason = Some (failure_reason_value reason), res_result = None,
        res_error = None, res_step_index = step_index, res_attempts = 1,
        res_retries_exhausted = False\<rparr>"

section \<open>The result on the wire\<close>

definition opt_json :: "('a \<Rightarrow> json) \<Rightarrow> 'a option \<Rightarrow> json" where
  "opt_json f x = (case x of None \<Rightarrow> JNull | Some y \<Rightarrow> f y)"

definition error_json :: "result_error \<Rightarrow> json" where
  "error_json e =
     JObj [(''code'', JStr (re_code e)), (''http_status'', opt_json JInt (re_http_status e)),
           (''upstream_code'', opt_json JStr (re_upstream_code e)), (''message'', JStr (re_message e))]"

definition result_json :: "command_result \<Rightarrow> json" where
  "result_json r =
     JObj [(''request_id'', JStr (res_request_id r)), (''command'', JStr (res_command r)),
           (''group'', JStr (res_group r)), (''success'', JBool (res_success r)),
           (''exit_code'', JInt (res_exit_code r)), (''stdout'', JStr (res_stdout r)),
           (''stderr'', JStr (res_stderr r)), (''duration_ms'', JInt (res_duration_ms r)),
           (''sequence_id'', opt_json JStr (res_sequence_id r)),
           (''failure_reason'', opt_json (JStr \<circ> failure_reason_value) (res_failure_reason r)),
           (''result'', opt_json JObj (res_result r)), (''error'', opt_json error_json (res_error r)),
           (''step_index'', opt_json JInt (res_step_index r)),
           (''attempts'', JInt (res_attempts r)),
           (''retries_exhausted'', JBool (res_retries_exhausted r))]"

definition as_error :: "pyval \<Rightarrow> result_error" where
  "as_error w =
     \<lparr>re_code = pv_str (attr w ''code''), re_http_status = pv_opt pv_int (attr w ''http_status''),
      re_upstream_code = pv_opt pv_str (attr w ''upstream_code''),
      re_message = pv_str (attr w ''message'')\<rparr>"

definition as_result_args :: "pyval \<Rightarrow> result_args" where
  "as_result_args w =
     \<lparr>res_request_id = pv_str (attr w ''request_id''), res_command = pv_str (attr w ''command''),
      res_group = pv_str (attr w ''group''), res_success = pv_bool (attr w ''success''),
      res_exit_code = pv_int (attr w ''exit_code''), res_stdout = pv_str (attr w ''stdout''),
      res_stderr = pv_str (attr w ''stderr''), res_duration_ms = pv_int (attr w ''duration_ms''),
      res_sequence_id = pv_opt pv_str (attr w ''sequence_id''),
      res_failure_reason = pv_opt pv_str (attr w ''failure_reason''),
      res_result = pv_opt pv_dict (attr w ''result''),
      res_error = pv_opt as_error (attr w ''error''),
      res_step_index = pv_opt pv_int (attr w ''step_index''),
      res_attempts = pv_int (attr w ''attempts''),
      res_retries_exhausted = pv_bool (attr w ''retries_exhausted'')\<rparr>"

text \<open>\<open>CommandResultPayload.from_dict\<close>: the codec, then the constructor.\<close>

definition result_from_json :: "json \<Rightarrow> (protocol_error + result_fault) + command_result" where
  "result_from_json v =
     (case from_dict ann_CommandResultPayload v of
        Inl e \<Rightarrow> Inl (Inl e)
      | Inr w \<Rightarrow> map_result Inr (result_init (as_result_args w)))"

section \<open>Facts\<close>

lemma failure_reasons_all: "r \<in> set failure_reasons"
  by (cases r) (simp_all add: failure_reasons_def)

lemma failure_values_distinct: "distinct (map failure_reason_value failure_reasons)"
  unfolding failure_reasons_def list.map failure_reason_value.simps by code_simp

lemma failure_reason_value_inject [simp]: "failure_reason_value r = failure_reason_value r' \<longleftrightarrow> r = r'"
  using failure_values_distinct failure_reasons_all by (auto simp: distinct_map inj_on_def)

lemma lift_reason_value [simp]: "lift_reason (failure_reason_value r) = Some r"
proof (cases "lift_reason (failure_reason_value r)")
  case None
  then show ?thesis
    using failure_reasons_all [of r] by (auto simp: lift_reason_def find_None_iff)
next
  case (Some r')
  then show ?thesis by (auto simp: lift_reason_def find_Some_iff)
qed

lemma lift_reason_Some: "lift_reason s = Some r \<Longrightarrow> failure_reason_value r = s"
  by (auto simp: lift_reason_def find_Some_iff)

lemma message_types_all: "t \<in> set message_types"
  by (cases t) (simp_all add: message_types_def)

lemma payload_wf:
  "wf_ann ann_ContainerInfo" "wf_ann ann_DiskInfo" "wf_ann ann_IntegrationReport"
  "wf_ann ann_MetricsPayload" "wf_ann ann_CommandRequestPayload" "wf_ann ann_Step"
  "wf_ann ann_CommandSequencePayload" "wf_ann ann_CommandCancelledPayload"
  "wf_ann ann_ResultError" "wf_ann ann_CommandResultPayload" "wf_ann ann_CommandProgressPayload"
  "wf_ann ann_Component" "wf_ann ann_RegisterPayload" "wf_ann ann_SignoffStatePayload"
  "wf_ann ann_LogBatchPayload" "wf_ann ann_HeartbeatPayload" "wf_ann ann_EventsBatchPayload"
  "wf_ann ann_LogBatchAckPayload" "wf_ann ann_EventsBatchAckPayload"
  "wf_ann ann_EventsBatchNackPayload" "wf_ann ann_RegisterOkPayload" "wf_ann ann_MetricsAckPayload"
  "wf_ann ann_AckPayload" "wf_ann ann_ErrorPayload"
  by (simp_all add: payload_anns decode.simps decode_arms.simps scalar_ann_def)

lemma messages_wf: "(t, d, a) \<in> set MESSAGES \<Longrightarrow> wf_ann a"
  by (auto simp: MESSAGES_def payload_wf)

lemma decode_any_entries [simp]:
  "decode_entries owner name AAny kvs = Inr (map (\<lambda>(k, v). (k, PVal v)) kvs)"
  by (induction kvs) (auto simp: decode_entries.simps decode.simps)

lemma pv_dict_any [simp]: "pv_dict (PDict (map (\<lambda>(k, v). (k, PVal v)) kvs)) = kvs"
  by (induction kvs) auto

lemma decode_error_json:
  "decode owner name ann_ResultError (error_json e) =
     Inr (PObj ''ResultError''
       [(''code'', PVal (JStr (re_code e))), (''http_status'', PVal (opt_json JInt (re_http_status e))),
        (''upstream_code'', PVal (opt_json JStr (re_upstream_code e))),
        (''message'', PVal (JStr (re_message e)))])"
  by (simp add: ann_ResultError_def error_json_def opt_json_def decode.simps decode_fields.simps
      decode_arms.simps required_def dict_has_def split: option.splits)

lemma pv_opt_json [simp]:
  "pv_opt pv_int (PVal (opt_json JInt i)) = i"
  "pv_opt pv_str (PVal (opt_json JStr s)) = s"
  by (simp_all add: pv_opt_def opt_json_def split: option.splits)

lemma dict_get_filter:
  "n \<in> K \<Longrightarrow> dict_get (filter (\<lambda>p. fst p \<in> K) kvs) n = dict_get kvs n"
  by (induction kvs) auto

lemma decode_fields_known:
  "set (map fst flds) \<subseteq> K \<Longrightarrow>
    decode_fields cls flds (filter (\<lambda>p. fst p \<in> K) kvs) = decode_fields cls flds kvs"
  by (induction flds) (auto simp: decode_fields.simps dict_get_filter split: option.splits sum.splits)

lemma required_known: "n \<in> set (required flds) \<Longrightarrow> n \<in> set (map fst flds)"
  by (auto simp: required_def)

lemma decode_class_known:
  "decode owner name (AClass cls flds) (JObj (filter (\<lambda>p. fst p \<in> set (map fst flds)) kvs)) =
    decode owner name (AClass cls flds) (JObj kvs)"
proof -
  let ?K = "set (map fst flds)"
  let ?f = "filter (\<lambda>p. fst p \<in> ?K) kvs"
  have "filter (\<lambda>n. \<not> dict_has ?f n) (required flds) = filter (\<lambda>n. \<not> dict_has kvs n) (required flds)"
    by (rule filter_cong [OF refl]) (simp only: dict_has_def dict_get_filter [OF required_known])
  then show ?thesis
    by (simp only: decode.simps [of owner name "AClass cls flds"] decode_fields_known [OF subset_refl]
        ann.case json.case)
qed

text \<open>Decoding a value known to have the annotated type, one equation per annotation in use.\<close>

lemma decode_leaf:
  "decode owner name AStr (JStr s) = Inr (PVal (JStr s))"
  "decode owner name AInt (JInt i) = Inr (PVal (JInt i))"
  "decode owner name ABool (JBool b) = Inr (PVal (JBool b))"
  "decode owner name (ADict AAny) (JObj kvs) = Inr (PDict (map (\<lambda>(k, v). (k, PVal v)) kvs))"
  by (simp_all add: decode.simps)

lemma decode_class:
  "decode owner name (AClass cls flds) (JObj kvs) =
     (case filter (\<lambda>n. \<not> dict_has kvs n) (required flds) of
        [] \<Rightarrow> map_sum id (PObj cls) (decode_fields cls flds kvs)
      | missing \<Rightarrow> Inl (bad_envelope (MissingFields cls missing)))"
  by (simp add: decode.simps)

lemma decode_optional:
  "a \<noteq> ANone \<Longrightarrow>
    decode owner name (AUnion [a, ANone]) v = (if v = JNull then Inr (PVal JNull) else decode owner name a v)"
  by (simp add: decode.simps [of owner name "AUnion [a, ANone]"] decode_arms.simps)

lemma decode_opt_json:
  "decode owner name (AUnion [AStr, ANone]) (opt_json JStr x) = Inr (PVal (opt_json JStr x))"
  "decode owner name (AUnion [AInt, ANone]) (opt_json JInt i) = Inr (PVal (opt_json JInt i))"
  "decode owner name (AUnion [AStr, ANone]) (opt_json (JStr \<circ> f) y) = Inr (PVal (opt_json (JStr \<circ> f) y))"
  by (auto simp: decode_optional decode_leaf opt_json_def split: option.splits)

text \<open>The decoded form of the two nested fields of a result.\<close>

definition wire_figures :: "(string \<times> json) list option \<Rightarrow> pyval" where
  "wire_figures x = (case x of None \<Rightarrow> PVal JNull | Some kvs \<Rightarrow> PDict (map (\<lambda>(k, v). (k, PVal v)) kvs))"

definition wire_error :: "result_error option \<Rightarrow> pyval" where
  "wire_error x = (case x of None \<Rightarrow> PVal JNull | Some e \<Rightarrow>
     PObj ''ResultError''
       [(''code'', PVal (JStr (re_code e))), (''http_status'', PVal (opt_json JInt (re_http_status e))),
        (''upstream_code'', PVal (opt_json JStr (re_upstream_code e))),
        (''message'', PVal (JStr (re_message e)))])"

lemma decode_wire_figures:
  "decode owner name (AUnion [ADict AAny, ANone]) (opt_json JObj x) = Inr (wire_figures x)"
  by (auto simp: decode_optional decode_leaf opt_json_def wire_figures_def split: option.splits)

lemma opt_json_None: "opt_json f None = JNull"
  by (simp add: opt_json_def)

lemma opt_json_Some: "opt_json f (Some x) = f x"
  by (simp add: opt_json_def)

lemma error_not_null: "error_json e \<noteq> JNull"
  by (simp add: error_json_def)

lemma decode_wire_error:
  "decode owner name (AUnion [ann_ResultError, ANone]) (opt_json error_json x) = Inr (wire_error x)"
proof -
  have "ann_ResultError \<noteq> ANone" by (simp add: ann_ResultError_def)
  then show ?thesis
    by (cases x) (simp_all add: decode_optional opt_json_None opt_json_Some error_not_null decode_error_json
        wire_error_def)
qed

lemma read_wire:
  "pv_opt pv_dict (wire_figures x) = x" "pv_opt as_error (wire_error e) = e"
  by (auto simp: pv_opt_def wire_figures_def wire_error_def as_error_def attr_def opt_json_def
      simp del: pv_dict.simps split: option.splits)

definition with_strings :: "command_result \<Rightarrow> result_args" where
  "with_strings r =
     \<lparr>res_request_id = res_request_id r, res_command = res_command r, res_group = res_group r,
      res_success = res_success r, res_exit_code = res_exit_code r, res_stdout = res_stdout r,
      res_stderr = res_stderr r, res_duration_ms = res_duration_ms r,
      res_sequence_id = res_sequence_id r,
      res_failure_reason = map_option failure_reason_value (res_failure_reason r),
      res_result = res_result r, res_error = res_error r, res_step_index = res_step_index r,
      res_attempts = res_attempts r, res_retries_exhausted = res_retries_exhausted r\<rparr>"

lemma pv_opt_reason:
  "pv_opt pv_str (PVal (opt_json (JStr \<circ> failure_reason_value) x)) = map_option failure_reason_value x"
  by (auto simp: pv_opt_def opt_json_def split: option.splits)

lemma result_init_strings:
  "(res_success r \<longleftrightarrow> res_error r = None) \<Longrightarrow> result_init (with_strings r) = Inr r"
  by (auto simp: result_init_def with_strings_def with_reason_def split: option.splits)

section \<open>Properties\<close>

text \<open>
  The catalogue is total and unambiguous: every message type has exactly one row, no two
  outbound rows share a payload class (so \<open>make\<close> resolves a type from a class), and every
  payload class is well formed: distinct fields, each default a value of its own annotation.
\<close>

theorem catalogue_total:
  "map fst MESSAGES = message_types
    \<and> distinct message_types
    \<and> distinct (map (\<lambda>(t, d, a). a) (filter (\<lambda>(t, d, a). d \<noteq> DashboardToAgent) MESSAGES))
    \<and> list_all (\<lambda>(t, d, a). wf_ann a) MESSAGES
    \<and> (\<exists>!row. row \<in> set MESSAGES \<and> fst row = t)"
proof (intro conjI)
  show 1: "map fst MESSAGES = message_types" by (simp add: MESSAGES_def message_types_def)
  show 2: "distinct message_types" by code_simp
  show "distinct (map (\<lambda>(t, d, a). a) (filter (\<lambda>(t, d, a). d \<noteq> DashboardToAgent) MESSAGES))"
    by code_simp
  show "list_all (\<lambda>(t, d, a). wf_ann a) MESSAGES"
    by (auto simp: list_all_iff messages_wf)
  from message_types_all 1 obtain row where "row \<in> set MESSAGES" "fst row = t"
    by (metis imageE list.set_map)
  moreover from 1 2 have "inj_on fst (set MESSAGES)" by (metis distinct_map)
  ultimately show "\<exists>!row. row \<in> set MESSAGES \<and> fst row = t" by (auto dest: inj_onD)
qed

text \<open>
  A tolerant reader: for every class of the catalogue, decoding a JSON object is decoding
  the object cut down to the fields the class declares; an unknown key changes nothing, not
  even the refusal.
\<close>

theorem unknown_keys_ignored:
  assumes "(t, d, AClass cls flds) \<in> set MESSAGES"
  shows "from_dict (AClass cls flds) (JObj (filter (\<lambda>p. fst p \<in> set (map fst flds)) kvs)) =
    from_dict (AClass cls flds) (JObj kvs)"
  unfolding from_dict_def by (rule decode_class_known)

theorem unknown_keys_ignored_witness:
  "from_dict ann_MetricsAckPayload
      (JObj (filter (\<lambda>p. fst p \<in> {''push_id''}) [(''later'', JNull), (''push_id'', JStr ''p1'')])) =
    from_dict ann_MetricsAckPayload (JObj [(''later'', JNull), (''push_id'', JStr ''p1'')])"
  using unknown_keys_ignored [of MtMetricsAck DashboardToAgent "''MetricsAckPayload''"
      "[(''push_id'', AStr, None)]" "[(''later'', JNull), (''push_id'', JStr ''p1'')]"]
  by (simp add: MESSAGES_def ann_MetricsAckPayload_def)

text \<open>
  What was decoded and sent on decodes to the same payload: for every class of the
  catalogue, \<open>asdict\<close> of an accepted payload is accepted, and gives that payload back.
\<close>

theorem decoded_payload_stable:
  assumes "(t, d, a) \<in> set MESSAGES" and "from_dict a v = Inr w"
  shows "from_dict a (asdict w) = Inr w"
  using redecode [OF messages_wf [OF assms(1)]] assms(2) unfolding from_dict_def by blast

theorem decoded_payload_stable_witness:
  "from_dict ann_MetricsAckPayload
      (asdict (PObj ''MetricsAckPayload'' [(''push_id'', PVal (JStr ''p1''))])) =
    Inr (PObj ''MetricsAckPayload'' [(''push_id'', PVal (JStr ''p1''))])"
proof (rule decoded_payload_stable)
  show "(MtMetricsAck, DashboardToAgent, ann_MetricsAckPayload) \<in> set MESSAGES"
    by (simp add: MESSAGES_def)
  show "from_dict ann_MetricsAckPayload (JObj [(''later'', JNull), (''push_id'', JStr ''p1'')]) =
      Inr (PObj ''MetricsAckPayload'' [(''push_id'', PVal (JStr ''p1''))])"
    by (simp add: from_dict_def ann_MetricsAckPayload_def decode_class required_def dict_has_def
        decode_fields.simps decode_leaf)
qed

text \<open>
  The one rule every \<open>command.result\<close> obeys: it is constructed exactly when its reason is
  in the closed set and it is not a success with an error, and then a success has no error and
  a failure has one, the given error or the one derived from reason and stderr.
\<close>

theorem result_rule:
  "result_init a = Inr r \<longleftrightarrow>
    (\<forall>s. res_failure_reason a = Some s \<longrightarrow> lift_reason s \<noteq> None)
    \<and> \<not> (res_success a \<and> res_error a \<noteq> None)
    \<and> r = with_reason a (Option.bind (res_failure_reason a) lift_reason)
        (if res_success a then None
         else if res_error a = None
           then Some (derived_error (Option.bind (res_failure_reason a) lift_reason) (res_stderr a))
         else res_error a)"
  by (auto simp: result_init_def split: option.splits sum.splits)

text \<open>
  C7. A constructed result survives the wire: for a result that obeys the rule (success iff no
  error) the receiver decodes the sent object to the same value, nested figures and derived
  error included.
\<close>

theorem result_roundtrip:
  assumes "res_success r \<longleftrightarrow> res_error r = None"
  shows "result_from_json (result_json r) = Inr r"
proof -
  let ?w = "PObj ''CommandResultPayload''
    [(''request_id'', PVal (JStr (res_request_id r))), (''command'', PVal (JStr (res_command r))),
     (''group'', PVal (JStr (res_group r))), (''success'', PVal (JBool (res_success r))),
     (''exit_code'', PVal (JInt (res_exit_code r))), (''stdout'', PVal (JStr (res_stdout r))),
     (''stderr'', PVal (JStr (res_stderr r))), (''duration_ms'', PVal (JInt (res_duration_ms r))),
     (''sequence_id'', PVal (opt_json JStr (res_sequence_id r))),
     (''failure_reason'', PVal (opt_json (JStr \<circ> failure_reason_value) (res_failure_reason r))),
     (''result'', wire_figures (res_result r)), (''error'', wire_error (res_error r)),
     (''step_index'', PVal (opt_json JInt (res_step_index r))),
     (''attempts'', PVal (JInt (res_attempts r))),
     (''retries_exhausted'', PVal (JBool (res_retries_exhausted r)))]"
  have "from_dict ann_CommandResultPayload (result_json r) = Inr ?w"
    by (simp add: from_dict_def decode_class ann_CommandResultPayload_def result_json_def required_def dict_has_def decode_fields.simps
        decode_leaf decode_opt_json decode_wire_figures decode_wire_error)
  moreover have "result_init (as_result_args ?w) = Inr r"
  proof -
    have "as_result_args ?w = with_strings r"
      by (simp add: as_result_args_def attr_def with_strings_def read_wire pv_opt_reason)
    then show ?thesis using assms by (simp add: result_init_strings)
  qed
  ultimately show ?thesis by (simp add: result_from_json_def)
qed

definition sample_failure :: command_result where
  "sample_failure =
     \<lparr>res_request_id = ''r1'', res_command = ''sync'', res_group = ''caddy'', res_success = False,
      res_exit_code = -1, res_stdout = [], res_stderr = ''no'', res_duration_ms = 0,
      res_sequence_id = None, res_failure_reason = Some FForbidden,
      res_result = Some [(''n'', JInt 3)],
      res_error = Some (derived_error (Some FForbidden) ''no''), res_step_index = Some 0,
      res_attempts = 1, res_retries_exhausted = False\<rparr>"

theorem result_roundtrip_witness:
  "result_from_json (result_json sample_failure) = Inr sample_failure"
  by (rule result_roundtrip) (simp add: sample_failure_def)

theorem result_rule_witness:
  "result_init (with_strings sample_failure) = Inr sample_failure"
  by (subst result_rule)
    (simp add: with_strings_def sample_failure_def with_reason_def derived_error_def
      lift_reason_value [of FForbidden, simplified])

end
