(* ===== verification/Commands.thy ===== *)
theory Commands
  imports Schema Payloads
begin

text \<open>
  \<open>config/commands.py\<close> and \<open>commands/registry.py\<close>: a param and a command spec with the checks of
  their constructors, the built-in whitelist, registry construction under the seal, param
  validation, template resolution and the execution of one subprocess command. The process itself
  is a parameter: what running an argv came to.
\<close>

section \<open>Params\<close>

text \<open>\<open>default\<close> is a JSON value, \<open>None\<close> being \<open>JNull\<close>.\<close>

record param_def =
  pd_placeholder :: string
  pd_default :: json
  pd_pattern :: "string option"
  pd_description :: string
  pd_max_bytes :: "int option"
  pd_secret :: bool
  pd_schema :: "json option"

datatype param_fault =
    Unvalidated
  | SchemaNeedsCap
  | BadShape schema_problem
  | UntaggedCredential
  | DefaultShape schema_problem
  | DefaultNotString string

definition ascii_lower :: "char \<Rightarrow> char" where
  "ascii_lower c = (if 65 \<le> ord_of c \<and> ord_of c \<le> 90 then char_of (ord_of c + 32) else c)"

text \<open>\<open>re.search("secret|password|token|passphrase", name, re.IGNORECASE)\<close>.\<close>

definition credential_shaped :: "string \<Rightarrow> bool" where
  "credential_shaped name =
     (let low = map ascii_lower name
      in list_ex (\<lambda>w. contains w low) [''secret'', ''password'', ''token'', ''passphrase''])"

definition wire_type :: "param_def \<Rightarrow> string" where
  "wire_type p =
     (case pd_schema p of
        None \<Rightarrow> ''string''
      | Some s \<Rightarrow> json_to_str (get_or (case s of JObj kvs \<Rightarrow> kvs | _ \<Rightarrow> []) ''type'' JNull))"

definition default_problem :: "regex \<Rightarrow> param_def \<Rightarrow> param_fault option" where
  "default_problem rx p =
     (if pd_default p = JNull then None
      else case pd_schema p of
        Some s \<Rightarrow> map_option DefaultShape (schema_violation rx (pd_default p) s ''$'')
      | None \<Rightarrow> if is_str (pd_default p) then None else Some (DefaultNotString (type_name (pd_default p))))"

text \<open>\<open>ParamDef.__post_init__\<close>: \<open>None\<close> when the definition stands.\<close>

definition param_def_fault :: "regex \<Rightarrow> param_def \<Rightarrow> param_fault option" where
  "param_def_fault rx p =
     first_some
       [if pd_pattern p = None \<and> pd_max_bytes p = None then Some Unvalidated else None,
        (case pd_schema p of
           None \<Rightarrow> None
         | Some s \<Rightarrow>
             if pd_pattern p \<noteq> None \<or> pd_max_bytes p = None then Some SchemaNeedsCap
             else map_option BadShape (schema_declaration_error rx s ''schema'')),
        if \<not> pd_secret p \<and> credential_shaped (pd_placeholder p) then Some UntaggedCredential else None,
        default_problem rx p]"

section \<open>Commands\<close>

datatype command_mode = SubprocessMode | JobMode | RefreshMode

definition RETRY_WINDOW_MAX_S :: int where
  "RETRY_WINDOW_MAX_S = 600"

text \<open>
  A job's thunk answers validated params with a handler, named by a number here, or with none.
  \<open>result\<close> says whether the declared type is a dataclass. Whether the command has an \<open>authorize\<close>
  callback is part of the spec; what it answers depends on the moment and comes from outside.
\<close>

record command_spec =
  cs_group :: string
  cs_command :: "string list"
  cs_timeout :: int
  cs_mode :: command_mode
  cs_sensitive_output :: bool
  cs_read_only :: bool
  cs_self_reconciling :: bool
  cs_handler :: "((string, json) dict \<Rightarrow> nat option) option"
  cs_params :: "(string, param_def) dict"
  cs_result :: "bool option"
  cs_retry_window_s :: "int option"
  cs_authorize :: bool

datatype spec_fault =
    JobWithoutHandler
  | HandlerOnNonJob
  | BadRetryWindow
  | BadResultType
  | RelativeBinary

text \<open>\<open>CommandSpec.__post_init__\<close>.\<close>

definition command_spec_fault :: "command_spec \<Rightarrow> spec_fault option" where
  "command_spec_fault s =
     first_some
       [if cs_mode s = JobMode then (if cs_handler s = None then Some JobWithoutHandler else None)
        else if cs_handler s \<noteq> None then Some HandlerOnNonJob else None,
        (case cs_retry_window_s s of
           None \<Rightarrow> None
         | Some w \<Rightarrow> if cs_mode s = JobMode \<and> 1 \<le> w \<and> w \<le> RETRY_WINDOW_MAX_S then None
                     else Some BadRetryWindow),
        (case cs_result s of
           None \<Rightarrow> None
         | Some d \<Rightarrow> if cs_mode s = JobMode \<and> d then None else Some BadResultType),
        if cs_mode s = SubprocessMode \<and>
           (case cs_command s of [] \<Rightarrow> True | c # _ \<Rightarrow> \<not> starts_with ''/'' c)
        then Some RelativeBinary else None]"

definition long_running :: "command_spec \<Rightarrow> bool" where
  "long_running s \<longleftrightarrow> cs_mode s = JobMode"

section \<open>The whitelist\<close>

type_synonym command_registry = "(string, command_spec) dict"

definition VERIFY_BLOCK_COMMAND :: string where
  "VERIFY_BLOCK_COMMAND = ''run_verify_block''"

definition APPLY_BLOCK_COMMAND :: string where
  "APPLY_BLOCK_COMMAND = ''run_apply_block''"

definition SEALED_COMMANDS :: "string list" where
  "SEALED_COMMANDS = [VERIFY_BLOCK_COMMAND, APPLY_BLOCK_COMMAND]"

text \<open>A subprocess spec with the constructor's defaults.\<close>

definition subprocess_spec :: "string \<Rightarrow> string list \<Rightarrow> int \<Rightarrow> (string, param_def) dict \<Rightarrow> command_spec" where
  "subprocess_spec grp command timeout params =
     \<lparr>cs_group = grp, cs_command = command, cs_timeout = timeout, cs_mode = SubprocessMode,
      cs_sensitive_output = False, cs_read_only = False, cs_self_reconciling = False,
      cs_handler = None, cs_params = params, cs_result = None, cs_retry_window_s = None,
      cs_authorize = False\<rparr>"

definition plain_param :: "string \<Rightarrow> json \<Rightarrow> string option \<Rightarrow> string \<Rightarrow> int option \<Rightarrow> param_def" where
  "plain_param name dflt pattern descr cap =
     \<lparr>pd_placeholder = name, pd_default = dflt, pd_pattern = pattern, pd_description = descr,
      pd_max_bytes = cap, pd_secret = False, pd_schema = None\<rparr>"

definition COMMAND_REGISTRY :: command_registry where
  "COMMAND_REGISTRY =
     [(''git_pull'',
        subprocess_spec ''deploy'' [''/usr/bin/git'', ''-C'', ''{project_dir}'', ''pull''] 60 []),
      (''docker_logs'',
        subprocess_spec ''diagnostics''
          [''/usr/bin/docker'', ''compose'', ''--env-file'', ''{env_file}'', ''-f'', ''{compose_file}'',
           ''logs'', ''--tail'', ''{tail_lines}'', ''{docker_service_name}''] 30
          [(''docker_service_name'',
             plain_param ''docker_service_name'' JNull (Some ''[a-zA-Z0-9_-]+'')
               ''Docker Compose service name'' None),
           (''tail_lines'',
             plain_param ''tail_lines'' (JStr ''100'') (Some ''[0-9]{1,5}'')
               ''Number of log lines to show'' None)]),
      (VERIFY_BLOCK_COMMAND,
        subprocess_spec ''signoff'' [''/bin/bash'', ''-c'', ''{verify_command}''] 30
          [(''verify_command'',
             plain_param ''verify_command'' JNull None
               ''Shell command text supplied by the dashboard'' (Some 4096))]),
      (APPLY_BLOCK_COMMAND,
        subprocess_spec ''signoff'' [''/bin/bash'', ''-c'', ''{apply_command}''] 600
          [(''apply_command'',
             plain_param ''apply_command'' JNull None
               ''Shell command text supplied by the dashboard'' (Some 16384))])]"

definition build_registry :: "command_registry \<Rightarrow> string list \<Rightarrow> bool \<Rightarrow> command_registry" where
  "build_registry config_commands disabled signoff_sealed =
     (let merged = dict_update COMMAND_REGISTRY config_commands;
          auto_disabled = (if signoff_sealed then SEALED_COMMANDS else [])
      in filter (\<lambda>(k, v). k \<notin> set disabled \<and> k \<notin> set auto_disabled) merged)"

section \<open>Param validation\<close>

text \<open>
  Why a value fails its param. A secret's problem holds no more than a length, a size or a type;
  \<open>Unencodable\<close> is the exception of a non-finite float meeting the canonical encoder.
\<close>

datatype param_problem =
    WrongType string string
  | PatternMiss string string
  | PatternMissWithheld nat string
  | TooBig nat int
  | SchemaMiss schema_problem
  | SchemaMissWithheld
  | Unencodable

definition shape_problem :: "regex \<Rightarrow> param_def \<Rightarrow> json \<Rightarrow> param_problem option" where
  "shape_problem rx p v =
     (if pd_schema p = None \<and> \<not> is_str v then Some (WrongType (type_name v) (wire_type p))
      else case pd_pattern p of
        None \<Rightarrow> None
      | Some pat \<Rightarrow>
          (case v of
             JStr s \<Rightarrow>
               if re_fullmatch rx pat s then None
               else Some (if pd_secret p then PatternMissWithheld (length s) pat else PatternMiss s pat)
           | _ \<Rightarrow> Some Unencodable))"

text \<open>A string counts its UTF-8 bytes, any other value the bytes of its canonical encoding.\<close>

definition wire_bytes :: "json \<Rightarrow> nat option" where
  "wire_bytes v = (case v of JStr s \<Rightarrow> Some (utf8_len s) | _ \<Rightarrow> map_option utf8_len (canonical_json v))"

definition size_problem :: "regex \<Rightarrow> param_def \<Rightarrow> json \<Rightarrow> param_problem option" where
  "size_problem rx p v =
     first_some
       [(case pd_max_bytes p of
           None \<Rightarrow> None
         | Some cap \<Rightarrow>
             (case wire_bytes v of
                None \<Rightarrow> Some Unencodable
              | Some n \<Rightarrow> if int n > cap then Some (TooBig n cap) else None)),
        (case pd_schema p of
           None \<Rightarrow> None
         | Some s \<Rightarrow>
             map_option (\<lambda>e. if pd_secret p then SchemaMissWithheld else SchemaMiss e)
               (schema_violation rx v s ''$''))]"

definition param_problem :: "regex \<Rightarrow> param_def \<Rightarrow> json \<Rightarrow> param_problem option" where
  "param_problem rx p v = first_some [shape_problem rx p v, size_problem rx p v]"

datatype param_error =
    UnknownParams "string list"
  | BadParam string param_problem

fun merge_params ::
  "regex \<Rightarrow> (string, param_def) dict \<Rightarrow> (string, json) dict \<Rightarrow> param_error + (string, json) dict" where
  "merge_params rx [] runtime = Inr []"
| "merge_params rx ((name, p) # rest) runtime =
     (case (case dict_get runtime name of
              Some v \<Rightarrow> Some v
            | None \<Rightarrow> if pd_default p = JNull then None else Some (pd_default p)) of
        None \<Rightarrow> merge_params rx rest runtime
      | Some v \<Rightarrow>
          (case param_problem rx p v of
             Some q \<Rightarrow> Inl (BadParam name q)
           | None \<Rightarrow> map_sum id (Cons (name, v)) (merge_params rx rest runtime)))"

text \<open>The wire has already made the params an object with string keys.\<close>

definition validate_params ::
  "regex \<Rightarrow> command_spec \<Rightarrow> (string, json) dict \<Rightarrow> param_error + (string, json) dict" where
  "validate_params rx s runtime =
     (case filter (\<lambda>k. \<not> dict_has (cs_params s) k) (dict_keys runtime) of
        [] \<Rightarrow> merge_params rx (cs_params s) runtime
      | unknown \<Rightarrow> Inl (UnknownParams (sort unknown)))"

definition non_secret_params :: "command_spec \<Rightarrow> (string, json) dict \<Rightarrow> (string, json) dict" where
  "non_secret_params s params =
     filter (\<lambda>(name, v). case dict_get (cs_params s) name of Some p \<Rightarrow> \<not> pd_secret p | None \<Rightarrow> True) params"

section \<open>Template resolution\<close>

record project_config =
  pr_project_dir :: string
  pr_compose_file :: string
  pr_docker_service_name :: string
  pr_env_file :: "string option"

text \<open>
  \<open>str.format_map\<close> on the fields the templates use: a doubled brace is the brace, \<open>{name}\<close> the
  value under that name. A lone brace is the library's own \<open>ValueError\<close>.
\<close>

datatype template_fault =
    UnknownPlaceholder string
  | LoneBrace

fun read_field :: "string \<Rightarrow> (string \<times> string) option" where
  "read_field [] = None"
| "read_field (c # cs) =
     (if c = CHR 0x7D then Some ([], cs)
      else map_option (\<lambda>(name, rest). (c # name, rest)) (read_field cs))"

lemma read_field_length: "read_field cs = Some (name, rest) \<Longrightarrow> length rest < length cs"
  by (induction cs arbitrary: name rest) (auto split: if_splits)

declare read_field.simps [simp del]

function format_map :: "(string \<Rightarrow> string option) \<Rightarrow> string \<Rightarrow> template_fault + string" where
  "format_map env s =
     (case s of
        [] \<Rightarrow> Inr []
      | c # cs \<Rightarrow>
          if c = CHR 0x7B then
            (case cs of
               [] \<Rightarrow> Inl LoneBrace
             | d # ds \<Rightarrow>
                 if d = CHR 0x7B then map_sum id (Cons c) (format_map env ds)
                 else (case read_field cs of
                   None \<Rightarrow> Inl LoneBrace
                 | Some (name, rest) \<Rightarrow>
                     (case env name of
                        None \<Rightarrow> Inl (UnknownPlaceholder name)
                      | Some v \<Rightarrow> map_sum id (append v) (format_map env rest))))
          else if c = CHR 0x7D then
            (case cs of
               [] \<Rightarrow> Inl LoneBrace
             | d # ds \<Rightarrow> if d = CHR 0x7D then map_sum id (Cons c) (format_map env ds) else Inl LoneBrace)
          else map_sum id (Cons c) (format_map env cs))"
  by pat_completeness auto
termination
  by (relation "measure (\<lambda>(env, s). length s)") (auto dest!: read_field_length)

declare format_map.simps [simp del]

definition replacements :: "project_config \<Rightarrow> (string, json) dict \<Rightarrow> string \<Rightarrow> string option" where
  "replacements config overrides name =
     (case dict_get overrides name of
        Some v \<Rightarrow> Some (json_to_str v)
      | None \<Rightarrow>
          dict_get
            [(''project_dir'', pr_project_dir config), (''compose_file'', pr_compose_file config),
             (''docker_service_name'', pr_docker_service_name config),
             (''env_file'', case pr_env_file config of Some f \<Rightarrow> f | None \<Rightarrow> [])] name)"

fun format_all :: "(string \<Rightarrow> string option) \<Rightarrow> string list \<Rightarrow> template_fault + string list" where
  "format_all env [] = Inr []"
| "format_all env (p # ps) =
     (case format_map env p of
        Inl e \<Rightarrow> Inl e
      | Inr a \<Rightarrow> map_sum id (Cons a) (format_all env ps))"

text \<open>A \<open>--flag\<close> whose value resolved to empty is dropped with its value.\<close>

fun strip_flags :: "string list \<Rightarrow> string list" where
  "strip_flags (a # b # rest) =
     (if starts_with ''--'' a \<and> b = [] then strip_flags rest else a # strip_flags (b # rest))"
| "strip_flags args = args"

definition resolve_command ::
  "string list \<Rightarrow> project_config \<Rightarrow> (string, json) dict \<Rightarrow> template_fault + string list" where
  "resolve_command template config overrides =
     map_sum id strip_flags (format_all (replacements config overrides) template)"

section \<open>Lookup and execution\<close>

text \<open>The whitelist's refusal: its reason, and the answer of \<open>authorize\<close> for a fenced command.\<close>

datatype command_error =
    UnknownCommand
  | NotSubprocess command_mode
  | Fenced string

fun command_error_reason :: "command_error \<Rightarrow> failure_reason" where
  "command_error_reason UnknownCommand = FUnknownCommand"
| "command_error_reason (NotSubprocess m) = FForbidden"
| "command_error_reason (Fenced s) = FForbidden"

text \<open>\<open>fence\<close> is what every \<open>authorize\<close> callback answers at the moment of the call.\<close>

definition get_command ::
  "command_registry \<Rightarrow> (string \<Rightarrow> string option) \<Rightarrow> string \<Rightarrow> command_error + command_spec" where
  "get_command reg fence name =
     (case dict_get reg name of
        None \<Rightarrow> Inl UnknownCommand
      | Some s \<Rightarrow>
          if cs_mode s \<noteq> SubprocessMode then Inl (NotSubprocess (cs_mode s))
          else (case (if cs_authorize s then fence name else None) of
            Some refused \<Rightarrow> Inl (Fenced refused)
          | None \<Rightarrow> Inr s))"

text \<open>
  What running an argv came to. \<open>Undecodable\<close> is output that is not UTF-8, which \<open>text=True\<close>
  turns into a \<open>UnicodeDecodeError\<close>.
\<close>

datatype process_end =
    Completed int string string int
  | TimedOut string string int
  | BinaryMissing int
  | OsFailure string int
  | Undecodable

text \<open>The exceptions of \<open>execute_command\<close>; the last three are caught by none of its callers.\<close>

datatype execute_error =
    CommandRefused command_error
  | ParamsRefused param_error
  | TemplateError template_fault
  | DecodeError
  | ResultRefused result_fault

definition process_result ::
  "string \<Rightarrow> command_spec \<Rightarrow> string list \<Rightarrow> string \<Rightarrow> string option \<Rightarrow> process_end \<Rightarrow> execute_error + command_result" where
  "process_result name s argv request_id sequence_id e =
     (let base = \<lparr>res_request_id = request_id, res_command = name, res_group = cs_group s,
                  res_success = False, res_exit_code = -1, res_stdout = [], res_stderr = [],
                  res_duration_ms = 0, res_sequence_id = sequence_id, res_failure_reason = None,
                  res_result = None, res_error = None, res_step_index = None, res_attempts = 1,
                  res_retries_exhausted = False\<rparr>;
          built = (\<lambda>a. map_result ResultRefused (result_init a))
      in case e of
        Completed code out err ms \<Rightarrow>
          built (base\<lparr>res_success := (code = 0), res_exit_code := code, res_stdout := out,
                      res_stderr := err, res_duration_ms := ms,
                      res_failure_reason :=
                        (if code = 0 then None else Some (failure_reason_value FExitCode))\<rparr>)
      | TimedOut out err ms \<Rightarrow>
          (let msg = ''Command timed out after '' @ int_str (cs_timeout s) @ ''s'' in
           built (base\<lparr>res_stdout := out, res_stderr := (if err = [] then msg else msg @ [CHR 0x0A] @ err),
                       res_duration_ms := ms, res_failure_reason := Some (failure_reason_value FTimeout)\<rparr>))
      | BinaryMissing ms \<Rightarrow>
          map_result ResultRefused
            (result_failed request_id name (cs_group s) FNotFound
              (''Binary not found: '' @ (case argv of [] \<Rightarrow> [] | a # _ \<Rightarrow> a)) sequence_id None ms)
      | OsFailure msg ms \<Rightarrow>
          map_result ResultRefused
            (result_failed request_id name (cs_group s) FOsError msg sequence_id None ms)
      | Undecodable \<Rightarrow> Inl DecodeError)"

text \<open>Everything before the process starts: the spec and the argv it would run.\<close>

definition prepare_command ::
  "regex \<Rightarrow> command_registry \<Rightarrow> (string \<Rightarrow> string option) \<Rightarrow> project_config \<Rightarrow> string
    \<Rightarrow> (string, json) dict \<Rightarrow> execute_error + command_spec \<times> string list" where
  "prepare_command rx reg fence config name params =
     res_bind (map_result CommandRefused (get_command reg fence name)) (\<lambda>s.
     res_bind (map_result ParamsRefused (validate_params rx s params)) (\<lambda>validated.
     res_bind (map_result TemplateError (resolve_command (cs_command s) config validated)) (\<lambda>argv.
       Inr (s, argv))))"

definition execute_command ::
  "regex \<Rightarrow> command_registry \<Rightarrow> (string \<Rightarrow> string option) \<Rightarrow> (string list \<Rightarrow> process_end)
    \<Rightarrow> project_config \<Rightarrow> string \<Rightarrow> string \<Rightarrow> string option \<Rightarrow> (string, json) dict
    \<Rightarrow> execute_error + command_result" where
  "execute_command rx reg fence exec config name request_id sequence_id params =
     res_bind (prepare_command rx reg fence config name params) (\<lambda>(s, argv).
       process_result name s argv request_id sequence_id (exec argv))"

text \<open>The messages of the refusals, as \<open>str\<close> of the exceptions.\<close>

definition schema_problem_text :: "schema_problem \<Rightarrow> string" where
  "schema_problem_text p =
     sp_path p @ '': '' @
     (case sp_rule p of
        ShapeNotObject \<Rightarrow> ''shape must be an object''
      | BadKind k \<Rightarrow> ''type must be one of '' @ json_repr (JArr (map JStr (sort (dict_keys SCHEMA_KEYS))))
          @ '', got '' @ json_repr k
      | UnknownKeys ks kind \<Rightarrow> ''unknown shape keys '' @ json_repr (JArr (map JStr ks)) @ '' for type '' @ py_repr kind
      | NullableNotBool \<Rightarrow> ''nullable must be a boolean''
      | NotInteger k \<Rightarrow> k @ '' must be an integer''
      | BadPattern e \<Rightarrow> ''pattern is not valid regex: '' @ e
      | ArrayNeedsItems \<Rightarrow> ''array needs items''
      | KeysNotObject \<Rightarrow> ''keys must be an object''
      | RequiredNotDeclared \<Rightarrow> ''required must list names declared in keys''
      | EntriesKeys \<Rightarrow> ''entries takes key_pattern and value only''
      | BadKeyPattern e \<Rightarrow> ''key_pattern is not valid regex: '' @ e
      | EntriesNeedValue \<Rightarrow> ''entries needs value''
      | ExpectedType kind got \<Rightarrow> ''expected '' @ kind @ '', got '' @ got
      | MissingRequired n \<Rightarrow> ''missing required key '' @ py_repr n
      | UnexpectedKey n \<Rightarrow> ''unexpected key '' @ py_repr n
      | KeyMismatch n pat \<Rightarrow> ''key '' @ py_repr n @ '' does not match key_pattern '' @ py_repr pat
      | TooManyItems n m \<Rightarrow> nat_str n @ '' items, exceeds max_items='' @ int_str m
      | PatternMismatch pat \<Rightarrow> ''does not match pattern '' @ py_repr pat
      | TooManyBytes m \<Rightarrow> ''exceeds max_bytes='' @ int_str m
      | BelowMin m \<Rightarrow> ''below min='' @ int_str m
      | AboveMax m \<Rightarrow> ''above max='' @ int_str m
      | Raised \<Rightarrow> [])"

fun param_problem_text :: "param_problem \<Rightarrow> string" where
  "param_problem_text (WrongType got expected) = ''is '' @ got @ '', expected '' @ expected"
| "param_problem_text (PatternMiss v pat) =
     ''value '' @ py_repr v @ '' does not match pattern '' @ py_repr pat"
| "param_problem_text (PatternMissWithheld n pat) =
     ''value ('' @ nat_str n @ '' chars, withheld: secret) does not match pattern '' @ py_repr pat"
| "param_problem_text (TooBig n cap) =
     ''is '' @ nat_str n @ '' bytes, exceeds max_bytes='' @ int_str cap"
| "param_problem_text (SchemaMiss e) = ''does not match schema: '' @ schema_problem_text e"
| "param_problem_text SchemaMissWithheld = ''withheld: secret''"
| "param_problem_text Unencodable = []"

fun param_error_text :: "param_error \<Rightarrow> string" where
  "param_error_text (UnknownParams ns) = ''Unknown params: '' @ join '', '' ns"
| "param_error_text (BadParam n q) = ''Param '' @ py_repr n @ '' '' @ param_problem_text q"

fun mode_name :: "command_mode \<Rightarrow> string" where
  "mode_name SubprocessMode = ''subprocess''"
| "mode_name JobMode = ''job''"
| "mode_name RefreshMode = ''refresh''"

fun command_error_text :: "command_registry \<Rightarrow> string \<Rightarrow> command_error \<Rightarrow> string" where
  "command_error_text reg name UnknownCommand =
     ''Unknown command: '' @ py_repr name @ ''. Valid commands: '' @ join '', '' (sort (dict_keys reg))"
| "command_error_text reg name (NotSubprocess m) =
     ''Command '' @ py_repr name @ '' is a '' @ mode_name m
       @ '' command; send it on its own, not in a sequence''"
| "command_error_text reg name (Fenced refused) =
     ''Command '' @ py_repr name @ '' is fenced: '' @ refused"

section \<open>Facts\<close>

lemma dict_get_filter_keys:
  "dict_get (filter (\<lambda>(k, v). P k) d) k = (if P k then dict_get d k else None)"
  by (induction d) auto

lemma command_registry_ok: "dict_ok COMMAND_REGISTRY"
  by (simp add: COMMAND_REGISTRY_def VERIFY_BLOCK_COMMAND_def APPLY_BLOCK_COMMAND_def)

text \<open>The value a param takes: the request's, else the default, else none.\<close>

definition chosen :: "(string, json) dict \<Rightarrow> string \<Rightarrow> param_def \<Rightarrow> json option" where
  "chosen runtime name p =
     (case dict_get runtime name of
        Some v \<Rightarrow> Some v
      | None \<Rightarrow> if pd_default p = JNull then None else Some (pd_default p))"

definition chosen_params :: "(string, param_def) dict \<Rightarrow> (string, json) dict \<Rightarrow> (string, json) dict" where
  "chosen_params ps runtime =
     concat (map (\<lambda>(n, p). case chosen runtime n p of Some v \<Rightarrow> [(n, v)] | None \<Rightarrow> []) ps)"

lemma merge_params_Inr:
  "merge_params rx ps runtime = Inr m \<longleftrightarrow>
    m = chosen_params ps runtime
    \<and> (\<forall>n p v. (n, p) \<in> set ps \<longrightarrow> chosen runtime n p = Some v \<longrightarrow> param_problem rx p v = None)"
proof (induction ps arbitrary: m)
  case Nil
  then show ?case by (auto simp: chosen_params_def)
next
  case (Cons q ps)
  obtain n p where q: "q = (n, p)" by (cases q)
  show ?case
  proof (cases "chosen runtime n p")
    case None
    then have "merge_params rx (q # ps) runtime = merge_params rx ps runtime"
      by (auto simp: q chosen_def split: option.splits if_splits)
    with Cons None q show ?thesis by (auto simp: chosen_params_def)
  next
    case (Some v)
    then have "merge_params rx (q # ps) runtime = (case param_problem rx p v of
         Some e \<Rightarrow> Inl (BadParam n e)
       | None \<Rightarrow> map_sum id (Cons (n, v)) (merge_params rx ps runtime))"
      by (auto simp: q chosen_def split: option.splits if_splits)
    with Cons Some q show ?thesis
      by (cases "param_problem rx p v") (auto simp: chosen_params_def)
  qed
qed

text \<open>A text without braces is formatted to itself.\<close>

lemma format_map_Nil [simp]: "format_map env [] = Inr []"
  by (subst format_map.simps) simp

lemma format_map_Cons:
  "c \<noteq> CHR 0x7B \<Longrightarrow> c \<noteq> CHR 0x7D \<Longrightarrow> format_map env (c # s) = map_sum id (Cons c) (format_map env s)"
  by (subst format_map.simps) simp

lemma format_map_plain: "CHR 0x7B \<notin> set s \<Longrightarrow> CHR 0x7D \<notin> set s \<Longrightarrow> format_map env s = Inr s"
proof (induction s)
  case (Cons c s)
  then have "c \<noteq> CHR 0x7B" "c \<noteq> CHR 0x7D" by auto
  with Cons show ?case by (simp add: format_map_Cons)
qed simp

lemma read_field_plain: "CHR 0x7D \<notin> set name \<Longrightarrow> read_field (name @ CHR 0x7D # rest) = Some (name, rest)"
  by (induction name) (auto simp: read_field.simps)

text \<open>A part that is one placeholder becomes exactly the value, whatever the value holds.\<close>

lemma format_map_field:
  assumes "name \<noteq> []" "hd name \<noteq> CHR 0x7B" "CHR 0x7D \<notin> set name"
  shows "format_map env (CHR 0x7B # name @ [CHR 0x7D]) =
    (case env name of None \<Rightarrow> Inl (UnknownPlaceholder name) | Some v \<Rightarrow> Inr v)"
proof -
  obtain c cs where name: "name = c # cs" using assms(1) by (cases name) auto
  have "read_field (c # cs @ [CHR 0x7D]) = Some (name, [])"
    using read_field_plain [OF assms(3), of "[]"] name by simp
  with assms(2) name show ?thesis
    by (subst format_map.simps) (simp split: option.splits)
qed

lemma strip_flags_hd: "args \<noteq> [] \<Longrightarrow> \<not> starts_with ''--'' (hd args) \<Longrightarrow> strip_flags args \<noteq> [] \<and> hd (strip_flags args) = hd args"
  by (cases args rule: strip_flags.cases) auto

lemma shape_problem_secret:
  "pd_secret p \<Longrightarrow> shape_problem rx p v = Some q \<Longrightarrow>
    q \<in> {WrongType (type_name v) (wire_type p), Unencodable}
    \<or> (\<exists>s pat. v = JStr s \<and> pd_pattern p = Some pat \<and> q = PatternMissWithheld (length s) pat)"
  by (auto simp: shape_problem_def split: if_splits option.splits json.splits)

lemma size_problem_secret:
  "pd_secret p \<Longrightarrow> size_problem rx p v = Some q \<Longrightarrow>
    q \<in> {Unencodable, SchemaMissWithheld}
    \<or> (\<exists>n cap. wire_bytes v = Some n \<and> pd_max_bytes p = Some cap \<and> q = TooBig n cap)"
  by (auto simp: size_problem_def first_some_Cons simp del: first_some.simps(2,3) split: if_splits option.splits)

section \<open>Properties\<close>

text \<open>
  Exactly what validation yields: every name in the request is declared, each declared param
  takes the request's value or its default, every value taken passes its own param's checks, and
  the result is those values in declaration order and nothing else.
\<close>

theorem validated_params_iff:
  "validate_params rx s runtime = Inr m \<longleftrightarrow>
    (\<forall>n\<in>set (dict_keys runtime). dict_has (cs_params s) n)
    \<and> m = chosen_params (cs_params s) runtime
    \<and> (\<forall>n p v. (n, p) \<in> set (cs_params s) \<longrightarrow> chosen runtime n p = Some v \<longrightarrow> param_problem rx p v = None)"
proof (cases "filter (\<lambda>k. \<not> dict_has (cs_params s) k) (dict_keys runtime)")
  case Nil
  then have "validate_params rx s runtime = merge_params rx (cs_params s) runtime"
    by (simp add: validate_params_def)
  moreover have "\<forall>n\<in>set (dict_keys runtime). dict_has (cs_params s) n"
    using Nil by (simp only: filter_empty_conv) blast
  ultimately show ?thesis by (simp add: merge_params_Inr)
next
  case (Cons k ks)
  then have "k \<in> set (filter (\<lambda>k. \<not> dict_has (cs_params s) k) (dict_keys runtime))" by (simp only: list.set_intros)
  then have "\<not> (\<forall>n\<in>set (dict_keys runtime). dict_has (cs_params s) n)"
    by (simp only: set_filter mem_Collect_eq) blast
  moreover have "validate_params rx s runtime \<noteq> Inr m"
    using Cons by (simp add: validate_params_def)
  ultimately show ?thesis by blast
qed

text \<open>
  C9. A secret never rides a refusal: the problem reported for a secret param is one of a fixed set
  determined by the value's JSON type, its length and its size in bytes, never by its content.
\<close>

theorem secret_withheld:
  assumes "pd_secret p" and "param_problem rx p v = Some q"
  shows "q \<in> {WrongType (type_name v) (wire_type p), Unencodable, SchemaMissWithheld}
    \<or> (\<exists>s pat. v = JStr s \<and> pd_pattern p = Some pat \<and> q = PatternMissWithheld (length s) pat)
    \<or> (\<exists>n cap. wire_bytes v = Some n \<and> pd_max_bytes p = Some cap \<and> q = TooBig n cap)"
proof (cases "shape_problem rx p v")
  case None
  with assms(2) have "size_problem rx p v = Some q"
    by (simp add: param_problem_def first_some_Cons del: first_some.simps(2,3))
  from size_problem_secret [OF assms(1) this] show ?thesis by auto
next
  case (Some e)
  with assms(2) have "shape_problem rx p v = Some q" by (simp add: param_problem_def)
  from shape_problem_secret [OF assms(1) this] show ?thesis by auto
qed

text \<open>
  The whitelist's lookup law: a config command overrides a built-in one, a disabled command is
  gone, and a sealed agent knows neither shell hatch, whatever the configuration says.
\<close>

theorem registry_lookup:
  assumes "dict_ok config_commands"
  shows "dict_get (build_registry config_commands disabled sealed) k =
    (if k \<in> set disabled \<or> sealed \<and> k \<in> {''run_verify_block'', ''run_apply_block''} then None
     else case dict_get config_commands k of
       Some s \<Rightarrow> Some s
     | None \<Rightarrow> dict_get COMMAND_REGISTRY k)"
proof -
  let ?P = "\<lambda>k. k \<notin> set disabled \<and> k \<notin> set (if sealed then SEALED_COMMANDS else [])"
  have "dict_get (build_registry config_commands disabled sealed) k =
      (if ?P k then dict_get (dict_update COMMAND_REGISTRY config_commands) k else None)"
    unfolding build_registry_def Let_def by (rule dict_get_filter_keys)
  then show ?thesis
    by (auto simp: dict_get_update [OF assms] SEALED_COMMANDS_def VERIFY_BLOCK_COMMAND_def
        APPLY_BLOCK_COMMAND_def)
qed

text \<open>
  No param chooses the binary: for a spec its constructor accepts, with no placeholder in the
  first part, the argv that is run starts with the spec's own absolute path.
\<close>

theorem binary_is_fixed:
  assumes "command_spec_fault s = None" and "cs_mode s = SubprocessMode"
    and "set (hd (cs_command s)) \<inter> {CHR 0x7B, CHR 0x7D} = {}"
    and "resolve_command (cs_command s) config overrides = Inr argv"
  shows "argv \<noteq> [] \<and> hd argv = hd (cs_command s) \<and> starts_with ''/'' (hd argv)"
proof -
  from assms(1,2) obtain c rest where cmd: "cs_command s = c # rest" "starts_with ''/'' c"
    by (cases "cs_command s") (auto simp: command_spec_fault_def split: if_splits)
  let ?env = "replacements config overrides"
  have plain: "format_map ?env c = Inr c"
    using assms(3) cmd by (intro format_map_plain) auto
  from assms(4) obtain parts where parts: "format_all ?env (cs_command s) = Inr parts" "argv = strip_flags parts"
    by (auto simp: resolve_command_def)
  with cmd plain obtain ps where "parts = c # ps" by (auto split: sum.splits)
  moreover from cmd(2) have "\<not> starts_with ''--'' c" by (cases c) (auto simp: starts_with_def)
  ultimately show ?thesis using strip_flags_hd [of parts] cmd parts(2) by simp
qed

text \<open>
  The shell hatch, exactly: with its param the one argv is bash, \<open>-c\<close> and the text itself, its
  size capped at 4096 bytes; without it the template raises an exception no caller catches, so the
  request gets no result at all.
\<close>

theorem verify_block_execution:
  "execute_command rx COMMAND_REGISTRY fence exec config ''run_verify_block'' rid sid [] =
     Inl (TemplateError (UnknownPlaceholder ''verify_command''))
   \<and> execute_command rx COMMAND_REGISTRY fence exec config ''run_verify_block'' rid sid
       [(''verify_command'', JStr text)] =
     (if 4096 < utf8_len text
      then Inl (ParamsRefused (BadParam ''verify_command'' (TooBig (utf8_len text) 4096)))
      else process_result ''run_verify_block''
        (the (dict_get COMMAND_REGISTRY ''run_verify_block'')) [''/bin/bash'', ''-c'', text] rid sid
        (exec [''/bin/bash'', ''-c'', text]))"
proof -
  let ?s = "the (dict_get COMMAND_REGISTRY ''run_verify_block'')"
  have get: "get_command COMMAND_REGISTRY fence ''run_verify_block'' = Inr ?s"
    by (simp add: get_command_def COMMAND_REGISTRY_def subprocess_spec_def VERIFY_BLOCK_COMMAND_def)
  have spec: "cs_command ?s = [''/bin/bash'', ''-c'', ''{verify_command}'']"
    "cs_params ?s = [(''verify_command'', plain_param ''verify_command'' JNull None
      ''Shell command text supplied by the dashboard'' (Some 4096))]"
    by (simp_all add: COMMAND_REGISTRY_def subprocess_spec_def VERIFY_BLOCK_COMMAND_def)
  have field: "format_map env ''{verify_command}'' =
      (case env ''verify_command'' of None \<Rightarrow> Inl (UnknownPlaceholder ''verify_command'') | Some v \<Rightarrow> Inr v)" for env
    using format_map_field [of "''verify_command''" env] by simp
  have plain: "format_map env ''/bin/bash'' = Inr ''/bin/bash''" "format_map env ''-c'' = Inr ''-c''" for env
    by (simp_all add: format_map_plain)
  have none: "validate_params rx ?s [] = Inr []"
    by (simp add: validate_params_def spec plain_param_def)
  have some: "validate_params rx ?s [(''verify_command'', JStr text)] =
      (if 4096 < utf8_len text then Inl (BadParam ''verify_command'' (TooBig (utf8_len text) 4096))
       else Inr [(''verify_command'', JStr text)])"
    by (simp add: validate_params_def spec plain_param_def dict_has_def param_problem_def
        shape_problem_def size_problem_def wire_bytes_def)
  show ?thesis
    by (simp add: execute_command_def prepare_command_def get none some resolve_command_def spec field plain
        replacements_def starts_with_def)
qed

section \<open>Witnesses\<close>

definition tail_param :: param_def where
  "tail_param = plain_param ''tail_lines'' (JStr ''100'') None ''lines'' (Some 5)"

definition tail_spec :: command_spec where
  "tail_spec = subprocess_spec ''diagnostics'' [''/usr/bin/tail'', ''-n'', ''{tail_lines}''] 30
     [(''tail_lines'', tail_param)]"

definition sample_project :: project_config where
  "sample_project = \<lparr>pr_project_dir = ''/srv'', pr_compose_file = ''/srv/c.yml'',
     pr_docker_service_name = ''web'', pr_env_file = None\<rparr>"

theorem validated_params_iff_witness:
  "validate_params sample_regex tail_spec [(''tail_lines'', JStr ''7'')] = Inr [(''tail_lines'', JStr ''7'')]"
  by (subst validated_params_iff)
    (simp add: tail_spec_def subprocess_spec_def tail_param_def plain_param_def dict_has_def chosen_def
      chosen_params_def param_problem_def shape_problem_def size_problem_def wire_bytes_def utf8_len_def
      ord_of_def)

theorem secret_withheld_witness:
  "PatternMissWithheld 3 ''k'' \<in> {WrongType (type_name (JStr ''abc'')) (wire_type
      (tail_param\<lparr>pd_secret := True, pd_pattern := Some ''k''\<rparr>)), Unencodable, SchemaMissWithheld}
    \<or> (\<exists>s pat. JStr ''abc'' = JStr s \<and> pd_pattern (tail_param\<lparr>pd_secret := True, pd_pattern := Some ''k''\<rparr>) = Some pat
        \<and> PatternMissWithheld 3 ''k'' = PatternMissWithheld (length s) pat)
    \<or> (\<exists>n cap. wire_bytes (JStr ''abc'') = Some n
        \<and> pd_max_bytes (tail_param\<lparr>pd_secret := True, pd_pattern := Some ''k''\<rparr>) = Some cap
        \<and> PatternMissWithheld 3 ''k'' = TooBig n cap)"
  by (rule secret_withheld [of _ sample_regex])
    (simp_all add: tail_param_def plain_param_def param_problem_def shape_problem_def sample_regex_def)

theorem registry_lookup_witness:
  "dict_get (build_registry [(''tail'', tail_spec)] [''git_pull''] True) ''run_verify_block'' = None
    \<and> dict_get (build_registry [(''tail'', tail_spec)] [''git_pull''] True) ''tail'' = Some tail_spec"
  by (simp add: registry_lookup)

theorem binary_is_fixed_witness:
  "hd [''/usr/bin/tail'', ''-n'', ''{x}''] = ''/usr/bin/tail''
    \<and> starts_with ''/'' (hd [''/usr/bin/tail'', ''-n'', ''{x}''])"
proof -
  have "resolve_command (cs_command tail_spec) sample_project [(''tail_lines'', JStr ''{x}'')] =
      Inr [''/usr/bin/tail'', ''-n'', ''{x}'']"
    using format_map_field [of "''tail_lines''"]
    by (simp add: resolve_command_def tail_spec_def subprocess_spec_def format_map_plain replacements_def
        starts_with_def)
  from binary_is_fixed [OF _ _ _ this] show ?thesis
    by (simp add: command_spec_fault_def tail_spec_def subprocess_spec_def starts_with_def)
qed

end
