(* ===== verification/Envelope.thy ===== *)
theory Envelope
  imports Payloads
begin

text \<open>
  \<open>protocol/envelope.py\<close>: the frame every message rides in, its validation on the way in and the
  factories on the way out. \<open>json.loads\<close> and the two ISO 8601 routines of \<open>datetime\<close> are
  parameters: \<open>loads\<close> is \<open>None\<close> where the library raises, \<open>fromiso\<close> likewise.
\<close>

section \<open>Instants\<close>

text \<open>
  A \<open>datetime\<close>: the instant in microseconds since the epoch, and the zone's offset in minutes,
  \<open>None\<close> for a naive one.
\<close>

record datetime =
  dt_micros :: int
  dt_zone :: "int option"

definition parse_timestamp :: "(string \<Rightarrow> datetime option) \<Rightarrow> json \<Rightarrow> protocol_error + datetime" where
  "parse_timestamp fromiso raw =
     (case raw of
        JStr s \<Rightarrow>
          (case fromiso (replace ''Z'' ''+00:00'' s) of
             None \<Rightarrow> Inl (bad_envelope (BadTimestamp raw))
           | Some ts \<Rightarrow> if dt_zone ts = None then Inl (bad_envelope (NoTimezone s)) else Inr ts)
      | _ \<Rightarrow> Inl (bad_envelope (BadTimestamp raw)))"

definition format_timestamp :: "(datetime \<Rightarrow> string) \<Rightarrow> datetime \<Rightarrow> string" where
  "format_timestamp isoformat ts = replace ''+00:00'' ''Z'' (isoformat ts)"

section \<open>The frame\<close>

definition ENVELOPE_FIELDS :: "string list" where
  "ENVELOPE_FIELDS = [''v'', ''type'', ''id'', ''ts'', ''agent_id'', ''payload'']"

definition TYPE_QUOTE_MAX :: nat where
  "TYPE_QUOTE_MAX = 64"

definition message_type_of :: "json \<Rightarrow> protocol_error + message_type" where
  "message_type_of raw =
     (case raw of
        JStr s \<Rightarrow>
          (case find (\<lambda>t. message_type_value t = s) message_types of
             Some t \<Rightarrow> Inr t
           | None \<Rightarrow> Inl (ProtocolError UnknownType (Some (take TYPE_QUOTE_MAX s)) (BadType raw)))
      | _ \<Rightarrow> Inl (ProtocolError UnknownType None (BadType raw)))"

text \<open>\<open>data[key]\<close> of a key already known to be present.\<close>

definition field :: "(string \<times> json) list \<Rightarrow> string \<Rightarrow> json" where
  "field data k = (case dict_get data k of Some v \<Rightarrow> v | None \<Rightarrow> JNull)"

definition required_str :: "(string \<times> json) list \<Rightarrow> string \<Rightarrow> protocol_error + string" where
  "required_str data key =
     (case field data key of
        JStr s \<Rightarrow> if s = [] then Inl (bad_envelope (EmptyField key)) else Inr s
      | _ \<Rightarrow> Inl (bad_envelope (EmptyField key)))"

record envelope =
  env_v :: int
  env_type :: message_type
  env_id :: string
  env_ts :: datetime
  env_agent_id :: string
  env_payload :: "(string \<times> json) list"
  env_received :: "(string \<times> json) list option"

text \<open>\<open>Envelope.__post_init__\<close>; the type is a member by construction here.\<close>

definition envelope_init :: "envelope \<Rightarrow> protocol_error + envelope" where
  "envelope_init e =
     res_bind (check_version (JInt (env_v e))) (\<lambda>_.
       if env_agent_id e = [] then Inl (bad_envelope (EmptyField ''agent_id''))
       else if dt_zone (env_ts e) = None then Inl (bad_envelope (NoTimezone []))
       else Inr e)"

definition from_json ::
  "(string \<Rightarrow> json option) \<Rightarrow> (string \<Rightarrow> datetime option) \<Rightarrow> string \<Rightarrow> protocol_error + envelope" where
  "from_json loads fromiso raw =
     (case loads raw of
        None \<Rightarrow> Inl (bad_envelope NotJson)
      | Some (JObj data) \<Rightarrow>
          (case filter (\<lambda>k. \<not> dict_has data k) ENVELOPE_FIELDS of
             [] \<Rightarrow>
               res_bind (check_version (field data ''v'')) (\<lambda>v.
               res_bind (message_type_of (field data ''type'')) (\<lambda>t.
               res_bind (parse_timestamp fromiso (field data ''ts'')) (\<lambda>ts.
               res_bind (required_str data ''id'') (\<lambda>i.
               res_bind (required_str data ''agent_id'') (\<lambda>agent.
               case field data ''payload'' of
                 JObj payload \<Rightarrow>
                   envelope_init \<lparr>env_v = v, env_type = t, env_id = i, env_ts = ts,
                     env_agent_id = agent, env_payload = payload, env_received = Some data\<rparr>
               | p \<Rightarrow> Inl (bad_envelope (PayloadNotDict (type_name p))))))))
           | missing \<Rightarrow> Inl (bad_envelope (MissingEnvelopeFields missing)))
      | Some v \<Rightarrow> Inl (bad_envelope (NotObject (type_name v))))"

definition to_dict :: "(datetime \<Rightarrow> string) \<Rightarrow> envelope \<Rightarrow> (string \<times> json) list" where
  "to_dict isoformat e =
     [(''v'', JInt (env_v e)), (''type'', JStr (message_type_value (env_type e))),
      (''id'', JStr (env_id e)), (''ts'', JStr (format_timestamp isoformat (env_ts e))),
      (''agent_id'', JStr (env_agent_id e)), (''payload'', JObj (env_payload e))]"

text \<open>\<open>json.dumps\<close> with compact separators; it spells the three special floats its own way.\<close>

fun spell_floats :: "json \<Rightarrow> json" where
  "spell_floats (JFloat f) =
     JFloat (if f = ''nan'' then ''NaN'' else if f = ''inf'' then ''Infinity''
             else if f = ''-inf'' then ''-Infinity'' else f)"
| "spell_floats (JArr xs) = JArr (map spell_floats xs)"
| "spell_floats (JObj kvs) = JObj (map (\<lambda>(k, v). (k, spell_floats v)) kvs)"
| "spell_floats v = v"

definition to_json :: "(datetime \<Rightarrow> string) \<Rightarrow> envelope \<Rightarrow> string" where
  "to_json isoformat e = render (spell_floats (JObj (to_dict isoformat e)))"

section \<open>Outbound factories\<close>

text \<open>A caller's bug (\<open>TypeError\<close>) beside the refusals of the frame itself.\<close>

datatype make_fault =
    MetricsDoor
  | NotOutbound string
  | BadFrame protocol_error

definition make_envelope ::
  "string \<Rightarrow> datetime \<Rightarrow> string \<Rightarrow> message_type \<Rightarrow> (string \<times> json) list \<Rightarrow> make_fault + envelope" where
  "make_envelope fresh now agent_id t payload =
     map_result BadFrame (envelope_init
       \<lparr>env_v = last SPEAKS, env_type = t, env_id = fresh, env_ts = now, env_agent_id = agent_id,
        env_payload = payload, env_received = None\<rparr>)"

fun class_name :: "ann \<Rightarrow> string" where
  "class_name (AClass cls _) = cls"
| "class_name _ = []"

definition OUTBOUND_ROWS :: "(message_type \<times> string) list" where
  "OUTBOUND_ROWS =
     map (\<lambda>(t, d, a). (t, class_name a)) (filter (\<lambda>(t, d, a). d \<noteq> DashboardToAgent) MESSAGES)"

definition OUTBOUND_TYPE :: "(string, message_type) dict" where
  "OUTBOUND_TYPE = map (\<lambda>(t, c). (c, t)) OUTBOUND_ROWS"

fun obj_entries :: "json \<Rightarrow> (string \<times> json) list" where
  "obj_entries (JObj kvs) = kvs"
| "obj_entries _ = []"

definition make_frame :: "string \<Rightarrow> datetime \<Rightarrow> string \<Rightarrow> string \<Rightarrow> (string \<times> pyval) list \<Rightarrow> make_fault + envelope" where
  "make_frame fresh now agent_id cls kws =
     (if cls = ''MetricsPayload'' then Inl MetricsDoor
      else case dict_get OUTBOUND_TYPE cls of
        None \<Rightarrow> Inl (NotOutbound cls)
      | Some t \<Rightarrow> make_envelope fresh now agent_id t (obj_entries (asdict (PObj cls kws))))"

definition make_error :: "string \<Rightarrow> datetime \<Rightarrow> string \<Rightarrow> string \<Rightarrow> string option \<Rightarrow> make_fault + envelope" where
  "make_error fresh now agent_id reason t =
     make_frame fresh now agent_id ''ErrorPayload''
       [(''error'', PVal (JStr reason)), (''type'', PVal (opt_json JStr t))]"

definition make_metrics_push ::
  "string \<Rightarrow> datetime \<Rightarrow> string \<Rightarrow> (string \<times> pyval) list \<Rightarrow> make_fault + envelope" where
  "make_metrics_push fresh now agent_id kws =
     (let payload = obj_entries (asdict (PObj ''MetricsPayload'' kws)) in
      make_envelope fresh now agent_id MtMetricsPush
        (if dict_get payload ''jobs'' = Some JNull then dict_pop ''jobs'' payload else payload))"

section \<open>Facts\<close>

lemma check_version_iff: "check_version v = Inr i \<longleftrightarrow> v = JInt i \<and> i \<in> set SPEAKS"
  by (auto simp: check_version_def split: json.splits)

lemma message_type_lift_all:
  "list_all (\<lambda>t. find (\<lambda>u. message_type_value u = message_type_value t) message_types = Some t) message_types"
  by code_simp

lemma message_type_of_value [simp]: "message_type_of (JStr (message_type_value t)) = Inr t"
  using message_type_lift_all message_types_all [of t] by (simp add: message_type_of_def list_all_iff)

lemma message_type_of_Inr: "message_type_of v = Inr t \<longleftrightarrow> v = JStr (message_type_value t)"
proof
  show "message_type_of v = Inr t \<Longrightarrow> v = JStr (message_type_value t)"
    by (auto simp: message_type_of_def find_Some_iff split: json.splits option.splits)
qed simp

lemma message_type_of_Inl:
  "message_type_of v = Inl e \<Longrightarrow> pe_reason e = UnknownType \<and>
    (\<forall>q. pe_msg_type e = Some q \<longrightarrow> length q \<le> TYPE_QUOTE_MAX \<and> (\<exists>s. v = JStr s \<and> q = take TYPE_QUOTE_MAX s))"
  by (auto simp: message_type_of_def split: json.splits option.splits)

lemma required_str_iff: "required_str data k = Inr s \<longleftrightarrow> field data k = JStr s \<and> s \<noteq> []"
  by (auto simp: required_str_def split: json.splits if_splits)

lemma envelope_init_iff:
  "envelope_init e = Inr e' \<longleftrightarrow>
    e' = e \<and> env_v e \<in> set SPEAKS \<and> env_agent_id e \<noteq> [] \<and> dt_zone (env_ts e) \<noteq> None"
  by (auto simp: envelope_init_def check_version_iff)

lemma parse_timestamp_iff:
  "parse_timestamp fromiso v = Inr ts \<longleftrightarrow>
    (\<exists>s. v = JStr s \<and> fromiso (replace ''Z'' ''+00:00'' s) = Some ts \<and> dt_zone ts \<noteq> None)"
  by (auto simp: parse_timestamp_def split: json.splits option.splits if_splits)

lemmas frame_iffs = check_version_iff message_type_of_Inr required_str_iff envelope_init_iff
  parse_timestamp_iff

lemma no_msg_type:
  "check_version v = Inl e \<Longrightarrow> pe_msg_type e = None"
  "parse_timestamp fromiso v = Inl e \<Longrightarrow> pe_msg_type e = None"
  "required_str data k = Inl e \<Longrightarrow> pe_msg_type e = None"
  "envelope_init x = Inl e \<Longrightarrow> pe_msg_type e = None"
  by (auto simp: check_version_def parse_timestamp_def required_str_def envelope_init_def
      split: json.splits option.splits if_splits)

lemma outbound_type_get:
  "dict_get OUTBOUND_TYPE cls = Some t \<longleftrightarrow> (t, cls) \<in> set OUTBOUND_ROWS"
proof -
  have "dict_ok OUTBOUND_TYPE" by code_simp
  then have "dict_get OUTBOUND_TYPE cls = Some t \<longleftrightarrow> (cls, t) \<in> set OUTBOUND_TYPE" by simp
  then show ?thesis by (auto simp: OUTBOUND_TYPE_def)
qed

lemma messages_classes: "(t, d, a) \<in> set MESSAGES \<Longrightarrow> \<exists>cls flds. a = AClass cls flds"
  by (auto simp: MESSAGES_def payload_anns)

lemma outbound_rows:
  "(t, cls) \<in> set OUTBOUND_ROWS \<longleftrightarrow>
    (\<exists>d flds. (t, d, AClass cls flds) \<in> set MESSAGES \<and> d \<noteq> DashboardToAgent)"
proof -
  have "(t, cls) \<in> set OUTBOUND_ROWS \<longleftrightarrow>
      (\<exists>d a. (t, d, a) \<in> set MESSAGES \<and> d \<noteq> DashboardToAgent \<and> cls = class_name a)"
    by (force simp: OUTBOUND_ROWS_def)
  then show ?thesis using messages_classes by fastforce
qed

lemma field_get: "field data k = v \<Longrightarrow> v \<noteq> JNull \<Longrightarrow> dict_get data k = Some v"
  by (auto simp: field_def split: option.splits)

lemma from_json_Inr:
  assumes "from_json loads fromiso raw = Inr e"
  shows "\<exists>data. loads raw = Some (JObj data) \<and> env_received e = Some data
    \<and> field data ''v'' = JInt (env_v e) \<and> env_v e \<in> set SPEAKS
    \<and> field data ''type'' = JStr (message_type_value (env_type e))
    \<and> parse_timestamp fromiso (field data ''ts'') = Inr (env_ts e)
    \<and> field data ''id'' = JStr (env_id e) \<and> env_id e \<noteq> []
    \<and> field data ''agent_id'' = JStr (env_agent_id e) \<and> env_agent_id e \<noteq> []
    \<and> field data ''payload'' = JObj (env_payload e)"
proof -
  from assms obtain data where data: "loads raw = Some (JObj data)"
    by (auto simp: from_json_def split: option.splits json.splits)
  with assms show ?thesis
    by (cases "filter (\<lambda>k. \<not> dict_has data k) ENVELOPE_FIELDS"; cases "field data ''payload''")
      (auto simp: from_json_def frame_iffs)
qed

section \<open>Properties\<close>

text \<open>
  C6. An accepted frame says what its sender wrote: its version is one this agent speaks, its id
  and agent id are not empty, its clock has a zone, every field is the received object's own,
  and the received object is kept for the signature check.
\<close>

theorem envelope_accepted:
  assumes "from_json loads fromiso raw = Inr e"
  shows "\<exists>data s. loads raw = Some (JObj data) \<and> env_received e = Some data
    \<and> env_v e \<in> set SPEAKS \<and> env_id e \<noteq> [] \<and> env_agent_id e \<noteq> [] \<and> dt_zone (env_ts e) \<noteq> None
    \<and> dict_get data ''v'' = Some (JInt (env_v e))
    \<and> dict_get data ''type'' = Some (JStr (message_type_value (env_type e)))
    \<and> dict_get data ''id'' = Some (JStr (env_id e))
    \<and> dict_get data ''agent_id'' = Some (JStr (env_agent_id e))
    \<and> dict_get data ''payload'' = Some (JObj (env_payload e))
    \<and> dict_get data ''ts'' = Some (JStr s) \<and> fromiso (replace ''Z'' ''+00:00'' s) = Some (env_ts e)"
  using from_json_Inr [OF assms] by (fastforce simp: parse_timestamp_iff dest: field_get)

text \<open>
  A refusal never quotes the frame: the type it names is there only for an unknown type, and
  is at most 64 characters of it.
\<close>

theorem envelope_refusal_bounded:
  assumes "from_json loads fromiso raw = Inl e" and "pe_msg_type e = Some q"
  shows "pe_reason e = UnknownType \<and> length q \<le> 64"
proof -
  from assms obtain data where data: "loads raw = Some (JObj data)"
    "filter (\<lambda>k. \<not> dict_has data k) ENVELOPE_FIELDS = []"
    by (auto simp: from_json_def split: option.splits json.splits list.splits)
  with assms have "message_type_of (field data ''type'') = Inl e"
    by (cases "field data ''payload''") (auto simp: from_json_def dest: no_msg_type)
  with assms(2) show ?thesis using message_type_of_Inl by (fastforce simp: TYPE_QUOTE_MAX_def)
qed

text \<open>
  What one side writes the other reads: a frame this agent can construct, written by
  \<open>to_json\<close> and read by \<open>from_json\<close>, is the same frame, with the received object kept. The
  hypotheses state the library's round trips at this frame: parsing what \<open>isoformat\<close> wrote, and
  \<open>json.loads\<close> of the text \<open>json.dumps\<close> wrote.
\<close>

theorem envelope_roundtrip:
  assumes "envelope_init e = Inr e" "env_id e \<noteq> []"
    and iso: "fromiso (isoformat (env_ts e)) = Some (env_ts e)" "CHR ''Z'' \<notin> set (isoformat (env_ts e))"
    and loads: "loads (to_json isoformat e) = Some (JObj (to_dict isoformat e))"
  shows "from_json loads fromiso (to_json isoformat e) =
    Inr (e\<lparr>env_received := Some (to_dict isoformat e)\<rparr>)"
proof -
  have ts: "replace ''Z'' ''+00:00'' (format_timestamp isoformat (env_ts e)) = isoformat (env_ts e)"
    unfolding format_timestamp_def using iso(2) by (intro replace_back) simp_all
  show ?thesis
    using assms ts
    by (simp add: from_json_def to_dict_def ENVELOPE_FIELDS_def dict_has_def field_def frame_iffs)
qed

text \<open>
  \<open>make\<close> builds a frame exactly for an outbound payload class other than \<open>metrics.push\<close>'s,
  with a zoned clock and a named agent, and gives it the catalogue's type for that class, the
  newest version and the payload's own fields.
\<close>

theorem make_frame_iff:
  "make_frame fresh now agent_id cls kws = Inr e \<longleftrightarrow>
    cls \<noteq> ''MetricsPayload'' \<and> agent_id \<noteq> [] \<and> dt_zone now \<noteq> None \<and>
    (\<exists>t d flds. (t, d, AClass cls flds) \<in> set MESSAGES \<and> d \<noteq> DashboardToAgent \<and>
      e = \<lparr>env_v = 2, env_type = t, env_id = fresh, env_ts = now, env_agent_id = agent_id,
           env_payload = map (\<lambda>(k, w). (k, asdict w)) kws, env_received = None\<rparr>)"
proof -
  have "make_frame fresh now agent_id cls kws = Inr e \<longleftrightarrow>
      cls \<noteq> ''MetricsPayload'' \<and>
      (\<exists>t. dict_get OUTBOUND_TYPE cls = Some t
        \<and> make_envelope fresh now agent_id t (map (\<lambda>(k, w). (k, asdict w)) kws) = Inr e)"
    by (simp add: make_frame_def split: option.split)
  then show ?thesis
    by (auto simp: outbound_type_get outbound_rows make_envelope_def envelope_init_iff SPEAKS_def)
qed

section \<open>Witnesses\<close>

text \<open>A heartbeat of the epoch, under a library that knows its one text.\<close>

definition epoch_text :: string where
  "epoch_text = ''1970-01-01T00:00:00+00:00''"

definition epoch :: datetime where
  "epoch = \<lparr>dt_micros = 0, dt_zone = Some 0\<rparr>"

definition sample_iso :: "datetime \<Rightarrow> string" where
  "sample_iso ts = epoch_text"

definition sample_fromiso :: "string \<Rightarrow> datetime option" where
  "sample_fromiso s = (if s = epoch_text then Some epoch else None)"

definition sample_frame :: envelope where
  "sample_frame = \<lparr>env_v = 2, env_type = MtHeartbeat, env_id = ''i1'', env_ts = epoch,
     env_agent_id = ''a1'', env_payload = [], env_received = None\<rparr>"

definition sample_object :: "(string \<times> json) list" where
  "sample_object = [(''v'', JInt 2), (''type'', JStr ''heartbeat''), (''id'', JStr ''i1''),
     (''ts'', JStr ''1970-01-01T00:00:00Z''), (''agent_id'', JStr ''a1''), (''payload'', JObj [])]"

definition sample_loads :: "string \<Rightarrow> json option" where
  "sample_loads s =
     (if s = render (JObj sample_object) then Some (JObj sample_object)
      else if s = ''x'' then Some (JObj (dict_set ''type'' (JStr ''heartbeat.v9'') sample_object))
      else None)"

lemma sample_ts_text: "replace ''Z'' ''+00:00'' ''1970-01-01T00:00:00Z'' = epoch_text"
  by (simp add: replace_char epoch_text_def)

lemma sample_format: "format_timestamp sample_iso epoch = ''1970-01-01T00:00:00Z''"
  unfolding format_timestamp_def sample_iso_def epoch_text_def by (simp add: replace.simps)

lemma sample_to_dict: "to_dict sample_iso sample_frame = sample_object"
  by (simp add: to_dict_def sample_frame_def sample_format sample_object_def)

lemma sample_to_json: "to_json sample_iso sample_frame = render (JObj sample_object)"
  by (simp add: to_json_def sample_to_dict) (simp add: sample_object_def)

lemma sample_read:
  "from_json sample_loads sample_fromiso (render (JObj sample_object)) =
    Inr (sample_frame\<lparr>env_received := Some sample_object\<rparr>)"
  by (simp add: sample_loads_def from_json_def ENVELOPE_FIELDS_def sample_object_def dict_has_def
      field_def check_version_def SPEAKS_def message_type_of_value [of MtHeartbeat, simplified]
      parse_timestamp_def sample_ts_text sample_fromiso_def epoch_def required_str_def
      envelope_init_def sample_frame_def)

theorem envelope_accepted_witness:
  "\<exists>data s. sample_loads (render (JObj sample_object)) = Some (JObj data)
    \<and> dict_get data ''ts'' = Some (JStr s)
    \<and> sample_fromiso (replace ''Z'' ''+00:00'' s) = Some epoch"
  using envelope_accepted [OF sample_read] by (auto simp: sample_frame_def)

theorem envelope_refusal_bounded_witness:
  "length ''heartbeat.v9'' \<le> (64::nat)"
proof -
  have "(''x'' = render (JObj sample_object)) = False" by (simp add: sample_object_def)
  then have "from_json sample_loads sample_fromiso ''x'' =
      Inl (ProtocolError UnknownType (Some ''heartbeat.v9'') (BadType (JStr ''heartbeat.v9'')))"
    by (simp add: sample_loads_def from_json_def ENVELOPE_FIELDS_def sample_object_def dict_has_def
      field_def check_version_def SPEAKS_def message_type_of_def message_types_def TYPE_QUOTE_MAX_def)
  then show ?thesis using envelope_refusal_bounded by fastforce
qed

theorem envelope_roundtrip_witness:
  "from_json sample_loads sample_fromiso (to_json sample_iso sample_frame) =
    Inr (sample_frame\<lparr>env_received := Some (to_dict sample_iso sample_frame)\<rparr>)"
proof (rule envelope_roundtrip)
  show "envelope_init sample_frame = Inr sample_frame"
    by (simp add: envelope_init_iff sample_frame_def epoch_def SPEAKS_def)
  show "env_id sample_frame \<noteq> []" by (simp add: sample_frame_def)
  show "sample_fromiso (sample_iso (env_ts sample_frame)) = Some (env_ts sample_frame)"
    by (simp add: sample_fromiso_def sample_iso_def sample_frame_def)
  show "CHR ''Z'' \<notin> set (sample_iso (env_ts sample_frame))" by (simp add: sample_iso_def epoch_text_def)
  show "sample_loads (to_json sample_iso sample_frame) = Some (JObj (to_dict sample_iso sample_frame))"
    by (simp add: sample_to_dict sample_to_json sample_loads_def)
qed

end
