(* ===== verification/Signoff.thy ===== *)
theory Signoff
  imports Commands Envelope
begin

text \<open>
  \<open>signoff/__init__.py\<close>, \<open>agent/signoff_guard.py\<close> and \<open>agent/signoff_push.py\<close>: the seal on the
  shell hatches as two files beside the nonce store, the writes that change it in their order, the
  dispatch-time checks, and the loop that tells the dashboard of a transition.
\<close>

section \<open>The two files\<close>

text \<open>The text of \<open>signoff.unsealed_at\<close> when it is a file, and whether \<open>signoff.sealed\<close> exists.\<close>

record seal_files =
  sf_unsealed_at :: "string option"
  sf_sealed :: bool

definition is_sealed :: "seal_files \<Rightarrow> bool" where
  "is_sealed f \<longleftrightarrow> sf_unsealed_at f = None"

definition unsealed_since :: "(string \<Rightarrow> datetime option) \<Rightarrow> seal_files \<Rightarrow> datetime option" where
  "unsealed_since fromiso f =
     (case sf_unsealed_at f of None \<Rightarrow> None | Some raw \<Rightarrow> fromiso (strip raw))"

text \<open>The writes in program order; a crash is a prefix of them. \<open>write_text\<close> truncates, then fills.\<close>

datatype seal_write = UnlinkMarker | TouchSeal | TruncateMarker | FillMarker string | UnlinkSeal

fun do_write :: "seal_files \<Rightarrow> seal_write \<Rightarrow> seal_files" where
  "do_write f UnlinkMarker = f\<lparr>sf_unsealed_at := None\<rparr>"
| "do_write f TouchSeal = f\<lparr>sf_sealed := True\<rparr>"
| "do_write f TruncateMarker = f\<lparr>sf_unsealed_at := Some []\<rparr>"
| "do_write f (FillMarker s) = f\<lparr>sf_unsealed_at := Some s\<rparr>"
| "do_write f UnlinkSeal = f\<lparr>sf_sealed := False\<rparr>"

definition seal_writes :: "seal_write list" where
  "seal_writes = [UnlinkMarker, TouchSeal]"

definition unseal_writes :: "string \<Rightarrow> seal_write list" where
  "unseal_writes now_iso = [TruncateMarker, FillMarker now_iso, UnlinkSeal]"

definition seal :: "seal_files \<Rightarrow> seal_files \<times> bool" where
  "seal f = (foldl do_write f seal_writes, \<not> is_sealed f)"

definition unseal :: "string \<Rightarrow> seal_files \<Rightarrow> seal_files \<times> bool" where
  "unseal now_iso f =
     (if is_sealed f then (foldl do_write f (unseal_writes now_iso), True) else (f, False))"

text \<open>\<open>format_unsealed_duration\<close>, elapsed time in microseconds truncated to seconds.\<close>

definition format_unsealed_duration :: "datetime option \<Rightarrow> datetime \<Rightarrow> string" where
  "format_unsealed_duration since now =
     (case since of
        None \<Rightarrow> ''unknown''
      | Some ts \<Rightarrow>
          (let micros = dt_micros now - dt_micros ts;
               total = (if micros < 0 then - ((- micros) div 1000000) else micros div 1000000);
               days = total div 86400; rem_d = total mod 86400;
               hours = rem_d div 3600; rem_h = rem_d mod 3600;
               minutes = rem_h div 60
           in if total < 0 then ''<1m''
              else if days \<noteq> 0 then int_str days @ ''d '' @ int_str hours @ ''h''
              else if hours \<noteq> 0 then int_str hours @ ''h '' @ int_str minutes @ ''m''
              else if minutes \<noteq> 0 then int_str minutes @ ''m''
              else ''<1m''))"

section \<open>The guard\<close>

definition is_blocked_by_seal :: "bool \<Rightarrow> string list \<Rightarrow> bool" where
  "is_blocked_by_seal sealed commands \<longleftrightarrow> sealed \<and> list_ex (\<lambda>c. c \<in> set SEALED_COMMANDS) commands"

definition needs_restart_to_load :: "bool \<Rightarrow> command_registry \<Rightarrow> string list \<Rightarrow> string option" where
  "needs_restart_to_load sealed reg commands =
     (if sealed then None else find (\<lambda>c. c \<in> set SEALED_COMMANDS \<and> \<not> dict_has reg c) commands)"

definition sealed_refusal_result :: "string \<Rightarrow> string \<Rightarrow> command_spec option \<Rightarrow> result_fault + command_result" where
  "sealed_refusal_result request_id command s =
     result_failed request_id command (case s of Some d \<Rightarrow> cs_group d | None \<Rightarrow> ''signoff'') FSignoffSealed
       (''Sign-off is sealed on this agent. Unseal on the host (`stormpulse signoff unseal`) ''
        @ ''to re-enable verify-block and apply-block dispatch.'') None None 0"

definition restart_pending_result :: "string \<Rightarrow> string \<Rightarrow> result_fault + command_result" where
  "restart_pending_result request_id command =
     result_failed request_id command ''signoff'' FRestartRequired
       (''Sign-off was unsealed after this agent started, so verify-block ''
        @ ''and apply-block dispatch are not loaded yet: the command whitelist ''
        @ ''is built once when the agent boots. Restart the agent to load this ''
        @ ''command (rootless: systemctl --user restart stormpulse.service). ''
        @ ''This is a pending restart, not a whitelist violation.'') None None 0"

section \<open>The push loop\<close>

text \<open>One tick: the seal as read, and whether the send went through; the value pushed, if any, and
  the loop's last known seal. A failed send does not advance it, so the next tick tries again.\<close>

definition push_tick :: "bool \<Rightarrow> bool \<times> bool \<Rightarrow> bool option \<times> bool" where
  "push_tick last_sealed tick =
     (let (current, sent) = tick in
      if current = last_sealed then (None, last_sealed)
      else if \<not> sent then (None, last_sealed)
      else (Some current, current))"

fun push_loop :: "bool \<Rightarrow> (bool \<times> bool) list \<Rightarrow> bool list \<times> bool" where
  "push_loop last_sealed [] = ([], last_sealed)"
| "push_loop last_sealed (t # ts) =
     (let (pushed, last') = push_tick last_sealed t; (rest, end') = push_loop last' ts
      in ((case pushed of Some b \<Rightarrow> b # rest | None \<Rightarrow> rest), end'))"

section \<open>Facts\<close>

lemma seal_prefix:
  "is_sealed (foldl do_write f (take (Suc n) seal_writes))"
  by (cases n) (simp_all add: seal_writes_def is_sealed_def take_Cons split: nat.split)

lemma push_loop_Cons:
  "push_loop b ((c, sent) # ts) =
    (if c = b \<or> \<not> sent then push_loop b ts else (c # fst (push_loop c ts), snd (push_loop c ts)))"
  by (simp add: push_tick_def split: prod.split)

declare push_loop.simps(2) [simp del]

lemma push_loop_last: "snd (push_loop b ts) = last (b # fst (push_loop b ts))"
proof (induction ts arbitrary: b)
  case (Cons t ts)
  then show ?case by (cases t) (simp add: push_loop_Cons)
qed simp

lemma push_loop_snoc: "snd (push_loop b (ts @ [(current, True)])) = current"
proof (induction ts arbitrary: b)
  case (Cons t ts)
  then show ?case by (cases t) (simp add: push_loop_Cons)
qed (simp add: push_loop_Cons)

lemma push_loop_adj: "distinct_adj (b # fst (push_loop b ts))"
proof (induction ts arbitrary: b)
  case (Cons t ts)
  show ?case
  proof (cases t)
    case (Pair c sent)
    with Cons [of b] Cons [of c] show ?thesis by (auto simp: push_loop_Cons)
  qed
qed simp

section \<open>Properties\<close>

text \<open>
  C13. The seal is safe against a crash: after any nonempty prefix of the seal's writes the agent is
  sealed, whatever it was before; the full seal and unseal leave it sealed and open, and say
  whether they changed anything; unsealing an open agent changes nothing, so the first instant
  stands.
\<close>

theorem seal_crash_safe:
  "is_sealed (foldl do_write f (take (Suc n) seal_writes))
   \<and> is_sealed (fst (seal f)) \<and> sf_sealed (fst (seal f)) \<and> (snd (seal f) \<longleftrightarrow> \<not> is_sealed f)
   \<and> \<not> is_sealed (fst (unseal now f)) \<and> (snd (unseal now f) \<longleftrightarrow> is_sealed f)
   \<and> (if is_sealed f then sf_unsealed_at (fst (unseal now f)) = Some now else fst (unseal now f) = f)"
proof (intro conjI)
  show "is_sealed (foldl do_write f (take (Suc n) seal_writes))" by (rule seal_prefix)
qed (simp_all add: seal_def unseal_def seal_writes_def unseal_writes_def is_sealed_def)

text \<open>
  The dashboard catches up: whatever the ticks and failed sends before, once a tick reads the
  seal and its send goes through, the last value the dashboard was told is that seal; and no value
  is pushed twice in a row.
\<close>

theorem push_converges:
  "last (b # fst (push_loop b (ts @ [(current, True)]))) = current
    \<and> distinct_adj (b # fst (push_loop b ts))"
proof
  show "last (b # fst (push_loop b (ts @ [(current, True)]))) = current"
    using push_loop_snoc [of b ts current] by (simp only: push_loop_last)
qed (rule push_loop_adj)

end
