(* ===== verification/Jobs.thy ===== *)
theory Jobs
  imports Payloads
begin

text \<open>
  \<open>commands/jobs.py\<close>: the manager of long-running commands. Each asyncio task is the phase its
  coroutine is suspended in: queued for a permit, in its handler, parked until its next attempt, or
  finishing (its result committed, its hook running). One operation is what happens between two
  suspension points, so an interleaving of tasks is a list of operations. Monotonic time is in
  milliseconds and comes with the operation that reads it.
\<close>

section \<open>Outcomes\<close>

record job_outcome =
  jo_success :: bool
  jo_exit_code :: int
  jo_stdout :: string
  jo_stderr :: string
  jo_failure_reason :: "failure_reason option"
  jo_extras :: "(string, json) dict"
  jo_error_code :: "string option"
  jo_upstream_code :: "string option"
  jo_retry_after_s :: "int option"

datatype outcome_fault = SuccessRetries | BadRetryDelay int

text \<open>\<open>JobOutcome.__post_init__\<close>.\<close>

definition outcome_fault :: "job_outcome \<Rightarrow> outcome_fault option" where
  "outcome_fault j =
     (case jo_retry_after_s j of
        None \<Rightarrow> None
      | Some d \<Rightarrow>
          if jo_success j then Some SuccessRetries
          else if d < 1 then Some (BadRetryDelay d) else None)"

text \<open>The two outcomes handlers build.\<close>

definition success_outcome :: "string \<Rightarrow> (string, json) dict \<Rightarrow> job_outcome" where
  "success_outcome out extras =
     \<lparr>jo_success = True, jo_exit_code = 0, jo_stdout = out, jo_stderr = [], jo_failure_reason = None,
      jo_extras = extras, jo_error_code = None, jo_upstream_code = None, jo_retry_after_s = None\<rparr>"

definition failure_outcome :: "failure_reason \<Rightarrow> string \<Rightarrow> (string, json) dict \<Rightarrow> job_outcome" where
  "failure_outcome reason err extras =
     \<lparr>jo_success = False, jo_exit_code = -1, jo_stdout = [], jo_stderr = err, jo_failure_reason = Some reason,
      jo_extras = extras, jo_error_code = None, jo_upstream_code = None, jo_retry_after_s = None\<rparr>"

lemma outcome_simps [simp]:
  "jo_success (success_outcome out extras)" "\<not> jo_success (failure_outcome reason err extras)"
  "jo_failure_reason (success_outcome out extras) = None"
  "jo_failure_reason (failure_outcome reason err extras) = Some reason"
  "jo_extras (success_outcome out extras) = extras" "jo_extras (failure_outcome reason err extras) = extras"
  "jo_stderr (failure_outcome reason err extras) = err"
  by (simp_all add: success_outcome_def failure_outcome_def)

lemma outcome_distinct [simp]:
  "success_outcome out extras \<noteq> failure_outcome reason err extras'"
  "failure_outcome reason err extras' \<noteq> success_outcome out extras"
  by (simp_all add: success_outcome_def failure_outcome_def)

text \<open>\<open>a or b\<close> on optional strings: an empty one counts as absent.\<close>

definition or_text :: "string option \<Rightarrow> string \<Rightarrow> string" where
  "or_text a b = (case a of None \<Rightarrow> b | Some s \<Rightarrow> if s = [] then b else s)"

definition finer_error :: "job_outcome \<Rightarrow> result_error option" where
  "finer_error j =
     (if jo_success j \<or> (jo_error_code j = None \<and> jo_upstream_code j = None) then None
      else Some \<lparr>re_code = or_text (jo_error_code j)
                    (case jo_failure_reason j of Some r \<Rightarrow> failure_reason_value r | None \<Rightarrow> ''unspecified''),
                 re_http_status = None, re_upstream_code = jo_upstream_code j,
                 re_message = jo_stderr j\<rparr>)"

text \<open>What \<open>_attempt\<close> makes of a handler's exception.\<close>

definition crash_outcome :: "string \<Rightarrow> string \<Rightarrow> string \<Rightarrow> job_outcome" where
  "crash_outcome command grp exc =
     \<lparr>jo_success = False, jo_exit_code = -1, jo_stdout = [],
      jo_stderr = ''Command '' @ [CHR 0x27] @ command @ [CHR 0x27] @ '' couldn'' @ [CHR 0x27] @ ''t finish (''
        @ exc @ ''). Run '' @ [CHR 0x27] @ ''stormpulse integration doctor '' @ grp @ [CHR 0x27]
        @ '' and confirm the operation'' @ [CHR 0x27] @ ''s state before retrying.'',
      jo_failure_reason = Some FOsError, jo_extras = [], jo_error_code = None,
      jo_upstream_code = None, jo_retry_after_s = None\<rparr>"

section \<open>The retry window\<close>

text \<open>\<open>_RetryWindow\<close>: the declared span and, once open, its deadline.\<close>

record retry_window =
  rw_window_s :: "int option"
  rw_deadline :: "int option"

definition new_window :: "int option \<Rightarrow> retry_window" where
  "new_window w = \<lparr>rw_window_s = w, rw_deadline = None\<rparr>"

definition open_window :: "int \<Rightarrow> retry_window \<Rightarrow> retry_window" where
  "open_window now w =
     (case (rw_deadline w, rw_window_s w) of
        (None, Some s) \<Rightarrow> w\<lparr>rw_deadline := Some (now + s * 1000)\<rparr>
      | _ \<Rightarrow> w)"

definition grants :: "retry_window \<Rightarrow> int \<Rightarrow> int \<Rightarrow> bool" where
  "grants w now delay_s =
     (case rw_deadline w of None \<Rightarrow> False | Some d \<Rightarrow> delay_s * 1000 \<le> d - now)"

definition admits :: "retry_window \<Rightarrow> int \<Rightarrow> bool" where
  "admits w now = grants w now 0"

section \<open>The manager\<close>

text \<open>\<open>Active\<close> holds the instant the attempt began; \<open>Active\<close> and \<open>Finishing\<close> hold a permit.\<close>

datatype job_phase = Queued | Active int | Parked | Finishing

record job =
  jb_command :: string
  jb_group :: string
  jb_window :: retry_window
  jb_phase :: job_phase
  jb_attempts :: nat
  jb_work_ms :: int
  jb_concurrent :: nat
  jb_last :: "job_outcome option"

text \<open>The frames a manager puts on the wire, in order.\<close>

datatype job_frame =
    ResultFrame command_result
  | CancelFrame string string cancel_reason
  | ProgressFrame string string string

text \<open>
  \<open>jm_accepted\<close>, \<open>jm_shed\<close> and \<open>jm_dropped\<close> are history: the ids started, refused for quota
  overload, and cancelled on a lost socket with no word sent.
\<close>

record manager =
  jm_jobs :: "(string, job) dict"
  jm_running :: nat
  jm_quota_running :: nat
  jm_quota_rejected :: nat
  jm_terminal :: "string list"
  jm_closing :: bool
  jm_sent :: "job_frame list"
  jm_accepted :: "string list"
  jm_shed :: "string list"
  jm_dropped :: "string list"

definition MAX_CONCURRENT_JOBS :: nat where
  "MAX_CONCURRENT_JOBS = 6"

definition QUOTA_COMMAND :: string where
  "QUOTA_COMMAND = ''garage_bucket_set_quota''"

definition new_manager :: manager where
  "new_manager =
     \<lparr>jm_jobs = [], jm_running = 0, jm_quota_running = 0, jm_quota_rejected = 0, jm_terminal = [],
      jm_closing = False, jm_sent = [], jm_accepted = [], jm_shed = [], jm_dropped = []\<rparr>"

datatype start_error = ManagerClosing | AlreadyRunning string

definition start :: "manager \<Rightarrow> string \<Rightarrow> string \<Rightarrow> string \<Rightarrow> int option \<Rightarrow> start_error + manager" where
  "start m rid command grp window_s =
     (if jm_closing m then Inl ManagerClosing
      else if dict_has (jm_jobs m) rid then Inl (AlreadyRunning rid)
      else Inr (m\<lparr>jm_jobs := dict_set rid
                   \<lparr>jb_command = command, jb_group = grp, jb_window = new_window window_s,
                    jb_phase = Queued, jb_attempts = 0, jb_work_ms = 0, jb_concurrent = 0,
                    jb_last = None\<rparr> (jm_jobs m),
                 jm_terminal := removeAll rid (jm_terminal m),
                 jm_accepted := rid # jm_accepted m\<rparr>))"

definition active_count :: "manager \<Rightarrow> nat" where
  "active_count m = length (jm_jobs m)"

definition quota_pending :: "manager \<Rightarrow> nat" where
  "quota_pending m = length (filter (\<lambda>(rid, j). jb_command j = QUOTA_COMMAND) (jm_jobs m))"

definition quota_admission_open :: "manager \<Rightarrow> bool" where
  "quota_admission_open m \<longleftrightarrow> \<not> jm_closing m \<and> quota_pending m < MAX_CONCURRENT_JOBS"

definition should_shed_quota :: "manager \<Rightarrow> string \<Rightarrow> bool" where
  "should_shed_quota m command \<longleftrightarrow> command = QUOTA_COMMAND \<and> \<not> quota_admission_open m"

text \<open>\<open>load\<close>: pending, running and the quota pressure, as the metrics push carries them.\<close>

definition load :: "manager \<Rightarrow> (string \<times> nat) list" where
  "load m =
     [(''pending'', active_count m), (''running'', jm_running m), (''quota_pending'', quota_pending m),
      (''quota_running'', jm_quota_running m), (''quota_rejected'', jm_quota_rejected m)]"

text \<open>A frame whose construction cannot fail; the two faults are ruled out below.\<close>

definition send_result :: "result_fault + command_result \<Rightarrow> manager \<Rightarrow> manager" where
  "send_result r m = (case r of Inr x \<Rightarrow> m\<lparr>jm_sent := jm_sent m @ [ResultFrame x]\<rparr> | Inl e \<Rightarrow> m)"

definition reject_quota_overloaded :: "manager \<Rightarrow> string \<Rightarrow> string \<Rightarrow> string \<Rightarrow> manager" where
  "reject_quota_overloaded m rid command grp =
     send_result
       (result_failed rid command grp FAgentOverloaded
         ''Agent quota admission ceiling reached; retry next tick.'' None None 0)
       (m\<lparr>jm_quota_rejected := Suc (jm_quota_rejected m), jm_shed := rid # jm_shed m\<rparr>)"

section \<open>One job's run\<close>

definition is_quota :: "job \<Rightarrow> bool" where
  "is_quota j \<longleftrightarrow> jb_command j = QUOTA_COMMAND"

definition put_job :: "string \<Rightarrow> job \<Rightarrow> manager \<Rightarrow> manager" where
  "put_job rid j m = m\<lparr>jm_jobs := dict_set rid j (jm_jobs m)\<rparr>"

text \<open>\<open>_permit\<close>: the counters on the way in and on the way out.\<close>

definition take_permit :: "job \<Rightarrow> manager \<Rightarrow> manager" where
  "take_permit j m =
     m\<lparr>jm_running := Suc (jm_running m),
       jm_quota_running := (if is_quota j then Suc (jm_quota_running m) else jm_quota_running m)\<rparr>"

definition drop_permit :: "job \<Rightarrow> manager \<Rightarrow> manager" where
  "drop_permit j m =
     m\<lparr>jm_running := jm_running m - 1,
       jm_quota_running := (if is_quota j then jm_quota_running m - 1 else jm_quota_running m)\<rparr>"

text \<open>\<open>_send_result\<close>: the terminal frame of one outcome with the job's tally.\<close>

definition job_result :: "string \<Rightarrow> job \<Rightarrow> job_outcome \<Rightarrow> result_fault + command_result" where
  "job_result rid j out =
     result_init
       \<lparr>res_request_id = rid, res_command = jb_command j, res_group = jb_group j,
        res_success = jo_success out, res_exit_code = jo_exit_code out, res_stdout = jo_stdout out,
        res_stderr = jo_stderr out, res_duration_ms = jb_work_ms j, res_sequence_id = None,
        res_failure_reason = map_option failure_reason_value (jo_failure_reason out),
        res_result = (if jo_extras out = [] then None else Some (jo_extras out)),
        res_error = finer_error out, res_step_index = None, res_attempts = int (jb_attempts j),
        res_retries_exhausted = (jo_retry_after_s out \<noteq> None)\<rparr>"

text \<open>\<open>_finish\<close>: the result is committed and sent; the hook runs under the same permit.\<close>

definition finish :: "string \<Rightarrow> job \<Rightarrow> job_outcome \<Rightarrow> manager \<Rightarrow> manager" where
  "finish rid j out m =
     send_result (job_result rid j out)
       (put_job rid (j\<lparr>jb_phase := Finishing, jb_last := Some out\<rparr>)
         (m\<lparr>jm_terminal := rid # jm_terminal m\<rparr>))"

text \<open>A queued task gets its permit: its window opens, and an attempt starts or, past the window,
  the last outcome is terminal.\<close>

definition acquire :: "string \<Rightarrow> int \<Rightarrow> manager \<Rightarrow> manager" where
  "acquire rid now m =
     (case dict_get (jm_jobs m) rid of
        None \<Rightarrow> m
      | Some j \<Rightarrow>
          (let j1 = j\<lparr>jb_window := open_window now (jb_window j)\<rparr>;
               m1 = take_permit j m
           in if jb_attempts j = 0 \<or> admits (jb_window j1) now
              then put_job rid (j1\<lparr>jb_attempts := Suc (jb_attempts j), jb_phase := Active now,
                                   jb_concurrent := length (jm_jobs m)\<rparr>) m1
              else (case jb_last j of
                Some out \<Rightarrow> finish rid j1 out m1
              | None \<Rightarrow> m1)))"

definition park_message :: "job \<Rightarrow> int \<Rightarrow> string \<Rightarrow> string" where
  "park_message j delay stderr =
     ''Attempt '' @ nat_str (jb_attempts j) @ '' will run again in '' @ int_str delay @ ''s: '' @ stderr"

text \<open>The handler returned: a granted ask parks without the permit, anything else is terminal.\<close>

definition settle :: "string \<Rightarrow> job_outcome \<Rightarrow> int \<Rightarrow> manager \<Rightarrow> manager" where
  "settle rid out now m =
     (case dict_get (jm_jobs m) rid of
        None \<Rightarrow> m
      | Some j \<Rightarrow>
          (case jb_phase j of
             Active began \<Rightarrow>
               (let j1 = j\<lparr>jb_work_ms := jb_work_ms j + (now - began), jb_last := Some out\<rparr>
                in case jo_retry_after_s out of
                  Some d \<Rightarrow>
                    if grants (jb_window j) now d
                    then drop_permit j (put_job rid (j1\<lparr>jb_phase := Parked\<rparr>)
                      (m\<lparr>jm_sent := jm_sent m @ [ProgressFrame rid ''running'' (park_message j1 d (jo_stderr out))]\<rparr>))
                    else finish rid j1 out m
                | None \<Rightarrow> finish rid j1 out m)
           | _ \<Rightarrow> m))"

text \<open>\<open>_make_progress_callback\<close>: silent once the manager is closing.\<close>

definition progress :: "string \<Rightarrow> string \<Rightarrow> string \<Rightarrow> manager \<Rightarrow> manager" where
  "progress rid stage message m =
     (if jm_closing m then m else m\<lparr>jm_sent := jm_sent m @ [ProgressFrame rid stage message]\<rparr>)"

definition wake :: "string \<Rightarrow> manager \<Rightarrow> manager" where
  "wake rid m =
     (case dict_get (jm_jobs m) rid of
        None \<Rightarrow> m
      | Some j \<Rightarrow> put_job rid (j\<lparr>jb_phase := Queued\<rparr>) m)"

text \<open>The task is done: the permit is back and \<open>_finish_job\<close> forgets the job.\<close>

definition finish_job :: "string \<Rightarrow> manager \<Rightarrow> manager" where
  "finish_job rid m =
     (case dict_get (jm_jobs m) rid of
        None \<Rightarrow> m
      | Some j \<Rightarrow> drop_permit j
          (m\<lparr>jm_jobs := dict_pop rid (jm_jobs m), jm_terminal := removeAll rid (jm_terminal m)\<rparr>))"

text \<open>
  \<open>shutdown_all\<close>: admission closes, every task is cancelled and gives its permit back, and each
  job whose result was not attempted gets a cancellation when a reason is given.
\<close>

definition unresolved :: "manager \<Rightarrow> (string \<times> job) list" where
  "unresolved m = filter (\<lambda>(rid, j). rid \<notin> set (jm_terminal m)) (jm_jobs m)"

definition shutdown_all :: "cancel_reason option \<Rightarrow> manager \<Rightarrow> manager" where
  "shutdown_all reason m =
     (let cancelled = unresolved m;
          words = (case reason of
             None \<Rightarrow> []
           | Some r \<Rightarrow> map (\<lambda>(rid, j). CancelFrame rid (jb_command j) r) cancelled)
      in m\<lparr>jm_closing := True, jm_jobs := [], jm_running := 0, jm_quota_running := 0,
           jm_terminal := [], jm_sent := jm_sent m @ words,
           jm_dropped := (if reason = None then map fst cancelled @ jm_dropped m else jm_dropped m)\<rparr>)"

section \<open>The operations as one machine\<close>

datatype job_op =
    Start string string string "int option"
  | Shed string string string
  | Acquire string int
  | Settle string job_outcome int
  | Progress string string string
  | Wake string
  | Done string
  | Shutdown "cancel_reason option"

fun job_step :: "manager \<Rightarrow> job_op \<Rightarrow> manager" where
  "job_step m (Start rid command grp w) = (case start m rid command grp w of Inr m' \<Rightarrow> m' | Inl e \<Rightarrow> m)"
| "job_step m (Shed rid command grp) = reject_quota_overloaded m rid command grp"
| "job_step m (Acquire rid now) = acquire rid now m"
| "job_step m (Settle rid out now) = settle rid out now m"
| "job_step m (Progress rid stage message) = progress rid stage message m"
| "job_step m (Wake rid) = wake rid m"
| "job_step m (Done rid) = finish_job rid m"
| "job_step m (Shutdown reason) = shutdown_all reason m"

text \<open>
  When an operation can happen: the semaphore lets a queued task in only below the cap, a handler
  returns only while it runs, a sleep ends only for a parked task, a task is done only after its
  result. A quota job is started only after \<open>should_shed_quota\<close> said no.
\<close>

definition phase_of :: "manager \<Rightarrow> string \<Rightarrow> job_phase option" where
  "phase_of m rid = map_option jb_phase (dict_get (jm_jobs m) rid)"

fun job_allowed :: "manager \<Rightarrow> job_op \<Rightarrow> bool" where
  "job_allowed m (Start rid command grp w) = (\<not> should_shed_quota m command)"
| "job_allowed m (Shed rid command grp) = should_shed_quota m command"
| "job_allowed m (Acquire rid now) =
     (phase_of m rid = Some Queued \<and> jm_running m < MAX_CONCURRENT_JOBS)"
| "job_allowed m (Settle rid out now) =
     (outcome_fault out = None \<and> (\<exists>t. phase_of m rid = Some (Active t) \<and> t \<le> now))"
| "job_allowed m (Progress rid stage message) = dict_has (jm_jobs m) rid"
| "job_allowed m (Wake rid) = (phase_of m rid = Some Parked)"
| "job_allowed m (Done rid) = (phase_of m rid = Some Finishing)"
| "job_allowed m (Shutdown reason) = True"

section \<open>Facts\<close>

lemma finer_error_success: "jo_success out \<Longrightarrow> finer_error out = None"
  by (simp add: finer_error_def)

text \<open>The terminal frame always gets built, whatever the handler reported.\<close>

lemma job_result_built:
  "\<exists>r. job_result rid j out = Inr r \<and> res_request_id r = rid \<and> res_success r = jo_success out
    \<and> res_attempts r = int (jb_attempts j) \<and> (res_retries_exhausted r \<longleftrightarrow> jo_retry_after_s out \<noteq> None)"
  by (auto simp: job_result_def result_init_def with_reason_def finer_error_success split: option.splits)

lemma shed_result_built:
  "\<exists>r. result_failed rid command grp FAgentOverloaded msg None None 0 = Inr r \<and> res_request_id r = rid"
  by (auto simp: result_failed_def result_init_def with_reason_def
      lift_reason_value [of FAgentOverloaded, simplified])

definition holds_permit :: "job \<Rightarrow> bool" where
  "holds_permit j \<longleftrightarrow> (case jb_phase j of Active t \<Rightarrow> True | Finishing \<Rightarrow> True | _ \<Rightarrow> False)"

definition tallied :: "(job \<Rightarrow> bool) \<Rightarrow> manager \<Rightarrow> nat" where
  "tallied P m = sum_list (map (\<lambda>j. of_bool (P j)) (dict_values (jm_jobs m)))"

lemma quota_pending_tallied: "quota_pending m = tallied is_quota m"
proof -
  have "length (filter (\<lambda>(rid, j). jb_command j = QUOTA_COMMAND) js) =
      sum_list (map (\<lambda>j. of_bool (is_quota j)) (dict_values js))" for js :: "(string, job) dict"
    by (induction js) (auto simp: is_quota_def)
  then show ?thesis by (simp add: quota_pending_def tallied_def)
qed

text \<open>How a tally moves with one job's entry.\<close>

lemma tallied_put:
  assumes "dict_ok (jm_jobs m)" "dict_get (jm_jobs m) rid = Some j"
  shows "tallied P (put_job rid j' m) + of_bool (P j) = tallied P m + of_bool (P j')"
  using sum_list_set [OF assms, of "\<lambda>j. of_bool (P j)" j'] by (simp add: tallied_def put_job_def)

lemma tallied_same_jobs: "jm_jobs m' = jm_jobs m \<Longrightarrow> tallied P m' = tallied P m"
  by (simp add: tallied_def)

section \<open>The invariant\<close>

text \<open>The table: one entry per id, a result committed exactly for the finishing jobs, an outcome on
  record for every job that ran, and nothing at all once closed.\<close>

definition job_ok :: "job \<Rightarrow> bool" where
  "job_ok j \<longleftrightarrow> (jb_attempts j = 0 \<longrightarrow> jb_phase j = Queued) \<and> (0 < jb_attempts j \<longrightarrow> (\<forall>t. jb_phase j \<noteq> Active t) \<longrightarrow> jb_last j \<noteq> None)
     \<and> (\<forall>t. jb_phase j = Active t \<longrightarrow> 1 < jb_attempts j \<longrightarrow> admits (jb_window j) t)"

definition table_inv :: "manager \<Rightarrow> bool" where
  "table_inv m \<longleftrightarrow>
     dict_ok (jm_jobs m)
     \<and> (\<forall>rid j. dict_get (jm_jobs m) rid = Some j \<longrightarrow>
          job_ok j \<and> (rid \<in> set (jm_terminal m) \<longleftrightarrow> jb_phase j = Finishing))
     \<and> (\<forall>rid\<in>set (jm_terminal m). dict_get (jm_jobs m) rid \<noteq> None)
     \<and> (jm_closing m \<longrightarrow> jm_jobs m = [])"

text \<open>The permits: the counters are the jobs that hold one, and stay within the caps.\<close>

definition permit_inv :: "manager \<Rightarrow> bool" where
  "permit_inv m \<longleftrightarrow>
     jm_running m = tallied holds_permit m
     \<and> jm_quota_running m = tallied (\<lambda>j. holds_permit j \<and> is_quota j) m
     \<and> jm_running m \<le> MAX_CONCURRENT_JOBS
     \<and> tallied is_quota m \<le> MAX_CONCURRENT_JOBS"

text \<open>The words: what was sent for an id, plus what is still owed, is what was taken on.\<close>

fun is_word :: "string \<Rightarrow> job_frame \<Rightarrow> bool" where
  "is_word rid (ResultFrame r) = (res_request_id r = rid)"
| "is_word rid (CancelFrame r c w) = (r = rid)"
| "is_word rid (ProgressFrame r s t) = False"

definition words :: "manager \<Rightarrow> string \<Rightarrow> nat" where
  "words m rid = length (filter (is_word rid) (jm_sent m))"

definition owed :: "manager \<Rightarrow> string \<Rightarrow> nat" where
  "owed m rid = of_bool (dict_has (jm_jobs m) rid \<and> rid \<notin> set (jm_terminal m))"

definition words_inv :: "manager \<Rightarrow> bool" where
  "words_inv m \<longleftrightarrow> (\<forall>rid. words m rid + owed m rid + count_list (jm_dropped m) rid =
     count_list (jm_accepted m) rid + count_list (jm_shed m) rid)"

definition job_inv :: "manager \<Rightarrow> bool" where
  "job_inv m \<longleftrightarrow> table_inv m \<and> permit_inv m \<and> words_inv m"

lemma send_result_fields [simp]:
  "jm_jobs (send_result r m) = jm_jobs m" "jm_running (send_result r m) = jm_running m"
  "jm_quota_running (send_result r m) = jm_quota_running m" "jm_terminal (send_result r m) = jm_terminal m"
  "jm_closing (send_result r m) = jm_closing m" "jm_accepted (send_result r m) = jm_accepted m"
  "jm_shed (send_result r m) = jm_shed m" "jm_dropped (send_result r m) = jm_dropped m"
  by (simp_all add: send_result_def split: sum.splits)

lemma put_job_fields [simp]:
  "jm_jobs (put_job rid j m) = dict_set rid j (jm_jobs m)" "jm_running (put_job rid j m) = jm_running m"
  "jm_quota_running (put_job rid j m) = jm_quota_running m" "jm_terminal (put_job rid j m) = jm_terminal m"
  "jm_closing (put_job rid j m) = jm_closing m" "jm_sent (put_job rid j m) = jm_sent m"
  "jm_accepted (put_job rid j m) = jm_accepted m" "jm_shed (put_job rid j m) = jm_shed m"
  "jm_dropped (put_job rid j m) = jm_dropped m"
  by (simp_all add: put_job_def)

lemma finish_fields [simp]:
  "jm_jobs (finish rid j out m) = dict_set rid (j\<lparr>jb_phase := Finishing, jb_last := Some out\<rparr>) (jm_jobs m)"
  "jm_running (finish rid j out m) = jm_running m"
  "jm_quota_running (finish rid j out m) = jm_quota_running m"
  "jm_terminal (finish rid j out m) = rid # jm_terminal m" "jm_closing (finish rid j out m) = jm_closing m"
  "jm_accepted (finish rid j out m) = jm_accepted m" "jm_shed (finish rid j out m) = jm_shed m"
  "jm_dropped (finish rid j out m) = jm_dropped m"
  by (simp_all add: finish_def)

lemma words_permit [simp]: "words (take_permit j m) k = words m k" "words (drop_permit j m) k = words m k"
  by (simp_all add: words_def take_permit_def drop_permit_def)

lemma words_finish: "words (finish rid j out m) k = words m k + of_bool (k = rid)"
  using job_result_built [of rid j out] by (auto simp: finish_def send_result_def words_def)

lemma words_shed: "words (reject_quota_overloaded m rid command grp) k = words m k + of_bool (k = rid)"
  using shed_result_built [of rid command grp "''Agent quota admission ceiling reached; retry next tick.''"]
  by (auto simp: reject_quota_overloaded_def send_result_def words_def)

lemma table_inv_get:
  "table_inv m \<Longrightarrow> dict_get (jm_jobs m) rid = Some j \<Longrightarrow>
    job_ok j \<and> (rid \<in> set (jm_terminal m) \<longleftrightarrow> jb_phase j = Finishing) \<and> dict_ok (jm_jobs m) \<and> \<not> jm_closing m"
  by (auto simp: table_inv_def)

text \<open>One entry replaced: what has to be said of the new one.\<close>

lemma table_inv_put:
  assumes "table_inv m" "dict_get (jm_jobs m) rid = Some j" "job_ok j'"
    and "jm_jobs m' = dict_set rid j' (jm_jobs m)" "jm_closing m' = jm_closing m"
    and "set (jm_terminal m') = (if jb_phase j' = Finishing then insert rid (set (jm_terminal m)) else set (jm_terminal m) - {rid})"
  shows "table_inv m'"
  using assms by (auto simp: table_inv_def dict_simps split: if_splits)

text \<open>What the two operations on a permit amount to, with the phase known.\<close>

lemma acquire_cases:
  assumes "dict_get (jm_jobs m) rid = Some j" "job_ok j" "jb_phase j = Queued"
  obtains (attempt) j' where "acquire rid now m = put_job rid j' (take_permit j m)"
      "jb_phase j' = Active now" "job_ok j'" "jb_command j' = jb_command j"
  | (expired) j' out where "acquire rid now m = finish rid j' out (take_permit j m)"
      "jb_command j' = jb_command j" "0 < jb_attempts j'"
proof -
  let ?w = "open_window now (jb_window j)"
  let ?j1 = "j\<lparr>jb_window := ?w\<rparr>"
  show ?thesis
  proof (cases "jb_attempts j = 0 \<or> admits ?w now")
    case True
    let ?j' = "?j1\<lparr>jb_attempts := Suc (jb_attempts j), jb_phase := Active now, jb_concurrent := length (jm_jobs m)\<rparr>"
    have "acquire rid now m = put_job rid ?j' (take_permit j m)"
      using True assms(1) by (simp add: acquire_def)
    moreover have "job_ok ?j'" using True by (auto simp: job_ok_def)
    ultimately show ?thesis by (intro attempt [of ?j']) simp_all
  next
    case False
    with assms(2,3) obtain out where "jb_last j = Some out" by (auto simp: job_ok_def)
    with False assms(1) have "acquire rid now m = finish rid ?j1 out (take_permit j m)"
      by (simp add: acquire_def Let_def)
    with False show ?thesis by (intro expired [of ?j1 out]) simp_all
  qed
qed

lemma settle_cases:
  assumes "dict_get (jm_jobs m) rid = Some j" "job_ok j" "jb_phase j = Active t"
  obtains (park) j' msg where "settle rid out now m =
        drop_permit j (put_job rid j' (m\<lparr>jm_sent := jm_sent m @ [ProgressFrame rid ''running'' msg]\<rparr>))"
      "jb_phase j' = Parked" "job_ok j'" "jb_command j' = jb_command j"
  | (final) j' where "settle rid out now m = finish rid j' out m"
      "jb_command j' = jb_command j" "0 < jb_attempts j'"
proof -
  let ?j1 = "j\<lparr>jb_work_ms := jb_work_ms j + (now - t), jb_last := Some out\<rparr>"
  have pos: "0 < jb_attempts j" using assms(2,3) by (auto simp: job_ok_def)
  show ?thesis
  proof (cases "\<exists>d. jo_retry_after_s out = Some d \<and> grants (jb_window j) now d")
    case True
    then obtain d where "jo_retry_after_s out = Some d" "grants (jb_window j) now d" by blast
    then have "settle rid out now m = drop_permit j (put_job rid (?j1\<lparr>jb_phase := Parked\<rparr>)
        (m\<lparr>jm_sent := jm_sent m @ [ProgressFrame rid ''running'' (park_message ?j1 d (jo_stderr out))]\<rparr>))"
      using assms by (simp add: settle_def Let_def)
    moreover have "job_ok (?j1\<lparr>jb_phase := Parked\<rparr>)" using pos by (simp add: job_ok_def)
    ultimately show ?thesis by (intro park [of "?j1\<lparr>jb_phase := Parked\<rparr>"]) simp_all
  next
    case False
    then have "settle rid out now m = finish rid ?j1 out m"
      using assms by (auto simp: settle_def Let_def split: option.splits)
    with pos show ?thesis by (intro final [of ?j1]) simp_all
  qed
qed

lemma permit_fields [simp]:
  "jm_jobs (take_permit j m) = jm_jobs m" "jm_terminal (take_permit j m) = jm_terminal m"
  "jm_closing (take_permit j m) = jm_closing m" "jm_sent (take_permit j m) = jm_sent m"
  "jm_accepted (take_permit j m) = jm_accepted m" "jm_shed (take_permit j m) = jm_shed m"
  "jm_dropped (take_permit j m) = jm_dropped m"
  "jm_jobs (drop_permit j m) = jm_jobs m" "jm_terminal (drop_permit j m) = jm_terminal m"
  "jm_closing (drop_permit j m) = jm_closing m" "jm_sent (drop_permit j m) = jm_sent m"
  "jm_accepted (drop_permit j m) = jm_accepted m" "jm_shed (drop_permit j m) = jm_shed m"
  "jm_dropped (drop_permit j m) = jm_dropped m"
  by (simp_all add: take_permit_def drop_permit_def)

lemma job_ok_final: "0 < jb_attempts j \<Longrightarrow> job_ok (j\<lparr>jb_phase := Finishing, jb_last := Some out\<rparr>)"
  by (simp add: job_ok_def)

lemma phase_of_Some: "phase_of m rid = Some p \<longleftrightarrow> (\<exists>j. dict_get (jm_jobs m) rid = Some j \<and> jb_phase j = p)"
  by (auto simp: phase_of_def)

lemma table_step:
  assumes "table_inv m" "job_allowed m a"
  shows "table_inv (job_step m a)"
proof (cases a)
  case (Start rid command grp w)
  show ?thesis
  proof (cases "start m rid command grp w")
    case (Inr m')
    with assms(1) show ?thesis
      by (auto simp: Start start_def table_inv_def dict_simps job_ok_def map_of_eq_None_iff split: if_splits)
  qed (simp add: Start assms(1))
next
  case (Acquire rid now)
  with assms(2) obtain j where j: "dict_get (jm_jobs m) rid = Some j" "jb_phase j = Queued"
    by (auto simp: phase_of_Some)
  note ok = table_inv_get [OF assms(1) j(1)]
  show ?thesis
  proof (rule acquire_cases [where now = now, OF j(1) conjunct1 [OF ok] j(2)], goal_cases attempt expired)
    case (attempt j')
    with ok j show ?thesis by (auto intro!: table_inv_put [OF assms(1) j(1), of j'] simp: Acquire)
  next
    case (expired j' out)
    with ok j show ?thesis
      by (auto intro!: table_inv_put [OF assms(1) j(1), OF job_ok_final [of j' out]] simp: Acquire)
  qed
next
  case (Settle rid out now)
  with assms(2) obtain j t where j: "dict_get (jm_jobs m) rid = Some j" "jb_phase j = Active t"
    by (auto simp: phase_of_Some)
  note ok = table_inv_get [OF assms(1) j(1)]
  show ?thesis
  proof (rule settle_cases [where now = now and out = out, OF j(1) conjunct1 [OF ok] j(2)], goal_cases park final)
    case (park j' msg)
    with ok j show ?thesis by (auto intro!: table_inv_put [OF assms(1) j(1), of j'] simp: Settle)
  next
    case (final j')
    with ok j show ?thesis
      by (auto intro!: table_inv_put [OF assms(1) j(1), OF job_ok_final [of j' out]] simp: Settle)
  qed
next
  case (Wake rid)
  with assms(2) obtain j where j: "dict_get (jm_jobs m) rid = Some j" "jb_phase j = Parked"
    by (auto simp: phase_of_Some)
  note ok = table_inv_get [OF assms(1) j(1)]
  have "job_ok (j\<lparr>jb_phase := Queued\<rparr>)" using j(2) ok by (auto simp: job_ok_def)
  with ok j show ?thesis
    by (auto intro!: table_inv_put [OF assms(1) j(1), of "j\<lparr>jb_phase := Queued\<rparr>"] simp: Wake wake_def)
next
  case (Done rid)
  with assms show ?thesis
    by (auto simp: phase_of_Some finish_job_def table_inv_def dict_get_pop dict_ok_pop
      simp del: map_of_eq_Some_iff split: option.splits if_splits)
next
  case (Shutdown reason)
  then show ?thesis by (simp add: shutdown_all_def Let_def table_inv_def)
qed (use assms in \<open>auto simp: table_inv_def reject_quota_overloaded_def progress_def\<close>)

text \<open>The tallies of one entry replaced.\<close>

lemma tallied_dict_set:
  assumes "dict_ok (jm_jobs m)" "dict_get (jm_jobs m) rid = Some j"
    and "jm_jobs m' = dict_set rid j' (jm_jobs m)"
  shows "tallied P m' + of_bool (P j) = tallied P m + of_bool (P j')"
  using tallied_put [OF assms(1,2), of P j'] tallied_same_jobs [of m' "put_job rid j' m" P] assms(3)
  by simp

lemma tallied_drop:
  assumes "dict_ok (jm_jobs m)" "dict_get (jm_jobs m) rid = Some j"
    and "jm_jobs m' = dict_pop rid (jm_jobs m)"
  shows "tallied P m' + of_bool (P j) = tallied P m"
  using sum_list_pop [OF assms(1,2), of "\<lambda>j. of_bool (P j)"] assms(3) by (simp add: tallied_def)

lemma tallied_fresh:
  assumes "dict_get (jm_jobs m) rid = None" "jm_jobs m' = dict_set rid j (jm_jobs m)"
  shows "tallied P m' = tallied P m + of_bool (P j)"
  using sum_list_set_fresh [OF assms(1), of "\<lambda>j. of_bool (P j)" j] assms(2) by (simp add: tallied_def)

lemma is_quota_command: "jb_command j' = jb_command j \<Longrightarrow> is_quota j' = is_quota j"
  by (simp add: is_quota_def)

lemma permit_numbers [simp]:
  "jm_running (take_permit j m) = Suc (jm_running m)" "jm_running (drop_permit j m) = jm_running m - 1"
  "jm_quota_running (take_permit j m) = jm_quota_running m + of_bool (is_quota j)"
  "jm_quota_running (drop_permit j m) = jm_quota_running m - of_bool (is_quota j)"
  by (simp_all add: take_permit_def drop_permit_def)

lemma permit_step:
  assumes "table_inv m" "permit_inv m" "job_allowed m a"
  shows "permit_inv (job_step m a)"
proof (cases a)
  case (Start rid command grp w)
  show ?thesis
  proof (cases "start m rid command grp w")
    case (Inr m')
    then have get: "dict_get (jm_jobs m) rid = None"
      by (auto simp: start_def dict_has_def split: if_splits)
    obtain j where j: "jm_jobs m' = dict_set rid j (jm_jobs m)" "\<not> holds_permit j" "jb_command j = command"
      "jm_running m' = jm_running m" "jm_quota_running m' = jm_quota_running m" "\<not> jm_closing m"
      using Inr by (auto simp: start_def holds_permit_def split: if_splits)
    note tally = tallied_fresh [OF get j(1)]
    have "tallied is_quota m' \<le> MAX_CONCURRENT_JOBS"
      using assms(2,3) j(3,6) tally [of is_quota]
      by (auto simp: Start permit_inv_def should_shed_quota_def quota_admission_open_def
          quota_pending_tallied is_quota_def)
    then show ?thesis
      using assms(2) j(2,4,5) tally [of holds_permit] tally [of "\<lambda>j. holds_permit j \<and> is_quota j"] Inr
      by (simp add: Start permit_inv_def)
  qed (simp add: Start assms(2))
next
  case (Acquire rid now)
  with assms(3) obtain j where j: "dict_get (jm_jobs m) rid = Some j" "jb_phase j = Queued"
      "jm_running m < MAX_CONCURRENT_JOBS"
    by (auto simp: phase_of_Some)
  note ok = table_inv_get [OF assms(1) j(1)]
  have "\<exists>j'. jm_jobs (acquire rid now m) = dict_set rid j' (jm_jobs m) \<and> holds_permit j' \<and> is_quota j' = is_quota j
      \<and> jm_running (acquire rid now m) = Suc (jm_running m)
      \<and> jm_quota_running (acquire rid now m) = jm_quota_running m + of_bool (is_quota j)"
    by (rule acquire_cases [where now = now, OF j(1) conjunct1 [OF ok] j(2)])
      (auto simp: holds_permit_def is_quota_def)
  then obtain j' where j': "jm_jobs (acquire rid now m) = dict_set rid j' (jm_jobs m)" "holds_permit j'"
      "is_quota j' = is_quota j" "jm_running (acquire rid now m) = Suc (jm_running m)"
      "jm_quota_running (acquire rid now m) = jm_quota_running m + of_bool (is_quota j)" by blast
  have idle: "\<not> holds_permit j" using j(2) by (simp add: holds_permit_def)
  note tally = tallied_dict_set [OF _ j(1) j'(1)]
  show ?thesis
    using assms(2) j(3) j'(2-5) idle ok tally [of holds_permit]
      tally [of "\<lambda>j. holds_permit j \<and> is_quota j"] tally [of is_quota]
    by (simp add: Acquire permit_inv_def)
next
  case (Settle rid out now)
  with assms(3) obtain j t where j: "dict_get (jm_jobs m) rid = Some j" "jb_phase j = Active t"
    by (auto simp: phase_of_Some)
  note ok = table_inv_get [OF assms(1) j(1)]
  have "\<exists>j'. jm_jobs (settle rid out now m) = dict_set rid j' (jm_jobs m) \<and> is_quota j' = is_quota j
      \<and> jm_running (settle rid out now m) = jm_running m - of_bool (\<not> holds_permit j')
      \<and> jm_quota_running (settle rid out now m) = jm_quota_running m - of_bool (\<not> holds_permit j' \<and> is_quota j)"
    by (rule settle_cases [where now = now and out = out, OF j(1) conjunct1 [OF ok] j(2)])
      (auto simp: holds_permit_def is_quota_def)
  then obtain j' where j': "jm_jobs (settle rid out now m) = dict_set rid j' (jm_jobs m)" "is_quota j' = is_quota j"
      "jm_running (settle rid out now m) = jm_running m - of_bool (\<not> holds_permit j')"
      "jm_quota_running (settle rid out now m) = jm_quota_running m - of_bool (\<not> holds_permit j' \<and> is_quota j)"
    by blast
  have busy: "holds_permit j" using j(2) by (simp add: holds_permit_def)
  note tally = tallied_dict_set [OF _ j(1) j'(1)]
  show ?thesis
    using assms(2) j'(2-4) busy ok tally [of holds_permit]
      tally [of "\<lambda>j. holds_permit j \<and> is_quota j"] tally [of is_quota]
    by (auto simp: Settle permit_inv_def)
next
  case (Wake rid)
  with assms(3) obtain j where j: "dict_get (jm_jobs m) rid = Some j" "jb_phase j = Parked"
    by (auto simp: phase_of_Some)
  note ok = table_inv_get [OF assms(1) j(1)]
  have jobs: "jm_jobs (job_step m a) = dict_set rid (j\<lparr>jb_phase := Queued\<rparr>) (jm_jobs m)"
    using j(1) by (simp add: Wake wake_def)
  note tally = tallied_dict_set [OF _ j(1) jobs]
  show ?thesis
    using assms(2) j ok tally [of holds_permit] tally [of "\<lambda>j. holds_permit j \<and> is_quota j"] tally [of is_quota]
    by (simp add: Wake permit_inv_def wake_def holds_permit_def is_quota_def)
next
  case (Done rid)
  with assms(3) obtain j where j: "dict_get (jm_jobs m) rid = Some j" "jb_phase j = Finishing"
    by (auto simp: phase_of_Some)
  note ok = table_inv_get [OF assms(1) j(1)]
  have jobs: "jm_jobs (job_step m a) = dict_pop rid (jm_jobs m)"
    using j(1) by (simp add: Done finish_job_def)
  have busy: "holds_permit j" using j(2) by (simp add: holds_permit_def)
  note tally = tallied_drop [OF _ j(1) jobs]
  show ?thesis
    using assms(2) j(1) ok busy tally [of holds_permit] tally [of "\<lambda>j. holds_permit j \<and> is_quota j"] tally [of is_quota]
    by (auto simp: Done permit_inv_def finish_job_def)
next
  case (Shutdown reason)
  then show ?thesis by (simp add: shutdown_all_def Let_def permit_inv_def tallied_def)
next
  case (Shed rid command grp)
  have "tallied P (job_step m a) = tallied P m" for P
    by (rule tallied_same_jobs) (simp add: Shed reject_quota_overloaded_def)
  with assms(2) show ?thesis by (simp add: Shed permit_inv_def reject_quota_overloaded_def)
next
  case (Progress rid stage message)
  have "tallied P (job_step m a) = tallied P m" for P
    by (rule tallied_same_jobs) (simp add: Progress progress_def)
  with assms(2) show ?thesis by (simp add: Progress permit_inv_def progress_def)
qed

lemma owed_put:
  assumes "dict_get (jm_jobs m) rid = Some j" "jm_jobs m' = dict_set rid j' (jm_jobs m)"
    and "set (jm_terminal m') = (if t then insert rid (set (jm_terminal m)) else set (jm_terminal m))"
    and "rid \<notin> set (jm_terminal m)"
  shows "owed m' k + of_bool (t \<and> k = rid) = owed m k"
proof -
  have "dict_has (dict_set rid j' (jm_jobs m)) k = dict_has (jm_jobs m) k"
    using assms(1) by (auto simp: dict_has_def dict_get_set)
  then show ?thesis using assms by (auto simp: owed_def dict_has_def)
qed

lemma count_cancel_words:
  "dict_ok js \<Longrightarrow> length (filter (is_word k) (map (\<lambda>(rid, j). CancelFrame rid (jb_command j) r) js)) =
    of_bool (k \<in> fst ` set js)"
  by (induction js) auto

lemma count_keys: "dict_ok js \<Longrightarrow> count_list (map fst js) k = of_bool (k \<in> fst ` set js)"
  by (induction js) auto

lemma dict_ok_filter: "dict_ok d \<Longrightarrow> dict_ok (filter P d)"
  by (induction d) auto

lemma unresolved_owed: "dict_ok (jm_jobs m) \<Longrightarrow> of_bool (k \<in> fst ` set (unresolved m)) = owed m k"
  by (force simp: unresolved_def owed_def dict_has_iff image_iff)

lemma words_step:
  assumes "table_inv m" "words_inv m" "job_allowed m a"
  shows "words_inv (job_step m a)"
proof (cases a)
  case (Start rid command grp w)
  show ?thesis
  proof (cases "start m rid command grp w")
    case (Inr m')
    have "owed m' k = owed m k + of_bool (k = rid)" "words m' k = words m k" "jm_dropped m' = jm_dropped m"
      "jm_accepted m' = rid # jm_accepted m" "jm_shed m' = jm_shed m" for k
      using Inr by (auto simp: start_def owed_def words_def dict_has_def dict_get_set split: if_splits)
    with assms(2) Inr show ?thesis by (simp add: Start words_inv_def)
  qed (simp add: Start assms(2))
next
  case (Acquire rid now)
  with assms(3) obtain j where j: "dict_get (jm_jobs m) rid = Some j" "jb_phase j = Queued"
    by (auto simp: phase_of_Some)
  note ok = table_inv_get [OF assms(1) j(1)]
  have "\<exists>t. (\<forall>k. words (acquire rid now m) k = words m k + of_bool (t \<and> k = rid))
      \<and> (\<exists>j'. jm_jobs (acquire rid now m) = dict_set rid j' (jm_jobs m))
      \<and> set (jm_terminal (acquire rid now m)) = (if t then insert rid (set (jm_terminal m)) else set (jm_terminal m))
      \<and> jm_accepted (acquire rid now m) = jm_accepted m \<and> jm_shed (acquire rid now m) = jm_shed m
      \<and> jm_dropped (acquire rid now m) = jm_dropped m"
  proof (rule acquire_cases [where now = now, OF j(1) conjunct1 [OF ok] j(2)], goal_cases attempt expired)
    case (attempt j')
    then show ?case by (intro exI [of _ False]) (auto simp: words_def take_permit_def)
  next
    case (expired j' out)
    then show ?case by (intro exI [of _ True]) (auto simp: words_finish)
  qed
  then obtain t j' where *: "\<forall>k. words (acquire rid now m) k = words m k + of_bool (t \<and> k = rid)"
      "jm_jobs (acquire rid now m) = dict_set rid j' (jm_jobs m)"
      "set (jm_terminal (acquire rid now m)) = (if t then insert rid (set (jm_terminal m)) else set (jm_terminal m))"
      "jm_accepted (acquire rid now m) = jm_accepted m" "jm_shed (acquire rid now m) = jm_shed m"
      "jm_dropped (acquire rid now m) = jm_dropped m" by blast
  have "owed (acquire rid now m) k + of_bool (t \<and> k = rid) = owed m k" for k
    using ok j(2) by (intro owed_put [OF j(1) *(2,3)]) simp
  with *(1,4-6) assms(2) show ?thesis unfolding words_inv_def Acquire job_step.simps
    by (metis (no_types, lifting) add.commute add.left_commute)
next
  case (Settle rid out now)
  with assms(3) obtain j t where j: "dict_get (jm_jobs m) rid = Some j" "jb_phase j = Active t"
    by (auto simp: phase_of_Some)
  note ok = table_inv_get [OF assms(1) j(1)]
  have "\<exists>t. (\<forall>k. words (settle rid out now m) k = words m k + of_bool (t \<and> k = rid))
      \<and> (\<exists>j'. jm_jobs (settle rid out now m) = dict_set rid j' (jm_jobs m))
      \<and> set (jm_terminal (settle rid out now m)) = (if t then insert rid (set (jm_terminal m)) else set (jm_terminal m))
      \<and> jm_accepted (settle rid out now m) = jm_accepted m \<and> jm_shed (settle rid out now m) = jm_shed m
      \<and> jm_dropped (settle rid out now m) = jm_dropped m"
  proof (rule settle_cases [where now = now and out = out, OF j(1) conjunct1 [OF ok] j(2)], goal_cases park final)
    case (park j' msg)
    then show ?case by (intro exI [of _ False]) (auto simp: words_def)
  next
    case (final j')
    then show ?case by (intro exI [of _ True]) (auto simp: words_finish)
  qed
  then obtain t j' where *: "\<forall>k. words (settle rid out now m) k = words m k + of_bool (t \<and> k = rid)"
      "jm_jobs (settle rid out now m) = dict_set rid j' (jm_jobs m)"
      "set (jm_terminal (settle rid out now m)) = (if t then insert rid (set (jm_terminal m)) else set (jm_terminal m))"
      "jm_accepted (settle rid out now m) = jm_accepted m" "jm_shed (settle rid out now m) = jm_shed m"
      "jm_dropped (settle rid out now m) = jm_dropped m" by blast
  have "owed (settle rid out now m) k + of_bool (t \<and> k = rid) = owed m k" for k
    using ok j(2) by (intro owed_put [OF j(1) *(2,3)]) simp
  with *(1,4-6) assms(2) show ?thesis unfolding words_inv_def Settle job_step.simps
    by (metis (no_types, lifting) add.commute add.left_commute)
next
  case (Wake rid)
  with assms(3) obtain j where j: "dict_get (jm_jobs m) rid = Some j" "jb_phase j = Parked"
    by (auto simp: phase_of_Some)
  note ok = table_inv_get [OF assms(1) j(1)]
  have "owed (wake rid m) k + of_bool (False \<and> k = rid) = owed m k" for k
    using ok j by (intro owed_put [OF j(1), where j' = "j\<lparr>jb_phase := Queued\<rparr>"]) (simp_all add: wake_def)
  with assms(2) j(1) show ?thesis by (simp add: Wake wake_def words_inv_def words_def)
next
  case (Done rid)
  with assms(3) obtain j where j: "dict_get (jm_jobs m) rid = Some j" "jb_phase j = Finishing"
    by (auto simp: phase_of_Some)
  note ok = table_inv_get [OF assms(1) j(1)]
  have "owed (finish_job rid m) k = owed m k" "words (finish_job rid m) k = words m k" for k
    using j ok by (auto simp: finish_job_def owed_def words_def dict_has_def dict_get_pop)
  with assms(2) j(1) show ?thesis by (simp add: Done words_inv_def) (simp add: finish_job_def)
next
  case (Shutdown reason)
  have ok: "dict_ok (unresolved m)" "dict_ok (jm_jobs m)"
    using assms(1) by (auto simp: table_inv_def unresolved_def intro: dict_ok_filter)
  have "words (job_step m a) k = words m k + (if reason = None then 0 else owed m k)" for k
    using count_cancel_words [OF ok(1), of k] unresolved_owed [OF ok(2), of k]
    by (cases reason) (simp_all add: Shutdown shutdown_all_def Let_def words_def)
  moreover have "owed (job_step m a) k = 0" for k
    by (simp add: Shutdown shutdown_all_def Let_def owed_def dict_has_def)
  moreover have "count_list (jm_dropped (job_step m a)) k =
      (if reason = None then owed m k else 0) + count_list (jm_dropped m) k" for k
    using count_keys [OF ok(1), of k] unresolved_owed [OF ok(2), of k]
    by (cases reason) (simp_all add: Shutdown shutdown_all_def Let_def)
  moreover have "jm_accepted (job_step m a) = jm_accepted m" "jm_shed (job_step m a) = jm_shed m"
    by (simp_all add: Shutdown shutdown_all_def Let_def)
  ultimately show ?thesis using assms(2) by (auto simp: words_inv_def add.assoc)
next
  case (Shed rid command grp)
  have "owed (job_step m a) k = owed m k" for k
    by (simp add: Shed owed_def reject_quota_overloaded_def)
  with assms(2) show ?thesis
    by (auto simp: Shed words_inv_def words_shed) (auto simp: reject_quota_overloaded_def)
next
  case (Progress rid stage message)
  with assms(2) show ?thesis by (simp add: words_inv_def progress_def words_def owed_def)
qed

interpretation jobs: machine job_step job_allowed job_inv
  by unfold_locales (simp add: job_inv_def table_step permit_step words_step)

lemma new_manager_inv: "job_inv new_manager"
  by (simp add: job_inv_def new_manager_def table_inv_def permit_inv_def words_inv_def tallied_def
      words_def owed_def dict_has_def)

lemmas manager_inv = jobs.run_inv [OF new_manager_inv]

section \<open>Properties\<close>

abbreviation reached :: "job_op list \<Rightarrow> manager" where
  "reached ops \<equiv> run job_step new_manager ops"


text \<open>
  C11. The caps hold under every interleaving: at most six jobs hold a permit, the counters the
  metrics report are the jobs that hold one, and at most six quota jobs are accepted at once.
\<close>

theorem permits_bounded:
  assumes "legal job_step job_allowed new_manager ops"
  shows "jm_running (reached ops) = tallied holds_permit (reached ops) \<and> jm_running (reached ops) \<le> 6
    \<and> jm_quota_running (reached ops) = tallied (\<lambda>j. holds_permit j \<and> is_quota j) (reached ops)
    \<and> quota_pending (reached ops) \<le> 6"
  using manager_inv [OF assms]
  by (simp add: job_inv_def permit_inv_def quota_pending_tallied MAX_CONCURRENT_JOBS_def)

text \<open>
  Every attempt after the first begins inside the command's retry window, which opened with the
  first permit: no attempt starts past the deadline, however long the job was parked or queued.
\<close>

theorem retries_within_window:
  assumes "legal job_step job_allowed new_manager ops"
    and "dict_get (jm_jobs (reached ops)) rid = Some j" "jb_phase j = Active began" "1 < jb_attempts j"
  shows "\<exists>deadline. rw_deadline (jb_window j) = Some deadline \<and> began \<le> deadline"
proof -
  have "job_ok j"
    using manager_inv [OF assms(1)] assms(2) by (auto simp: job_inv_def dest: table_inv_get)
  with assms(3,4) have "admits (jb_window j) began" by (simp add: job_ok_def)
  then show ?thesis by (auto simp: admits_def grants_def split: option.splits)
qed

lemma dropped_step:
  "a \<noteq> Shutdown None \<Longrightarrow> jm_dropped (job_step m a) = jm_dropped m"
  by (cases a)
    (auto simp: start_def reject_quota_overloaded_def acquire_def settle_def progress_def wake_def
      finish_job_def shutdown_all_def Let_def split: sum.splits option.splits job_phase.splits)

lemma dropped_run: "Shutdown None \<notin> set ops \<Longrightarrow> jm_dropped (run job_step m ops) = jm_dropped m"
  by (induction ops arbitrary: m) (auto simp: dropped_step)


section \<open>Witnesses\<close>

definition retry_outcome :: job_outcome where
  "retry_outcome = \<lparr>jo_success = False, jo_exit_code = 1, jo_stdout = [], jo_stderr = ''busy'',
     jo_failure_reason = Some FReadFailed, jo_extras = [], jo_error_code = None,
     jo_upstream_code = None, jo_retry_after_s = Some 2\<rparr>"

text \<open>A job that retries once, beside one that is still queued.\<close>

definition demo_jobs :: "job_op list" where
  "demo_jobs =
     [Start ''r1'' ''sync'' ''garage'' (Some 10), Start ''r2'' ''scan'' ''garage'' None, Acquire ''r1'' 0,
      Settle ''r1'' retry_outcome 500, Wake ''r1'', Acquire ''r1'' 2500]"

lemmas demo_simps = demo_jobs_def retry_outcome_def job_step.simps start_def new_manager_def dict_has_def
  acquire_def settle_def wake_def Let_def put_job_def take_permit_def drop_permit_def new_window_def
  open_window_def grants_def admits_def phase_of_def outcome_fault_def should_shed_quota_def
  QUOTA_COMMAND_def is_quota_def MAX_CONCURRENT_JOBS_def

lemma demo_legal: "legal job_step job_allowed new_manager (demo_jobs @ [Shutdown (Some CancelShutdown)])"
  by (simp add: demo_simps)

lemma demo_legal': "legal job_step job_allowed new_manager demo_jobs"
  by (simp add: demo_simps)


theorem permits_bounded_witness: "jm_running (reached demo_jobs) \<le> 6 \<and> jm_running (reached demo_jobs) = 1"
  using permits_bounded [OF demo_legal'] by (simp add: demo_simps)

theorem retries_within_window_witness: "\<exists>deadline. Some 10000 = Some deadline \<and> (2500::int) \<le> deadline"
proof -
  obtain j where j: "dict_get (jm_jobs (reached demo_jobs)) ''r1'' = Some j" "jb_phase j = Active 2500"
    "1 < jb_attempts j" "rw_deadline (jb_window j) = Some 10000"
    by (simp add: demo_simps)
  from retries_within_window [OF demo_legal' j(1-3)] j(4) show ?thesis by simp
qed


end
