(* ===== verification/Auth.thy ===== *)
theory Auth
  imports Envelope
begin

text \<open>
  \<open>auth.py\<close>: the shared secret, the signature over a received frame, the nonce store and the gate
  every command passes. HMAC-SHA256 is the parameter \<open>mac\<close>, hex text of secret and message.
  Clock readings are microseconds and come from outside: the age check, the purge and the insert
  each read the clock again, so each has its own reading.
\<close>

section \<open>Refusals\<close>

datatype auth_reason =
    SecretMissing
  | SecretEmpty
  | WrongType
  | FutureDated
  | TooOld
  | BadSignature
  | ReplayedNonce
  | Unspecified

definition CLOCK_SKEW_TOLERANCE_SECONDS :: int where
  "CLOCK_SKEW_TOLERANCE_SECONDS = 5"

definition RAW_KEY_LEN :: nat where
  "RAW_KEY_LEN = 32"

abbreviation seconds :: "int \<Rightarrow> int" where
  "seconds n \<equiv> n * 1000000"

section \<open>The secret\<close>

text \<open>\<open>bytes.strip()\<close> drops the six ASCII whitespace bytes from both ends.\<close>

definition ascii_space :: "char \<Rightarrow> bool" where
  "ascii_space c \<longleftrightarrow> c \<in> {CHR 0x20, CHR 0x09, CHR 0x0A, CHR 0x0D, CHR 0x0B, CHR 0x0C}"

definition bytes_strip :: "string \<Rightarrow> string" where
  "bytes_strip s = rev (dropWhile ascii_space (rev (dropWhile ascii_space s)))"

text \<open>\<open>file\<close> is the path's bytes, \<open>None\<close> when it is not a file.\<close>

definition load_hmac_secret :: "string option \<Rightarrow> auth_reason + string" where
  "load_hmac_secret file =
     (case file of
        None \<Rightarrow> Inl SecretMissing
      | Some raw \<Rightarrow>
          (let key = (if length raw \<noteq> RAW_KEY_LEN then bytes_strip raw else raw)
           in if key = [] then Inl SecretEmpty else Inr key))"

section \<open>The signature\<close>

text \<open>The envelope without \<open>payload.hmac\<close>: what the signature covers.\<close>

definition signed_part :: "(string \<times> json) list \<Rightarrow> (string \<times> json) list" where
  "signed_part envelope =
     dict_set ''payload'' (JObj (dict_pop ''hmac'' (obj_entries (field envelope ''payload'')))) envelope"

definition signing_text :: "(string \<times> json) list \<Rightarrow> string option" where
  "signing_text envelope =
     (let signed = JObj (signed_part envelope)
      in if check_signed_values signed then canonical_json signed else None)"

text \<open>\<open>None\<close> is the \<open>ValueError\<close> of a value no signature may cover.\<close>

definition sign_envelope ::
  "(string \<Rightarrow> string \<Rightarrow> string) \<Rightarrow> (string \<times> json) list \<Rightarrow> string \<Rightarrow> string option" where
  "sign_envelope mac envelope secret = map_option (mac secret) (signing_text envelope)"

section \<open>The nonce store\<close>

text \<open>
  The table, one row per nonce with the instant it was stored. The whole of
  \<open>check_and_store\<close> is one transaction: a refusal rolls the purge back too.
\<close>

type_synonym nonce_db = "(string \<times> int) list"

definition nonce_cutoff :: "int \<Rightarrow> int \<Rightarrow> int" where
  "nonce_cutoff time max_age = time - seconds max_age - seconds CLOCK_SKEW_TOLERANCE_SECONDS"

definition check_and_store ::
  "nonce_db \<Rightarrow> int \<Rightarrow> int \<Rightarrow> string \<Rightarrow> int \<Rightarrow> (auth_reason + unit) \<times> nonce_db" where
  "check_and_store db purge_time insert_time nonce max_age =
     (let kept = filter (\<lambda>(n, seen_at). \<not> seen_at < nonce_cutoff purge_time max_age) db
      in if nonce \<in> fst ` set kept then (Inl ReplayedNonce, db)
         else (Inr (), kept @ [(nonce, insert_time)]))"

section \<open>The gate\<close>

datatype command_payload =
    CmdRequest command_request
  | CmdSequence command_sequence

fun payload_nonce :: "command_payload \<Rightarrow> string" where
  "payload_nonce (CmdRequest r) = rq_nonce r"
| "payload_nonce (CmdSequence s) = sq_nonce s"

datatype verify_error =
    AuthErr auth_reason
  | ProtoErr protocol_error

text \<open>One call: the frame and the three clock readings it takes.\<close>

record attempt =
  at_frame :: envelope
  at_now :: int
  at_purge :: int
  at_insert :: int

definition hex_digest :: "string \<Rightarrow> bool" where
  "hex_digest s \<longleftrightarrow> length s = 64 \<and> (\<forall>c\<in>set s. c \<in> set ''0123456789abcdef'')"

definition check_type :: "envelope \<Rightarrow> verify_error + unit" where
  "check_type e = require (env_type e \<in> {MtCommandRequest, MtCommandSequence}) (AuthErr WrongType)"

definition check_age :: "envelope \<Rightarrow> int \<Rightarrow> int \<Rightarrow> verify_error + unit" where
  "check_age e now max_age =
     (let age = now - dt_micros (env_ts e) in
      if age < - seconds CLOCK_SKEW_TOLERANCE_SECONDS then Inl (AuthErr FutureDated)
      else if age > seconds max_age then Inl (AuthErr TooOld)
      else Inr ())"

definition check_signature ::
  "(string \<Rightarrow> string \<Rightarrow> string) \<Rightarrow> envelope \<Rightarrow> string \<Rightarrow> verify_error + unit" where
  "check_signature mac e secret =
     (case env_received e of
        None \<Rightarrow> Inl (AuthErr BadSignature)
      | Some received \<Rightarrow>
          (case dict_get (env_payload e) ''hmac'' of
             Some (JStr expected) \<Rightarrow>
               if \<not> hex_digest expected then Inl (AuthErr BadSignature)
               else require (sign_envelope mac received secret = Some expected) (AuthErr BadSignature)
           | _ \<Rightarrow> Inl (AuthErr BadSignature)))"

definition parse_command :: "envelope \<Rightarrow> verify_error + command_payload" where
  "parse_command e =
     map_result ProtoErr
       (if env_type e = MtCommandRequest
        then map_sum id (CmdRequest \<circ> as_request) (from_dict ann_CommandRequestPayload (JObj (env_payload e)))
        else map_sum id (CmdSequence \<circ> as_sequence) (from_dict ann_CommandSequencePayload (JObj (env_payload e))))"

definition authenticate ::
  "(string \<Rightarrow> string \<Rightarrow> string) \<Rightarrow> string \<Rightarrow> int \<Rightarrow> envelope \<Rightarrow> int \<Rightarrow> verify_error + command_payload" where
  "authenticate mac secret max_age e now =
     res_bind (check_type e) (\<lambda>_.
     res_bind (check_age e now max_age) (\<lambda>_.
     res_bind (check_signature mac e secret) (\<lambda>_. parse_command e)))"

definition verify_envelope ::
  "(string \<Rightarrow> string \<Rightarrow> string) \<Rightarrow> string \<Rightarrow> int \<Rightarrow> nonce_db \<Rightarrow> attempt
    \<Rightarrow> (verify_error + command_payload) \<times> nonce_db" where
  "verify_envelope mac secret max_age db a =
     (case authenticate mac secret max_age (at_frame a) (at_now a) of
        Inl e \<Rightarrow> (Inl e, db)
      | Inr p \<Rightarrow>
          (case check_and_store db (at_purge a) (at_insert a) (payload_nonce p) max_age of
             (Inl r, db') \<Rightarrow> (Inl (AuthErr r), db')
           | (Inr _, db') \<Rightarrow> (Inr p, db')))"

definition verify_step :: "(string \<Rightarrow> string \<Rightarrow> string) \<Rightarrow> string \<Rightarrow> int \<Rightarrow> nonce_db \<Rightarrow> attempt \<Rightarrow> nonce_db" where
  "verify_step mac secret max_age db a = snd (verify_envelope mac secret max_age db a)"

section \<open>The store's contract\<close>

text \<open>
  What the gate relies on: a refusal changes nothing, an acceptance records the nonce, a row no
  older than the cutoff survives, and a recorded nonce no older than the cutoff is refused.
\<close>

locale nonce_store =
  fixes store :: "nonce_db \<Rightarrow> int \<Rightarrow> int \<Rightarrow> string \<Rightarrow> int \<Rightarrow> (auth_reason + unit) \<times> nonce_db"
    and cutoff :: "int \<Rightarrow> int \<Rightarrow> int"
  assumes refused_same: "store db p i n m = (Inl r, db') \<Longrightarrow> db' = db"
    and accepted_recorded: "store db p i n m = (Inr u, db') \<Longrightarrow> (n, i) \<in> set db'"
    and young_kept: "store db p i n m = (res, db') \<Longrightarrow> (k, s) \<in> set db \<Longrightarrow> cutoff p m \<le> s \<Longrightarrow> (k, s) \<in> set db'"
    and young_refused: "(n, s) \<in> set db \<Longrightarrow> cutoff p m \<le> s \<Longrightarrow> store db p i n m = (Inl ReplayedNonce, db)"
begin

lemma refusal_unchanged: "fst (store db p i n m) = Inl r \<Longrightarrow> snd (store db p i n m) = db"
  by (metis refused_same prod.collapse)

lemma kept_snd: "(k, s) \<in> set db \<Longrightarrow> cutoff p m \<le> s \<Longrightarrow> (k, s) \<in> set (snd (store db p i n m))"
  by (metis young_kept prod.collapse)

end

interpretation ns: nonce_store check_and_store nonce_cutoff
  by unfold_locales (force simp: check_and_store_def Let_def split: if_splits)+

section \<open>Facts\<close>

lemma verify_envelope_cases:
  "verify_envelope mac secret max_age db a =
     (case authenticate mac secret max_age (at_frame a) (at_now a) of
        Inl e \<Rightarrow> (Inl e, db)
      | Inr p \<Rightarrow>
          map_prod (\<lambda>r. map_sum AuthErr (\<lambda>_. p) r) id
            (check_and_store db (at_purge a) (at_insert a) (payload_nonce p) max_age))"
  by (auto simp: verify_envelope_def split: sum.splits prod.splits)

lemma verify_Inr:
  assumes "verify_envelope mac secret max_age db a = (Inr p, db')"
  shows "authenticate mac secret max_age (at_frame a) (at_now a) = Inr p"
    and "check_and_store db (at_purge a) (at_insert a) (payload_nonce p) max_age = (Inr (), db')"
  using assms by (auto simp: verify_envelope_def split: sum.splits prod.splits)

lemma verify_step_keeps:
  assumes "(n, s) \<in> set db" "nonce_cutoff (at_purge a) max_age \<le> s"
  shows "(n, s) \<in> set (verify_step mac secret max_age db a)"
  using assms ns.kept_snd
  by (auto simp: verify_step_def verify_envelope_cases snd_map_prod split: sum.splits)

lemma verify_run_keeps:
  assumes "(n, s) \<in> set db" "\<forall>b\<in>set bs. nonce_cutoff (at_purge b) max_age \<le> s"
  shows "(n, s) \<in> set (run (verify_step mac secret max_age) db bs)"
  using assms by (induction bs arbitrary: db) (auto simp: verify_step_keeps)

lemma authenticate_Inr:
  "authenticate mac secret max_age e now = Inr p \<longleftrightarrow>
    check_type e = Inr () \<and> check_age e now max_age = Inr () \<and> check_signature mac e secret = Inr ()
    \<and> parse_command e = Inr p"
  by (auto simp: authenticate_def)

lemma check_age_Inr:
  "check_age e now max_age = Inr u \<longleftrightarrow>
    dt_micros (env_ts e) \<le> now + seconds CLOCK_SKEW_TOLERANCE_SECONDS
    \<and> now \<le> dt_micros (env_ts e) + seconds max_age"
  by (auto simp: check_age_def Let_def)

lemma check_signature_Inr:
  "check_signature mac e secret = Inr u \<longleftrightarrow>
    (\<exists>received expected text. env_received e = Some received
      \<and> dict_get (env_payload e) ''hmac'' = Some (JStr expected) \<and> hex_digest expected
      \<and> signing_text received = Some text \<and> mac secret text = expected)"
  by (auto simp: check_signature_def sign_envelope_def split: option.splits json.splits)

lemma load_secret_raw: "length raw = RAW_KEY_LEN \<Longrightarrow> load_hmac_secret (Some raw) = Inr raw"
  by (auto simp: load_hmac_secret_def RAW_KEY_LEN_def)

lemma load_secret_nonempty: "load_hmac_secret file = Inr key \<Longrightarrow> key \<noteq> []"
  by (auto simp: load_hmac_secret_def Let_def split: option.splits if_splits)

lemma parse_command_nonce:
  "at_frame b = at_frame a \<Longrightarrow> parse_command (at_frame a) = Inr p \<Longrightarrow> parse_command (at_frame b) = Inr q
    \<Longrightarrow> payload_nonce p = payload_nonce q"
  by simp

lemma wf_dict_set: "dict_ok kvs \<Longrightarrow> \<forall>p\<in>set kvs. wf_json (snd p) \<Longrightarrow> wf_json v \<Longrightarrow> wf_json (JObj (dict_set k v kvs))"
  by (induction kvs) (auto simp: dict_keys_set)

lemma wf_dict_pop: "wf_json (JObj kvs) \<Longrightarrow> wf_json (JObj (dict_pop k kvs))"
  by (auto simp: AList.delete_eq dest: dict_ok_pop)

lemma wf_obj_entries: "wf_json v \<Longrightarrow> wf_json (JObj (obj_entries v))"
  by (cases v) auto

lemma wf_field: "wf_json (JObj kvs) \<Longrightarrow> wf_json (field kvs k)"
  by (auto simp: field_def split: option.splits dest: map_of_SomeD)

lemma wf_signed_part:
  assumes "wf_json (JObj envelope)"
  shows "wf_json (JObj (signed_part envelope))"
proof -
  have "wf_json (JObj (dict_pop ''hmac'' (obj_entries (field envelope ''payload''))))"
    using assms by (intro wf_dict_pop wf_obj_entries wf_field)
  then show ?thesis
    unfolding signed_part_def using assms by (intro wf_dict_set) auto
qed

lemma signing_text_Some:
  "signing_text envelope = Some t \<Longrightarrow>
    check_signed_values (JObj (signed_part envelope)) \<and> canonical_json (JObj (signed_part envelope)) = Some t"
  by (auto simp: signing_text_def Let_def simp del: check_signed_values.simps split: if_splits)

section \<open>Properties\<close>

text \<open>
  A refused command leaves the nonce store as it was, purge included: forged, stale,
  malformed and replayed frames cannot write to it.
\<close>

theorem refusal_keeps_store:
  assumes "verify_envelope mac secret max_age db a = (Inl e, db')"
  shows "db' = db"
  using assms ns.refused_same
  by (auto simp: verify_envelope_def split: sum.splits prod.splits)

text \<open>
  C1. Exactly which commands pass: a command type, dated no more than five seconds ahead and no
  more than \<open>max_age\<close> back, received off the wire with the hex MAC of its own canonical text,
  decoding as its type, with a nonce no young row holds. The nonce is then on record, and rows
  older than the cutoff are gone.
\<close>

theorem verify_accepts_iff:
  "verify_envelope mac secret max_age db a = (Inr p, db') \<longleftrightarrow>
    env_type (at_frame a) \<in> {MtCommandRequest, MtCommandSequence}
    \<and> dt_micros (env_ts (at_frame a)) \<le> at_now a + seconds 5
    \<and> at_now a \<le> dt_micros (env_ts (at_frame a)) + seconds max_age
    \<and> (\<exists>received expected text. env_received (at_frame a) = Some received
        \<and> dict_get (env_payload (at_frame a)) ''hmac'' = Some (JStr expected) \<and> hex_digest expected
        \<and> signing_text received = Some text \<and> mac secret text = expected)
    \<and> parse_command (at_frame a) = Inr p
    \<and> (let young = filter (\<lambda>(n, s). at_purge a - seconds max_age - seconds 5 \<le> s) db
       in payload_nonce p \<notin> fst ` set young \<and> db' = young @ [(payload_nonce p, at_insert a)])"
proof -
  have young: "(\<lambda>(n, s). \<not> s < nonce_cutoff (at_purge a) max_age) =
      (\<lambda>(n, s). at_purge a - seconds max_age - seconds 5 \<le> s)"
    by (auto simp: nonce_cutoff_def CLOCK_SKEW_TOLERANCE_SECONDS_def fun_eq_iff)
  have "verify_envelope mac secret max_age db a = (Inr p, db') \<longleftrightarrow>
      authenticate mac secret max_age (at_frame a) (at_now a) = Inr p
      \<and> check_and_store db (at_purge a) (at_insert a) (payload_nonce p) max_age = (Inr (), db')"
    by (auto simp: verify_envelope_def split: sum.splits prod.splits)
  then show ?thesis
    unfolding authenticate_Inr check_age_Inr check_signature_Inr check_and_store_def young
    by (auto simp: check_type_def CLOCK_SKEW_TOLERANCE_SECONDS_def Let_def)
qed

text \<open>
  C3. The signature is over the value, not a spelling of it: two received frames that pass with
  the same MAC, from a MAC that does not collide on their two texts, are equal in Python's
  sense in everything but \<open>payload.hmac\<close>.
\<close>

theorem signature_binds_value:
  assumes "check_signature mac e secret = Inr ()" "check_signature mac e' secret = Inr ()"
    and "env_received e = Some r" "env_received e' = Some r'"
    and "dict_get (env_payload e) ''hmac'' = dict_get (env_payload e') ''hmac''"
    and wf: "wf_json (JObj r)" "wf_json (JObj r')"
    and no_collision: "\<And>t t'. signing_text r = Some t \<Longrightarrow> signing_text r' = Some t' \<Longrightarrow>
        mac secret t = mac secret t' \<Longrightarrow> t = t'"
  shows "py_eq (JObj (signed_part r)) (JObj (signed_part r'))"
proof -
  from assms(1-5) obtain t t' where *: "signing_text r = Some t" "signing_text r' = Some t'"
      "mac secret t = mac secret t'"
    by (auto simp: check_signature_Inr)
  with no_collision have "t = t'" by blast
  with * show ?thesis
    using signing_text_Some wf by (intro canonical_json_py_eq wf_signed_part) auto
qed

text \<open>
  C2. No replay: once a frame was accepted, the same frame is refused ever after, whatever was
  verified in between, as long as it was not dated within the last \<open>delta\<close> of the five seconds of
  tolerance, where \<open>delta\<close> bounds how late the purge of the later check reads its clock.
\<close>

theorem replay_refused:
  assumes "verify_envelope mac secret max_age db a = (Inr p, db1)"
    and "at_now a \<le> at_insert a"
    and "dt_micros (env_ts (at_frame a)) + delta \<le> at_now a + seconds 5"
    and "\<forall>b\<in>set between. at_purge b \<le> at_now c"
    and "at_frame c = at_frame a" "at_purge c \<le> at_now c + delta" "0 \<le> delta"
  shows "\<exists>r. verify_envelope mac secret max_age (run (verify_step mac secret max_age) db1 between) c =
    (Inl (AuthErr r), run (verify_step mac secret max_age) db1 between) \<and> r \<in> {TooOld, FutureDated, ReplayedNonce}"
proof -
  let ?db = "run (verify_step mac secret max_age) db1 between"
  note auth = verify_Inr(1) [OF assms(1)]
  have stored: "(payload_nonce p, at_insert a) \<in> set db1"
    using ns.accepted_recorded verify_Inr(2) [OF assms(1)] by blast
  show ?thesis
  proof (cases "check_age (at_frame a) (at_now c) max_age")
    case (Inl e)
    moreover from this have "e \<in> {AuthErr TooOld, AuthErr FutureDated}"
      by (auto simp: check_age_def Let_def split: if_splits)
    moreover have "authenticate mac secret max_age (at_frame c) (at_now c) = Inl e"
      using Inl auth assms(5) by (auto simp: authenticate_def)
    ultimately show ?thesis by (auto simp: verify_envelope_def)
  next
    case (Inr u)
    then have "at_now c \<le> dt_micros (env_ts (at_frame a)) + seconds max_age"
      by (simp add: check_age_Inr)
    then have cut: "nonce_cutoff (at_purge c) max_age \<le> at_insert a"
        "\<forall>b\<in>set between. nonce_cutoff (at_purge b) max_age \<le> at_insert a"
      using assms(2-4,6,7) by (auto simp: nonce_cutoff_def CLOCK_SKEW_TOLERANCE_SECONDS_def)
    have "(payload_nonce p, at_insert a) \<in> set ?db" using stored cut(2) by (rule verify_run_keeps)
    then have "check_and_store ?db (at_purge c) (at_insert c) (payload_nonce p) max_age =
        (Inl ReplayedNonce, ?db)"
      using cut(1) by (rule ns.young_refused)
    moreover have "authenticate mac secret max_age (at_frame c) (at_now c) = Inr p"
      using Inr auth assms(5) by (auto simp: authenticate_Inr)
    ultimately show ?thesis by (simp add: verify_envelope_def)
  qed
qed

section \<open>Witnesses\<close>

text \<open>A signed \<open>command.request\<close> under a checksum that stands for the MAC.\<close>

definition toy_mac :: "string \<Rightarrow> string \<Rightarrow> string" where
  "toy_mac secret text = replicate 64 (digit (length text mod 16))"

definition cmd_payload :: "(string \<times> json) list" where
  "cmd_payload = [(''command'', JStr ''status''), (''params'', JObj []), (''nonce'', JStr ''n1''),
     (''hmac'', JStr (replicate 64 (CHR ''e'')))]"

definition cmd_object :: "(string \<times> json) list" where
  "cmd_object = [(''v'', JInt 2), (''type'', JStr ''command.request''), (''id'', JStr ''i1''),
     (''ts'', JStr ''1970-01-01T00:00:05Z''), (''agent_id'', JStr ''a1''), (''payload'', JObj cmd_payload)]"

text \<open>The frame is dated five seconds after the epoch.\<close>

definition cmd_frame :: envelope where
  "cmd_frame = \<lparr>env_v = 2, env_type = MtCommandRequest, env_id = ''i1'',
     env_ts = \<lparr>dt_micros = seconds 5, dt_zone = Some 0\<rparr>, env_agent_id = ''a1'',
     env_payload = cmd_payload, env_received = Some cmd_object\<rparr>"

definition cmd_request :: command_payload where
  "cmd_request = CmdRequest \<lparr>rq_command = ''status'', rq_params = [],
     rq_hmac = replicate 64 (CHR ''e''), rq_nonce = ''n1''\<rparr>"

definition cmd_attempt :: "int \<Rightarrow> int \<Rightarrow> attempt" where
  "cmd_attempt now purge = \<lparr>at_frame = cmd_frame, at_now = now, at_purge = purge, at_insert = purge\<rparr>"

lemma cmd_signed: "map_option (toy_mac []) (signing_text cmd_object) = Some (replicate 64 (CHR ''e''))"
  by code_simp

lemma cmd_hex: "hex_digest (replicate 64 (CHR ''e''))"
  by code_simp

lemma cmd_signature: "check_signature toy_mac cmd_frame [] = Inr ()"
  using cmd_signed cmd_hex
  by (auto simp: check_signature_Inr cmd_frame_def cmd_payload_def)

lemma cmd_parses: "parse_command cmd_frame = Inr cmd_request"
  by (simp add: parse_command_def cmd_frame_def cmd_payload_def from_dict_def decode_class
      ann_CommandRequestPayload_def required_def dict_has_def decode_fields.simps decode_leaf
      as_request_def attr_def cmd_request_def)

lemma cmd_authenticated:
  "- seconds 0 \<le> now \<Longrightarrow> now \<le> seconds 305 \<Longrightarrow> authenticate toy_mac [] 300 cmd_frame now = Inr cmd_request"
  by (auto simp: authenticate_Inr cmd_signature cmd_parses check_age_Inr check_type_def)
    (simp_all add: cmd_frame_def CLOCK_SKEW_TOLERANCE_SECONDS_def)

lemma cmd_verify:
  assumes "0 \<le> now" "now \<le> seconds 305"
  shows "verify_envelope toy_mac [] 300 db (cmd_attempt now purge) =
    (if ''n1'' \<in> fst ` set (filter (\<lambda>(n, s). \<not> s < nonce_cutoff purge 300) db)
     then (Inl (AuthErr ReplayedNonce), db)
     else (Inr cmd_request, filter (\<lambda>(n, s). \<not> s < nonce_cutoff purge 300) db @ [(''n1'', purge)]))"
  using cmd_authenticated [of now] assms
  by (simp add: verify_envelope_def cmd_attempt_def check_and_store_def Let_def cmd_request_def)

theorem refusal_keeps_store_witness:
  "verify_envelope toy_mac [] 300 [(''n1'', 7)] (cmd_attempt 9 9) = (Inl (AuthErr ReplayedNonce), [(''n1'', 7)])
    \<and> [(''n1'', 7::int)] = [(''n1'', 7)]"
proof
  show *: "verify_envelope toy_mac [] 300 [(''n1'', 7)] (cmd_attempt 9 9) =
      (Inl (AuthErr ReplayedNonce), [(''n1'', 7)])"
    by (simp add: cmd_verify nonce_cutoff_def CLOCK_SKEW_TOLERANCE_SECONDS_def)
  show "[(''n1'', 7::int)] = [(''n1'', 7)]" using refusal_keeps_store [OF *] .
qed

text \<open>The same command with its payload's keys in another order: the same text, the same MAC.\<close>

definition cmd_reordered :: envelope where
  "cmd_reordered = cmd_frame\<lparr>env_received := Some (dict_set ''payload'' (JObj (rev cmd_payload)) cmd_object)\<rparr>"

theorem signature_binds_value_witness:
  "py_eq (JObj (signed_part cmd_object))
    (JObj (signed_part (dict_set ''payload'' (JObj (rev cmd_payload)) cmd_object)))"
proof (rule signature_binds_value [of toy_mac cmd_frame "[]" cmd_reordered])
  have same: "signing_text (dict_set ''payload'' (JObj (rev cmd_payload)) cmd_object) = signing_text cmd_object"
    by code_simp
  show "check_signature toy_mac cmd_frame [] = Inr ()" by (rule cmd_signature)
  then show "check_signature toy_mac cmd_reordered [] = Inr ()"
    using same by (auto simp: check_signature_Inr cmd_reordered_def cmd_frame_def)
  show "wf_json (JObj cmd_object)" by (simp add: cmd_object_def cmd_payload_def)
  show "wf_json (JObj (dict_set ''payload'' (JObj (rev cmd_payload)) cmd_object))"
    by (simp add: cmd_object_def cmd_payload_def)
  show "t = t'" if "signing_text cmd_object = Some t"
    "signing_text (dict_set ''payload'' (JObj (rev cmd_payload)) cmd_object) = Some t'" for t t'
    using that same by simp
qed (simp_all add: cmd_reordered_def cmd_frame_def)

theorem replay_refused_witness:
  "\<exists>r. verify_envelope toy_mac [] 300 [(''n1'', seconds 1)] (cmd_attempt (seconds 305) (seconds 306)) =
    (Inl (AuthErr r), [(''n1'', seconds 1)]) \<and> r \<in> {TooOld, FutureDated, ReplayedNonce}"
proof -
  have "verify_envelope toy_mac [] 300 [] (cmd_attempt (seconds 1) (seconds 1)) =
      (Inr cmd_request, [(''n1'', seconds 1)])"
    by (simp add: cmd_verify)
  from replay_refused [OF this, of "seconds 1" "[]" "cmd_attempt (seconds 305) (seconds 306)"]
  show ?thesis by (simp add: cmd_attempt_def cmd_frame_def)
qed

text \<open>
  The tolerance leaves no slack for the purge's own later clock: a frame dated a full five
  seconds ahead, accepted at once and replayed at the last microsecond of its window, is
  accepted a second time when the purge reads its clock one microsecond after the age check.
\<close>

theorem replay_at_the_edge:
  "verify_envelope toy_mac [] 300 [] (cmd_attempt 0 0) = (Inr cmd_request, [(''n1'', 0)])
    \<and> verify_envelope toy_mac [] 300 [(''n1'', 0)] (cmd_attempt (seconds 305) (seconds 305 + 1)) =
        (Inr cmd_request, [(''n1'', seconds 305 + 1)])"
  by (simp add: cmd_verify nonce_cutoff_def CLOCK_SKEW_TOLERANCE_SECONDS_def)

end
