(* ===== verification/Events.thy ===== *)
theory Events
  imports Json
begin

text \<open>
  \<open>stormpulse/events.py\<close>: the registry of declared event shapes, the admission of one
  event, the bounded buffer with in-flight batches, and the walk summary. Each buffer operation
  is one method body; the lock makes each of them one atomic step.
\<close>

type_synonym event = "(string, json) dict"

definition MAX_BUFFERED_EVENTS :: nat where "MAX_BUFFERED_EVENTS = 4096"
definition MAX_BATCH_EVENTS :: nat where "MAX_BATCH_EVENTS = 500"
definition MAX_IN_FLIGHT_BATCHES :: nat where "MAX_IN_FLIGHT_BATCHES = 32"
definition MAX_ERROR_CHARS :: nat where "MAX_ERROR_CHARS = 500"

definition capped_fields :: "string list" where
  "capped_fields = [''error'', ''reason'']"

section \<open>The registry of declared shapes\<close>

type_synonym shapes = "(string \<times> string, string list) dict"

record event_source =
  es_name :: string
  es_kinds :: "(string, string list) dict"
  es_spool_dir :: string

record registry =
  declared :: shapes
  integration_declared :: shapes
  spool_dirs :: "(string, string) dict"

text \<open>A second declaration of a shape adds fields.\<close>

definition declare_event :: "string \<Rightarrow> string \<Rightarrow> string list \<Rightarrow> registry \<Rightarrow> registry" where
  "declare_event source kind flds r =
     (let old = (case dict_get (declared r) (source, kind) of None \<Rightarrow> [] | Some fs \<Rightarrow> fs)
      in r\<lparr>declared := dict_set (source, kind) (old @ filter (\<lambda>f. f \<notin> set old) flds) (declared r)\<rparr>)"

definition taken_sources :: "registry \<Rightarrow> string list" where
  "taken_sources r = map fst (dict_keys (declared r)) @ map fst (dict_keys (integration_declared r))"

datatype source_error = SourceTaken string | SpoolTaken string string

definition declare_integration_source :: "event_source \<Rightarrow> registry \<Rightarrow> source_error + registry" where
  "declare_integration_source s r =
     (if es_name s \<in> set (taken_sources r) then Inl (SourceTaken (es_name s))
      else case dict_get (spool_dirs r) (es_spool_dir s) of
        Some holder \<Rightarrow> Inl (SpoolTaken (es_spool_dir s) holder)
      | None \<Rightarrow>
          Inr (r\<lparr>spool_dirs := dict_set (es_spool_dir s) (es_name s) (spool_dirs r),
                 integration_declared :=
                   fold (\<lambda>(kind, flds). dict_set (es_name s, kind) flds)
                     (es_kinds s) (integration_declared r)\<rparr>))"

definition lookup_shape :: "registry \<Rightarrow> string \<times> string \<Rightarrow> string list option" where
  "lookup_shape r key =
     (case dict_get (declared r) key of
        Some fs \<Rightarrow> Some fs
      | None \<Rightarrow> dict_get (integration_declared r) key)"

section \<open>Admission of one event\<close>

text \<open>
  \<open>admit\<close> walks the fields in order: null and empty fields are elided, an undeclared one
  refuses the whole event, capped text is cut to 500 characters. The kept fields then go onto
  the event.
\<close>

fun admit_fields :: "string list \<Rightarrow> (string, json) dict \<Rightarrow> (string, json) dict option" where
  "admit_fields shape [] = Some []"
| "admit_fields shape ((name, v) # rest) =
     (if v = JNull \<or> v = JStr '''' then admit_fields shape rest
      else if name \<notin> set shape then None
      else case admit_fields shape rest of
        None \<Rightarrow> None
      | Some kept \<Rightarrow>
          Some ((name, if name \<in> set capped_fields
                       then JStr (take MAX_ERROR_CHARS (json_to_str v)) else v) # kept))"

definition event_text :: "event \<Rightarrow> string \<Rightarrow> string" where
  "event_text e k = (case dict_get e k of Some (JStr s) \<Rightarrow> s | _ \<Rightarrow> '''')"

definition admit :: "registry \<Rightarrow> event \<Rightarrow> (string, json) dict \<Rightarrow> event option" where
  "admit r e flds =
     (case lookup_shape r (event_text e ''source'', event_text e ''kind'') of
        None \<Rightarrow> None
      | Some shape \<Rightarrow> map_option (dict_update e) (admit_fields shape flds))"

section \<open>The buffer\<close>

record event_buffer =
  eb_buf :: "event list"
  eb_max :: nat
  eb_seq :: nat
  eb_dropped :: nat
  eb_undeclared :: nat
  eb_in_flight :: "(string, event list) dict"

definition new_buffer :: "nat \<Rightarrow> event_buffer" where
  "new_buffer m = \<lparr>eb_buf = [], eb_max = m, eb_seq = 0, eb_dropped = 0, eb_undeclared = 0,
                   eb_in_flight = []\<rparr>"

definition stamp :: "event_buffer \<Rightarrow> event \<Rightarrow> event_buffer \<times> event" where
  "stamp b e = (b\<lparr>eb_seq := Suc (eb_seq b)\<rparr>, dict_set ''seq'' (JInt (int (Suc (eb_seq b)))) e)"

text \<open>One turn of \<open>extend\<close>'s loop: stamp, make room, append.\<close>

definition push_event :: "event_buffer \<Rightarrow> event \<Rightarrow> event_buffer" where
  "push_event b e =
     (let (b1, e1) = stamp b e;
          b2 = (if eb_max b1 \<le> length (eb_buf b1)
                then b1\<lparr>eb_buf := tl (eb_buf b1), eb_dropped := Suc (eb_dropped b1)\<rparr> else b1)
      in b2\<lparr>eb_buf := eb_buf b2 @ [e1]\<rparr>)"

text \<open>The result is \<open>range(first, last + 1)\<close>, a half-open interval of sequence numbers.\<close>

definition extend_batch :: "event_buffer \<Rightarrow> event list \<Rightarrow> nat \<Rightarrow> event_buffer \<times> (nat \<times> nat)" where
  "extend_batch b batch refused =
     (let b1 = b\<lparr>eb_undeclared := eb_undeclared b + refused\<rparr>;
          b2 = foldl push_event b1 batch
      in (b2, (Suc (eb_seq b), Suc (eb_seq b2))))"

definition append_event :: "event_buffer \<Rightarrow> event \<Rightarrow> event_buffer" where
  "append_event b e = fst (extend_batch b [e] 0)"

definition refuse :: "event_buffer \<Rightarrow> event_buffer" where
  "refuse b = b\<lparr>eb_undeclared := Suc (eb_undeclared b)\<rparr>"

definition room :: "event_buffer \<Rightarrow> int" where
  "room b = int (eb_max b) - int (length (eb_buf b))"

definition held :: "event_buffer \<Rightarrow> event list" where
  "held b = eb_buf b @ concat (dict_values (eb_in_flight b))"

definition event_seq :: "event \<Rightarrow> int option" where
  "event_seq e = (case dict_get e ''seq'' of Some (JInt i) \<Rightarrow> Some i | _ \<Rightarrow> None)"

definition seq_in :: "nat \<times> nat \<Rightarrow> event \<Rightarrow> bool" where
  "seq_in r e = (case event_seq e of None \<Rightarrow> False | Some i \<Rightarrow> int (fst r) \<le> i \<and> i < int (snd r))"

definition holds_any :: "event_buffer \<Rightarrow> nat \<times> nat \<Rightarrow> bool" where
  "holds_any b r = list_ex (seq_in r) (held b)"

definition dropped_event :: "string \<Rightarrow> event_buffer \<Rightarrow> event" where
  "dropped_event ts b =
     [(''ts'', JStr ts), (''source'', JStr ''events''), (''kind'', JStr ''dropped_events''),
      (''dropped'', JInt (int (eb_dropped b))), (''undeclared'', JInt (int (eb_undeclared b)))]"

text \<open>Past the in-flight cap the oldest batch goes, and its events count as dropped.\<close>

function evict_oldest :: "event_buffer \<Rightarrow> event_buffer" where
  "evict_oldest b =
     (if MAX_IN_FLIGHT_BATCHES < length (eb_in_flight b)
      then evict_oldest
        (b\<lparr>eb_in_flight := tl (eb_in_flight b),
           eb_dropped := eb_dropped b + length (snd (hd (eb_in_flight b)))\<rparr>)
      else b)"
  by pat_completeness auto
termination
  by (relation "measure (\<lambda>b. length (eb_in_flight b))") auto

declare evict_oldest.simps [simp del]

text \<open>The synthesized \<open>dropped_events\<close> record leads the next batch and settles the tally.\<close>

definition tally :: "event_buffer \<Rightarrow> string \<Rightarrow> event_buffer" where
  "tally b ts =
     (if eb_dropped b \<noteq> 0 \<or> eb_undeclared b \<noteq> 0
      then (let (b1, e) = stamp b (dropped_event ts b)
            in b1\<lparr>eb_buf := e # eb_buf b1, eb_dropped := 0, eb_undeclared := 0\<rparr>)
      else b)"

definition drain :: "event_buffer \<Rightarrow> string \<Rightarrow> string \<Rightarrow> nat \<Rightarrow> event_buffer \<times> event list" where
  "drain b batch_id ts n =
     (let b1 = tally b ts;
          out = take n (eb_buf b1);
          b2 = b1\<lparr>eb_buf := drop n (eb_buf b1)\<rparr>;
          b3 = (if out \<noteq> []
                then evict_oldest (b2\<lparr>eb_in_flight := dict_set batch_id out (eb_in_flight b2)\<rparr>)
                else b2)
      in (b3, out))"

definition ack :: "event_buffer \<Rightarrow> string \<Rightarrow> event_buffer \<times> bool" where
  "ack b batch_id =
     (b\<lparr>eb_in_flight := dict_pop batch_id (eb_in_flight b)\<rparr>,
      dict_get (eb_in_flight b) batch_id \<noteq> None)"

definition nack :: "event_buffer \<Rightarrow> string \<Rightarrow> event_buffer \<times> nat option" where
  "nack b batch_id =
     (b\<lparr>eb_in_flight := dict_pop batch_id (eb_in_flight b)\<rparr>,
      map_option length (dict_get (eb_in_flight b) batch_id))"

text \<open>\<open>while len(buf) > max: popleft, dropped += 1\<close>, after the unacked batches went in front.\<close>

definition requeue_unacked :: "event_buffer \<Rightarrow> event_buffer \<times> nat" where
  "requeue_unacked b =
     (let unacked = concat (dict_values (eb_in_flight b));
          buf = unacked @ eb_buf b;
          over = length buf - eb_max b
      in (b\<lparr>eb_buf := drop over buf, eb_dropped := eb_dropped b + over, eb_in_flight := []\<rparr>,
          length unacked))"

section \<open>Emitting\<close>

text \<open>
  \<open>emit\<close>: the trigger and the command reference of the running context ride along, an
  explicit reference wins, and the event is appended or, if its shape was never declared,
  counted.
\<close>

record emit_context =
  ctx_now :: string
  ctx_trigger :: string
  ctx_command_ref :: string

definition emit_event ::
  "registry \<Rightarrow> emit_context \<Rightarrow> string \<Rightarrow> string \<Rightarrow> (string, json) dict \<Rightarrow> event option" where
  "emit_event r c kind source flds =
     (let e0 = [(''ts'', JStr (ctx_now c)), (''source'', JStr source), (''kind'', JStr kind)];
          e1 = (if ctx_trigger c \<noteq> [] then dict_set ''trigger'' (JStr (ctx_trigger c)) e0 else e0);
          given = (case dict_get flds ''command_ref'' of None \<Rightarrow> JStr '''' | Some v \<Rightarrow> v);
          ref = (if truthy given then given else JStr (ctx_command_ref c));
          e2 = (if truthy ref then dict_set ''command_ref'' ref e1 else e1)
      in admit r e2 (dict_pop ''command_ref'' flds))"

definition emit ::
  "registry \<Rightarrow> emit_context \<Rightarrow> string \<Rightarrow> string \<Rightarrow> (string, json) dict \<Rightarrow> event_buffer \<Rightarrow> event_buffer"
where
  "emit r c kind source flds b =
     (case emit_event r c kind source flds of
        Some e \<Rightarrow> append_event b e
      | None \<Rightarrow> refuse b)"

section \<open>Walks\<close>

definition is_failure :: "int option \<Rightarrow> bool" where
  "is_failure status = (case status of None \<Rightarrow> True | Some s \<Rightarrow> 400 \<le> s)"

record walk_totals =
  w_item :: string
  w_calls :: nat
  w_items_read :: nat
  w_dropped :: nat
  w_failures :: nat
  w_slowest_ms :: int
  w_slowest_endpoint :: string

definition new_walk :: "string \<Rightarrow> walk_totals" where
  "new_walk item = \<lparr>w_item = item, w_calls = 0, w_items_read = 0, w_dropped = 0,
                    w_failures = 0, w_slowest_ms = 0, w_slowest_endpoint = ''''\<rparr>"

record call_record =
  cr_endpoint :: string
  cr_duration_ms :: int
  cr_status :: "int option"
  cr_fields :: "(string, json) dict"

definition count_call :: "call_record \<Rightarrow> walk_totals \<Rightarrow> walk_totals" where
  "count_call c w =
     (let failed = is_failure (cr_status c);
          named = (case dict_get (cr_fields c) (w_item w @ ''_id'') of None \<Rightarrow> False | Some v \<Rightarrow> truthy v);
          w1 = w\<lparr>w_calls := Suc (w_calls w)\<rparr>;
          w2 = (if failed then w1\<lparr>w_failures := Suc (w_failures w1)\<rparr>
                else if named then w1\<lparr>w_items_read := Suc (w_items_read w1)\<rparr> else w1)
      in if w_slowest_ms w2 \<le> cr_duration_ms c
         then w2\<lparr>w_slowest_ms := cr_duration_ms c, w_slowest_endpoint := cr_endpoint c\<rparr> else w2)"

text \<open>
  Inside a walk a success folds into the totals and emits nothing; a failure, or any call
  outside a walk, emits its own event. The second component says whether it emits.
\<close>

definition record_call :: "walk_totals option \<Rightarrow> call_record \<Rightarrow> walk_totals option \<times> bool" where
  "record_call w c =
     (case w of
        None \<Rightarrow> (None, True)
      | Some t \<Rightarrow> (Some (count_call c t), is_failure (cr_status c)))"

definition record_dropped :: "nat \<Rightarrow> walk_totals option \<Rightarrow> walk_totals option" where
  "record_dropped n w = map_option (\<lambda>t. t\<lparr>w_dropped := w_dropped t + n\<rparr>) w"

text \<open>Leaving the outermost scope emits one summary if the walk read, dropped or failed.\<close>

definition walk_summary :: "walk_totals \<Rightarrow> int \<Rightarrow> (string, json) dict option" where
  "walk_summary t total_ms =
     (if w_items_read t \<noteq> 0 \<or> w_dropped t \<noteq> 0 \<or> w_failures t \<noteq> 0
      then Some [(''calls'', JInt (int (w_calls t))), (''failures'', JInt (int (w_failures t))),
                 (''slowest_endpoint'', JStr (w_slowest_endpoint t)),
                 (''slowest_ms'', JInt (w_slowest_ms t)), (''total_ms'', JInt total_ms),
                 (w_item t @ ''s_read'', JInt (int (w_items_read t))),
                 (w_item t @ ''s_dropped'', JInt (int (w_dropped t)))]
      else None)"

definition run_walk :: "string \<Rightarrow> call_record list \<Rightarrow> walk_totals \<times> call_record list" where
  "run_walk item cs =
     (foldl (\<lambda>t c. count_call c t) (new_walk item) cs, filter (\<lambda>c. is_failure (cr_status c)) cs)"

section \<open>The operations as one machine\<close>

datatype buf_op =
    Extend "event list" nat
  | Refuse
  | Drain string string nat
  | Ack string
  | Nack string
  | Requeue

fun buf_step :: "event_buffer \<Rightarrow> buf_op \<Rightarrow> event_buffer" where
  "buf_step b (Extend es n) = fst (extend_batch b es n)"
| "buf_step b Refuse = refuse b"
| "buf_step b (Drain batch_id ts n) = fst (drain b batch_id ts n)"
| "buf_step b (Ack batch_id) = fst (ack b batch_id)"
| "buf_step b (Nack batch_id) = fst (nack b batch_id)"
| "buf_step b Requeue = fst (requeue_unacked b)"

text \<open>A drain is called with a fresh \<open>uuid4\<close> and a positive batch size.\<close>

fun buf_allowed :: "event_buffer \<Rightarrow> buf_op \<Rightarrow> bool" where
  "buf_allowed b (Drain batch_id ts n) = (dict_get (eb_in_flight b) batch_id = None \<and> 0 < n)"
| "buf_allowed b _ = True"

text \<open>Events an operation hands over for good: acknowledged or refused by the control plane.\<close>

fun settled :: "event_buffer \<Rightarrow> buf_op \<Rightarrow> nat" where
  "settled b (Ack batch_id) = length (concat (map snd (filter (\<lambda>p. fst p = batch_id) (eb_in_flight b))))"
| "settled b (Nack batch_id) = length (concat (map snd (filter (\<lambda>p. fst p = batch_id) (eb_in_flight b))))"
| "settled b _ = 0"

text \<open>Drops an operation reports: the tally a drain writes into its \<open>dropped_events\<close>.\<close>

fun reported :: "event_buffer \<Rightarrow> buf_op \<Rightarrow> nat" where
  "reported b (Drain _ _ _) = eb_dropped b"
| "reported b _ = 0"

fun ledger :: "event_buffer \<Rightarrow> buf_op list \<Rightarrow> nat" where
  "ledger b [] = 0"
| "ledger b (a # as) = settled b a + reported b a + ledger (buf_step b a) as"

subsection \<open>What each operation does to the held events\<close>

text \<open>
  \<open>derives b b'\<close>: the events of \<open>b'\<close> are events of \<open>b\<close> or newly stamped ones, and the new
  stamps are exactly the next sequence numbers.
\<close>

definition derives :: "event_buffer \<Rightarrow> event_buffer \<Rightarrow> bool" where
  "derives b b' \<longleftrightarrow> eb_seq b \<le> eb_seq b' \<and>
     (\<exists>new. mset (held b') \<subseteq># mset (held b) + mset new \<and>
        map event_seq new = map (\<lambda>i. Some (int i)) [Suc (eb_seq b)..<Suc (eb_seq b')])"

lemma derivesI:
  assumes "eb_seq b \<le> eb_seq b'" "mset (held b') \<subseteq># mset (held b) + mset new"
    and "map event_seq new = map (\<lambda>i. Some (int i)) [Suc (eb_seq b)..<Suc (eb_seq b')]"
  shows "derives b b'"
  using assms by (auto simp: derives_def)

lemma derives_sub: "eb_seq b' = eb_seq b \<Longrightarrow> mset (held b') \<subseteq># mset (held b) \<Longrightarrow> derives b b'"
  by (rule derivesI [where new = "[]"]) auto

lemma derives_refl [simp]: "derives b b"
  by (rule derives_sub) auto

lemma derives_trans:
  assumes "derives a b" "derives b c"
  shows "derives a c"
proof -
  from assms obtain m n where
    m: "mset (held b) \<subseteq># mset (held a) + mset m"
      "map event_seq m = map (\<lambda>i. Some (int i)) [Suc (eb_seq a)..<Suc (eb_seq b)]" and
    n: "mset (held c) \<subseteq># mset (held b) + mset n"
      "map event_seq n = map (\<lambda>i. Some (int i)) [Suc (eb_seq b)..<Suc (eb_seq c)]" and
    le: "eb_seq a \<le> eb_seq b" "eb_seq b \<le> eb_seq c"
    by (auto simp: derives_def)
  show ?thesis
  proof (rule derivesI [where new = "m @ n"])
    show "mset (held c) \<subseteq># mset (held a) + mset (m @ n)"
      using subset_mset.order_trans [OF n(1) subset_mset.add_right_mono [OF m(1)]]
      by (simp add: add.assoc)
    show "map event_seq (m @ n) = map (\<lambda>i. Some (int i)) [Suc (eb_seq a)..<Suc (eb_seq c)]"
    proof -
      have "[Suc (eb_seq a)..<Suc (eb_seq c)] = [Suc (eb_seq a)..<Suc (eb_seq b)] @ [Suc (eb_seq b)..<Suc (eb_seq c)]"
        using le by (metis Suc_le_mono le_Suc_ex upt_add_eq_append)
      then show ?thesis using m(2) n(2) by simp
    qed
  qed (use le in simp)
qed

lemma event_seq_set [simp]: "event_seq (dict_set ''seq'' (JInt i) e) = Some i"
  by (simp add: event_seq_def dict_simps)

lemma event_seq_stamp: "event_seq (snd (stamp b e)) = Some (int (Suc (eb_seq b)))"
  by (simp add: stamp_def event_seq_def dict_simps)

lemma push_event_derives: "derives b (push_event b e)"
proof (rule derivesI [where new = "[snd (stamp b e)]"])
  have "mset (tl xs @ ys) \<subseteq># mset (xs @ ys)" for xs ys :: "event list"
    by (simp add: mset_tl_subseteq)
  then show "mset (held (push_event b e)) \<subseteq># mset (held b) + mset [snd (stamp b e)]"
    by (auto simp: push_event_def held_def stamp_def Let_def mset_tl_subseteq)
qed (auto simp: push_event_def stamp_def Let_def)

lemma extend_batch_derives: "derives b (fst (extend_batch b es n))"
proof -
  have "derives b' (foldl push_event b' es)" for b'
    by (induction es arbitrary: b') (auto intro: derives_trans push_event_derives)
  then have "derives (b\<lparr>eb_undeclared := eb_undeclared b + n\<rparr>) (fst (extend_batch b es n))"
    by (simp add: extend_batch_def Let_def)
  then show ?thesis by (simp add: derives_def held_def)
qed

lemma tally_derives: "derives b (tally b ts)"
proof (cases "eb_dropped b \<noteq> 0 \<or> eb_undeclared b \<noteq> 0")
  case True
  then show ?thesis
    by (intro derivesI [where new = "[snd (stamp b (dropped_event ts b))]"])
      (auto simp: tally_def held_def stamp_def)
next
  case False
  then show ?thesis by (simp add: tally_def)
qed

lemma evict_oldest_derives: "derives b (evict_oldest b)"
proof (induction b rule: evict_oldest.induct)
  case (1 b)
  show ?case
  proof (cases "MAX_IN_FLIGHT_BATCHES < length (eb_in_flight b)")
    case True
    then obtain p d where d: "eb_in_flight b = p # d" by (cases "eb_in_flight b") auto
    with 1 True have "derives (b\<lparr>eb_in_flight := d, eb_dropped := eb_dropped b + length (snd p)\<rparr>) (evict_oldest b)"
      by (simp add: evict_oldest.simps [of b])
    moreover have "derives b (b\<lparr>eb_in_flight := d, eb_dropped := eb_dropped b + length (snd p)\<rparr>)"
      by (rule derives_sub) (simp_all add: held_def d)
    ultimately show ?thesis by (rule derives_trans [rotated])
  next
    case False
    then show ?thesis by (subst evict_oldest.simps) simp
  qed
qed

lemma tally_in_flight [simp]: "eb_in_flight (tally b ts) = eb_in_flight b"
  by (simp add: tally_def stamp_def)

lemma tally_max [simp]: "eb_max (tally b ts) = eb_max b"
  by (simp add: tally_def stamp_def)

lemma drain_derives:
  assumes "dict_get (eb_in_flight b) batch_id = None"
  shows "derives b (fst (drain b batch_id ts n))"
proof -
  define b1 where "b1 = tally b ts"
  define b2 where "b2 = b1\<lparr>eb_buf := drop n (eb_buf b1)\<rparr>"
  define b3 where "b3 = b2\<lparr>eb_in_flight := dict_set batch_id (take n (eb_buf b1)) (eb_in_flight b2)\<rparr>"
  have fresh: "batch_id \<notin> fst ` set (eb_in_flight b1)"
    using assms by (simp add: b1_def map_of_eq_None_iff)
  have "mset (held b3) = mset (held b1)"
    unfolding b3_def b2_def held_def using fresh
    by (simp add: dict_set_fresh) (metis append_take_drop_id mset_append union_commute)
  then have 13: "derives b1 b3" by (intro derives_sub) (simp_all add: b3_def b2_def)
  have 12: "derives b1 b2" by (intro derives_sub) (simp_all add: b2_def held_def mset_drop_subseteq)
  have "fst (drain b batch_id ts n) = (if take n (eb_buf b1) \<noteq> [] then evict_oldest b3 else b2)"
    by (simp add: drain_def Let_def b1_def b2_def b3_def)
  then show ?thesis
    using derives_trans [OF tally_derives [of b ts]] 12 13 evict_oldest_derives derives_trans
    unfolding b1_def by metis
qed

lemma pop_derives: "derives b (b\<lparr>eb_in_flight := dict_pop batch_id (eb_in_flight b)\<rparr>)"
  by (rule derives_sub) (simp_all add: held_def mset_concat_pop)

lemma requeue_derives: "derives b (fst (requeue_unacked b))"
  by (rule derives_sub)
    (simp_all add: held_def requeue_unacked_def Let_def union_commute
      subset_mset.order_trans [OF mset_drop_subseteq] del: drop_append)

lemma buf_step_derives: "buf_allowed b a \<Longrightarrow> derives b (buf_step b a)"
  using extend_batch_derives drain_derives pop_derives requeue_derives
  by (cases a) (simp_all add: ack_def nack_def refuse_def derives_sub held_def)

subsection \<open>The invariant\<close>

definition stamped :: "nat \<Rightarrow> event list \<Rightarrow> bool" where
  "stamped n es \<longleftrightarrow> distinct (map event_seq es) \<and>
     (\<forall>e\<in>set es. \<exists>i. event_seq e = Some (int i) \<and> i \<le> n)"

definition eb_inv :: "event_buffer \<Rightarrow> bool" where
  "eb_inv b \<longleftrightarrow> 0 < eb_max b \<and> length (eb_buf b) \<le> eb_max b \<and> dict_ok (eb_in_flight b) \<and>
     length (eb_in_flight b) \<le> MAX_IN_FLIGHT_BATCHES \<and> stamped (eb_seq b) (held b)"

lemma stamped_derives:
  assumes "stamped (eb_seq b) (held b)" "derives b b'"
  shows "stamped (eb_seq b') (held b')"
proof -
  from assms(2) obtain new where le: "eb_seq b \<le> eb_seq b'"
    and sub: "mset (held b') \<subseteq># mset (held b @ new)"
    and new: "map event_seq new = map (\<lambda>i. Some (int i)) [Suc (eb_seq b)..<Suc (eb_seq b')]"
    by (auto simp: derives_def)
  have newset: "event_seq ` set new = (\<lambda>i. Some (int i)) ` {Suc (eb_seq b)..eb_seq b'}"
    using arg_cong [OF new, of set] by (auto simp: atLeastLessThanSuc_atLeastAtMost)
  have "distinct (map event_seq new)"
    unfolding new by (simp add: distinct_map inj_on_def)
  moreover have "event_seq ` set (held b) \<inter> event_seq ` set new = {}"
    unfolding newset using assms(1) by (auto simp: stamped_def)
  ultimately have "distinct (map event_seq (held b @ new))"
    using assms(1) by (simp add: stamped_def)
  then have "distinct (map event_seq (held b'))" by (rule distinct_map_subseteq [OF sub])
  moreover have "\<exists>i. event_seq e = Some (int i) \<and> i \<le> eb_seq b'" if "e \<in> set (held b')" for e
  proof -
    from that have "e \<in># mset (held b')" by simp
    with sub have "e \<in># mset (held b @ new)" by (rule mset_subset_eqD)
    then have "e \<in> set (held b) \<or> e \<in> set new" by auto
    then show ?thesis
    proof
      assume "e \<in> set (held b)"
      then show ?thesis using assms(1) le by (fastforce simp: stamped_def)
    next
      assume "e \<in> set new"
      then have "event_seq e \<in> event_seq ` set new" by simp
      then show ?thesis unfolding newset by auto
    qed
  qed
  ultimately show ?thesis by (simp add: stamped_def)
qed

lemma push_event_max [simp]: "eb_max (push_event b e) = eb_max b"
  by (simp add: push_event_def stamp_def Let_def)

lemma push_event_in_flight [simp]: "eb_in_flight (push_event b e) = eb_in_flight b"
  by (simp add: push_event_def stamp_def Let_def)

lemma push_event_bound:
  "0 < eb_max b \<Longrightarrow> length (eb_buf b) \<le> eb_max b \<Longrightarrow> length (eb_buf (push_event b e)) \<le> eb_max b"
  by (auto simp: push_event_def stamp_def Let_def)

lemma push_events_frame [simp]:
  "eb_max (foldl push_event b es) = eb_max b"
  "eb_in_flight (foldl push_event b es) = eb_in_flight b"
  by (induction es arbitrary: b) simp_all

lemma push_events_bound:
  "0 < eb_max b \<Longrightarrow> length (eb_buf b) \<le> eb_max b \<Longrightarrow> length (eb_buf (foldl push_event b es)) \<le> eb_max b"
proof (induction es arbitrary: b)
  case (Cons e es)
  then show ?case using push_event_bound [of b e] Cons.IH [of "push_event b e"] by simp
qed simp

lemma extend_batch_bound:
  assumes "0 < eb_max b" "length (eb_buf b) \<le> eb_max b"
  shows "length (eb_buf (fst (extend_batch b es n))) \<le> eb_max b"
  using push_events_bound [of "b\<lparr>eb_undeclared := eb_undeclared b + n\<rparr>" es] assms
  by (simp add: extend_batch_def Let_def)

lemma extend_batch_frame [simp]:
  "eb_max (fst (extend_batch b es n)) = eb_max b"
  "eb_in_flight (fst (extend_batch b es n)) = eb_in_flight b"
  by (simp_all add: extend_batch_def Let_def)

lemma tally_bound: "length (eb_buf (tally b ts)) \<le> Suc (length (eb_buf b))"
  by (simp add: tally_def stamp_def)

lemma evict_oldest_frame:
  "eb_max (evict_oldest b) = eb_max b \<and> eb_buf (evict_oldest b) = eb_buf b \<and>
   eb_seq (evict_oldest b) = eb_seq b \<and>
   length (eb_in_flight (evict_oldest b)) \<le> MAX_IN_FLIGHT_BATCHES \<and>
   (dict_ok (eb_in_flight b) \<longrightarrow> dict_ok (eb_in_flight (evict_oldest b)))"
proof (induction b rule: evict_oldest.induct)
  case (1 b)
  then show ?case
    by (cases "eb_in_flight b") (simp_all add: evict_oldest.simps [of b])
qed

lemma drain_frame:
  fixes batch_id ts :: string
  assumes "eb_inv b" "0 < n"
  defines "b' \<equiv> fst (drain b batch_id ts n)"
  shows "eb_max b' = eb_max b" "length (eb_buf b') \<le> eb_max b" "dict_ok (eb_in_flight b')"
    "length (eb_in_flight b') \<le> MAX_IN_FLIGHT_BATCHES"
proof -
  have "length (drop n (eb_buf (tally b ts))) \<le> eb_max b"
    using tally_bound [of b ts] assms(1,2) by (auto simp: eb_inv_def)
  moreover have "dict_ok (dict_set batch_id out (eb_in_flight b))" for out
    using assms(1) by (simp add: eb_inv_def dict_simps)
  ultimately show "eb_max b' = eb_max b" "length (eb_buf b') \<le> eb_max b" "dict_ok (eb_in_flight b')"
    "length (eb_in_flight b') \<le> MAX_IN_FLIGHT_BATCHES"
    using assms(1) by (simp_all add: b'_def drain_def Let_def evict_oldest_frame eb_inv_def)
qed

lemma buf_step_inv:
  assumes "eb_inv b" "buf_allowed b a"
  shows "eb_inv (buf_step b a)"
proof -
  have "stamped (eb_seq (buf_step b a)) (held (buf_step b a))"
    using assms(1) stamped_derives [OF _ buf_step_derives [OF assms(2)]] by (simp add: eb_inv_def)
  then show ?thesis
    using assms drain_frame [OF assms(1)]
    by (cases a) (auto simp: eb_inv_def extend_batch_bound Let_def refuse_def ack_def nack_def
        requeue_unacked_def dict_simps le_trans [OF length_delete_le] min_def)
qed

interpretation eb: machine buf_step buf_allowed eb_inv
  by unfold_locales (rule buf_step_inv)

lemma new_buffer_inv: "0 < m \<Longrightarrow> eb_inv (new_buffer m)"
  by (simp add: eb_inv_def new_buffer_def held_def stamped_def)

subsection \<open>Conservation\<close>

abbreviation held_count :: "event_buffer \<Rightarrow> nat" where
  "held_count b \<equiv> length (held b) + eb_dropped b"

lemma push_event_count:
  "0 < eb_max b \<Longrightarrow> held_count (push_event b e) + eb_seq b = held_count b + eb_seq (push_event b e)"
  by (cases "eb_buf b") (auto simp: push_event_def stamp_def Let_def held_def)

lemma push_events_count:
  "0 < eb_max b \<Longrightarrow>
    held_count (foldl push_event b es) + eb_seq b = held_count b + eb_seq (foldl push_event b es)"
proof (induction es arbitrary: b)
  case (Cons e es)
  from Cons.prems push_event_count [of b e] Cons.IH [of "push_event b e"] show ?case by simp
qed simp

lemma evict_oldest_count: "held_count (evict_oldest b) = held_count b"
proof (induction b rule: evict_oldest.induct)
  case (1 b)
  then show ?case
    by (cases "eb_in_flight b") (simp_all add: evict_oldest.simps [of b] held_def)
qed

lemma tally_count:
  "length (held (tally b ts)) + eb_seq b = length (held b) + eb_seq (tally b ts)"
  "eb_dropped (tally b ts) = 0"
  by (auto simp: tally_def stamp_def held_def)

lemma drain_count:
  assumes "dict_get (eb_in_flight b) batch_id = None"
  shows "held_count (fst (drain b batch_id ts n)) + eb_dropped b + eb_seq b
    = held_count b + eb_seq (fst (drain b batch_id ts n))"
proof -
  define b1 where "b1 = tally b ts"
  define b2 where "b2 = b1\<lparr>eb_buf := drop n (eb_buf b1)\<rparr>"
  define b3 where "b3 = b2\<lparr>eb_in_flight := dict_set batch_id (take n (eb_buf b1)) (eb_in_flight b2)\<rparr>"
  have "batch_id \<notin> fst ` set (eb_in_flight b1)"
    using assms by (simp add: map_of_eq_None_iff b1_def)
  then have "length (held b3) = length (held b1)" "eb_dropped b3 = eb_dropped b1" "eb_seq b3 = eb_seq b1"
    by (simp_all add: b3_def b2_def held_def dict_set_fresh min_def)
  moreover have "length (held b2) = length (held b1)" if "take n (eb_buf b1) = []"
    using that by (auto simp: b2_def held_def)
  moreover have "eb_dropped b2 = eb_dropped b1" "eb_seq b2 = eb_seq b1" by (simp_all add: b2_def)
  moreover have "fst (drain b batch_id ts n) = (if take n (eb_buf b1) \<noteq> [] then evict_oldest b3 else b2)"
    by (simp add: drain_def Let_def b1_def b2_def b3_def)
  ultimately show ?thesis
    using tally_count [of b ts] evict_oldest_count [of b3] evict_oldest_frame [of b3]
    unfolding b1_def by simp
qed

lemma pop_count:
  assumes "dict_ok (eb_in_flight b)"
  shows "length (concat (dict_values (dict_pop batch_id (eb_in_flight b)))) + settled b (Ack batch_id)
    = length (concat (dict_values (eb_in_flight b)))"
  using assms
proof (induction "eb_in_flight b" arbitrary: b)
  case (Cons p d)
  from Cons.hyps(1) [of "b\<lparr>eb_in_flight := d\<rparr>"] Cons.prems Cons.hyps(2) show ?case
    by (cases p) (auto simp flip: Cons.hyps(2))
qed simp

lemma buf_step_count:
  assumes "eb_inv b" "buf_allowed b a"
  shows "held_count (buf_step b a) + settled b a + reported b a + eb_seq b
    = held_count b + eb_seq (buf_step b a)"
proof (cases a)
  case (Extend es n)
  with assms push_events_count [of "b\<lparr>eb_undeclared := eb_undeclared b + n\<rparr>" es] show ?thesis
    by (simp add: extend_batch_def Let_def eb_inv_def held_def)
next
  case (Drain batch_id ts n)
  with assms drain_count [of b batch_id ts n] show ?thesis by simp
next
  case (Ack batch_id)
  with assms pop_count [of b batch_id] show ?thesis by (simp add: ack_def held_def eb_inv_def)
next
  case (Nack batch_id)
  with assms pop_count [of b batch_id] show ?thesis by (simp add: nack_def held_def eb_inv_def)
next
  case Requeue
  then show ?thesis by (auto simp: requeue_unacked_def Let_def held_def)
qed (simp add: refuse_def held_def)

lemma run_count:
  assumes "eb_inv b" "legal buf_step buf_allowed b ops"
  shows "held_count (run buf_step b ops) + ledger b ops + eb_seq b = held_count b + eb_seq (run buf_step b ops)"
  using assms
proof (induction ops arbitrary: b)
  case (Cons a ops)
  then have "eb_inv (buf_step b a)" by (auto intro: buf_step_inv)
  with Cons buf_step_count [of b a] show ?case by fastforce
qed simp

lemma derives_holds:
  assumes "derives b b'" "snd r \<le> Suc (eb_seq b)" "holds_any b' r"
  shows "holds_any b r"
proof -
  from assms(1) obtain new where sub: "mset (held b') \<subseteq># mset (held b @ new)"
    and new: "map event_seq new = map (\<lambda>i. Some (int i)) [Suc (eb_seq b)..<Suc (eb_seq b')]"
    by (auto simp: derives_def)
  from assms(3) obtain e where e: "e \<in> set (held b')" "seq_in r e"
    by (auto simp: holds_any_def list_ex_iff)
  have "e \<notin> set new"
  proof
    assume "e \<in> set new"
    then have "event_seq e \<in> set (map event_seq new)" by simp
    then obtain i where "event_seq e = Some (int i)" "eb_seq b < i" unfolding new by auto
    with e(2) assms(2) show False by (simp add: seq_in_def)
  qed
  moreover from e(1) have "e \<in># mset (held b')" by simp
  with sub have "e \<in># mset (held b @ new)" by (rule mset_subset_eqD)
  ultimately show ?thesis using e(2) by (auto simp: holds_any_def list_ex_iff)
qed

lemma buf_step_max: "eb_max (buf_step b a) = eb_max b"
  by (cases a) (auto simp: refuse_def ack_def nack_def requeue_unacked_def drain_def Let_def evict_oldest_frame)

lemma run_max: "eb_max (run buf_step b ops) = eb_max b"
  by (induction ops arbitrary: b) (simp_all add: buf_step_max)

lemma run_derives:
  "eb_inv b \<Longrightarrow> legal buf_step buf_allowed b ops \<Longrightarrow> derives b (run buf_step b ops)"
  by (rule eb.run_rel) (auto intro: buf_step_derives derives_trans)

subsection \<open>Properties of the buffer\<close>


definition demo_ops :: "buf_op list" where
  "demo_ops =
     [Extend [[(''kind'', JStr ''a'')], [(''kind'', JStr ''b'')], [(''kind'', JStr ''c'')]] 1,
      Drain ''b1'' ''now'' 1, Drain ''b2'' ''now'' 5, Ack ''b1'', Requeue, Refuse, Nack ''b2'']"

lemmas buffer_eval = demo_ops_def new_buffer_def extend_batch_def push_event_def stamp_def drain_def
  tally_def dropped_event_def evict_oldest.simps MAX_IN_FLIGHT_BATCHES_def ack_def nack_def
  refuse_def requeue_unacked_def held_def Let_def event_seq_def


text \<open>
  In every reachable state the buffer holds at most its maximum, at most 32 batches are in
  flight, no two held events carry the same sequence number, and none carries one beyond the
  last stamped.
\<close>

theorem buffer_bounds:
  assumes "0 < m" "legal buf_step buf_allowed (new_buffer m) ops"
    and "b = run buf_step (new_buffer m) ops"
  shows "length (eb_buf b) \<le> m \<and> length (eb_in_flight b) \<le> 32 \<and> distinct (map event_seq (held b)) \<and>
    list_all (\<lambda>e. \<exists>i. event_seq e = Some (int i) \<and> i \<le> eb_seq b) (held b)"
proof -
  have "eb_inv b" unfolding assms(3) by (rule eb.run_inv [OF new_buffer_inv [OF assms(1)] assms(2)])
  moreover have "eb_max b = m" unfolding assms(3) run_max by (simp add: new_buffer_def)
  ultimately show ?thesis
    by (auto simp: eb_inv_def stamped_def MAX_IN_FLIGHT_BATCHES_def list_all_iff)
qed

theorem buffer_bounds_witness:
  "length (eb_buf (run buf_step (new_buffer 2) demo_ops)) \<le> 2"
proof -
  have "legal buf_step buf_allowed (new_buffer 2) demo_ops" by (simp add: buffer_eval)
  from buffer_bounds [OF _ this refl] show ?thesis by simp
qed

text \<open>
  An interval of already stamped events that is neither buffered nor in flight stays so:
  once no event of a spool segment is held, no later operation brings one back, so deleting
  the segment loses nothing that could still be shipped.
\<close>

theorem settled_stays_settled:
  assumes "eb_inv b" "legal buf_step buf_allowed b ops" "snd r \<le> Suc (eb_seq b)" "\<not> holds_any b r"
  shows "\<not> holds_any (run buf_step b ops) r"
  using derives_holds [OF run_derives [OF assms(1,2)] assms(3)] assms(4) by blast

theorem settled_stays_settled_witness:
  "\<not> holds_any (run buf_step (run buf_step (new_buffer 2) demo_ops) [Requeue, Extend [[]] 0]) (4, 5)"
proof (rule settled_stays_settled)
  show "eb_inv (run buf_step (new_buffer 2) demo_ops)"
    by (rule eb.run_inv [OF new_buffer_inv]) (simp_all add: buffer_eval)
qed (simp_all add: buffer_eval holds_any_def seq_in_def)

section \<open>Properties of admission\<close>

lemma admit_fields_None:
  "admit_fields shape flds \<noteq> None \<longleftrightarrow>
    (\<forall>(n, v)\<in>set flds. v \<notin> {JNull, JStr ''''} \<longrightarrow> n \<in> set shape)"
  by (induction shape flds rule: admit_fields.induct) (auto split: option.splits)

lemma admit_fields_Some:
  "admit_fields shape flds = Some kept \<Longrightarrow> (n, v) \<in> set kept \<Longrightarrow>
    n \<in> set shape \<and> v \<noteq> JNull \<and>
    (n \<in> set capped_fields \<longrightarrow> (\<exists>t. v = JStr t \<and> length t \<le> MAX_ERROR_CHARS))"
  by (induction shape flds arbitrary: kept rule: admit_fields.induct)
    (auto split: if_splits option.splits)

lemma dict_update_get:
  "dict_get (dict_update d e) k = Some v \<Longrightarrow> dict_get d k = Some v \<or> (k, v) \<in> set e"
  unfolding dict_update_def
  by (induction e arbitrary: d) (fastforce simp: dict_get_set split: if_splits)+

text \<open>
  An event is admitted exactly when its source and kind were declared and every field that
  is neither null nor empty is one the declaration names: one undeclared value refuses the whole
  event.
\<close>

theorem admit_iff:
  "admit r e flds \<noteq> None \<longleftrightarrow>
    (\<exists>shape. lookup_shape r (event_text e ''source'', event_text e ''kind'') = Some shape \<and>
       list_all (\<lambda>(n, v). v \<in> {JNull, JStr ''''} \<or> n \<in> set shape) flds)"
  using admit_fields_None
  by (fastforce simp: admit_def list_all_iff split: option.splits)

text \<open>
  What reaches the wire: an admitted event carries only the fields it already had and
  declared ones, no declared field is null, and free text from a process or the control plane
  (\<open>error\<close>, \<open>reason\<close>) is at most 500 characters.
\<close>

theorem admit_only_declared:
  assumes "admit r e flds = Some e'"
    and "lookup_shape r (event_text e ''source'', event_text e ''kind'') = Some shape"
    and "dict_get e' n = Some v" "dict_get e n \<noteq> Some v"
  shows "n \<in> set shape \<and> v \<noteq> JNull \<and>
    (n \<in> {''error'', ''reason''} \<longrightarrow> (\<exists>t. v = JStr t \<and> length t \<le> 500))"
proof -
  from assms(1,2) obtain kept where kept: "admit_fields shape flds = Some kept" "e' = dict_update e kept"
    by (auto simp: admit_def)
  with assms(3,4) have "(n, v) \<in> set kept" using dict_update_get by metis
  from admit_fields_Some [OF kept(1) this] show ?thesis
    by (simp add: capped_fields_def MAX_ERROR_CHARS_def)
qed

definition demo_registry :: registry where
  "demo_registry = declare_event ''ws'' ''reconnect'' [''reason'', ''error'', ''category'']
     \<lparr>declared = [], integration_declared = [], spool_dirs = []\<rparr>"

definition demo_event :: event where
  "demo_event = [(''ts'', JStr ''t''), (''source'', JStr ''ws''), (''kind'', JStr ''reconnect'')]"

lemmas admit_eval = demo_registry_def demo_event_def declare_event_def admit_def lookup_shape_def
  event_text_def capped_fields_def dict_update_def Let_def

theorem admit_only_declared_witness:
  "''reason'' \<in> set [''reason'', ''error'', ''category''] \<and>
   dict_get (the (admit demo_registry demo_event [(''reason'', JStr ''gone''), (''error'', JNull)])) ''reason''
     = Some (JStr ''gone'')"
proof -
  let ?flds = "[(''reason'', JStr ''gone''), (''error'', JNull)]"
  have adm: "admit demo_registry demo_event ?flds = Some (demo_event @ [(''reason'', JStr ''gone'')])"
    by (simp add: admit_eval MAX_ERROR_CHARS_def)
  have "''reason'' \<in> set [''reason'', ''error'', ''category'']"
    using admit_only_declared [OF adm, of "[''reason'', ''error'', ''category'']" "''reason''" "JStr ''gone''"]
    by (simp add: admit_eval)
  with adm show ?thesis by (simp add: demo_event_def)
qed

lemma fold_kinds_other:
  "src \<noteq> name \<Longrightarrow> dict_get (fold (\<lambda>(k, fs). dict_set (name, k) fs) kinds d) (src, knd) = dict_get d (src, knd)"
  by (induction kinds arbitrary: d) (auto simp: dict_get_set)

lemma fold_kinds_own:
  "dict_ok kinds \<Longrightarrow> dict_get (fold (\<lambda>(k, fs). dict_set (name, k) fs) kinds d) (name, knd)
    = (case dict_get kinds knd of Some fs \<Rightarrow> Some fs | None \<Rightarrow> dict_get d (name, knd))"
proof (induction kinds arbitrary: d)
  case (Cons p kinds)
  obtain k fs where p: "p = (k, fs)" by (cases p)
  have IH: "dict_get (fold (\<lambda>(k, fs). dict_set (name, k) fs) kinds (dict_set (name, k) fs d)) (name, knd)
      = (case dict_get kinds knd of Some fs \<Rightarrow> Some fs | None \<Rightarrow> dict_get (dict_set (name, k) fs d) (name, knd))"
    using Cons.IH [of "dict_set (name, k) fs d"] Cons.prems by simp
  show ?case
  proof (cases "knd = k")
    case True
    with Cons.prems p have "dict_get kinds knd = None" by (simp add: map_of_eq_None_iff)
    with True p IH show ?thesis by (simp add: dict_get_set)
  next
    case False
    with p IH show ?thesis by (simp add: dict_get_set split: option.split)
  qed
qed simp

text \<open>
  An integration's event source never borrows another's shape or spool: it is admitted only
  under a name no source holds and a directory no source feeds, its kinds get exactly the fields
  it declares, and the shape of every other source stays as it was.
\<close>

theorem integration_source_isolated:
  assumes "declare_integration_source s r = Inr r'" "dict_ok (es_kinds s)"
  shows "es_name s \<notin> set (taken_sources r) \<and> dict_get (spool_dirs r) (es_spool_dir s) = None \<and>
    dict_get (spool_dirs r') (es_spool_dir s) = Some (es_name s) \<and>
    (\<forall>src knd. lookup_shape r' (src, knd) =
       (if src = es_name s then dict_get (es_kinds s) knd else lookup_shape r (src, knd)))"
proof -
  from assms(1) have new: "es_name s \<notin> set (taken_sources r)"
    "dict_get (spool_dirs r) (es_spool_dir s) = None"
    and r': "r' = r\<lparr>spool_dirs := dict_set (es_spool_dir s) (es_name s) (spool_dirs r),
      integration_declared := fold (\<lambda>(kind, flds). dict_set (es_name s, kind) flds)
        (es_kinds s) (integration_declared r)\<rparr>"
    by (auto simp: declare_integration_source_def split: if_splits option.splits)
  have none: "dict_get (declared r) (es_name s, k) = None" "dict_get (integration_declared r) (es_name s, k) = None" for k
    using new(1) by (force simp: taken_sources_def map_of_eq_None_iff)+
  show ?thesis
    using new none assms(2)
    by (auto simp: r' lookup_shape_def dict_get_set fold_kinds_own fold_kinds_other split: option.splits)
qed

definition demo_source :: event_source where
  "demo_source = \<lparr>es_name = ''pds'', es_kinds = [(''write'', [''bytes''])], es_spool_dir = ''/spool''\<rparr>"

theorem integration_source_isolated_witness:
  "lookup_shape (projr (declare_integration_source demo_source demo_registry)) (''pds'', ''write'')
    = Some [''bytes'']"
proof -
  have "\<exists>r'. declare_integration_source demo_source demo_registry = Inr r'"
    by (simp add: declare_integration_source_def demo_source_def admit_eval taken_sources_def)
  then obtain r' where r': "declare_integration_source demo_source demo_registry = Inr r'" ..
  have "dict_ok (es_kinds demo_source)" by (simp add: demo_source_def)
  from integration_source_isolated [OF r' this] r' show ?thesis by (simp add: demo_source_def)
qed

section \<open>Properties of walks\<close>

lemma count_call_run:
  "w_calls (foldl (\<lambda>t c. count_call c t) w cs) = w_calls w + length cs \<and>
   w_failures (foldl (\<lambda>t c. count_call c t) w cs)
     = w_failures w + length (filter (\<lambda>c. is_failure (cr_status c)) cs) \<and>
   w_items_read (foldl (\<lambda>t c. count_call c t) w cs) + w_failures (foldl (\<lambda>t c. count_call c t) w cs)
     \<le> w_items_read w + w_failures w + length cs \<and>
   w_dropped (foldl (\<lambda>t c. count_call c t) w cs) = w_dropped w \<and>
   w_slowest_ms w \<le> w_slowest_ms (foldl (\<lambda>t c. count_call c t) w cs) \<and>
   (\<forall>c\<in>set cs. cr_duration_ms c \<le> w_slowest_ms (foldl (\<lambda>t c. count_call c t) w cs))"
proof (induction cs arbitrary: w)
  case (Cons c cs)
  from Cons.IH [of "count_call c w"] show ?case
    by (auto simp: count_call_def Let_def split: if_splits option.splits)
qed simp

text \<open>
  A walk accounts for every call it folds: its summary counts each call and each failure,
  every failed call keeps its own event, no call counts as both read and failed, and no call was
  slower than the slowest reported. A walk whose calls neither read nor failed emits no summary
  at all.
\<close>

theorem walk_accounts_for_calls:
  "(case run_walk item cs of (t, own) \<Rightarrow>
     w_calls t = length cs \<and> w_failures t = length own \<and>
     w_items_read t + w_failures t \<le> length cs \<and>
     list_all (\<lambda>c. cr_duration_ms c \<le> w_slowest_ms t) cs \<and>
     (walk_summary t ms = None \<longleftrightarrow> w_items_read t = 0 \<and> own = []))"
  using count_call_run [of "new_walk item" cs]
  by (simp add: run_walk_def walk_summary_def list_all_iff new_walk_def)

end
