(* ===== verification/Integrations.thy ===== *)
theory Integrations
  imports Envelope
begin

text \<open>
  \<open>agent/integrations_runtime.py\<close>: the runtime of each configured integration, the two writers of its
  state, the report a metrics push carries, and the receipts that decide when a changed id may stop
  being repeated. What a state blob can do (its JSON, its freshness, its targeted merge) belongs to
  the integration and comes in as a record of functions.
\<close>

section \<open>Runtimes\<close>

text \<open>\<open>Freshness\<close> in \<open>integrations/registry.py\<close>: what one collect says of itself.\<close>

record freshness =
  fr_complete :: bool
  fr_last_full_read_at :: string
  fr_changed_ids :: "string list"

text \<open>
  The protocols of a state: \<open>to_dict\<close>; \<open>freshness\<close>, if it is a \<open>FreshState\<close>; \<open>with_items\<close>, if it
  is a \<open>MergeableState\<close>; and \<open>getattr(item, "id", "")\<close>.
\<close>

record ('s, 'i) state_api =
  sa_to_dict :: "'s \<Rightarrow> (string \<times> json) list"
  sa_freshness :: "'s \<Rightarrow> freshness option"
  sa_with_items :: "'s \<Rightarrow> ('i list \<Rightarrow> 's) option"
  sa_item_id :: "'i \<Rightarrow> string"

record 's runtime =
  rt_status :: string
  rt_disabled_reason :: "string option"
  rt_state :: "'s option"
  rt_command_specs_digest :: string
  rt_commands_fenced :: "string option"
  rt_generation :: nat
  rt_complete :: bool
  rt_last_full_read_at :: string
  rt_change_revision :: nat
  rt_changed :: "(string, nat) dict"
  rt_pending :: "(string, nat) dict"

type_synonym 's runtimes = "(string, 's runtime) dict"

definition MAX_PENDING_METRICS_PUSHES :: nat where
  "MAX_PENDING_METRICS_PUSHES = 32"

definition STATUS_LIVE :: string where "STATUS_LIVE = ''live''"
definition STATUS_DISABLED_ERROR :: string where "STATUS_DISABLED_ERROR = ''disabled_error''"
definition STATUS_DISABLED_CHOICE :: string where "STATUS_DISABLED_CHOICE = ''disabled_choice''"

text \<open>The constructor with its defaults.\<close>

definition new_runtime :: "string \<Rightarrow> string option \<Rightarrow> 's runtime" where
  "new_runtime status reason =
     \<lparr>rt_status = status, rt_disabled_reason = reason, rt_state = None, rt_command_specs_digest = [],
      rt_commands_fenced = None, rt_generation = 0, rt_complete = True, rt_last_full_read_at = [],
      rt_change_revision = 0, rt_changed = [], rt_pending = []\<rparr>"

text \<open>A loop over \<open>runtimes.values()\<close> that mutates each.\<close>

abbreviation each :: "('s runtime \<Rightarrow> 's runtime) \<Rightarrow> 's runtimes \<Rightarrow> 's runtimes" where
  "each f rts \<equiv> map (\<lambda>(k, r). (k, f r)) rts"

section \<open>The writers\<close>

definition note_read :: "string \<Rightarrow> 's runtime \<Rightarrow> 's runtime" where
  "note_read i r =
     (if i = [] then r
      else r\<lparr>rt_change_revision := Suc (rt_change_revision r),
             rt_changed := dict_set i (Suc (rt_change_revision r)) (rt_changed r)\<rparr>)"

definition note_changed :: "string list \<Rightarrow> 's runtime \<Rightarrow> 's runtime" where
  "note_changed ids r = fold note_read ids r"

definition replace_runtime_state :: "('s, 'i) state_api \<Rightarrow> 's \<Rightarrow> 's runtime \<Rightarrow> 's runtime" where
  "replace_runtime_state api s r =
     (let r1 = r\<lparr>rt_state := Some s\<rparr> in
      case sa_freshness api s of
        None \<Rightarrow> r1
      | Some f \<Rightarrow> note_changed (fr_changed_ids f)
          (r1\<lparr>rt_complete := fr_complete f, rt_last_full_read_at := fr_last_full_read_at f\<rparr>))"

text \<open>The left answer is the \<open>TypeError\<close> of a state that cannot merge.\<close>

datatype merge_error = NotMergeable

definition merge_items_into_runtime ::
  "('s, 'i) state_api \<Rightarrow> 'i list \<Rightarrow> 's runtime \<Rightarrow> merge_error + bool \<times> 's runtime" where
  "merge_items_into_runtime api items r =
     (case rt_state r of
        None \<Rightarrow> Inr (False, r)
      | Some s \<Rightarrow>
          (case sa_with_items api s of
             None \<Rightarrow> Inl NotMergeable
           | Some upsert \<Rightarrow>
               Inr (True, note_changed (map (sa_item_id api) items) (r\<lparr>rt_state := Some (upsert items)\<rparr>))))"

section \<open>The push and its receipts\<close>

definition advance_generation :: "'s runtimes \<Rightarrow> 's runtimes" where
  "advance_generation = each (\<lambda>r. r\<lparr>rt_generation := Suc (rt_generation r)\<rparr>)"

text \<open>\<open>while len(d) > MAX: del d[next(iter(d))]\<close>: the oldest keys go.\<close>

function evict_pending :: "(string, nat) dict \<Rightarrow> (string, nat) dict" where
  "evict_pending d =
     (if length d > MAX_PENDING_METRICS_PUSHES then evict_pending (tl d) else d)"
  by pat_completeness auto
termination
  by (relation "measure length") (auto simp: MAX_PENDING_METRICS_PUSHES_def)

declare evict_pending.simps [simp del]

definition track_push :: "string \<Rightarrow> 's runtimes \<Rightarrow> 's runtimes" where
  "track_push push_id =
     each (\<lambda>r. r\<lparr>rt_pending := evict_pending (dict_set push_id (rt_change_revision r) (rt_pending r))\<rparr>)"

definition discard_push :: "string \<Rightarrow> 's runtimes \<Rightarrow> 's runtimes" where
  "discard_push push_id = each (\<lambda>r. r\<lparr>rt_pending := dict_pop push_id (rt_pending r)\<rparr>)"

definition discard_pending_pushes :: "'s runtimes \<Rightarrow> 's runtimes" where
  "discard_pending_pushes = each (\<lambda>r. r\<lparr>rt_pending := []\<rparr>)"

definition release_reads :: "string \<Rightarrow> 's runtime \<Rightarrow> 's runtime" where
  "release_reads push_id r =
     (case dict_get (rt_pending r) push_id of
        None \<Rightarrow> r
      | Some watermark \<Rightarrow>
          r\<lparr>rt_pending := dict_pop push_id (rt_pending r),
            rt_changed := filter (\<lambda>(i, revision). revision > watermark) (rt_changed r)\<rparr>)"

definition acknowledge_push :: "string \<Rightarrow> 's runtimes \<Rightarrow> bool \<times> 's runtimes" where
  "acknowledge_push push_id rts =
     (list_ex (\<lambda>(k, r). dict_has (rt_pending r) push_id) rts, each (release_reads push_id) rts)"

section \<open>The report\<close>

definition report_state :: "('s, 'i) state_api \<Rightarrow> 's runtime \<Rightarrow> (string \<times> json) list option" where
  "report_state api r =
     (if rt_status r = STATUS_LIVE
      then Some (case rt_state r of Some s \<Rightarrow> sa_to_dict api s | None \<Rightarrow> []) else None)"

definition integration_report :: "('s, 'i) state_api \<Rightarrow> 's runtime \<Rightarrow> (string \<times> json) list" where
  "integration_report api r =
     [(''status'', JStr (rt_status r)),
      (''disabled_reason'', opt_json JStr (rt_disabled_reason r)),
      (''state'', opt_json JObj (report_state api r)),
      (''command_specs_digest'', JStr (rt_command_specs_digest r)),
      (''commands_fenced'', opt_json JStr (rt_commands_fenced r)),
      (''generation'', JInt (int (rt_generation r))),
      (''complete'', JBool (rt_complete r)),
      (''last_full_read_at'', JStr (rt_last_full_read_at r)),
      (''changed_ids'', JArr (map JStr (dict_keys (rt_changed r))))]"

definition build_integrations_payload :: "('s, 'i) state_api \<Rightarrow> 's runtimes \<Rightarrow> (string \<times> json) list" where
  "build_integrations_payload api rts = map (\<lambda>(k, r). (k, JObj (integration_report api r))) rts"

text \<open>
  \<open>build_metrics_envelope\<close> once the host metrics are read: generations advance, the reports are
  taken, and the push is tracked, with no await in between. The answer is the wire's
  \<open>integrations\<close> field, absent when there is none, and the runtimes.
\<close>

definition build_metrics ::
  "('s, 'i) state_api \<Rightarrow> string \<Rightarrow> 's runtimes \<Rightarrow> (string \<times> json) list option \<times> 's runtimes" where
  "build_metrics api push_id rts =
     (let rts1 = advance_generation rts; reports = build_integrations_payload api rts1
      in (if reports = [] then None else Some reports, track_push push_id rts1))"

section \<open>Components\<close>

text \<open>What a components hook returned: an exception, or its entries, an \<open>SdkComponent\<close> of any
  three values or another object.\<close>

datatype hook_entry = SdkComponent json json json | OtherObject
datatype hook_result = HookRaised | Declared "hook_entry list"

fun component_of :: "hook_entry \<Rightarrow> (string \<times> string \<times> string) option" where
  "component_of (SdkComponent (JStr name) (JStr version) (JStr digest)) = Some (name, version, digest)"
| "component_of _ = None"

fun all_components :: "hook_entry list \<Rightarrow> (string \<times> string \<times> string) list option" where
  "all_components [] = Some []"
| "all_components (c # cs) =
     (case component_of c of None \<Rightarrow> None | Some x \<Rightarrow> map_option (Cons x) (all_components cs))"

definition runtime_components ::
  "(string \<Rightarrow> ('s option \<Rightarrow> hook_result) option) \<Rightarrow> string \<times> 's runtime \<Rightarrow> (string \<times> string \<times> string) list" where
  "runtime_components hooks p =
     (let (k, r) = p in
      if rt_status r \<noteq> STATUS_LIVE then []
      else case hooks k of
        None \<Rightarrow> []
      | Some hook \<Rightarrow>
          (case hook (rt_state r) of
             HookRaised \<Rightarrow> []
           | Declared cs \<Rightarrow> (case all_components cs of None \<Rightarrow> [] | Some xs \<Rightarrow> xs)))"

definition integration_components ::
  "(string \<Rightarrow> ('s option \<Rightarrow> hook_result) option) \<Rightarrow> 's runtimes \<Rightarrow> (string \<times> string \<times> string) list" where
  "integration_components hooks rts = concat (map (runtime_components hooks) rts)"

section \<open>The operations as one machine\<close>

text \<open>\<open>Reconnect\<close> is the retirement of a lost connection's receipts.\<close>

datatype ('s, 'i) metrics_op =
    CollectState string 's
  | Merge string "'i list"
  | Push string
  | Discard string
  | Reconnect
  | AckPush string

abbreviation at_key :: "string \<Rightarrow> ('s runtime \<Rightarrow> 's runtime) \<Rightarrow> 's runtimes \<Rightarrow> 's runtimes" where
  "at_key k f rts \<equiv> map (\<lambda>(k', r). (k', if k' = k then f r else r)) rts"

fun metrics_step :: "('s, 'i) state_api \<Rightarrow> 's runtimes \<Rightarrow> ('s, 'i) metrics_op \<Rightarrow> 's runtimes" where
  "metrics_step api rts (CollectState k s) = at_key k (replace_runtime_state api s) rts"
| "metrics_step api rts (Merge k items) =
     at_key k (\<lambda>r. case merge_items_into_runtime api items r of Inr (b, r') \<Rightarrow> r' | Inl e \<Rightarrow> r) rts"
| "metrics_step api rts (Push push_id) = snd (build_metrics api push_id rts)"
| "metrics_step api rts (Discard push_id) = discard_push push_id rts"
| "metrics_step api rts Reconnect = discard_pending_pushes rts"
| "metrics_step api rts (AckPush push_id) = snd (acknowledge_push push_id rts)"

text \<open>The ids an operation reads for integration \<open>k\<close>, and whether the push built now reports one.\<close>

definition ids_read :: "('s, 'i) state_api \<Rightarrow> 's runtimes \<Rightarrow> ('s, 'i) metrics_op \<Rightarrow> string \<Rightarrow> string list" where
  "ids_read api rts a k =
     filter (\<lambda>i. i \<noteq> [])
       (case dict_get rts k of
          None \<Rightarrow> []
        | Some r \<Rightarrow>
            (case a of
               CollectState k' s \<Rightarrow>
                 if k' = k then (case sa_freshness api s of None \<Rightarrow> [] | Some f \<Rightarrow> fr_changed_ids f) else []
             | Merge k' items \<Rightarrow>
                 (case merge_items_into_runtime api items r of
                    Inr (merged, r') \<Rightarrow> if k' = k \<and> merged then map (sa_item_id api) items else []
                  | Inl e \<Rightarrow> [])
             | _ \<Rightarrow> []))"

definition push_reports :: "('s, 'i) state_api \<Rightarrow> 's runtimes \<Rightarrow> string \<Rightarrow> string \<Rightarrow> string \<Rightarrow> bool" where
  "push_reports api rts push_id k i =
     (case fst (build_metrics api push_id rts) of
        None \<Rightarrow> False
      | Some reports \<Rightarrow>
          (case dict_get reports k of
             Some (JObj report) \<Rightarrow>
               (case dict_get report ''changed_ids'' of
                  Some (JArr ids) \<Rightarrow> JStr i \<in> set ids
                | _ \<Rightarrow> False)
           | _ \<Rightarrow> False))"

section \<open>Facts\<close>

lemma dict_get_map_kv: "dict_get (map (\<lambda>(k, r). (k, f k r)) d) k = map_option (f k) (dict_get d k)"
  by (induction d) auto

lemmas dict_get_each = dict_get_map_kv [where f = "\<lambda>k. f" for f]
lemmas dict_get_at_key = dict_get_map_kv [where f = "\<lambda>k' r. if k' = k then f r else r" for k f]

text \<open>Every owed revision is at most the counter.\<close>

definition revisions_ok :: "'s runtime \<Rightarrow> bool" where
  "revisions_ok r \<longleftrightarrow> (\<forall>(i, n)\<in>set (rt_changed r). n \<le> rt_change_revision r)"

lemma note_read_pending [simp]: "rt_pending (note_read i r) = rt_pending r"
  by (simp add: note_read_def)

lemma note_changed_pending [simp]: "rt_pending (note_changed ids r) = rt_pending r"
  unfolding note_changed_def by (induction ids arbitrary: r) auto

lemma note_read_revision: "rt_change_revision r \<le> rt_change_revision (note_read i r)"
  by (simp add: note_read_def)

lemma note_read_ok: "revisions_ok r \<Longrightarrow> revisions_ok (note_read i r)"
  using set_dict_set [of i "Suc (rt_change_revision r)" "rt_changed r"]
  by (fastforce simp: revisions_ok_def note_read_def le_SucI)

lemma note_read_grows:
  "revisions_ok r \<Longrightarrow> dict_get (rt_changed r) i = Some n \<Longrightarrow>
    \<exists>m \<ge> n. dict_get (rt_changed (note_read j r)) i = Some m"
  by (auto simp: revisions_ok_def note_read_def dict_get_set le_SucI dest!: map_of_SomeD)

lemma note_changed_ok: "revisions_ok r \<Longrightarrow> revisions_ok (note_changed ids r)"
  unfolding note_changed_def by (induction ids arbitrary: r) (auto simp: note_read_ok)

lemma note_changed_revision: "rt_change_revision r \<le> rt_change_revision (note_changed ids r)"
  unfolding note_changed_def
  by (induction ids arbitrary: r) (auto intro: order_trans [OF note_read_revision])

lemma note_changed_grows:
  "revisions_ok r \<Longrightarrow> dict_get (rt_changed r) i = Some n \<Longrightarrow>
    \<exists>m \<ge> n. dict_get (rt_changed (note_changed ids r)) i = Some m"
  unfolding note_changed_def
proof (induction ids arbitrary: r n)
  case (Cons j ids)
  from note_read_grows [OF Cons.prems, of j] obtain m where
    "m \<ge> n" "dict_get (rt_changed (note_read j r)) i = Some m" by blast
  with Cons.IH [OF note_read_ok [OF Cons.prems(1)]] show ?case by (fastforce intro: order_trans)
qed auto

lemma note_changed_noted:
  "i \<in> set ids \<Longrightarrow> i \<noteq> [] \<Longrightarrow> revisions_ok r \<Longrightarrow>
    \<exists>m > rt_change_revision r. dict_get (rt_changed (note_changed ids r)) i = Some m"
proof (induction ids arbitrary: r)
  case (Cons j ids)
  have ok: "revisions_ok (note_read j r)" using Cons.prems(3) by (rule note_read_ok)
  have fold: "note_changed (j # ids) r = note_changed ids (note_read j r)" by (simp add: note_changed_def)
  show ?case
  proof (cases "i = j")
    case True
    with Cons.prems(2) have "dict_get (rt_changed (note_read j r)) i = Some (Suc (rt_change_revision r))"
      by (simp add: note_read_def dict_get_set)
    from note_changed_grows [OF ok this, of ids] show ?thesis by (auto simp: fold Suc_le_eq)
  next
    case False
    with Cons.prems(1,2) Cons.IH [OF _ _ ok] obtain m where
      "m > rt_change_revision (note_read j r)" "dict_get (rt_changed (note_changed ids (note_read j r))) i = Some m"
      by auto
    with note_read_revision [of r j] show ?thesis by (auto simp: fold)
  qed
qed simp

text \<open>What one operation does to the runtime under one key.\<close>

fun runtime_step :: "('s, 'i) state_api \<Rightarrow> ('s, 'i) metrics_op \<Rightarrow> string \<Rightarrow> 's runtime \<Rightarrow> 's runtime" where
  "runtime_step api (CollectState k s) k' r = (if k' = k then replace_runtime_state api s r else r)"
| "runtime_step api (Merge k items) k' r =
     (if k' = k then (case merge_items_into_runtime api items r of Inr (b, r') \<Rightarrow> r' | Inl e \<Rightarrow> r) else r)"
| "runtime_step api (Push p) k' r =
     r\<lparr>rt_generation := Suc (rt_generation r),
       rt_pending := evict_pending (dict_set p (rt_change_revision r) (rt_pending r))\<rparr>"
| "runtime_step api (Discard p) k' r = r\<lparr>rt_pending := dict_pop p (rt_pending r)\<rparr>"
| "runtime_step api Reconnect k' r = r\<lparr>rt_pending := []\<rparr>"
| "runtime_step api (AckPush p) k' r = release_reads p r"

lemma metrics_step_map: "metrics_step api rts a = map (\<lambda>(k, r). (k, runtime_step api a k r)) rts"
  by (cases a) (auto simp: build_metrics_def Let_def track_push_def advance_generation_def
      discard_push_def discard_pending_pushes_def acknowledge_push_def)

lemma get_step: "dict_get (metrics_step api rts a) k = map_option (runtime_step api a k) (dict_get rts k)"
  by (simp add: metrics_step_map dict_get_map_kv)

lemma evict_pending_drop: "evict_pending d = drop (length d - MAX_PENDING_METRICS_PUSHES) d"
proof (induction d rule: evict_pending.induct)
  case (1 d)
  show ?case
  proof (cases "length d > MAX_PENDING_METRICS_PUSHES")
    case True
    with 1 have "evict_pending d = drop (length d - 1 - MAX_PENDING_METRICS_PUSHES) (tl d)"
      by (simp add: evict_pending.simps [of d])
    with True show ?thesis by (simp add: drop_Suc [symmetric] Suc_diff_Suc)
  qed (simp add: evict_pending.simps [of d])
qed

definition receipts_ok :: "'s runtime \<Rightarrow> bool" where
  "receipts_ok r \<longleftrightarrow>
     revisions_ok r \<and> length (rt_pending r) \<le> MAX_PENDING_METRICS_PUSHES
     \<and> (\<forall>(p, w)\<in>set (rt_pending r). w \<le> rt_change_revision r)"

definition runtimes_ok :: "'s runtimes \<Rightarrow> bool" where
  "runtimes_ok rts \<longleftrightarrow> (\<forall>(k, r)\<in>set rts. receipts_ok r)"

lemma replace_runtime_state_eq:
  "replace_runtime_state api s r =
    (case sa_freshness api s of
       None \<Rightarrow> r\<lparr>rt_state := Some s\<rparr>
     | Some f \<Rightarrow> note_changed (fr_changed_ids f) (r\<lparr>rt_state := Some s, rt_complete := fr_complete f,
                   rt_last_full_read_at := fr_last_full_read_at f\<rparr>))"
  by (simp add: replace_runtime_state_def Let_def split: option.split)

lemma receipts_ok_note:
  "receipts_ok r' \<Longrightarrow> receipts_ok (note_changed ids r')"
  using note_changed_revision [of r' ids]
  by (fastforce simp: receipts_ok_def note_changed_ok intro: order_trans)

lemma receipts_ok_same:
  "receipts_ok r \<Longrightarrow> rt_pending r' = rt_pending r \<Longrightarrow> rt_changed r' = rt_changed r \<Longrightarrow>
    rt_change_revision r' = rt_change_revision r \<Longrightarrow> receipts_ok r'"
  by (simp add: receipts_ok_def revisions_ok_def)

lemma length_dict_set: "length (dict_set k v d) \<le> Suc (length d)"
  by (induction d) auto


lemma get_filter_keep:
  "dict_get d i = Some n \<Longrightarrow> w < n \<Longrightarrow> dict_get (filter (\<lambda>(i, n). w < n) d) i = Some n"
  by (induction d) (auto split: if_splits)

lemma replace_runtime_state_cases:
  obtains r' ids where "replace_runtime_state api s r = note_changed ids r'"
    "rt_pending r' = rt_pending r" "rt_changed r' = rt_changed r" "rt_change_revision r' = rt_change_revision r"
    "ids = (case sa_freshness api s of None \<Rightarrow> [] | Some f \<Rightarrow> fr_changed_ids f)"
  by (cases "sa_freshness api s")
    (force simp: replace_runtime_state_eq note_changed_def)+

lemma merge_items_cases:
  assumes "merge_items_into_runtime api items r = Inr (b, r2)"
  obtains "\<not> b" "r2 = r"
  | r' where "b" "r2 = note_changed (map (sa_item_id api) items) r'"
      "rt_pending r' = rt_pending r" "rt_changed r' = rt_changed r" "rt_change_revision r' = rt_change_revision r"
  using assms by (auto simp: merge_items_into_runtime_def split: option.splits)

lemma writer_cases:
  assumes "a = CollectState k' s \<or> a = Merge k' items"
  obtains r' ids where "runtime_step api a k r = note_changed ids r'"
    "rt_pending r' = rt_pending r" "rt_changed r' = rt_changed r" "rt_change_revision r' = rt_change_revision r"
    "set (ids_read api rts a k) \<subseteq> set ids \<or> dict_get rts k \<noteq> Some r"
proof (cases "k' = k")
  case False
  with assms that [of "[]" r] show thesis
    by (auto simp: note_changed_def ids_read_def split: option.splits)
next
  case True
  from assms show thesis
  proof
    assume a: "a = CollectState k' s"
    show thesis
    proof (rule replace_runtime_state_cases [of api s r], goal_cases)
      case (1 r' ids)
      with a True show ?case
        by (intro that [of ids r']) (auto simp: ids_read_def split: option.splits)
    qed
  next
    assume a: "a = Merge k' items"
    show thesis
    proof (cases "merge_items_into_runtime api items r")
      case (Inl e)
      with a True show thesis
        by (intro that [of "[]" r]) (auto simp: note_changed_def ids_read_def split: option.splits)
    next
      case (Inr q)
      obtain b r2 where q: "q = (b, r2)" by (cases q)
      from Inr [unfolded q] show thesis
      proof (cases rule: merge_items_cases)
        case 1
        with Inr q a True show thesis
          by (intro that [of "[]" r]) (auto simp: note_changed_def ids_read_def split: option.splits)
      next
        case (2 r')
        with Inr q a True show thesis
          by (intro that [of "map (sa_item_id api) items" r'])
            (auto simp: ids_read_def split: option.splits)
      qed
    qed
  qed
qed

lemma receipts_ok_step: "receipts_ok r \<Longrightarrow> receipts_ok (runtime_step api a k r)"
proof (cases a)
  case (CollectState k' s)
  assume ok: "receipts_ok r"
  show ?thesis
    by (rule writer_cases [of a k' s "[]" api k r "[]"])
      (auto simp: CollectState intro: receipts_ok_note receipts_ok_same [OF ok])
next
  case (Merge k' items)
  assume ok: "receipts_ok r"
  show ?thesis
    by (rule writer_cases [of a k' undefined items api k r "[]"])
      (auto simp: Merge intro: receipts_ok_note receipts_ok_same [OF ok])
next
  case (Push p)
  assume ok: "receipts_ok r"
  let ?d = "dict_set p (rt_change_revision r) (rt_pending r)"
  have "set (evict_pending ?d) \<subseteq> insert (p, rt_change_revision r) (set (rt_pending r))"
    using set_dict_set set_drop_subset unfolding evict_pending_drop by fast
  with ok show ?thesis
    by (auto simp: Push receipts_ok_def revisions_ok_def) (auto simp: evict_pending_drop)
next
  case (Discard p)
  assume ok: "receipts_ok r"
  with set_dict_pop [of p "rt_pending r"] length_delete_le [of p "rt_pending r"] show ?thesis
    by (auto simp: Discard receipts_ok_def revisions_ok_def)
next
  case Reconnect
  assume "receipts_ok r"
  then show ?thesis by (simp add: Reconnect receipts_ok_def revisions_ok_def)
next
  case (AckPush p)
  assume ok: "receipts_ok r"
  with set_dict_pop [of p "rt_pending r"] length_delete_le [of p "rt_pending r"] show ?thesis
    by (auto simp: AckPush receipts_ok_def revisions_ok_def release_reads_def split: option.splits)
qed

interpretation metrics: machine "metrics_step api" "\<lambda>rts a. True" runtimes_ok
  by unfold_locales (auto simp: runtimes_ok_def metrics_step_map receipts_ok_step)

lemma metrics_legal [simp]: "legal (metrics_step api) (\<lambda>rts a. True) rts ops"
  by (induction ops arbitrary: rts) auto

lemma build_metrics_fst:
  "fst (build_metrics api p rts) =
    (if rts = [] then None
     else Some (map (\<lambda>(k, r). (k, JObj (integration_report api (r\<lparr>rt_generation := Suc (rt_generation r)\<rparr>)))) rts))"
  by (auto simp: build_metrics_def Let_def build_integrations_payload_def advance_generation_def)

lemma push_reports_iff:
  "push_reports api rts p k i \<longleftrightarrow> (\<exists>r. dict_get rts k = Some r \<and> i \<in> fst ` set (rt_changed r))"
  by (cases "dict_get rts k")
    (auto simp: push_reports_def build_metrics_fst dict_get_map_kv integration_report_def)

text \<open>
  The state of one change after the read at counter \<open>n\<close>: it was reported and acknowledged, or it is
  still owed at a later revision, and every receipt that could release it was taken when it was owed.
\<close>

definition acked :: "('s, 'i) state_api \<Rightarrow> 's runtimes \<Rightarrow> ('s, 'i) metrics_op list \<Rightarrow> string \<Rightarrow> string \<Rightarrow> bool" where
  "acked api rts ops k i \<longleftrightarrow>
     (\<exists>before p between after. ops = before @ Push p # between @ AckPush p # after
       \<and> push_reports api (run (metrics_step api) rts before) p k i)"

definition pushed :: "('s, 'i) state_api \<Rightarrow> 's runtimes \<Rightarrow> ('s, 'i) metrics_op list \<Rightarrow> string \<Rightarrow> string \<Rightarrow> string \<Rightarrow> bool" where
  "pushed api rts ops p k i \<longleftrightarrow>
     (\<exists>before between. ops = before @ Push p # between
       \<and> push_reports api (run (metrics_step api) rts before) p k i)"

definition owed_since ::
  "('s, 'i) state_api \<Rightarrow> 's runtimes \<Rightarrow> ('s, 'i) metrics_op list \<Rightarrow> string \<Rightarrow> string \<Rightarrow> nat \<Rightarrow> bool" where
  "owed_since api rts ops k i n \<longleftrightarrow>
     (\<exists>r m. dict_get (run (metrics_step api) rts ops) k = Some r \<and> receipts_ok r
       \<and> dict_get (rt_changed r) i = Some m \<and> n < m
       \<and> (\<forall>p w. (p, w) \<in> set (rt_pending r) \<longrightarrow> w \<le> n \<or>
            pushed api rts ops p k i))"

lemma pushed_snoc: "pushed api rts ops p k i \<Longrightarrow> pushed api rts (ops @ [a]) p k i"
  unfolding pushed_def by (metis append_Cons append_assoc)

lemma pushed_now:
  "push_reports api (run (metrics_step api) rts ops) p k i \<Longrightarrow> pushed api rts (ops @ [Push p]) p k i"
  unfolding pushed_def by blast

lemma acked_snoc: "acked api rts ops k i \<Longrightarrow> acked api rts (ops @ [a]) k i"
  unfolding acked_def by (metis append_Cons append_assoc)

lemma owed_since_same:
  assumes "owed_since api rts ops k i n" "dict_get (run (metrics_step api) rts ops) k = Some r"
    and "set (rt_pending (runtime_step api a k r)) \<subseteq> set (rt_pending r)"
    and "\<And>m. dict_get (rt_changed r) i = Some m \<Longrightarrow> \<exists>m' \<ge> m. dict_get (rt_changed (runtime_step api a k r)) i = Some m'"
  shows "owed_since api rts (ops @ [a]) k i n"
proof -
  from assms(1,2) obtain m where m: "receipts_ok r" "dict_get (rt_changed r) i = Some m" "n < m"
    "\<And>p w. (p, w) \<in> set (rt_pending r) \<Longrightarrow> w \<le> n \<or> pushed api rts ops p k i"
    by (auto simp: owed_since_def)
  from assms(4) [OF m(2)] obtain m' where "dict_get (rt_changed (runtime_step api a k r)) i = Some m'" "m' \<ge> m"
    by blast
  moreover have "w \<le> n \<or> pushed api rts (ops @ [a]) p k i"
    if "(p, w) \<in> set (rt_pending (runtime_step api a k r))" for p w
    using m(4) [of p w] that assms(3) pushed_snoc by blast
  ultimately show ?thesis
    using assms(2) m(1,3) unfolding owed_since_def
    by (intro exI [of _ "runtime_step api a k r"] exI [of _ m']) (auto simp: get_step receipts_ok_step)
qed

lemma change_step:
  assumes "owed_since api rts ops k i n"
  shows "acked api rts (ops @ [a]) k i \<or> owed_since api rts (ops @ [a]) k i n"
proof -
  from assms obtain r m where r: "dict_get (run (metrics_step api) rts ops) k = Some r" "receipts_ok r"
    and m: "dict_get (rt_changed r) i = Some m" "n < m"
    and taken: "\<And>p w. (p, w) \<in> set (rt_pending r) \<Longrightarrow> w \<le> n \<or> pushed api rts ops p k i"
    by (auto simp: owed_since_def)
  note same = owed_since_same [OF assms r(1), of a]
  have rev: "revisions_ok r" using r(2) by (simp add: receipts_ok_def)
  show ?thesis
  proof (cases a)
    case (CollectState k' s)
    have "owed_since api rts (ops @ [a]) k i n"
    proof (rule writer_cases [of a k' s "[]" api k r "[]"], goal_cases)
      case (2 r' ids)
      with note_changed_grows [of r' i _ ids] rev show ?case
        by (intro same) (auto simp: revisions_ok_def)
    qed (simp add: CollectState)
    then show ?thesis ..
  next
    case (Merge k' items)
    have "owed_since api rts (ops @ [a]) k i n"
    proof (rule writer_cases [of a k' undefined items api k r "[]"], goal_cases)
      case (2 r' ids)
      with note_changed_grows [of r' i _ ids] rev show ?case
        by (intro same) (auto simp: revisions_ok_def)
    qed (simp add: Merge)
    then show ?thesis ..
  next
    case (Push p)
    let ?r = "runtime_step api a k r"
    have "set (rt_pending ?r) \<subseteq> insert (p, rt_change_revision r) (set (rt_pending r))"
      using set_dict_set set_drop_subset by (fastforce simp: Push evict_pending_drop)
    moreover have "push_reports api (run (metrics_step api) rts ops) p k i"
      using r(1) m(1) by (force simp: push_reports_iff dest: map_of_SomeD)
    ultimately have "w \<le> n \<or> pushed api rts (ops @ [a]) q k i"
      if "(q, w) \<in> set (rt_pending ?r)" for q w
      using taken [of q w] that Push pushed_snoc pushed_now by blast
    with r m receipts_ok_step [OF r(2), of api a k] have "owed_since api rts (ops @ [a]) k i n"
      unfolding owed_since_def
      by (intro exI [of _ ?r] exI [of _ m]) (auto simp: get_step Push simp del: metrics_step.simps)
    then show ?thesis ..
  next
    case (Discard p)
    have "owed_since api rts (ops @ [a]) k i n"
      using set_dict_pop [of p "rt_pending r"] by (intro same) (auto simp: Discard)
    then show ?thesis ..
  next
    case Reconnect
    have "owed_since api rts (ops @ [a]) k i n" by (intro same) (auto simp: Reconnect)
    then show ?thesis ..
  next
    case (AckPush p)
    show ?thesis
    proof (cases "\<exists>w. dict_get (rt_pending r) p = Some w \<and> m \<le> w")
      case True
      then obtain w where w: "(p, w) \<in> set (rt_pending r)" "m \<le> w" by (auto dest: map_of_SomeD)
      with taken [OF w(1)] m(2) have "pushed api rts ops p k i" by auto
      then have "acked api rts (ops @ [a]) k i"
        unfolding acked_def pushed_def AckPush by (metis append_Cons append_Nil2 append_assoc)
      then show ?thesis ..
    next
      case False
      with m(1) have "dict_get (rt_changed (runtime_step api a k r)) i = Some m"
        by (auto simp: AckPush release_reads_def not_le intro: get_filter_keep split: option.split)
      moreover have "set (rt_pending (runtime_step api a k r)) \<subseteq> set (rt_pending r)"
        using set_dict_pop [of p "rt_pending r"] by (auto simp: AckPush release_reads_def split: option.split)
      ultimately have "owed_since api rts (ops @ [a]) k i n" using m(1) by (intro same) auto
      then show ?thesis ..
    qed
  qed
qed

lemma change_run:
  assumes "owed_since api rts [] k i n"
  shows "acked api rts ops k i \<or> owed_since api rts ops k i n"
proof (induction ops rule: rev_induct)
  case (snoc a ops)
  then show ?case using acked_snoc change_step by blast
qed (simp add: assms)

lemma owed_read:
  assumes "runtimes_ok rts" "i \<in> set (ids_read api rts a k)"
  shows "\<exists>n. owed_since api (metrics_step api rts a) [] k i n"
proof -
  from assms(2) obtain r where r: "dict_get rts k = Some r"
    by (cases "dict_get rts k") (auto simp: ids_read_def)
  have ok: "receipts_ok r"
    using assms(1) map_of_SomeD [OF r] by (auto simp: runtimes_ok_def)
  from assms(2) have i: "i \<noteq> []" by (auto simp: ids_read_def)
  have "\<not> ((\<exists>p. a = Push p \<or> a = Discard p \<or> a = AckPush p) \<or> a = Reconnect)"
    using assms(2) r by (auto simp: ids_read_def)
  then have "(\<exists>k' s. a = CollectState k' s) \<or> (\<exists>k' items. a = Merge k' items)"
    by (metis metrics_op.exhaust)
  then obtain k' s items where a: "a = CollectState k' s \<or> a = Merge k' items" by blast
  show ?thesis
  proof (rule writer_cases [OF a, of api k r rts], goal_cases)
    case (1 r' ids)
    from 1(2-4) ok have "revisions_ok r'" by (simp add: receipts_ok_def revisions_ok_def)
    from note_changed_noted [OF _ i this, of ids] 1(1,5) r assms(2) obtain m where
      "m > rt_change_revision r'" "dict_get (rt_changed (runtime_step api a k r)) i = Some m" by auto
    with 1 ok receipts_ok_step [OF ok, of api a k] r show ?case
      by (intro exI [of _ "rt_change_revision r'"]) (auto simp: owed_since_def get_step receipts_ok_def)
  qed
qed

section \<open>Properties\<close>

abbreviation metrics_run :: "('s, 'i) state_api \<Rightarrow> 's runtimes \<Rightarrow> ('s, 'i) metrics_op list \<Rightarrow> 's runtimes" where
  "metrics_run api \<equiv> run (metrics_step api)"

definition started :: "'s runtimes \<Rightarrow> bool" where
  "started rts \<longleftrightarrow> list_all (\<lambda>(k, r). rt_changed r = [] \<and> rt_pending r = []) rts"

lemma started_ok: "started rts \<Longrightarrow> runtimes_ok rts"
  by (auto simp: started_def runtimes_ok_def list_all_iff receipts_ok_def revisions_ok_def)

lemma reached_ok: "started rts \<Longrightarrow> runtimes_ok (metrics_run api rts ops)"
  by (rule metrics.run_inv [OF started_ok metrics_legal])

text \<open>
  C17. No change is lost on the way to the dashboard: once an id was read, by a full collect or by a
  targeted merge, then after any further operations either every push built now still reports it,
  or a push built since the read reported it and was acknowledged. Failed sends, reconnects and
  evicted receipts only make the id repeat.
\<close>

theorem change_acked_or_repeated:
  assumes "started rts" "i \<in> set (ids_read api (metrics_run api rts ops) a k)"
  shows "push_reports api (metrics_run api rts (ops @ a # later)) p k i
    \<or> acked api (metrics_run api rts (ops @ [a])) later k i"
proof -
  obtain n where "owed_since api (metrics_run api rts (ops @ [a])) [] k i n"
    using owed_read [OF reached_ok [OF assms(1)] assms(2)] by auto
  from change_run [OF this, of later] show ?thesis
  proof
    assume "owed_since api (metrics_run api rts (ops @ [a])) later k i n"
    then have "push_reports api (metrics_run api rts (ops @ a # later)) p k i"
      by (auto simp: owed_since_def push_reports_iff dom_map_of_conv_image_fst [symmetric])
    then show ?thesis ..
  qed auto
qed

text \<open>
  The receipts stay bounded: no runtime ever keeps more than 32 pending pushes, and no watermark
  or owed revision is ahead of its counter.
\<close>

theorem receipts_bounded:
  assumes "started rts" "dict_get (metrics_run api rts ops) k = Some r"
  shows "length (rt_pending r) \<le> 32 \<and> (\<forall>w\<in>set (dict_values (rt_pending r)). w \<le> rt_change_revision r)
    \<and> (\<forall>n\<in>set (dict_values (rt_changed r)). n \<le> rt_change_revision r)"
  using reached_ok [OF assms(1), of api ops] map_of_SomeD [OF assms(2)]
  by (fastforce simp: runtimes_ok_def receipts_ok_def revisions_ok_def MAX_PENDING_METRICS_PUSHES_def)

lemma asdict_figures [simp]: "asdict (wire_figures x) = opt_json JObj x"
  by (cases x) (auto simp: wire_figures_def opt_json_def intro!: map_idI)

lemma decode_strings:
  "decode owner nm (AList AStr) (JArr (map (\<lambda>x. JStr (f x)) xs)) = Inr (PList (map (\<lambda>x. PVal (JStr (f x))) xs))"
  by (simp add: decode.simps [of _ _ "AList AStr"])
    (induction xs, auto simp: decode_items.simps decode_leaf)


section \<open>Witnesses\<close>

text \<open>A state that is a list of ids, all of them changed at each collect; an item is an id.\<close>

definition demo_api :: "(string list, string) state_api" where
  "demo_api =
     \<lparr>sa_to_dict = (\<lambda>s. map (\<lambda>i. (i, JNull)) s),
      sa_freshness = (\<lambda>s. Some \<lparr>fr_complete = True, fr_last_full_read_at = [], fr_changed_ids = s\<rparr>),
      sa_with_items = (\<lambda>s. Some (\<lambda>items. s @ items)), sa_item_id = id\<rparr>"

definition demo_runtimes :: "string list runtimes" where
  "demo_runtimes = [(''garage'', new_runtime STATUS_LIVE None)]"

definition demo_later :: "(string list, string) metrics_op list" where
  "demo_later = [Push ''p1'', Merge ''garage'' [''b2''], Discard ''p0'', AckPush ''p1'']"

theorem change_acked_or_repeated_witness:
  "acked demo_api (metrics_run demo_api demo_runtimes [CollectState ''garage'' [''b1'']]) demo_later ''garage'' ''b1''
   \<and> push_reports demo_api (metrics_run demo_api demo_runtimes (CollectState ''garage'' [''b1''] # demo_later)) ''p2'' ''garage'' ''b2''"
proof (rule conjI)
  have start: "started demo_runtimes" by (simp add: started_def demo_runtimes_def new_runtime_def)
  have gone: "\<not> push_reports demo_api (metrics_run demo_api demo_runtimes
      ([] @ CollectState ''garage'' [''b1''] # demo_later)) ''p2'' ''garage'' ''b1''"
    by code_simp
  have "''b1'' \<in> set (ids_read demo_api (metrics_run demo_api demo_runtimes []) (CollectState ''garage'' [''b1'']) ''garage'')"
    by code_simp
  from change_acked_or_repeated [OF start this, of demo_later "''p2''"] gone
  show "acked demo_api (metrics_run demo_api demo_runtimes [CollectState ''garage'' [''b1'']]) demo_later ''garage'' ''b1''"
    by (simp only: append_Nil simp_thms)
  show "push_reports demo_api (metrics_run demo_api demo_runtimes (CollectState ''garage'' [''b1''] # demo_later)) ''p2'' ''garage'' ''b2''"
    by code_simp
qed

theorem receipts_bounded_witness:
  "length (rt_pending (the (dict_get (metrics_run demo_api demo_runtimes [Push ''p1'', Push ''p2'']) ''garage''))) \<le> 32"
proof -
  have start: "started demo_runtimes" by (simp add: started_def demo_runtimes_def new_runtime_def)
  have "\<not> Option.is_none (dict_get (metrics_run demo_api demo_runtimes [Push ''p1'', Push ''p2'']) ''garage'')"
    by code_simp
  then obtain r where "dict_get (metrics_run demo_api demo_runtimes [Push ''p1'', Push ''p2'']) ''garage'' = Some r"
    by (auto simp: Option.is_none_def)
  with receipts_bounded [OF start this] show ?thesis by simp
qed

end
