(* ===== verification/Dispatch.thy ===== *)
theory Dispatch
  imports Signoff Jobs Auth Events Integrations
begin

text \<open>
  \<open>agent/dispatch.py\<close>, \<open>agent/admission.py\<close>, \<open>agent/session.py\<close>, \<open>agent/acks.py\<close> and
  \<open>agent/refresh.py\<close>: what one inbound frame makes the agent do. Everything the handlers read from the
  world (the clock, the seal files, the grants, fresh ids, processes, collectors) is a function of
  the instant of the read; each read takes the next instant, so a reseal or a revoke between two
  checks is a world that answers differently at two instants. What the agent does goes to a trace.
  Sends on the socket succeed here: a dead socket ends the session.
\<close>

section \<open>The world and the agent\<close>

text \<open>\<open>SessionCompatibility\<close>: the two digests compared once at registration.\<close>

record session =
  se_agent_digest :: string
  se_control_plane_digest :: string

definition digest_shaped :: "string \<Rightarrow> bool" where
  "digest_shaped s \<longleftrightarrow> starts_with ''sha256:'' s \<and> length s = 71 \<and> list_all is_lower_hex (drop 7 s)"

definition compatible :: "session \<Rightarrow> bool" where
  "compatible s \<longleftrightarrow> digest_shaped (se_agent_digest s) \<and> se_agent_digest s = se_control_plane_digest s"

definition guidance :: "session \<Rightarrow> string" where
  "guidance s =
     ''Commands are paused because this agent and the control plane use different ''
     @ ''protocol contracts. Metrics, logs and events can still be sent. ''
     @ ''Update the control plane'' @ [CHR 0x27] @ ''s Storm Pulse contract and its parser together, ''
     @ ''then reconnect the agent. To restore service sooner, roll back the incompatible release. ''
     @ ''Agent: '' @ py_repr (take 95 (se_agent_digest s)) @ ''; control plane: ''
     @ py_repr (take 95 (se_control_plane_digest s)) @ ''.''"

text \<open>What a collector came to, with its duration, and what became of a metrics push.\<close>

datatype 's collected = CollectorRaised | Collected "'s option" int
datatype push_end = MetricsRaised | PushLost | PushSent

record ('s, 'i) host =
  ho_loads :: "string \<Rightarrow> json option"
  ho_fromiso :: "string \<Rightarrow> datetime option"
  ho_mac :: "string \<Rightarrow> string \<Rightarrow> string"
  ho_secret :: string
  ho_max_age :: int
  ho_regex :: regex
  ho_project :: project_config
  ho_registry :: command_registry
  ho_session :: "session option"
  ho_clock :: "nat \<Rightarrow> int"
  ho_sealed :: "nat \<Rightarrow> bool"
  ho_fence :: "nat \<Rightarrow> string \<Rightarrow> string option"
  ho_uuid :: "nat \<Rightarrow> string"
  ho_process :: "nat \<Rightarrow> string list \<Rightarrow> process_end"
  ho_api :: "('s, 'i) state_api"
  ho_collect :: "string \<Rightarrow> (nat \<Rightarrow> 's collected) option"
  ho_summary :: "'s \<Rightarrow> string option"
  ho_push :: "nat \<Rightarrow> push_end"

text \<open>What the agent does, in order. An emitted event is its source, its kind and its fields.\<close>

datatype effect =
    SendResult command_result
  | SendError protocol_reason "string option"
  | SendMetrics string "(string \<times> json) list option"
  | Emit string string "(string \<times> json) list"
  | Ran nat "string list"
  | StartedJob string
  | ShedQuota string
  | ConfirmLogs string

record 's agent =
  ag_instant :: nat
  ag_nonces :: nonce_db
  ag_buffer :: event_buffer
  ag_manager :: "manager option"
  ag_runtimes :: "'s runtimes"
  ag_trace :: "effect list"

text \<open>How a handler ends: normally, with a \<open>ProtocolError\<close>, or with an exception nobody answers.\<close>

datatype outcome = Finished | Refused protocol_error | Escaped

definition tick :: "'s agent \<Rightarrow> nat \<times> 's agent" where
  "tick a = (ag_instant a, a\<lparr>ag_instant := Suc (ag_instant a)\<rparr>)"

definition act :: "effect \<Rightarrow> 's agent \<Rightarrow> 's agent" where
  "act x a = a\<lparr>ag_trace := ag_trace a @ [x]\<rparr>"

definition fresh_id :: "('s, 'i) host \<Rightarrow> 's agent \<Rightarrow> string \<times> 's agent" where
  "fresh_id H a = (let (t, a1) = tick a in (ho_uuid H t, a1))"

definition UNKNOWN_GROUP :: string where "UNKNOWN_GROUP = ''unknown''"

definition group_of :: "('s, 'i) host \<Rightarrow> string \<Rightarrow> string" where
  "group_of H command =
     (case dict_get (ho_registry H) command of Some s \<Rightarrow> cs_group s | None \<Rightarrow> UNKNOWN_GROUP)"

text \<open>A \<open>failed\<close> result; its reason is a member, so the constructor never refuses it.\<close>

definition failure ::
  "string \<Rightarrow> string \<Rightarrow> string \<Rightarrow> failure_reason \<Rightarrow> string \<Rightarrow> int \<Rightarrow> command_result" where
  "failure request_id command grp reason message duration_ms =
     projr (result_failed request_id command grp reason message None None duration_ms)"

section \<open>Admission\<close>

definition emit_whitelist_rejection :: "string \<Rightarrow> string \<Rightarrow> string \<Rightarrow> 's agent \<Rightarrow> 's agent" where
  "emit_whitelist_rejection command ref err =
     act (Emit ''commands'' ''whitelist_rejection''
       [(''status'', JStr ''refused''), (''command'', JStr (take 100 command)),
        (''command_ref'', JStr (take 100 ref)), (''error'', JStr err)])"

definition sealed_refusal ::
  "('s, 'i) host \<Rightarrow> string \<Rightarrow> string \<Rightarrow> string \<Rightarrow> 's agent \<Rightarrow> command_result \<times> 's agent" where
  "sealed_refusal H request_id command ref a =
     (let result = projr (sealed_refusal_result request_id command (dict_get (ho_registry H) command))
      in (result,
          act (Emit ''signoff'' ''sealed_refusal''
            [(''status'', JStr ''refused''), (''command'', JStr (take 100 command)),
             (''command_ref'', JStr (take 100 ref)),
             (''error'', JStr (case res_error result of Some e \<Rightarrow> re_message e | None \<Rightarrow> []))]) a))"

definition sealed_check ::
  "('s, 'i) host \<Rightarrow> string \<Rightarrow> string \<Rightarrow> string \<Rightarrow> 's agent \<Rightarrow> command_result option \<times> 's agent" where
  "sealed_check H command request_id ref a =
     (let (t, a1) = tick a in
      if \<not> is_blocked_by_seal (ho_sealed H t) [command] then (None, a1)
      else let (r, a2) = sealed_refusal H request_id command ref a1 in (Some r, a2))"

definition fenced_check ::
  "('s, 'i) host \<Rightarrow> string \<Rightarrow> string \<Rightarrow> string \<Rightarrow> 's agent \<Rightarrow> command_result option \<times> 's agent" where
  "fenced_check H command request_id ref a =
     (case dict_get (ho_registry H) command of
        None \<Rightarrow> (None, a)
      | Some s \<Rightarrow>
          if \<not> cs_authorize s then (None, a)
          else let (t, a1) = tick a in
            (case ho_fence H t command of
               None \<Rightarrow> (None, a1)
             | Some refused \<Rightarrow>
                 (let message = ''Command '' @ py_repr command @ '' is fenced: '' @ refused in
                  (Some (failure request_id command (cs_group s) FForbidden message 0),
                   emit_whitelist_rejection command ref message a1))))"

definition restart_check ::
  "('s, 'i) host \<Rightarrow> string \<Rightarrow> string \<Rightarrow> 's agent \<Rightarrow> command_result option \<times> 's agent" where
  "restart_check H command request_id a =
     (let (t, a1) = tick a in
      case needs_restart_to_load (ho_sealed H t) (ho_registry H) [command] of
        None \<Rightarrow> (None, a1)
      | Some c \<Rightarrow> (Some (projr (restart_pending_result request_id c)), a1))"

definition refusal_for ::
  "('s, 'i) host \<Rightarrow> string \<Rightarrow> string \<Rightarrow> string \<Rightarrow> 's agent \<Rightarrow> command_result option \<times> 's agent" where
  "refusal_for H command request_id ref a =
     (case sealed_check H command request_id ref a of
        (Some r, a1) \<Rightarrow> (Some r, a1)
      | (None, a1) \<Rightarrow>
          (case fenced_check H command request_id ref a1 of
             (Some r, a2) \<Rightarrow> (Some r, a2)
           | (None, a2) \<Rightarrow> restart_check H command request_id a2))"

section \<open>Authentication and compatibility\<close>

primrec auth_reason_value :: "auth_reason \<Rightarrow> string" where
  "auth_reason_value SecretMissing = ''secret_missing''"
| "auth_reason_value SecretEmpty = ''secret_empty''"
| "auth_reason_value WrongType = ''wrong_type''"
| "auth_reason_value FutureDated = ''future_dated''"
| "auth_reason_value TooOld = ''too_old''"
| "auth_reason_value BadSignature = ''bad_signature''"
| "auth_reason_value ReplayedNonce = ''replayed_nonce''"
| "auth_reason_value Unspecified = ''unspecified''"

text \<open>The event's error text is left out. The three clock readings are three instants.\<close>

definition verify_typed_payload ::
  "('s, 'i) host \<Rightarrow> envelope \<Rightarrow> 's agent \<Rightarrow> (protocol_error + command_payload option) \<times> 's agent" where
  "verify_typed_payload H e a =
     (let (t1, a1) = tick a; (t2, a2) = tick a1; (t3, a3) = tick a2;
          (r, db) = verify_envelope (ho_mac H) (ho_secret H) (ho_max_age H) (ag_nonces a)
             \<lparr>at_frame = e, at_now = ho_clock H t1, at_purge = ho_clock H t2, at_insert = ho_clock H t3\<rparr>;
          a4 = a3\<lparr>ag_nonces := db\<rparr>
      in case r of
        Inr p \<Rightarrow> (Inr (Some p), a4)
      | Inl (ProtoErr x) \<Rightarrow> (Inl x, a4)
      | Inl (AuthErr why) \<Rightarrow>
          (Inr None,
           act (Emit ''auth'' ''signature_failure''
             [(''status'', JStr ''refused''), (''failure_reason'', JStr (auth_reason_value why)),
              (''command_ref'', JStr (take 100 (env_id e)))]) a4))"

fun sequence_position :: "command_payload \<Rightarrow> string \<times> string option \<times> int option" where
  "sequence_position (CmdRequest r) = (rq_command r, None, None)"
| "sequence_position (CmdSequence s) =
     (case sq_steps s of
        step # _ \<Rightarrow> (st_command step, Some (sq_id s), Some 0)
      | [] \<Rightarrow> (''command.sequence'', Some (sq_id s), None))"

definition incompatible_result :: "('s, 'i) host \<Rightarrow> envelope \<Rightarrow> command_payload \<Rightarrow> command_result" where
  "incompatible_result H e p =
     (let message =
            (case ho_session H of
               Some s \<Rightarrow> guidance s
             | None \<Rightarrow> ''Registration hasn'' @ [CHR 0x27] @ ''t finished, so commands are paused. ''
                 @ ''Wait for Storm Pulse to register with the control plane, then retry.'');
          (command, sequence_id, step_index) = sequence_position p
      in projr (result_init
           \<lparr>res_request_id = env_id e, res_command = command, res_group = group_of H command,
            res_success = False, res_exit_code = -1, res_stdout = [], res_stderr = message,
            res_duration_ms = 0, res_sequence_id = sequence_id,
            res_failure_reason = Some (failure_reason_value FForbidden), res_result = None,
            res_error = Some \<lparr>re_code = (if ho_session H = None then ''registration_pending'' else ''contract_mismatch''),
              re_http_status = None, re_upstream_code = None, re_message = message\<rparr>,
            res_step_index = step_index, res_attempts = 1, res_retries_exhausted = False\<rparr>))"

definition session_compatible :: "('s, 'i) host \<Rightarrow> bool" where
  "session_compatible H = (case ho_session H of Some s \<Rightarrow> compatible s | None \<Rightarrow> False)"

text \<open>\<open>refuse_incompatible_command\<close>: whether it answered.\<close>

definition refuse_incompatible_command ::
  "('s, 'i) host \<Rightarrow> envelope \<Rightarrow> command_payload \<Rightarrow> 's agent \<Rightarrow> bool \<times> 's agent" where
  "refuse_incompatible_command H e p a =
     (if session_compatible H then (False, a) else (True, act (SendResult (incompatible_result H e p)) a))"

section \<open>One subprocess command\<close>

text \<open>\<open>execute_command\<close> in the agent's time: the whitelist's fence at one instant, the process at the
  next.\<close>

definition run_command ::
  "('s, 'i) host \<Rightarrow> string \<Rightarrow> (string, json) dict \<Rightarrow> string \<Rightarrow> string option \<Rightarrow> 's agent
    \<Rightarrow> (execute_error + command_result) \<times> 's agent" where
  "run_command H name params request_id sequence_id a =
     (let (t, a1) = tick a in
      case prepare_command (ho_regex H) (ho_registry H) (ho_fence H t) (ho_project H) name params of
        Inl e \<Rightarrow> (Inl e, a1)
      | Inr (s, argv) \<Rightarrow>
          (let (t2, a2) = tick a1 in
           (process_result name s argv request_id sequence_id (ho_process H t2 argv), act (Ran t2 argv) a2)))"

text \<open>What \<open>except (CommandError, ParamValidationError)\<close> catches: the reason and the message.\<close>

fun caught :: "command_registry \<Rightarrow> string \<Rightarrow> execute_error \<Rightarrow> (failure_reason \<times> string) option" where
  "caught reg name (CommandRefused e) = Some (command_error_reason e, command_error_text reg name e)"
| "caught reg name (ParamsRefused (BadParam p Unencodable)) = None"
| "caught reg name (ParamsRefused e) = Some (FValidationFailed, param_error_text e)"
| "caught reg name e = None"

definition is_whitelist_refusal :: "execute_error \<Rightarrow> bool" where
  "is_whitelist_refusal e = (case e of CommandRefused c \<Rightarrow> True | _ \<Rightarrow> False)"

definition run_subprocess_command ::
  "('s, 'i) host \<Rightarrow> command_request \<Rightarrow> string \<Rightarrow> 's agent \<Rightarrow> outcome \<times> 's agent" where
  "run_subprocess_command H rq request_id a =
     (case run_command H (rq_command rq) (rq_params rq) request_id None a of
        (Inr r, a1) \<Rightarrow> (Finished, act (SendResult r) a1)
      | (Inl e, a1) \<Rightarrow>
          (case caught (ho_registry H) (rq_command rq) e of
             None \<Rightarrow> (Escaped, a1)
           | Some (reason, message) \<Rightarrow>
               (let a2 = (if is_whitelist_refusal e
                          then emit_whitelist_rejection (rq_command rq) request_id message a1 else a1)
                in (Finished, act (SendResult
                     (failure request_id (rq_command rq) (group_of H (rq_command rq)) reason message 0)) a2))))"

section \<open>Refresh\<close>

definition collect_refresh_result ::
  "('s, 'i) host \<Rightarrow> string \<Rightarrow> string \<Rightarrow> string \<Rightarrow> 's agent \<Rightarrow> command_result option \<times> 's agent" where
  "collect_refresh_result H command request_id integ_id a =
     (case (dict_get (ag_runtimes a) integ_id, ho_collect H integ_id) of
        (Some r, Some collector) \<Rightarrow>
          if rt_status r \<noteq> STATUS_LIVE
          then (Some (failure request_id command integ_id FNotConfigured
                  (''Integration '' @ py_repr integ_id @ '' not enabled'') 0), a)
          else let (t, a1) = tick a in
            (case collector t of
               CollectorRaised \<Rightarrow> (None, a1)
             | Collected None ms \<Rightarrow>
                 (Some (failure request_id command integ_id FCollectionFailed
                    (''Failed to collect '' @ integ_id @ '' state'') ms), a1)
             | Collected (Some s) ms \<Rightarrow>
                 (let out = (case ho_summary H s of
                               Some summary \<Rightarrow>
                                 if summary = [] then ''Refreshed '' @ integ_id @ '' state''
                                 else ''Refreshed: '' @ summary
                             | None \<Rightarrow> ''Refreshed '' @ integ_id @ '' state'')
                  in (Some (projr (result_init
                        \<lparr>res_request_id = request_id, res_command = command, res_group = integ_id,
                         res_success = True, res_exit_code = 0, res_stdout = out, res_stderr = [],
                         res_duration_ms = ms, res_sequence_id = None, res_failure_reason = None,
                         res_result = None, res_error = None, res_step_index = None,
                         res_attempts = 1, res_retries_exhausted = False\<rparr>)),
                      a1\<lparr>ag_runtimes := at_key integ_id (replace_runtime_state (ho_api H) s) (ag_runtimes a1)\<rparr>)))
      | _ \<Rightarrow>
          (Some (failure request_id command integ_id FNotConfigured
             (''Integration '' @ py_repr integ_id @ '' not enabled'') 0), a))"

text \<open>The immediate push: a collection that raises changes nothing, a lost send is discarded.\<close>

definition push_metrics :: "('s, 'i) host \<Rightarrow> 's agent \<Rightarrow> 's agent" where
  "push_metrics H a =
     (let (t, a1) = tick a in
      case ho_push H t of
        MetricsRaised \<Rightarrow> a1
      | outcome \<Rightarrow>
          (let (push_id, a2) = fresh_id H a1; (reports, rts) = build_metrics (ho_api H) push_id (ag_runtimes a2)
           in if outcome = PushLost then a2\<lparr>ag_runtimes := discard_push push_id rts\<rparr>
              else act (SendMetrics push_id reports) (a2\<lparr>ag_runtimes := rts\<rparr>)))"

definition handle_refresh ::
  "('s, 'i) host \<Rightarrow> string \<Rightarrow> string \<Rightarrow> string \<Rightarrow> 's agent \<Rightarrow> outcome \<times> 's agent" where
  "handle_refresh H command request_id integ_id a =
     (case collect_refresh_result H command request_id integ_id a of
        (None, a1) \<Rightarrow> (Escaped, a1)
      | (Some r, a1) \<Rightarrow>
          (let a2 = act (SendResult r) a1
           in (Finished, if res_success r then push_metrics H a2 else a2)))"

section \<open>Long-running commands\<close>

definition SESSION_CLOSING :: string where
  "SESSION_CLOSING =
     ''The command wasn'' @ [CHR 0x27] @ ''t started because this connection is closing. ''
     @ ''Retry after the agent reconnects.''"

text \<open>A handler thunk is a function of the validated params; \<open>None\<close> is a feature this host lacks.\<close>

definition dispatch_long_running ::
  "('s, 'i) host \<Rightarrow> string \<Rightarrow> command_request \<Rightarrow> command_spec \<Rightarrow> 's agent \<Rightarrow> outcome \<times> 's agent" where
  "dispatch_long_running H request_id rq s a =
     (let command = rq_command rq;
          fail = (\<lambda>reason message. (Finished, act (SendResult
                    (failure request_id command (cs_group s) reason message 0)) a))
      in case ag_manager a of
        None \<Rightarrow> fail FSessionClosing SESSION_CLOSING
      | Some m \<Rightarrow>
          (case validate_params (ho_regex H) s (rq_params rq) of
             Inl (BadParam p Unencodable) \<Rightarrow> (Escaped, a)
           | Inl e \<Rightarrow> fail FValidationFailed (param_error_text e)
           | Inr validated \<Rightarrow>
               (case (case cs_handler s of None \<Rightarrow> None | Some factory \<Rightarrow> factory validated) of
                  None \<Rightarrow> fail FOsError (''No long-running handler for '' @ py_repr command)
                | Some handler \<Rightarrow>
                    if should_shed_quota m command
                    then (Finished, act (ShedQuota request_id)
                           (a\<lparr>ag_manager := Some (reject_quota_overloaded m request_id command (cs_group s))\<rparr>))
                    else (case start m request_id command (cs_group s) (cs_retry_window_s s) of
                        Inr m' \<Rightarrow> (Finished, act (StartedJob request_id) (a\<lparr>ag_manager := Some m'\<rparr>))
                      | Inl ManagerClosing \<Rightarrow> fail FSessionClosing SESSION_CLOSING
                      | Inl (AlreadyRunning rid) \<Rightarrow>
                          (Refused (ProtocolError DuplicateRequest
                             (Some (message_type_value MtCommandRequest)) (DuplicateId request_id)), a)))))"

section \<open>The two command handlers\<close>

definition handle_command_request :: "('s, 'i) host \<Rightarrow> envelope \<Rightarrow> 's agent \<Rightarrow> outcome \<times> 's agent" where
  "handle_command_request H e a =
     (case verify_typed_payload H e a of
        (Inl x, a1) \<Rightarrow> (Refused x, a1)
      | (Inr (Some (CmdRequest rq)), a1) \<Rightarrow>
          (case refuse_incompatible_command H e (CmdRequest rq) a1 of
             (True, a2) \<Rightarrow> (Finished, a2)
           | (False, a2) \<Rightarrow>
               (case refusal_for H (rq_command rq) (env_id e) (env_id e) a2 of
                  (Some r, a3) \<Rightarrow> (Finished, act (SendResult r) a3)
                | (None, a3) \<Rightarrow>
                    (case dict_get (ho_registry H) (rq_command rq) of
                       Some s \<Rightarrow>
                         (case cs_mode s of
                            RefreshMode \<Rightarrow> handle_refresh H (rq_command rq) (env_id e) (cs_group s) a3
                          | JobMode \<Rightarrow> dispatch_long_running H (env_id e) rq s a3
                          | SubprocessMode \<Rightarrow> run_subprocess_command H rq (env_id e) a3)
                     | None \<Rightarrow> run_subprocess_command H rq (env_id e) a3)))
      | (Inr _, a1) \<Rightarrow> (Finished, a1))"

text \<open>Every result of a sequence is stamped with its id and the index of the step it answers.\<close>

definition send_step :: "command_sequence \<Rightarrow> command_result \<Rightarrow> nat \<Rightarrow> 's agent \<Rightarrow> 's agent" where
  "send_step sq r i =
     act (SendResult (r\<lparr>res_sequence_id := Some (sq_id sq), res_step_index := Some (int i)\<rparr>))"

fun index_of :: "'a \<Rightarrow> 'a list \<Rightarrow> nat" where
  "index_of x [] = 0"
| "index_of x (y # ys) = (if x = y then 0 else Suc (index_of x ys))"

text \<open>The whitelist pre-check: each name at its own instant, the first refusal ends it.\<close>

fun first_invalid ::
  "('s, 'i) host \<Rightarrow> nat \<Rightarrow> string list \<Rightarrow> 's agent \<Rightarrow> (nat \<times> string \<times> command_error) option \<times> 's agent" where
  "first_invalid H i [] a = (None, a)"
| "first_invalid H i (name # names) a =
     (let (t, a1) = tick a in
      case get_command (ho_registry H) (ho_fence H t) name of
        Inl e \<Rightarrow> (Some (i, name, e), a1)
      | Inr s \<Rightarrow> first_invalid H (Suc i) names a1)"

text \<open>A step's result, or the failure that stands for a caught exception; \<open>None\<close> if one escapes.\<close>

definition step_answer ::
  "('s, 'i) host \<Rightarrow> string \<Rightarrow> string \<Rightarrow> execute_error + command_result \<Rightarrow> command_result option" where
  "step_answer H name request_id ended =
     (case ended of
        Inr r \<Rightarrow> Some r
      | Inl err \<Rightarrow>
          (case (caught (ho_registry H) name err, dict_get (ho_registry H) name) of
             (Some (reason, message), Some s) \<Rightarrow> Some (failure request_id name (cs_group s) reason message 0)
           | _ \<Rightarrow> None))"

fun run_steps ::
  "('s, 'i) host \<Rightarrow> envelope \<Rightarrow> command_sequence \<Rightarrow> nat \<Rightarrow> seq_step list \<Rightarrow> 's agent \<Rightarrow> outcome \<times> 's agent" where
  "run_steps H e sq i [] a = (Finished, a)"
| "run_steps H e sq i (step # steps) a =
     (let (request_id, a1) = fresh_id H a in
      case refusal_for H (st_command step) request_id (env_id e) a1 of
        (Some r, a2) \<Rightarrow> (Finished, send_step sq r i a2)
      | (None, a2) \<Rightarrow>
          (let (ended, a3) = run_command H (st_command step) (st_params step) request_id (Some (sq_id sq)) a2
           in case step_answer H (st_command step) request_id ended of
                None \<Rightarrow> (Escaped, a3)
              | Some r \<Rightarrow>
                  (let a4 = send_step sq r i a3 in
                   if sq_stop_on_failure sq \<and> \<not> res_success r then (Finished, a4)
                   else run_steps H e sq (Suc i) steps a4)))"

definition sequence_body ::
  "('s, 'i) host \<Rightarrow> envelope \<Rightarrow> command_sequence \<Rightarrow> 's agent \<Rightarrow> outcome \<times> 's agent" where
  "sequence_body H e sq a =
     (let names = map st_command (sq_steps sq); (t, a1) = tick a in
      case needs_restart_to_load (ho_sealed H t) (ho_registry H) names of
        Some c \<Rightarrow>
          (let (rid, a2) = fresh_id H a1
           in (Finished, send_step sq (projr (restart_pending_result rid c)) (index_of c names) a2))
      | None \<Rightarrow>
          (case first_invalid H 0 names a1 of
             (Some (i, name, err), a2) \<Rightarrow>
               (let (rid, a3) = fresh_id H a2
                in (Finished, send_step sq (failure rid name UNKNOWN_GROUP (command_error_reason err)
                      (command_error_text (ho_registry H) name err) 0) i a3))
           | (None, a2) \<Rightarrow>
               (let (t2, a3) = tick a2 in
                if is_blocked_by_seal (ho_sealed H t2) names
                then (case sort (filter (\<lambda>c. c \<in> set names) SEALED_COMMANDS) of
                        [] \<Rightarrow> (Escaped, a3)
                      | c # _ \<Rightarrow>
                          (let (rid, a4) = fresh_id H a3; (r, a5) = sealed_refusal H rid c (env_id e) a4
                           in (Finished, send_step sq r (index_of c names) a5)))
                else run_steps H e sq 0 (sq_steps sq) a3)))"

definition handle_command_sequence :: "('s, 'i) host \<Rightarrow> envelope \<Rightarrow> 's agent \<Rightarrow> outcome \<times> 's agent" where
  "handle_command_sequence H e a =
     (case verify_typed_payload H e a of
        (Inl x, a1) \<Rightarrow> (Refused x, a1)
      | (Inr (Some (CmdSequence sq)), a1) \<Rightarrow>
          (case refuse_incompatible_command H e (CmdSequence sq) a1 of
             (True, a2) \<Rightarrow> (Finished, a2)
           | (False, a2) \<Rightarrow> sequence_body H e sq a2)
      | (Inr _, a1) \<Rightarrow> (Finished, a1))"

section \<open>Acknowledgements\<close>

definition handle_events_batch_ack :: "envelope \<Rightarrow> 's agent \<Rightarrow> outcome \<times> 's agent" where
  "handle_events_batch_ack e a =
     (case dict_get (env_payload e) ''batch_id'' of
        Some (JStr batch_id) \<Rightarrow> (Finished, a\<lparr>ag_buffer := fst (ack (ag_buffer a) batch_id)\<rparr>)
      | _ \<Rightarrow> (Finished, a))"

text \<open>\<open>str(payload.get("reason") or "")\<close>.\<close>

definition nack_reason :: "(string \<times> json) list \<Rightarrow> string" where
  "nack_reason payload =
     (case dict_get payload ''reason'' of
        None \<Rightarrow> []
      | Some v \<Rightarrow> if truthy v then json_to_str v else [])"

definition handle_events_batch_nack :: "envelope \<Rightarrow> 's agent \<Rightarrow> outcome \<times> 's agent" where
  "handle_events_batch_nack e a =
     (case dict_get (env_payload e) ''batch_id'' of
        Some (JStr batch_id) \<Rightarrow>
          (case nack (ag_buffer a) batch_id of
             (b, None) \<Rightarrow> (Finished, a\<lparr>ag_buffer := b\<rparr>)
           | (b, Some n) \<Rightarrow>
               (Finished, act (Emit ''events'' ''events_nacked''
                 [(''batch_id'', JStr batch_id), (''dropped'', JInt (int n)),
                  (''reason'', JStr (nack_reason (env_payload e)))]) (a\<lparr>ag_buffer := b\<rparr>)))
      | _ \<Rightarrow> (Finished, a))"

definition handle_log_batch_ack :: "envelope \<Rightarrow> 's agent \<Rightarrow> outcome \<times> 's agent" where
  "handle_log_batch_ack e a =
     (case dict_get (env_payload e) ''batch_id'' of
        Some (JStr batch_id) \<Rightarrow> (Finished, act (ConfirmLogs batch_id) a)
      | _ \<Rightarrow> (Finished, a))"

definition handle_metrics_ack :: "envelope \<Rightarrow> 's agent \<Rightarrow> outcome \<times> 's agent" where
  "handle_metrics_ack e a =
     (case from_dict ann_MetricsAckPayload (JObj (env_payload e)) of
        Inl x \<Rightarrow> (Refused x, a)
      | Inr w \<Rightarrow>
          if pv_str (attr w ''push_id'') = [] then (Finished, a)
          else (Finished, a\<lparr>ag_runtimes := snd (acknowledge_push (pv_str (attr w ''push_id'')) (ag_runtimes a))\<rparr>))"

section \<open>One frame\<close>

datatype handler =
    HandleAck | HandleMetricsAck | HandleError | HandleCommandRequest | HandleCommandSequence
  | HandleLogBatchAck | HandleEventsBatchAck | HandleEventsBatchNack

definition HANDLERS :: "(message_type, handler) dict" where
  "HANDLERS =
     dict_update (map (\<lambda>(t, d, p). (t, HandleAck)) (filter (\<lambda>(t, d, p). p = ann_AckPayload) MESSAGES))
       [(MtRegisterOk, HandleAck), (MtMetricsAck, HandleMetricsAck), (MtError, HandleError),
        (MtCommandRequest, HandleCommandRequest), (MtCommandSequence, HandleCommandSequence),
        (MtLogBatchAck, HandleLogBatchAck), (MtEventsBatchAck, HandleEventsBatchAck),
        (MtEventsBatchNack, HandleEventsBatchNack)]"

fun handle :: "handler \<Rightarrow> ('s, 'i) host \<Rightarrow> envelope \<Rightarrow> 's agent \<Rightarrow> outcome \<times> 's agent" where
  "handle HandleAck H e a = (Finished, a)"
| "handle HandleError H e a = (Finished, a)"
| "handle HandleMetricsAck H e a = handle_metrics_ack e a"
| "handle HandleCommandRequest H e a = handle_command_request H e a"
| "handle HandleCommandSequence H e a = handle_command_sequence H e a"
| "handle HandleLogBatchAck H e a = handle_log_batch_ack e a"
| "handle HandleEventsBatchAck H e a = handle_events_batch_ack e a"
| "handle HandleEventsBatchNack H e a = handle_events_batch_nack e a"

text \<open>\<open>exc.msg_type or the envelope's type\<close>.\<close>

definition answer_refusal :: "protocol_error \<Rightarrow> message_type option \<Rightarrow> 's agent \<Rightarrow> 's agent" where
  "answer_refusal x t =
     act (SendError (pe_reason x)
       (case pe_msg_type x of
          Some s \<Rightarrow> if s = [] then map_option message_type_value t else Some s
        | None \<Rightarrow> map_option message_type_value t))"

text \<open>The answer says whether an exception escaped to \<open>receive_loop\<close>, which logs it and goes on.\<close>

definition dispatch_message :: "('s, 'i) host \<Rightarrow> string \<Rightarrow> 's agent \<Rightarrow> bool \<times> 's agent" where
  "dispatch_message H raw a =
     (case from_json (ho_loads H) (ho_fromiso H) raw of
        Inl x \<Rightarrow> (False, answer_refusal x None a)
      | Inr e \<Rightarrow>
          (case (case dict_get HANDLERS (env_type e) of
                   None \<Rightarrow> (Refused (ProtocolError UnknownType (Some (message_type_value (env_type e)))
                              (OutboundType (message_type_value (env_type e)))), a)
                 | Some h \<Rightarrow> handle h H e a) of
             (Finished, a1) \<Rightarrow> (False, a1)
           | (Refused x, a1) \<Rightarrow> (False, answer_refusal x (Some (env_type e)) a1)
           | (Escaped, a1) \<Rightarrow> (True, a1)))"

definition receive_loop :: "('s, 'i) host \<Rightarrow> string list \<Rightarrow> 's agent \<Rightarrow> 's agent" where
  "receive_loop H raws a = fold (\<lambda>raw b. snd (dispatch_message H raw b)) raws a"

section \<open>Facts\<close>

lemma tick_eq: "tick a = (ag_instant a, a\<lparr>ag_instant := Suc (ag_instant a)\<rparr>)"
  by (fact tick_def)

lemma fresh_id_eq: "fresh_id H a = (ho_uuid H (ag_instant a), a\<lparr>ag_instant := Suc (ag_instant a)\<rparr>)"
  by (simp add: fresh_id_def tick_def)

lemma act_simps [simp]:
  "ag_instant (act x a) = ag_instant a" "ag_nonces (act x a) = ag_nonces a"
  "ag_manager (act x a) = ag_manager a" "ag_runtimes (act x a) = ag_runtimes a"
  "ag_trace (act x a) = ag_trace a @ [x]"
  by (simp_all add: act_def)

lemma emit_whitelist_rejection_simps [simp]:
  "ag_instant (emit_whitelist_rejection c r m a) = ag_instant a"
  "ag_manager (emit_whitelist_rejection c r m a) = ag_manager a"
  "\<exists>flds. ag_trace (emit_whitelist_rejection c r m a) = ag_trace a @ [Emit ''commands'' ''whitelist_rejection'' flds]"
  by (simp_all add: emit_whitelist_rejection_def)

lemma result_failed_eq:
  "result_failed rid c g reason message sid i ms =
    Inr \<lparr>res_request_id = rid, res_command = c, res_group = g, res_success = False, res_exit_code = -1,
      res_stdout = [], res_stderr = message, res_duration_ms = ms, res_sequence_id = sid,
      res_failure_reason = Some reason, res_result = None,
      res_error = Some (derived_error (Some reason) message), res_step_index = i, res_attempts = 1,
      res_retries_exhausted = False\<rparr>"
  by (simp add: result_failed_def result_init_def with_reason_def)

lemma failure_eq: "Inr (failure rid c g reason message ms) = result_failed rid c g reason message None None ms"
  by (simp add: failure_def result_failed_eq)

lemma failure_simps [simp]:
  "res_request_id (failure rid c g reason message ms) = rid"
  "res_success (failure rid c g reason message ms) = False"
  "res_failure_reason (failure rid c g reason message ms) = Some reason"
  by (simp_all add: failure_def result_failed_eq)

lemma refusal_results [simp]:
  "res_request_id (projr (sealed_refusal_result rid c s)) = rid"
  "res_request_id (projr (restart_pending_result rid c)) = rid"
  "res_success (projr (sealed_refusal_result rid c s)) = False"
  "res_success (projr (restart_pending_result rid c)) = False"
  by (simp_all add: sealed_refusal_result_def restart_pending_result_def result_failed_eq)

text \<open>A handler only appends to the trace and only moves time forward: what it appended.\<close>

definition extends :: "(effect list \<Rightarrow> bool) \<Rightarrow> 's agent \<Rightarrow> 's agent \<Rightarrow> bool" where
  "extends P a a' \<longleftrightarrow> ag_instant a \<le> ag_instant a' \<and> (\<exists>fx. ag_trace a' = ag_trace a @ fx \<and> P fx)"

lemma extendsI: "ag_instant a \<le> ag_instant a' \<Longrightarrow> ag_trace a' = ag_trace a @ fx \<Longrightarrow> P fx \<Longrightarrow> extends P a a'"
  by (auto simp: extends_def)

lemma extends_trans:
  "extends P a b \<Longrightarrow> extends Q b c \<Longrightarrow> (\<And>xs ys. P xs \<Longrightarrow> Q ys \<Longrightarrow> R (xs @ ys)) \<Longrightarrow> extends R a c"
  by (fastforce simp: extends_def)

lemma extends_mono: "extends P a b \<Longrightarrow> (\<And>xs. P xs \<Longrightarrow> Q xs) \<Longrightarrow> extends Q a b"
  by (auto simp: extends_def)

definition is_record :: "effect \<Rightarrow> bool" where
  "is_record x = (case x of Emit s k f \<Rightarrow> True | _ \<Rightarrow> False)"

lemma is_record_simps [simp]:
  "is_record (Emit s k f)" "\<not> is_record (SendResult r)" "\<not> is_record (SendError p t)"
  "\<not> is_record (Ran i argv)" "\<not> is_record (StartedJob rid)" "\<not> is_record (ShedQuota rid)"
  "\<not> is_record (SendMetrics pid rs)" "\<not> is_record (ConfirmLogs b)"
  by (simp_all add: is_record_def)

text \<open>Admission: \<open>None\<close> means the seal let the command pass at an instant of the check, and nothing
  was recorded; a refusal is a failed result under the given id, with at most records before it.\<close>

lemma refusal_for_None:
  assumes "refusal_for H c rid ref a = (None, a')"
  shows "extends (\<lambda>fx. fx = []) a a' \<and> ag_manager a' = ag_manager a \<and>
    (\<exists>t. ag_instant a \<le> t \<and> t < ag_instant a' \<and> \<not> is_blocked_by_seal (ho_sealed H t) [c])"
proof -
  from assms have "\<not> is_blocked_by_seal (ho_sealed H (ag_instant a)) [c]"
    by (auto simp: refusal_for_def sealed_check_def tick_def split: if_splits prod.splits)
  moreover from assms have "ag_trace a' = ag_trace a" "ag_instant a < ag_instant a'" "ag_manager a' = ag_manager a"
    by (auto simp: refusal_for_def sealed_check_def fenced_check_def restart_check_def tick_def Let_def
        split: if_splits prod.splits option.splits)
  ultimately show ?thesis by (auto simp: extends_def)
qed

lemma refusal_for_Some:
  assumes "refusal_for H c rid ref a = (Some r, a')"
  shows "extends (list_all is_record) a a' \<and> res_request_id r = rid \<and> \<not> res_success r"
  using assms
  by (auto simp: refusal_for_def sealed_check_def fenced_check_def restart_check_def sealed_refusal_def
      emit_whitelist_rejection_def tick_def Let_def extends_def
      split: if_splits prod.splits option.splits)

lemma run_command_cases:
  assumes "run_command H name params rid sid a = (ended, a')"
  obtains (unprepared) e where "ended = Inl e" "extends (\<lambda>fx. fx = []) a a'"
  | (ran) tf s argv where
      "prepare_command (ho_regex H) (ho_registry H) (ho_fence H tf) (ho_project H) name params = Inr (s, argv)"
      "tf = ag_instant a" "extends (\<lambda>fx. fx = [Ran (Suc tf) argv]) a a'" "Suc tf < ag_instant a'"
      "ended = process_result name s argv rid sid (ho_process H (Suc tf) argv)"
  using assms
  by (auto simp: run_command_def tick_def extends_def split: sum.splits prod.splits)

lemma process_result_Inr:
  assumes "process_result name s argv rid sid e = Inr r"
  shows "res_request_id r = rid \<and> (res_success r \<longleftrightarrow> (\<exists>out err ms. e = Completed 0 out err ms))"
proof -
  have init: "result_init b = Inr r \<Longrightarrow> res_request_id r = res_request_id b \<and> res_success r = res_success b" for b
    by (auto simp: result_init_def with_reason_def split: option.splits sum.splits if_splits)
  show ?thesis
    using assms by (cases e) (auto simp: process_result_def Let_def result_failed_def dest!: init)
qed

text \<open>The results among the effects of a message.\<close>

definition result_in :: "effect \<Rightarrow> command_result list" where
  "result_in x = (case x of SendResult r \<Rightarrow> [r] | _ \<Rightarrow> [])"

definition results :: "effect list \<Rightarrow> command_result list" where
  "results fx = concat (map result_in fx)"

lemma results_simps [simp]:
  "results [] = []" "results (xs @ ys) = results xs @ results ys"
  "results (SendResult r # xs) = r # results xs" "results (Ran i argv # xs) = results xs"
  "results (Emit s k f # xs) = results xs"
  by (simp_all add: results_def result_in_def)

lemma results_records: "list_all is_record fx \<Longrightarrow> results fx = []"
  by (induction fx) (auto simp: results_def result_in_def is_record_def split: effect.splits)

text \<open>
  The shape of a sequence's effects from step \<open>i\<close> on, \<open>n\<close> steps being left: its results are
  consecutive steps of this sequence, a failure ends it when the sequence says so, and a sequence
  that finished with successes only has answered every step.
\<close>

definition stream :: "command_sequence \<Rightarrow> nat \<Rightarrow> nat \<Rightarrow> outcome \<Rightarrow> effect list \<Rightarrow> bool" where
  "stream sq i n out fx \<longleftrightarrow>
     map res_step_index (results fx) = map (\<lambda>k. Some (int k)) [i..<i + length (results fx)]
     \<and> list_all (\<lambda>r. res_sequence_id r = Some (sq_id sq)) (results fx)
     \<and> length (results fx) \<le> n
     \<and> (out = Finished \<and> list_all res_success (results fx) \<longrightarrow> length (results fx) = n)
     \<and> (sq_stop_on_failure sq \<longrightarrow> (\<forall>xs r ys. fx = xs @ SendResult r # ys \<longrightarrow> res_success r \<or> ys = []))"

lemma split_after_quiet:
  assumes "pre @ SendResult r # fx = xs @ SendResult r' # ys" "results pre = []"
  obtains "r' = r" "ys = fx" | zs where "fx = zs @ SendResult r' # ys"
proof -
  have "SendResult r' \<notin> set pre"
    using assms(2) by (auto simp: results_def result_in_def)
  moreover from assms(1) obtain us where
    "pre = xs @ us \<and> us @ SendResult r # fx = SendResult r' # ys \<or>
     pre @ us = xs \<and> SendResult r # fx = us @ SendResult r' # ys"
    by (auto simp: append_eq_append_conv2)
  ultimately show thesis
    using that by (cases us) auto
qed

lemma stream_Cons:
  assumes "results pre = []" "stream sq (Suc i) n out fx"
    and "res_step_index r = Some (int i)" "res_sequence_id r = Some (sq_id sq)"
    and "sq_stop_on_failure sq \<Longrightarrow> res_success r \<or> fx = []"
  shows "stream sq i (Suc n) out (pre @ SendResult r # fx)"
proof -
  have "[i..<i + Suc k] = i # [Suc i..<Suc i + k]" for k
    by (simp add: upt_conv_Cons)
  moreover have "res_success r' \<or> ys = []"
    if "pre @ SendResult r # fx = xs @ SendResult r' # ys" "sq_stop_on_failure sq" for xs r' ys
    using that(1) assms(1)
    by (rule split_after_quiet) (use assms(2,5) that(2) in \<open>auto simp: stream_def\<close>)
  ultimately show ?thesis using assms(1-4) unfolding stream_def by (simp del: upt_Suc)
qed

lemma stream_last:
  assumes "results pre = []" "res_step_index r = Some (int i)" "res_sequence_id r = Some (sq_id sq)"
    and "\<not> res_success r"
  shows "stream sq i (Suc n) out (pre @ [SendResult r])"
proof -
  have "res_success r' \<or> ys = []" if "pre @ [SendResult r] = xs @ SendResult r' # ys" for xs r' ys
    using that assms(1) by (rule split_after_quiet) auto
  with assms show ?thesis unfolding stream_def by simp
qed

lemma stream_quiet: "results fx = [] \<Longrightarrow> out \<noteq> Finished \<or> n = 0 \<Longrightarrow> stream sq i n out fx"
  by (fastforce simp: stream_def)

text \<open>
  A process was started as it should: its command passed the seal at one instant, the whitelist, the
  fence and the param checks at a later one, and the process came after both.
\<close>

definition admitted ::
  "('s, 'i) host \<Rightarrow> (string \<times> (string, json) dict) list \<Rightarrow> nat \<Rightarrow> nat \<Rightarrow> string list \<Rightarrow> bool" where
  "admitted H commands t0 t argv \<longleftrightarrow>
     (\<exists>(name, params)\<in>set commands. \<exists>ts tf s. t0 \<le> ts \<and> ts < tf \<and> tf < t
       \<and> \<not> is_blocked_by_seal (ho_sealed H ts) [name]
       \<and> prepare_command (ho_regex H) (ho_registry H) (ho_fence H tf) (ho_project H) name params = Inr (s, argv))"

definition all_admitted :: "('s, 'i) host \<Rightarrow> (string \<times> (string, json) dict) list \<Rightarrow> nat \<Rightarrow> effect list \<Rightarrow> bool" where
  "all_admitted H commands t0 fx \<longleftrightarrow> (\<forall>t argv. Ran t argv \<in> set fx \<longrightarrow> admitted H commands t0 t argv)"

lemma all_admitted_simps [simp]:
  "all_admitted H cs n []" "all_admitted H cs n (xs @ ys) \<longleftrightarrow> all_admitted H cs n xs \<and> all_admitted H cs n ys"
  "all_admitted H cs n (SendResult r # xs) \<longleftrightarrow> all_admitted H cs n xs"
  by (auto simp: all_admitted_def)

lemma all_admitted_records: "list_all is_record fx \<Longrightarrow> all_admitted H cs n fx"
  by (auto simp: all_admitted_def list_all_iff)

lemma admitted_mono:
  assumes "admitted H cs n t argv" "set cs \<subseteq> set cs'" "m \<le> n"
  shows "admitted H cs' m t argv"
proof -
  from assms(1) obtain name params ts tf s where c: "(name, params) \<in> set cs"
    and *: "n \<le> ts" "ts < tf" "tf < t" "\<not> is_blocked_by_seal (ho_sealed H ts) [name]"
      "prepare_command (ho_regex H) (ho_registry H) (ho_fence H tf) (ho_project H) name params = Inr (s, argv)"
    unfolding admitted_def by blast
  from c assms(2) have "(name, params) \<in> set cs'" by blast
  moreover from *(1) assms(3) have "m \<le> ts" by simp
  ultimately show ?thesis unfolding admitted_def using *(2-) by blast
qed

lemma all_admitted_mono:
  "all_admitted H cs n fx \<Longrightarrow> set cs \<subseteq> set cs' \<Longrightarrow> m \<le> n \<Longrightarrow> all_admitted H cs' m fx"
  unfolding all_admitted_def using admitted_mono by blast

text \<open>What happens between the gate and the answer: no result, and at most one admitted process.\<close>

definition body_fx :: "('s, 'i) host \<Rightarrow> string \<times> (string, json) dict \<Rightarrow> nat \<Rightarrow> effect list \<Rightarrow> bool" where
  "body_fx H command t0 fx \<longleftrightarrow> results fx = [] \<and> all_admitted H [command] t0 fx"

lemma body_records: "list_all is_record fx \<Longrightarrow> body_fx H command t0 fx"
  by (simp add: body_fx_def results_records all_admitted_records)

lemma gate_then_run:
  assumes "refusal_for H name rid ref a = (None, a1)" "run_command H name params rid' sid a1 = (ended, a2)"
  shows "extends (body_fx H (name, params) (ag_instant a)) a a2"
proof -
  from refusal_for_None [OF assms(1)] obtain ts where ts: "ag_instant a \<le> ts" "ts < ag_instant a1"
    "\<not> is_blocked_by_seal (ho_sealed H ts) [name]" and gate: "extends (\<lambda>fx. fx = []) a a1" by auto
  from assms(2) show ?thesis
  proof (cases rule: run_command_cases)
    case (unprepared e)
    with gate show ?thesis by (auto simp: extends_def intro: body_records)
  next
    case (ran tf s argv)
    with ts have "admitted H [(name, params)] (ag_instant a) (Suc tf) argv"
      unfolding admitted_def by auto
    then have "body_fx H (name, params) (ag_instant a) [Ran (Suc tf) argv]"
      by (simp add: body_fx_def all_admitted_def)
    with gate ran(3) show ?thesis by (auto simp: extends_def)
  qed
qed

abbreviation stamp :: "command_sequence \<Rightarrow> nat \<Rightarrow> command_result \<Rightarrow> command_result" where
  "stamp sq i r \<equiv> r\<lparr>res_sequence_id := Some (sq_id sq), res_step_index := Some (int i)\<rparr>"

lemma send_step_simps [simp]:
  "ag_trace (send_step sq r i a) = ag_trace a @ [SendResult (stamp sq i r)]"
  "ag_instant (send_step sq r i a) = ag_instant a"
  by (simp_all add: send_step_def)

abbreviation step_command :: "seq_step \<Rightarrow> string \<times> (string, json) dict" where
  "step_command step \<equiv> (st_command step, st_params step)"

lemma run_steps_cases:
  assumes "run_steps H e sq i (step # steps) a = (out, a')"
  obtains (escaped) "out = Escaped" "extends (body_fx H (step_command step) (ag_instant a)) a a'"
  | (stopped) r where "out = Finished" "\<not> res_success r"
      "extends (\<lambda>fx. \<exists>pre. fx = pre @ [SendResult (stamp sq i r)] \<and> body_fx H (step_command step) (ag_instant a) pre) a a'"
  | (next_step) r b where "run_steps H e sq (Suc i) steps b = (out, a')"
      "sq_stop_on_failure sq \<longrightarrow> res_success r"
      "extends (\<lambda>fx. \<exists>pre. fx = pre @ [SendResult (stamp sq i r)] \<and> body_fx H (step_command step) (ag_instant a) pre) a b"
proof (cases "refusal_for H (st_command step) (ho_uuid H (ag_instant a)) (env_id e)
    (a\<lparr>ag_instant := Suc (ag_instant a)\<rparr>)")
  case (Pair refusal a2)
  show thesis
  proof (cases refusal)
    case (Some r)
    from refusal_for_Some [OF Pair [unfolded Some]] assms Pair Some show thesis
      by (intro stopped [of r]) (auto simp: fresh_id_eq extends_def intro: body_records)
  next
    case None
    obtain ended a3 where ended: "run_command H (st_command step) (st_params step) (ho_uuid H (ag_instant a))
        (Some (sq_id sq)) a2 = (ended, a3)" by fastforce
    have body: "extends (body_fx H (step_command step) (ag_instant a)) a a3"
      using gate_then_run [OF Pair [unfolded None] ended]
      by (auto simp: extends_def body_fx_def elim!: all_admitted_mono)
    show thesis
    proof (cases "step_answer H (st_command step) (ho_uuid H (ag_instant a)) ended")
      case None': None
      with assms Pair None ended body show thesis by (intro escaped) (auto simp: fresh_id_eq)
    next
      case (Some r)
      have sent: "extends (\<lambda>fx. \<exists>pre. fx = pre @ [SendResult (stamp sq i r)]
          \<and> body_fx H (step_command step) (ag_instant a) pre) a (send_step sq r i a3)"
        using body by (auto simp: extends_def)
      show thesis
      proof (cases "sq_stop_on_failure sq \<and> \<not> res_success r")
        case True
        with assms Pair None ended Some sent show thesis by (intro stopped [of r]) (auto simp: fresh_id_eq Let_def)
      next
        case False
        with assms Pair None ended Some sent show thesis
          by (intro next_step [of "send_step sq r i a3" r]) (auto simp: fresh_id_eq Let_def split: if_splits)
      qed
    qed
  qed
qed

lemma run_steps_stream:
  "run_steps H e sq i steps a = (out, a') \<Longrightarrow> extends (stream sq i (length steps) out) a a'"
proof (induction steps arbitrary: i a)
  case Nil
  then show ?case by (auto simp: extends_def stream_quiet)
next
  case (Cons step steps)
  from Cons.prems show ?case
  proof (cases rule: run_steps_cases)
    case escaped
    then show ?thesis by (auto simp: body_fx_def intro: stream_quiet elim!: extends_mono)
  next
    case (stopped r)
    then show ?thesis by (auto simp: body_fx_def intro!: stream_last elim!: extends_mono)
  next
    case (next_step r b)
    show ?thesis
      by (rule extends_trans [OF next_step(3) Cons.IH [OF next_step(1)]])
        (use next_step(2) in \<open>auto simp: body_fx_def intro!: stream_Cons\<close>)
  qed
qed

lemma run_steps_admitted:
  "run_steps H e sq i steps a = (out, a') \<Longrightarrow>
    extends (all_admitted H (map step_command steps) (ag_instant a)) a a'"
proof (induction steps arbitrary: i a)
  case Nil
  then show ?case by (auto simp: extends_def)
next
  case (Cons step steps)
  from Cons.prems show ?case
  proof (cases rule: run_steps_cases)
    case escaped
    then show ?thesis by (auto simp: body_fx_def elim!: extends_mono all_admitted_mono)
  next
    case (stopped r)
    then show ?thesis by (auto simp: body_fx_def elim!: extends_mono all_admitted_mono)
  next
    case (next_step r b)
    have "ag_instant a \<le> ag_instant b" using next_step(3) by (simp add: extends_def)
    then show ?thesis
      by (intro extends_trans [OF next_step(3) Cons.IH [OF next_step(1)]])
        (auto simp: body_fx_def elim!: all_admitted_mono)
  qed
qed

text \<open>Effects without a process, as most handlers have.\<close>

definition runs_nothing :: "effect list \<Rightarrow> bool" where
  "runs_nothing fx \<longleftrightarrow> (\<forall>t argv. Ran t argv \<notin> set fx)"

lemma runs_nothing_simps [simp]:
  "runs_nothing []" "runs_nothing (xs @ ys) \<longleftrightarrow> runs_nothing xs \<and> runs_nothing ys"
  "runs_nothing (x # xs) \<longleftrightarrow> (\<forall>t argv. x \<noteq> Ran t argv) \<and> runs_nothing xs"
  by (auto simp: runs_nothing_def)

lemma runs_nothing_records: "list_all is_record fx \<Longrightarrow> runs_nothing fx"
  by (auto simp: runs_nothing_def list_all_iff)

lemma runs_nothing_admitted: "runs_nothing fx \<Longrightarrow> all_admitted H cs n fx"
  by (simp add: runs_nothing_def all_admitted_def)

lemma first_invalid_extends:
  "first_invalid H i names a = (r, a') \<Longrightarrow> extends (\<lambda>fx. fx = []) a a'"
proof (induction names arbitrary: i a)
  case (Cons name names)
  then show ?case
    by (fastforce simp: tick_def extends_def split: sum.splits dest: Suc_leD)
qed (simp add: extends_def)

lemma refresh_runs_nothing:
  "handle_refresh H c rid g a = (out, a') \<Longrightarrow> extends runs_nothing a a'"
  by (auto simp: handle_refresh_def collect_refresh_result_def push_metrics_def fresh_id_def tick_def
      Let_def extends_def split: option.splits collected.splits push_end.splits prod.splits if_splits)

lemma long_running_runs_nothing:
  "dispatch_long_running H rid rq s a = (out, a') \<Longrightarrow> extends runs_nothing a a'"
  by (auto simp: dispatch_long_running_def Let_def extends_def
      split: option.splits sum.splits param_error.splits param_problem.splits start_error.splits if_splits)

lemma run_subprocess_admitted:
  assumes "refusal_for H (rq_command rq) rid ref a = (None, a1)" "run_subprocess_command H rq rid' a1 = (out, a')"
  shows "extends (all_admitted H [(rq_command rq, rq_params rq)] (ag_instant a)) a a'"
proof -
  obtain ended a2 where run: "run_command H (rq_command rq) (rq_params rq) rid' None a1 = (ended, a2)"
    by fastforce
  have "extends (all_admitted H [(rq_command rq, rq_params rq)] (ag_instant a)) a a2"
    using gate_then_run [OF assms(1) run] by (auto simp: body_fx_def elim!: extends_mono)
  moreover have "extends runs_nothing a2 a'"
    using assms(2) run
    by (auto simp: run_subprocess_command_def emit_whitelist_rejection_def Let_def extends_def
        split: sum.splits option.splits)
  ultimately show ?thesis
    by (rule extends_trans) (simp add: runs_nothing_admitted)
qed

lemma sequence_body_admitted:
  assumes "sequence_body H e sq a = (out, a')"
  shows "extends (all_admitted H (map step_command (sq_steps sq)) (ag_instant a)) a a'"
proof -
  let ?names = "map st_command (sq_steps sq)" and ?a1 = "a\<lparr>ag_instant := Suc (ag_instant a)\<rparr>"
  obtain bad a2 where bad: "first_invalid H 0 ?names ?a1 = (bad, a2)" by fastforce
  note invalid = first_invalid_extends [OF bad]
  have quiet: "extends (all_admitted H (map step_command (sq_steps sq)) (ag_instant a)) a a'"
    if "extends runs_nothing a a'"
    using that by (rule extends_mono) (rule runs_nothing_admitted)
  show ?thesis
  proof (cases "needs_restart_to_load (ho_sealed H (ag_instant a)) (ho_registry H) ?names")
    case (Some c)
    with assms show ?thesis
      by (intro quiet) (auto simp: sequence_body_def tick_def fresh_id_def extends_def Let_def)
  next
    case None
    show ?thesis
    proof (cases "bad = None \<and> \<not> is_blocked_by_seal (ho_sealed H (ag_instant a2)) ?names")
      case True
      with assms None bad have "run_steps H e sq 0 (sq_steps sq) (a2\<lparr>ag_instant := Suc (ag_instant a2)\<rparr>) = (out, a')"
        by (simp add: sequence_body_def tick_def Let_def)
      from run_steps_admitted [OF this] invalid show ?thesis
        by (auto simp: extends_def elim!: all_admitted_mono)
    next
      case False
      with assms None bad invalid show ?thesis
        by (intro quiet)
          (auto simp: sequence_body_def tick_def fresh_id_def sealed_refusal_def Let_def extends_def
            split: option.splits list.splits prod.splits)
    qed
  qed
qed

text \<open>The clock readings of one verification, and the commands of a payload.\<close>

definition attempt_at :: "('s, 'i) host \<Rightarrow> envelope \<Rightarrow> nat \<Rightarrow> attempt" where
  "attempt_at H e t =
     \<lparr>at_frame = e, at_now = ho_clock H t, at_purge = ho_clock H (Suc t), at_insert = ho_clock H (Suc (Suc t))\<rparr>"

definition verified :: "('s, 'i) host \<Rightarrow> envelope \<Rightarrow> 's agent \<Rightarrow> verify_error + command_payload" where
  "verified H e a =
     fst (verify_envelope (ho_mac H) (ho_secret H) (ho_max_age H) (ag_nonces a) (attempt_at H e (ag_instant a)))"

fun payload_commands :: "command_payload \<Rightarrow> (string \<times> (string, json) dict) list" where
  "payload_commands (CmdRequest rq) = [(rq_command rq, rq_params rq)]"
| "payload_commands (CmdSequence sq) = map step_command (sq_steps sq)"

lemma verify_typed_payload_eq:
  "verify_typed_payload H e a =
    (let a' = a\<lparr>ag_instant := ag_instant a + 3, ag_nonces := snd (verify_envelope (ho_mac H) (ho_secret H)
                (ho_max_age H) (ag_nonces a) (attempt_at H e (ag_instant a)))\<rparr>
     in case verified H e a of
       Inr p \<Rightarrow> (Inr (Some p), a')
     | Inl (ProtoErr x) \<Rightarrow> (Inl x, a')
     | Inl (AuthErr why) \<Rightarrow> (Inr None, act (Emit ''auth'' ''signature_failure''
         [(''status'', JStr ''refused''), (''failure_reason'', JStr (auth_reason_value why)),
          (''command_ref'', JStr (take 100 (env_id e)))]) a'))"
  by (simp add: verify_typed_payload_def tick_def verified_def attempt_at_def numeral_3_eq_3 split: prod.split)

lemma verify_typed_payload_extends:
  "verify_typed_payload H e a = (r, a') \<Longrightarrow> extends (list_all is_record) a a'"
  by (auto simp: verify_typed_payload_eq Let_def extends_def split: sum.splits verify_error.splits)

lemma verify_typed_payload_Some:
  "verify_typed_payload H e a = (Inr (Some p), a') \<Longrightarrow> verified H e a = Inr p \<and> extends (\<lambda>fx. fx = []) a a'"
  by (auto simp: verify_typed_payload_eq Let_def extends_def split: sum.splits verify_error.splits)

definition message_fx :: "('s, 'i) host \<Rightarrow> envelope \<Rightarrow> 's agent \<Rightarrow> effect list \<Rightarrow> bool" where
  "message_fx H e a fx \<longleftrightarrow> runs_nothing fx \<or>
     (\<exists>p. verified H e a = Inr p \<and> session_compatible H \<and> all_admitted H (payload_commands p) (ag_instant a) fx)"

lemma refuse_incompatible_cases:
  assumes "refuse_incompatible_command H e p a = (refused, a')"
  obtains "refused" "\<not> session_compatible H" "extends (\<lambda>fx. \<exists>r. fx = [SendResult r]) a a'"
  | "\<not> refused" "session_compatible H" "a' = a"
  using assms by (auto simp: refuse_incompatible_command_def extends_def split: if_splits)

lemma message_fxI:
  "extends runs_nothing a a' \<Longrightarrow> extends (message_fx H e a0) a a'"
  "extends (list_all is_record) a a' \<Longrightarrow> extends (message_fx H e a0) a a'"
  by (auto simp: message_fx_def runs_nothing_records elim!: extends_mono)

lemma handle_command_request_fx:
  assumes "handle_command_request H e a = (out, a')"
  shows "extends (message_fx H e a) a a'"
proof (cases "\<exists>rq a1. verify_typed_payload H e a = (Inr (Some (CmdRequest rq)), a1)")
  case False
  with assms have "extends (list_all is_record) a a'"
    by (auto simp: handle_command_request_def split: prod.splits sum.splits option.splits command_payload.splits
        dest!: verify_typed_payload_extends)
  then show ?thesis by (rule message_fxI)
next
  case True
  then obtain rq a1 where v: "verify_typed_payload H e a = (Inr (Some (CmdRequest rq)), a1)" by blast
  from verify_typed_payload_Some [OF v] have p: "verified H e a = Inr (CmdRequest rq)"
    and a1: "extends (\<lambda>fx. fx = []) a a1" by auto
  obtain refused a2 where comp: "refuse_incompatible_command H e (CmdRequest rq) a1 = (refused, a2)" by fastforce
  from comp show ?thesis
  proof (cases rule: refuse_incompatible_cases)
    case 1
    with assms v comp have "a' = a2" by (simp add: handle_command_request_def)
    with 1 a1 show ?thesis by (intro message_fxI) (auto simp: extends_def)
  next
    case 2
    obtain refusal a3 where gate: "refusal_for H (rq_command rq) (env_id e) (env_id e) a1 = (refusal, a3)" by fastforce
    show ?thesis
    proof (cases refusal)
      case (Some r)
      with assms v comp 2 gate have "a' = act (SendResult r) a3" by (simp add: handle_command_request_def)
      with refusal_for_Some [OF gate [unfolded Some]] a1 show ?thesis
        by (intro message_fxI(1)) (auto simp: extends_def runs_nothing_records)
    next
      case None
      let ?spec = "dict_get (ho_registry H) (rq_command rq)"
      have a3: "extends (\<lambda>fx. fx = []) a1 a3" using refusal_for_None [OF gate [unfolded None]] by simp
      show ?thesis
      proof (cases "\<exists>s. ?spec = Some s \<and> cs_mode s \<noteq> SubprocessMode")
        case True
        with assms v comp 2 gate None have "extends runs_nothing a3 a'"
          by (auto simp: handle_command_request_def refresh_runs_nothing long_running_runs_nothing
              split: command_mode.splits)
        with a1 a3 show ?thesis by (intro message_fxI) (auto simp: extends_def)
      next
        case False
        with assms v comp 2 gate None have "run_subprocess_command H rq (env_id e) a3 = (out, a')"
          by (auto simp: handle_command_request_def split: command_mode.splits option.splits)
        from run_subprocess_admitted [OF gate [unfolded None] this]
        have "extends (all_admitted H (payload_commands (CmdRequest rq)) (ag_instant a)) a a'"
          using a1 by (auto simp: extends_def elim!: all_admitted_mono)
        with p 2 show ?thesis by (auto simp: message_fx_def elim!: extends_mono)
      qed
    qed
  qed
qed

lemma handle_command_sequence_fx:
  assumes "handle_command_sequence H e a = (out, a')"
  shows "extends (message_fx H e a) a a'"
proof (cases "\<exists>sq a1. verify_typed_payload H e a = (Inr (Some (CmdSequence sq)), a1)")
  case False
  with assms have "extends (list_all is_record) a a'"
    by (auto simp: handle_command_sequence_def split: prod.splits sum.splits option.splits command_payload.splits
        dest!: verify_typed_payload_extends)
  then show ?thesis by (rule message_fxI)
next
  case True
  then obtain sq a1 where v: "verify_typed_payload H e a = (Inr (Some (CmdSequence sq)), a1)" by blast
  from verify_typed_payload_Some [OF v] have p: "verified H e a = Inr (CmdSequence sq)"
    and a1: "extends (\<lambda>fx. fx = []) a a1" by auto
  obtain refused a2 where comp: "refuse_incompatible_command H e (CmdSequence sq) a1 = (refused, a2)" by fastforce
  from comp show ?thesis
  proof (cases rule: refuse_incompatible_cases)
    case 1
    with assms v comp have "a' = a2" by (simp add: handle_command_sequence_def)
    with 1 a1 show ?thesis by (intro message_fxI) (auto simp: extends_def)
  next
    case 2
    with assms v comp have "sequence_body H e sq a1 = (out, a')" by (simp add: handle_command_sequence_def)
    from sequence_body_admitted [OF this] a1
    have "extends (all_admitted H (payload_commands (CmdSequence sq)) (ag_instant a)) a a'"
      by (auto simp: extends_def elim!: all_admitted_mono)
    with p 2 show ?thesis by (auto simp: message_fx_def elim!: extends_mono)
  qed
qed

lemma handle_fx: "handle h H e a = (out, a') \<Longrightarrow> extends (message_fx H e a) a a'"
proof (cases h)
  case HandleCommandRequest
  assume "handle h H e a = (out, a')"
  with HandleCommandRequest show ?thesis by (simp add: handle_command_request_fx)
next
  case HandleCommandSequence
  assume "handle h H e a = (out, a')"
  with HandleCommandSequence show ?thesis by (simp add: handle_command_sequence_fx)
qed (auto simp: handle_metrics_ack_def handle_log_batch_ack_def handle_events_batch_ack_def
    handle_events_batch_nack_def extends_def message_fx_def
    split: option.splits json.splits prod.splits sum.splits if_splits)

lemma answer_refusal_fx:
  "extends runs_nothing a (answer_refusal x t a)"
  by (simp add: answer_refusal_def extends_def)

section \<open>Properties\<close>

text \<open>
  C19. Nothing runs unadmitted: every process a frame starts was asked for by a command of a payload
  that passed verification in a session with compatible contracts; the command passed the seal at
  an instant after the frame's arrival, and then, at a later instant and before the process began,
  the whitelist, the current grant's fence and the param checks, which fixed its argv.
\<close>

theorem only_admitted_runs:
  assumes "from_json (ho_loads H) (ho_fromiso H) raw = Inr e"
    and "Ran t argv \<in> set (ag_trace (snd (dispatch_message H raw a)))" "Ran t argv \<notin> set (ag_trace a)"
  shows "\<exists>p. verified H e a = Inr p \<and> session_compatible H
    \<and> admitted H (payload_commands p) (ag_instant a) t argv"
proof -
  have "extends (message_fx H e a) a (snd (dispatch_message H raw a))"
  proof (cases "dict_get HANDLERS (env_type e)")
    case None
    with assms(1) answer_refusal_fx show ?thesis
      by (auto simp: dispatch_message_def intro!: message_fxI(1))
  next
    case (Some h)
    obtain out a1 where h: "handle h H e a = (out, a1)" by fastforce
    have "extends (message_fx H e a) a a1" by (rule handle_fx [OF h])
    then have "extends (message_fx H e a) a (answer_refusal x t a1)" for x t
      by (rule extends_trans [OF _ answer_refusal_fx])
        (auto simp: message_fx_def runs_nothing_admitted)
    with assms(1) Some h \<open>extends (message_fx H e a) a a1\<close> show ?thesis
      by (cases out) (auto simp: dispatch_message_def)
  qed
  with assms(2,3) show ?thesis
    by (auto simp: extends_def message_fx_def runs_nothing_def all_admitted_def)
qed

lemma handlers_rows:
  "list_all (\<lambda>t. dict_get HANDLERS t = None \<longleftrightarrow> (\<exists>row\<in>set MESSAGES. fst row = t \<and> fst (snd row) = AgentToDashboard))
     message_types"
  by code_simp

text \<open>
  The handler table is exhaustive: a message type has no handler exactly when the catalogue sends
  it from the agent to the dashboard only, so every type that may arrive is handled.
\<close>

theorem handlers_exhaustive:
  "dict_get HANDLERS t = None \<longleftrightarrow> (\<exists>p. (t, AgentToDashboard, p) \<in> set MESSAGES)"
  using handlers_rows message_types_all [of t] by (fastforce simp: list_all_iff)

lemma handler_of:
  "dict_get HANDLERS MtCommandRequest = Some HandleCommandRequest"
  "dict_get HANDLERS MtCommandSequence = Some HandleCommandSequence"
  by (simp_all add: HANDLERS_def MESSAGES_def payload_anns dict_update_def)

lemma verified_type:
  "verified H e a = Inr (CmdRequest rq) \<Longrightarrow> env_type e = MtCommandRequest"
  "verified H e a = Inr (CmdSequence sq) \<Longrightarrow> env_type e = MtCommandSequence"
  by (auto simp: verified_def verify_envelope_def authenticate_def check_type_def parse_command_def
      attempt_at_def split: sum.splits prod.splits if_splits)

lemma verify_typed_payload_verified:
  "verified H e a = Inr p \<Longrightarrow> \<exists>a1. verify_typed_payload H e a = (Inr (Some p), a1) \<and> extends (\<lambda>fx. fx = []) a a1"
  by (auto simp: verify_typed_payload_eq Let_def extends_def)

text \<open>
  C20. A forged frame is inert: a command frame that fails authentication is not answered, runs
  nothing and changes no state but the clock; all it leaves is one \<open>signature_failure\<close> event with
  the reason and at most 100 characters of its id.
\<close>

theorem forged_frame_inert:
  assumes "from_json (ho_loads H) (ho_fromiso H) raw = Inr e" "env_type e \<in> {MtCommandRequest, MtCommandSequence}"
    and "verified H e a = Inl (AuthErr why)"
  shows "dispatch_message H raw a = (False, act (Emit ''auth'' ''signature_failure''
    [(''status'', JStr ''refused''), (''failure_reason'', JStr (auth_reason_value why)),
     (''command_ref'', JStr (take 100 (env_id e)))]) (a\<lparr>ag_instant := ag_instant a + 3\<rparr>))"
proof -
  let ?v = "verify_envelope (ho_mac H) (ho_secret H) (ho_max_age H) (ag_nonces a) (attempt_at H e (ag_instant a))"
  have "snd ?v = ag_nonces a"
    using assms(3) by (auto simp: verified_def verify_envelope_def check_and_store_def Let_def
        split: sum.splits prod.splits if_splits)
  then have "verify_typed_payload H e a = (Inr None, act (Emit ''auth'' ''signature_failure''
    [(''status'', JStr ''refused''), (''failure_reason'', JStr (auth_reason_value why)),
     (''command_ref'', JStr (take 100 (env_id e)))]) (a\<lparr>ag_instant := ag_instant a + 3\<rparr>))"
    using assms(3) by (simp add: verify_typed_payload_eq)
  with assms(1,2) show ?thesis
    by (auto simp: dispatch_message_def handler_of handle_command_request_def handle_command_sequence_def)
qed

text \<open>The effects that answer a request, and whose request they answer.\<close>

definition answers :: "effect list \<Rightarrow> string option list" where
  "answers fx = concat (map (\<lambda>x. case x of
     SendResult r \<Rightarrow> [Some (res_request_id r)] | StartedJob rid \<Rightarrow> [Some rid] | ShedQuota rid \<Rightarrow> [Some rid]
   | SendError why t \<Rightarrow> [None] | _ \<Rightarrow> []) fx)"

lemma answers_simps [simp]:
  "answers [] = []" "answers (xs @ ys) = answers xs @ answers ys"
  "answers (SendResult r # xs) = Some (res_request_id r) # answers xs"
  "answers (SendError why ty # xs) = None # answers xs"
  "answers (StartedJob rid # xs) = Some rid # answers xs" "answers (ShedQuota rid # xs) = Some rid # answers xs"
  "answers (Ran i argv # xs) = answers xs" "answers (Emit s k f # xs) = answers xs"
  "answers (SendMetrics pid rs # xs) = answers xs"
  by (simp_all add: answers_def)

lemma answers_records: "list_all is_record fx \<Longrightarrow> answers fx = []"
  by (induction fx) (auto simp: answers_def is_record_def split: effect.splits)

lemma incompatible_result_eq:
  "incompatible_result H e p =
    (let r = incompatible_result H e p in r\<lparr>res_request_id := env_id e, res_success := False,
       res_failure_reason := Some FForbidden\<rparr>)"
  by (simp add: incompatible_result_def result_init_def with_reason_def Let_def split: prod.split
      del: failure_reason_value.simps)

lemma incompatible_result_simps [simp]:
  "res_request_id (incompatible_result H e p) = env_id e"
  "\<not> res_success (incompatible_result H e p)"
  "res_failure_reason (incompatible_result H e p) = Some FForbidden"
  by (subst incompatible_result_eq, simp add: Let_def)+

lemma refresh_answers:
  "handle_refresh H c rid g a = (out, a') \<Longrightarrow>
    out = Finished \<and> extends (\<lambda>fx. answers fx = [Some rid]) a a' \<or> out = Escaped"
  by (auto simp: handle_refresh_def collect_refresh_result_def push_metrics_def fresh_id_def tick_def
      result_init_def with_reason_def Let_def extends_def
      split: option.splits collected.splits push_end.splits prod.splits if_splits)

lemma long_running_answers:
  "dispatch_long_running H rid rq s a = (out, a') \<Longrightarrow>
    out = Finished \<and> extends (\<lambda>fx. answers fx = [Some rid]) a a' \<or> (\<exists>x. out = Refused x) \<and> a' = a \<or> out = Escaped"
  by (auto simp: dispatch_long_running_def Let_def extends_def
      split: option.splits sum.splits param_error.splits param_problem.splits start_error.splits if_splits)

lemma run_command_Inr:
  "run_command H name params rid sid a = (Inr r, a') \<Longrightarrow>
    res_request_id r = rid \<and> extends (\<lambda>fx. answers fx = []) a a'"
  by (auto simp: run_command_def tick_def Let_def extends_def dest!: process_result_Inr
      split: sum.splits prod.splits)

lemma run_command_Inl:
  "run_command H name params rid sid a = (Inl e, a') \<Longrightarrow> extends (\<lambda>fx. answers fx = []) a a'"
  by (auto simp: run_command_def tick_def Let_def extends_def split: sum.splits prod.splits)

lemma run_subprocess_answers:
  "run_subprocess_command H rq rid a = (out, a') \<Longrightarrow>
    out = Finished \<and> extends (\<lambda>fx. answers fx = [Some rid]) a a' \<or> out = Escaped"
  by (auto simp: run_subprocess_command_def emit_whitelist_rejection_def Let_def extends_def
      split: sum.splits option.splits prod.splits if_splits dest!: run_command_Inr run_command_Inl)

text \<open>
  C21. A verified request is answered once: unless an exception escapes to the receive loop, exactly
  one answer follows, a result or a job under the request's own id, or one \<open>error\<close> frame; nothing
  else is said on the wire but a metrics push.
\<close>

theorem request_answered_once:
  assumes "from_json (ho_loads H) (ho_fromiso H) raw = Inr e" "verified H e a = Inr (CmdRequest rq)"
    and "dispatch_message H raw a = (False, a')"
  shows "\<exists>fx. ag_trace a' = ag_trace a @ fx \<and> answers fx \<in> {[Some (env_id e)], [None]}"
proof -
  obtain a1 where v: "verify_typed_payload H e a = (Inr (Some (CmdRequest rq)), a1)"
    and a1: "ag_trace a1 = ag_trace a"
    using verify_typed_payload_verified [OF assms(2)] by (auto simp: extends_def)
  obtain out a2 where h: "handle_command_request H e a = (out, a2)" by fastforce
  have "out = Finished \<and> extends (\<lambda>fx. answers fx = [Some (env_id e)]) a1 a2
      \<or> (\<exists>x. out = Refused x) \<and> ag_trace a2 = ag_trace a1 \<or> out = Escaped"
  proof (cases "session_compatible H")
    case False
    with h v show ?thesis
      by (auto simp: handle_command_request_def refuse_incompatible_command_def extends_def)
  next
    case True
    obtain refusal a3 where gate: "refusal_for H (rq_command rq) (env_id e) (env_id e) a1 = (refusal, a3)" by fastforce
    show ?thesis
    proof (cases refusal)
      case (Some r)
      with refusal_for_Some [OF gate [unfolded Some]] h v True gate show ?thesis
        by (auto simp: handle_command_request_def refuse_incompatible_command_def extends_def answers_records)
    next
      case None
      with refusal_for_None [OF gate [unfolded None]] have "ag_trace a3 = ag_trace a1" "ag_instant a1 \<le> ag_instant a3"
        by (auto simp: extends_def)
      with h v True gate None show ?thesis
        by (cases out) (auto simp: handle_command_request_def refuse_incompatible_command_def extends_def
          split: option.splits command_mode.splits
          dest!: refresh_answers long_running_answers run_subprocess_answers)
    qed
  qed
  with assms a1 h verified_type(1) [OF assms(2)] show ?thesis
    by (cases out) (auto simp: dispatch_message_def handler_of answer_refusal_def extends_def)
qed


lemma first_invalid_bound:
  "first_invalid H i names a = (Some (j, name, err), a') \<Longrightarrow> i \<le> j \<and> j < i + length names"
  by (induction names arbitrary: i a) (force simp: tick_def split: sum.splits)+

lemma index_of_bound: "x \<in> set xs \<Longrightarrow> index_of x xs < length xs"
  by (induction xs) auto

lemma run_steps_outcome: "run_steps H e sq i steps a = (out, a') \<Longrightarrow> out \<noteq> Refused x"
proof (induction steps arbitrary: i a)
  case (Cons step steps)
  from Cons.prems show ?case
  proof (cases rule: run_steps_cases)
    case (next_step r b)
    show ?thesis by (rule Cons.IH [OF next_step(1)])
  qed auto
qed auto

text \<open>A sequence refused before its first step: one failed result that names a step.\<close>

definition precheck_refusal :: "command_sequence \<Rightarrow> effect list \<Rightarrow> bool" where
  "precheck_refusal sq fx \<longleftrightarrow> (\<exists>r i. results fx = [r] \<and> runs_nothing fx \<and> \<not> res_success r
     \<and> i < length (sq_steps sq) \<and> res_sequence_id r = Some (sq_id sq) \<and> res_step_index r = Some (int i))"

lemma precheck_refusalI:
  assumes "ag_trace a' = ag_trace a @ recs @ [SendResult (stamp sq i r)]" "list_all is_record recs"
    and "\<not> res_success r" "i < length (sq_steps sq)" "ag_instant a \<le> ag_instant a'"
  shows "extends (precheck_refusal sq) a a'"
  using assms by (intro extendsI [where fx = "recs @ [SendResult (stamp sq i r)]"])
    (auto simp: precheck_refusal_def results_records runs_nothing_records)

lemma sequence_body_results:
  assumes "sequence_body H e sq a = (out, a')"
  shows "out \<noteq> Refused x \<and> extends (\<lambda>fx. precheck_refusal sq fx \<or> stream sq 0 (length (sq_steps sq)) out fx) a a'"
proof -
  let ?names = "map st_command (sq_steps sq)" and ?a1 = "a\<lparr>ag_instant := Suc (ag_instant a)\<rparr>"
  obtain bad a2 where bad: "first_invalid H 0 ?names ?a1 = (bad, a2)" by fastforce
  from first_invalid_extends [OF bad] have a2: "ag_trace a2 = ag_trace a" "ag_instant a < ag_instant a2"
    by (auto simp: extends_def)
  have pre: ?thesis if "out = Finished \<and> extends (precheck_refusal sq) a a'"
    using that by (auto elim!: extends_mono)
  show ?thesis
  proof (cases "needs_restart_to_load (ho_sealed H (ag_instant a)) (ho_registry H) ?names")
    case (Some c)
    then have "index_of c ?names < length ?names"
      by (intro index_of_bound) (auto simp: needs_restart_to_load_def find_Some_iff split: if_splits)
    with Some assms show ?thesis
      by (intro pre) (auto simp: sequence_body_def tick_def fresh_id_def Let_def
          intro!: precheck_refusalI [where recs = "[]" and i = "index_of c ?names"])
  next
    case None
    show ?thesis
    proof (cases bad)
      case (Some q)
      obtain i name err where q: "q = (i, name, err)" by (cases q)
      from first_invalid_bound [OF bad [unfolded Some q]] have "i < length (sq_steps sq)" by simp
      with None Some q assms bad a2 show ?thesis
        by (intro pre) (auto simp: sequence_body_def tick_def fresh_id_def Let_def
            intro!: precheck_refusalI [where recs = "[]" and i = i])
    next
      case bad_None: None
      show ?thesis
      proof (cases "is_blocked_by_seal (ho_sealed H (ag_instant a2)) ?names")
        case False
        with assms None bad bad_None have "run_steps H e sq 0 (sq_steps sq) (a2\<lparr>ag_instant := Suc (ag_instant a2)\<rparr>) = (out, a')"
          by (simp add: sequence_body_def tick_def Let_def)
        from run_steps_stream [OF this] run_steps_outcome [OF this] a2 show ?thesis
          by (auto simp: extends_def)
      next
        case True
        then have "set (sort (filter (\<lambda>c. c \<in> set ?names) SEALED_COMMANDS)) \<noteq> {}"
          by (auto simp: is_blocked_by_seal_def list_ex_iff)
        then obtain c cs where c: "sort (filter (\<lambda>c. c \<in> set ?names) SEALED_COMMANDS) = c # cs"
          by (metis list.exhaust list.set(1))
        then have "c \<in> set (sort (filter (\<lambda>c. c \<in> set ?names) SEALED_COMMANDS))" by simp
        then have "index_of c ?names < length ?names" by (intro index_of_bound) auto
        with True c assms None bad bad_None a2 show ?thesis
          by (intro pre) (auto simp: sequence_body_def tick_def fresh_id_def sealed_refusal_def Let_def
              intro!: precheck_refusalI [where i = "index_of c ?names"])
      qed
    qed
  qed
qed

text \<open>
  What a compatible, verified sequence puts on the wire: either its pre-checks refuse it with one
  failed result that names a step, and nothing runs; or its results are those of consecutive steps
  from the first, all stamped with its id, a failure is the last thing to happen when the sequence
  stops on failure, and a run of successes covers every step.
\<close>

theorem sequence_results:
  assumes "from_json (ho_loads H) (ho_fromiso H) raw = Inr e" "verified H e a = Inr (CmdSequence sq)"
    and "session_compatible H" "dispatch_message H raw a = (False, a')"
  shows "\<exists>fx. ag_trace a' = ag_trace a @ fx \<and>
    (precheck_refusal sq fx \<or> stream sq 0 (length (sq_steps sq)) Finished fx)"
proof -
  obtain a1 where v: "verify_typed_payload H e a = (Inr (Some (CmdSequence sq)), a1)" and a1: "ag_trace a1 = ag_trace a"
    using verify_typed_payload_verified [OF assms(2)] by (auto simp: extends_def)
  obtain out a2 where h: "sequence_body H e sq a1 = (out, a2)" by fastforce
  from sequence_body_results [OF h] assms v h verified_type(2) [OF assms(2)] a1 show ?thesis
    by (cases out)
      (auto simp: dispatch_message_def handler_of handle_command_sequence_def refuse_incompatible_command_def
        extends_def)
qed

text \<open>
  A sequence the whitelist refuses raises no alarm: when the pre-check meets an unknown command or
  one its grant no longer authorizes, the sequence gets its failed result and no event at all, where
  the same command sent on its own is recorded as a \<open>whitelist_rejection\<close>.
\<close>

theorem refused_sequence_raises_no_alarm:
  assumes "needs_restart_to_load (ho_sealed H (ag_instant a)) (ho_registry H) (map st_command (sq_steps sq)) = None"
    and "first_invalid H 0 (map st_command (sq_steps sq)) (a\<lparr>ag_instant := Suc (ag_instant a)\<rparr>) = (Some (i, name, err), a2)"
  shows "\<exists>r. ag_trace (snd (sequence_body H e sq a)) = ag_trace a @ [SendResult r]
    \<and> res_failure_reason r = Some (command_error_reason err)"
  using assms first_invalid_extends [OF assms(2)]
  by (auto simp: sequence_body_def tick_def fresh_id_def Let_def extends_def)

section \<open>Witnesses\<close>

text \<open>A sequence of two steps, signed like the request of \<open>Auth\<close>.\<close>

definition seq_payload :: "(string \<times> json) list" where
  "seq_payload =
     [(''sequence_id'', JStr ''s1''),
      (''steps'', JArr [JObj [(''command'', JStr ''status''), (''params'', JObj [])],
                        JObj [(''command'', JStr ''status''), (''params'', JObj [])]]),
      (''stop_on_failure'', JBool True), (''nonce'', JStr ''n2''), (''hmac'', JStr (replicate 64 (CHR ''6'')))]"

definition seq_object :: "(string \<times> json) list" where
  "seq_object = [(''v'', JInt 2), (''type'', JStr ''command.sequence''), (''id'', JStr ''i2''),
     (''ts'', JStr ''1970-01-01T00:00:05Z''), (''agent_id'', JStr ''a1''), (''payload'', JObj seq_payload)]"

definition demo_loads :: "string \<Rightarrow> json option" where
  "demo_loads s = (if s = ''request'' then Some (JObj cmd_object)
     else if s = ''sequence'' then Some (JObj seq_object) else None)"

definition demo_fromiso :: "string \<Rightarrow> datetime option" where
  "demo_fromiso s = (if s = ''1970-01-01T00:00:05+00:00'' then Some \<lparr>dt_micros = seconds 5, dt_zone = Some 0\<rparr> else None)"

definition demo_digest :: string where
  "demo_digest = ''sha256:'' @ replicate 64 (CHR ''0'')"

text \<open>A host whose one command is \<open>status\<close>; the process succeeds the first time it is run.\<close>

definition demo_host :: "(string list, string) host" where
  "demo_host =
     \<lparr>ho_loads = demo_loads, ho_fromiso = demo_fromiso, ho_mac = toy_mac, ho_secret = [], ho_max_age = 300,
      ho_regex = sample_regex, ho_project = sample_project, ho_registry = [(''status'', tail_spec)],
      ho_session = Some \<lparr>se_agent_digest = demo_digest, se_control_plane_digest = demo_digest\<rparr>,
      ho_clock = (\<lambda>t. int t), ho_sealed = (\<lambda>t. True), ho_fence = (\<lambda>t c. None), ho_uuid = (\<lambda>t. nat_str t),
      ho_process = (\<lambda>t argv. if t < 12 then Completed 0 ''ok'' [] 4 else Completed 1 [] ''bad'' 5),
      ho_api = demo_api, ho_collect = (\<lambda>i. None), ho_summary = (\<lambda>s. None), ho_push = (\<lambda>t. PushSent)\<rparr>"

definition demo_agent :: "string list agent" where
  "demo_agent = \<lparr>ag_instant = 0, ag_nonces = [], ag_buffer = new_buffer 0, ag_manager = None,
     ag_runtimes = demo_runtimes, ag_trace = []\<rparr>"

definition demo_sequence :: command_sequence where
  "demo_sequence =
     \<lparr>sq_id = ''s1'',
      sq_steps = [\<lparr>st_command = ''status'', st_params = []\<rparr>, \<lparr>st_command = ''status'', st_params = []\<rparr>],
      sq_stop_on_failure = True, sq_hmac = replicate 64 (CHR ''6''), sq_nonce = ''n2''\<rparr>"

definition seq_frame :: envelope where
  "seq_frame = \<lparr>env_v = 2, env_type = MtCommandSequence, env_id = ''i2'',
     env_ts = \<lparr>dt_micros = seconds 5, dt_zone = Some 0\<rparr>, env_agent_id = ''a1'',
     env_payload = seq_payload, env_received = Some seq_object\<rparr>"

lemma demo_read:
  "from_json (ho_loads demo_host) (ho_fromiso demo_host) ''request'' = Inr cmd_frame"
  "from_json (ho_loads demo_host) (ho_fromiso demo_host) ''sequence'' = Inr seq_frame"
  by code_simp+

lemma demo_verified:
  "verified demo_host cmd_frame demo_agent = Inr cmd_request"
  "verified demo_host seq_frame demo_agent = Inr (CmdSequence demo_sequence)"
  by code_simp+

lemma demo_compatible: "session_compatible demo_host"
  by code_simp

lemma demo_request_done: "\<not> fst (dispatch_message demo_host ''request'' demo_agent)"
  by code_simp

lemma demo_sequence_done: "\<not> fst (dispatch_message demo_host ''sequence'' demo_agent)"
  by code_simp

theorem only_admitted_runs_witness:
  "admitted demo_host [(''status'', [])] 0 6 [''/usr/bin/tail'', ''-n'', ''100'']"
proof -
  have "Ran 6 [''/usr/bin/tail'', ''-n'', ''100''] \<in> set (ag_trace (snd (dispatch_message demo_host ''request'' demo_agent)))"
    "Ran 6 [''/usr/bin/tail'', ''-n'', ''100''] \<notin> set (ag_trace demo_agent)"
    by code_simp+
  from only_admitted_runs [OF demo_read(1) this] obtain p where
    "verified demo_host cmd_frame demo_agent = Inr p"
    "admitted demo_host (payload_commands p) (ag_instant demo_agent) 6 [''/usr/bin/tail'', ''-n'', ''100'']" by blast
  with demo_verified(1) show ?thesis by (simp add: cmd_request_def) (simp add: demo_agent_def)
qed

text \<open>The frame with its nonce already stored: a replay.\<close>

theorem forged_frame_inert_witness:
  "dispatch_message demo_host ''request'' (demo_agent\<lparr>ag_nonces := [(''n1'', 0)]\<rparr>) =
    (False, demo_agent\<lparr>ag_nonces := [(''n1'', 0)], ag_instant := 3, ag_trace := [Emit ''auth'' ''signature_failure''
      [(''status'', JStr ''refused''), (''failure_reason'', JStr ''replayed_nonce''), (''command_ref'', JStr ''i1'')]]\<rparr>)"
proof -
  have "verified demo_host cmd_frame (demo_agent\<lparr>ag_nonces := [(''n1'', 0)]\<rparr>) = Inl (AuthErr ReplayedNonce)"
    by code_simp
  from forged_frame_inert [OF demo_read(1) _ this] show ?thesis
    by (simp add: demo_agent_def cmd_frame_def act_def)
qed

theorem request_answered_once_witness:
  "\<exists>fx. ag_trace (snd (dispatch_message demo_host ''request'' demo_agent)) = fx \<and> answers fx \<in> {[Some ''i1''], [None]}"
proof -
  have "dispatch_message demo_host ''request'' demo_agent =
      (False, snd (dispatch_message demo_host ''request'' demo_agent))"
    using demo_request_done by (simp add: prod_eq_iff)
  from request_answered_once [OF demo_read(1) demo_verified(1) [unfolded cmd_request_def] this] show ?thesis
    by (simp add: demo_agent_def cmd_frame_def)
qed

theorem sequence_results_witness:
  "\<exists>fx. ag_trace (snd (dispatch_message demo_host ''sequence'' demo_agent)) = fx
    \<and> (precheck_refusal demo_sequence fx \<or> stream demo_sequence 0 (length (sq_steps demo_sequence)) Finished fx)"
proof -
  have "dispatch_message demo_host ''sequence'' demo_agent =
      (False, snd (dispatch_message demo_host ''sequence'' demo_agent))"
    using demo_sequence_done by (simp add: prod_eq_iff)
  from sequence_results [OF demo_read(2) demo_verified(2) demo_compatible this] show ?thesis
    by (simp add: demo_agent_def)
qed

theorem refused_sequence_raises_no_alarm_witness:
  "\<exists>r. ag_trace (snd (sequence_body demo_host seq_frame (demo_sequence\<lparr>sq_steps := [\<lparr>st_command = ''nope'', st_params = []\<rparr>]\<rparr>)
      demo_agent)) = [SendResult r] \<and> res_failure_reason r = Some FUnknownCommand"
proof -
  let ?sq = "demo_sequence\<lparr>sq_steps := [\<lparr>st_command = ''nope'', st_params = []\<rparr>]\<rparr>"
  have "needs_restart_to_load (ho_sealed demo_host (ag_instant demo_agent)) (ho_registry demo_host)
      (map st_command (sq_steps ?sq)) = None" by code_simp
  moreover have "first_invalid demo_host 0 (map st_command (sq_steps ?sq)) (demo_agent\<lparr>ag_instant := Suc (ag_instant demo_agent)\<rparr>) =
      (Some (0, ''nope'', UnknownCommand), demo_agent\<lparr>ag_instant := 2\<rparr>)"
    by (simp add: tick_def get_command_def demo_host_def demo_agent_def)
  ultimately show ?thesis
    using refused_sequence_raises_no_alarm [of demo_host demo_agent ?sq 0 "''nope''" UnknownCommand _ seq_frame]
    by (simp add: demo_agent_def)
qed

end
