(* ===== verification/Logs.thy ===== *)
theory Logs
  imports Dispatch
begin

text \<open>
  Log delivery: \<open>logging/receipt.py\<close>, \<open>logging/positions.py\<close>, the file and journal tailers of
  \<open>logging/tailer.py\<close>, \<open>logging/shipper.py\<close>, \<open>agent/log_batches.py\<close>, the shipping step of
  \<open>agent/loops.py\<close> and the log part of \<open>agent/acks.py\<close>. A file is its inode and its bytes; the head
  digest, the UTF-8 decoder, the parser and the resolver are parameters. A read of a file is atomic
  here.
\<close>

section \<open>Receipts\<close>

record generation =
  gn_inode :: nat
  gn_head_len :: nat
  gn_head_digest :: string

datatype log_position = Offset nat | Marker string

record receipt =
  rc_group :: string
  rc_source :: string
  rc_generation :: "generation option"
  rc_from :: log_position
  rc_to :: log_position

definition holds_back :: "receipt \<Rightarrow> receipt \<Rightarrow> bool" where
  "holds_back pending read_receipt =
     (if (rc_group pending, rc_source pending) \<noteq> (rc_group read_receipt, rc_source read_receipt) then False
      else if (case (rc_generation pending, rc_generation read_receipt) of
                 (Some old, Some new) \<Rightarrow> gn_inode old \<noteq> gn_inode new
               | _ \<Rightarrow> False) then False
      else case (rc_from pending, rc_to read_receipt) of
        (Offset s, Offset e) \<Rightarrow> s < e
      | _ \<Rightarrow> True)"

section \<open>The position store\<close>

text \<open>One row of \<open>log_positions\<close>; a column no statement set is NULL, the position's default is 0.\<close>

record position_row =
  lp_source_type :: string
  lp_file_path :: "string option"
  lp_position :: nat
  lp_inode :: "nat option"
  lp_last_ts :: "string option"
  lp_cursor :: "string option"
  lp_head_len :: "nat option"
  lp_head_digest :: "string option"

type_synonym position_db = "(string, position_row) dict"

record checkpoint =
  cp_position :: nat
  cp_inode :: "nat option"
  cp_generation :: "generation option"

definition inserted_row :: position_row where
  "inserted_row = \<lparr>lp_source_type = ''file'', lp_file_path = None, lp_position = 0, lp_inode = None,
     lp_last_ts = None, lp_cursor = None, lp_head_len = None, lp_head_digest = None\<rparr>"

text \<open>\<open>INSERT ... ON CONFLICT(group_name) DO UPDATE\<close>: the columns named are set, the others stay.\<close>

definition upsert :: "string \<Rightarrow> (position_row \<Rightarrow> position_row) \<Rightarrow> position_db \<Rightarrow> position_db" where
  "upsert g f db = dict_set g (f (case dict_get db g of Some row \<Rightarrow> row | None \<Rightarrow> inserted_row)) db"

definition checkpoint_of :: "position_db \<Rightarrow> string \<Rightarrow> checkpoint" where
  "checkpoint_of db g =
     (case dict_get db g of
        None \<Rightarrow> \<lparr>cp_position = 0, cp_inode = None, cp_generation = None\<rparr>
      | Some row \<Rightarrow>
          (case lp_inode row of
             None \<Rightarrow> \<lparr>cp_position = lp_position row, cp_inode = None, cp_generation = None\<rparr>
           | Some inode \<Rightarrow>
               \<lparr>cp_position = lp_position row, cp_inode = Some inode,
                cp_generation =
                  (case (lp_head_len row, lp_head_digest row) of
                     (Some n, Some d) \<Rightarrow> Some \<lparr>gn_inode = inode, gn_head_len = n, gn_head_digest = d\<rparr>
                   | _ \<Rightarrow> None)\<rparr>))"

definition get_position :: "position_db \<Rightarrow> string \<Rightarrow> nat \<times> nat option" where
  "get_position db g = (cp_position (checkpoint_of db g), cp_inode (checkpoint_of db g))"

definition set_position ::
  "string \<Rightarrow> string \<Rightarrow> nat \<Rightarrow> nat \<Rightarrow> generation option \<Rightarrow> position_db \<Rightarrow> position_db" where
  "set_position g path pos inode head =
     upsert g (\<lambda>row. row\<lparr>lp_source_type := ''file'', lp_file_path := Some path, lp_position := pos,
       lp_inode := Some inode, lp_head_len := map_option gn_head_len head,
       lp_head_digest := map_option gn_head_digest head\<rparr>)"

definition get_docker_ts :: "position_db \<Rightarrow> string \<Rightarrow> string option" where
  "get_docker_ts db g = (case dict_get db g of None \<Rightarrow> None | Some row \<Rightarrow> lp_last_ts row)"

definition set_docker_ts :: "string \<Rightarrow> string \<Rightarrow> string \<Rightarrow> position_db \<Rightarrow> position_db" where
  "set_docker_ts g container last_ts =
     upsert g (\<lambda>row. row\<lparr>lp_source_type := ''docker'', lp_file_path := Some container, lp_last_ts := Some last_ts\<rparr>)"

definition get_cursor :: "position_db \<Rightarrow> string \<Rightarrow> string option" where
  "get_cursor db g = (case dict_get db g of None \<Rightarrow> None | Some row \<Rightarrow> lp_cursor row)"

definition set_cursor :: "string \<Rightarrow> string \<Rightarrow> string \<Rightarrow> position_db \<Rightarrow> position_db" where
  "set_cursor g unit_name cursor =
     upsert g (\<lambda>row. row\<lparr>lp_source_type := ''journald'', lp_file_path := Some unit_name, lp_cursor := Some cursor\<rparr>)"

section \<open>The file tailer\<close>

record log_file =
  lf_inode :: nat
  lf_content :: string

text \<open>What opening the path gives.\<close>

datatype opened = Missing | Unreadable | Opened log_file

definition MAX_LINES_PER_INTERVAL :: nat where "MAX_LINES_PER_INTERVAL = 1000"
definition HEAD_BYTES :: nat where "HEAD_BYTES = 4096"

definition generation_of :: "(string \<Rightarrow> string) \<Rightarrow> nat \<Rightarrow> nat \<Rightarrow> log_file \<Rightarrow> generation" where
  "generation_of digest inode cap f =
     (let head = take (min HEAD_BYTES cap) (lf_content f)
      in \<lparr>gn_inode = inode, gn_head_len = length head, gn_head_digest = digest head\<rparr>)"

definition holds :: "(string \<Rightarrow> string) \<Rightarrow> log_file \<Rightarrow> generation \<Rightarrow> bool" where
  "holds digest f g \<longleftrightarrow> generation_of digest (lf_inode f) (gn_head_len g) f = g"

record log_group =
  lg_name :: string
  lg_source :: string
  lg_parser :: string
  lg_filter :: string
  lg_max_lines :: nat

definition is_own :: "receipt \<Rightarrow> log_group \<Rightarrow> bool" where
  "is_own r g \<longleftrightarrow> rc_group r = lg_name g \<and> rc_source r = lg_source g"

definition file_receipt :: "log_group \<Rightarrow> generation option \<Rightarrow> nat \<Rightarrow> nat \<Rightarrow> receipt" where
  "file_receipt g gen s e =
     \<lparr>rc_group = lg_name g, rc_source = lg_source g, rc_generation = gen, rc_from = Offset s, rc_to = Offset e\<rparr>"

definition resume_point :: "(string \<Rightarrow> string) \<Rightarrow> checkpoint \<Rightarrow> log_file \<Rightarrow> nat" where
  "resume_point digest cp f =
     (if (case cp_inode cp of Some i \<Rightarrow> i \<noteq> lf_inode f | None \<Rightarrow> False) then 0
      else if (case cp_generation cp of Some g \<Rightarrow> holds digest f g | None \<Rightarrow> True)
           \<and> cp_position cp \<le> length (lf_content f)
      then cp_position cp else 0)"

text \<open>\<open>f.readline()\<close>: up to and with the newline, or to the end of the file.\<close>

fun read_line :: "string \<Rightarrow> string \<times> string" where
  "read_line [] = ([], [])"
| "read_line (c # cs) =
     (if c = CHR 0x0A then ([c], cs) else (let (l, rest) = read_line cs in (c # l, rest)))"

fun read_lines :: "nat \<Rightarrow> string \<Rightarrow> string list" where
  "read_lines 0 s = []"
| "read_lines (Suc n) s =
     (if s = [] then [] else (let (l, rest) = read_line s in l # read_lines n rest))"

definition read_new_lines ::
  "(string \<Rightarrow> string) \<Rightarrow> (string \<Rightarrow> string) \<Rightarrow> log_group \<Rightarrow> position_db \<Rightarrow> opened \<Rightarrow> string list \<times> receipt" where
  "read_new_lines digest decode_utf8 g db opn =
     (case opn of
        Missing \<Rightarrow> ([], file_receipt g None 0 0)
      | Unreadable \<Rightarrow> ([], file_receipt g None 0 0)
      | Opened f \<Rightarrow>
          (let s = resume_point digest (checkpoint_of db (lg_name g)) f;
               raws = read_lines (min (lg_max_lines g) MAX_LINES_PER_INTERVAL) (drop s (lf_content f));
               e = s + length (concat raws)
           in (map decode_utf8 raws, file_receipt g (Some (generation_of digest (lf_inode f) e f)) s e)))"

definition own_range :: "log_group \<Rightarrow> receipt \<Rightarrow> (generation \<times> nat \<times> nat) option" where
  "own_range g r =
     (if \<not> is_own r g then None
      else case (rc_generation r, rc_from r, rc_to r) of
        (Some gen, Offset s, Offset e) \<Rightarrow> Some (gen, s, e)
      | _ \<Rightarrow> None)"

definition base_for ::
  "(string \<Rightarrow> string) \<Rightarrow> log_group \<Rightarrow> position_db \<Rightarrow> opened \<Rightarrow> generation \<Rightarrow> nat \<Rightarrow> nat option" where
  "base_for digest g db opn gen e =
     (case opn of
        Opened f \<Rightarrow>
          if \<not> holds digest f gen \<or> length (lf_content f) < e then None
          else Some (resume_point digest (checkpoint_of db (lg_name g)) f)
      | _ \<Rightarrow> None)"

definition confirm_shipped ::
  "(string \<Rightarrow> string) \<Rightarrow> log_group \<Rightarrow> opened \<Rightarrow> receipt \<Rightarrow> position_db \<Rightarrow> bool \<times> position_db" where
  "confirm_shipped digest g opn r db =
     (case own_range g r of
        None \<Rightarrow> (False, db)
      | Some (gen, s, e) \<Rightarrow>
          (case base_for digest g db opn gen e of
             None \<Rightarrow> (False, db)
           | Some base \<Rightarrow>
               if s \<le> base \<and> base < e
               then (True, set_position (lg_name g) (lg_source g) e (gn_inode gen) (Some gen) db)
               else (False, db)))"

text \<open>\<open>consume_filtered\<close>: the pending receipts are unknown, or a snapshot.\<close>

definition consume_filtered ::
  "(receipt \<Rightarrow> 'db \<Rightarrow> bool \<times> 'db) \<Rightarrow> receipt \<Rightarrow> receipt list option \<Rightarrow> 'db \<Rightarrow> bool \<times> 'db" where
  "consume_filtered confirm r pending db =
     (case pending of
        None \<Rightarrow> (False, db)
      | Some ps \<Rightarrow> if list_ex (\<lambda>p. holds_back p r) ps then (False, db) else confirm r db)"

section \<open>The journal tailer\<close>

text \<open>\<open>journal args limit\<close> is what \<open>_records\<close> took from one journalctl run: at most \<open>limit\<close> lines.\<close>

definition cursor_of :: "(string \<Rightarrow> json option) \<Rightarrow> string \<Rightarrow> string" where
  "cursor_of loads line =
     (case loads line of
        Some (JObj record) \<Rightarrow> (case dict_get record ''__CURSOR'' of Some (JStr c) \<Rightarrow> c | _ \<Rightarrow> [])
      | _ \<Rightarrow> [])"

definition journal_receipt :: "log_group \<Rightarrow> string \<Rightarrow> string \<Rightarrow> receipt" where
  "journal_receipt g s e =
     \<lparr>rc_group = lg_name g, rc_source = lg_source g, rc_generation = None, rc_from = Marker s, rc_to = Marker e\<rparr>"

definition seed_cursor ::
  "(string \<Rightarrow> json option) \<Rightarrow> (string list \<Rightarrow> nat \<Rightarrow> string list) \<Rightarrow> log_group \<Rightarrow> position_db \<Rightarrow> position_db" where
  "seed_cursor loads journal g db =
     (case journal [''--lines'', ''1''] 1 of
        [] \<Rightarrow> db
      | seed \<Rightarrow> (let cursor = cursor_of loads (last seed)
                 in if cursor = [] then db else set_cursor (lg_name g) (lg_source g) cursor db))"

definition read_journal ::
  "(string \<Rightarrow> json option) \<Rightarrow> (string list \<Rightarrow> nat \<Rightarrow> string list) \<Rightarrow> log_group \<Rightarrow> position_db
    \<Rightarrow> (string list \<times> receipt) \<times> position_db" where
  "read_journal loads journal g db =
     (case get_cursor db (lg_name g) of
        None \<Rightarrow> (([], journal_receipt g [] []), seed_cursor loads journal g db)
      | Some stored \<Rightarrow>
          (let taken = journal [''--after-cursor'', stored] (min (lg_max_lines g) MAX_LINES_PER_INTERVAL)
           in ((taken, journal_receipt g stored
                (case find (\<lambda>c. c \<noteq> []) (map (cursor_of loads) (rev taken)) of
                   Some c \<Rightarrow> c | None \<Rightarrow> stored)), db)))"

definition confirm_journal :: "log_group \<Rightarrow> receipt \<Rightarrow> position_db \<Rightarrow> bool \<times> position_db" where
  "confirm_journal g r db =
     (if \<not> is_own r g then (False, db)
      else case rc_to r of
        Marker (c # cs) \<Rightarrow> (True, set_cursor (lg_name g) (lg_source g) (c # cs) db)
      | _ \<Rightarrow> (False, db))"

section \<open>The shipper\<close>

record log_batch =
  bt_lines :: "(string, json) dict list"
  bt_dropped :: nat
  bt_receipt :: receipt
  bt_more :: bool

text \<open>The line parser and the bucket resolver.\<close>

type_synonym line_parser = "string \<Rightarrow> (string, json) dict option"
type_synonym resolver = "json \<Rightarrow> json \<Rightarrow> string"

definition BUCKET_ID_PARSER :: string where "BUCKET_ID_PARSER = ''garage_s3''"

definition stamp_bucket_id :: "resolver option \<Rightarrow> (string, json) dict \<Rightarrow> (string, json) dict" where
  "stamp_bucket_id resolve entry =
     dict_set ''bucket_id''
       (JStr (case resolve of
          Some f \<Rightarrow> f (get_or entry ''key_id'' (JStr [])) (get_or entry ''bucket'' (JStr []))
        | None \<Rightarrow> [])) entry"

definition parse_lines ::
  "log_group \<Rightarrow> line_parser \<Rightarrow> resolver option \<Rightarrow> string list \<Rightarrow> (string, json) dict list \<times> nat" where
  "parse_lines g parser resolve matched =
     (let entries = List.map_filter parser matched;
          stamped = (if lg_parser g = BUCKET_ID_PARSER then map (stamp_bucket_id resolve) entries else entries)
      in (stamped, length matched - length stamped))"

text \<open>\<open>collect_batch\<close> over a file: the answer, and the store a wholly filtered read may have moved.\<close>

definition collect_batch ::
  "(string \<Rightarrow> string) \<Rightarrow> (string \<Rightarrow> string) \<Rightarrow> line_parser \<Rightarrow> resolver option \<Rightarrow> log_group
    \<Rightarrow> receipt list option \<Rightarrow> opened \<Rightarrow> position_db \<Rightarrow> log_batch option \<times> position_db" where
  "collect_batch digest decode_utf8 parser resolve g pending opn db =
     (let (raw_lines, r) = read_new_lines digest decode_utf8 g db opn;
          matched = filter (contains (lg_filter g)) raw_lines
      in if raw_lines = [] then (None, db)
         else if matched = [] then (None, snd (consume_filtered (confirm_shipped digest g opn) r pending db))
         else let (parsed, dropped) = parse_lines g parser resolve matched
           in (Some \<lparr>bt_lines = parsed, bt_dropped = dropped, bt_receipt = r,
                 bt_more = (lg_max_lines g \<le> length raw_lines)\<rparr>, db))"

section \<open>Batches in flight\<close>

text \<open>\<open>PendingBatches\<close>, time in milliseconds; \<open>pb_released\<close> holds the group events that are set.\<close>

record pending_batches =
  pb_entries :: "(string, receipt \<times> int) dict"
  pb_released :: "string list"

definition ACK_TIMEOUT_MS :: int where "ACK_TIMEOUT_MS = 30000"

definition new_pending :: pending_batches where
  "new_pending = \<lparr>pb_entries = [], pb_released = []\<rparr>"

definition add_batch :: "string \<Rightarrow> receipt \<Rightarrow> int \<Rightarrow> pending_batches \<Rightarrow> pending_batches" where
  "add_batch batch_id r now p =
     \<lparr>pb_entries = dict_set batch_id (r, now) (pb_entries p), pb_released = removeAll (rc_group r) (pb_released p)\<rparr>"

definition pop_batch :: "string \<Rightarrow> bool \<Rightarrow> pending_batches \<Rightarrow> receipt option \<times> pending_batches" where
  "pop_batch batch_id release p =
     (case dict_get (pb_entries p) batch_id of
        None \<Rightarrow> (None, p)
      | Some (r, sent_at) \<Rightarrow>
          (Some r, \<lparr>pb_entries = dict_pop batch_id (pb_entries p),
             pb_released = (if release then rc_group r # pb_released p else pb_released p)\<rparr>))"

definition in_flight :: "string \<Rightarrow> pending_batches \<Rightarrow> bool" where
  "in_flight g p \<longleftrightarrow> list_ex (\<lambda>(i, r, t). rc_group r = g) (pb_entries p)"

definition peek_batch :: "string \<Rightarrow> pending_batches \<Rightarrow> receipt option" where
  "peek_batch batch_id p = map_option fst (dict_get (pb_entries p) batch_id)"

definition pending_receipts :: "pending_batches \<Rightarrow> receipt list" where
  "pending_receipts p = map (\<lambda>(i, r, t). r) (pb_entries p)"

definition prune_stale :: "int \<Rightarrow> pending_batches \<Rightarrow> pending_batches \<times> nat" where
  "prune_stale now p =
     (let cut = now - ACK_TIMEOUT_MS; stale = filter (\<lambda>(i, r, t). t < cut) (pb_entries p)
      in (\<lparr>pb_entries = filter (\<lambda>(i, r, t). \<not> t < cut) (pb_entries p),
           pb_released = map (\<lambda>(i, r, t). rc_group r) stale @ pb_released p\<rparr>, length stale))"

section \<open>One group's delivery\<close>

record feed =
  fd_digest :: "string \<Rightarrow> string"
  fd_decode :: "string \<Rightarrow> string"
  fd_parser :: line_parser
  fd_group :: log_group

text \<open>
  The world of one file group: the file, the store, the tracker, and as history the ranges handed over
  (to the wire with their batch id and lines, or to nobody because nothing in them matched) and the
  batch ids the control plane acknowledged.
\<close>

type_synonym handed = "(string \<times> (string, json) dict list) option \<times> nat \<times> nat"

record log_world =
  lw_file :: log_file
  lw_db :: position_db
  lw_pending :: pending_batches
  lw_handed :: "handed list"
  lw_acked :: "string list"

fun offset_of :: "log_position \<Rightarrow> nat" where
  "offset_of (Offset n) = n"
| "offset_of (Marker s) = 0"

text \<open>\<open>_ship_one\<close>: collect against the pending receipts, and track what is sent.\<close>

definition ship_one :: "feed \<Rightarrow> string \<Rightarrow> int \<Rightarrow> resolver option \<Rightarrow> log_world \<Rightarrow> log_world" where
  "ship_one c batch_id now resolve w =
     (case collect_batch (fd_digest c) (fd_decode c) (fd_parser c) resolve (fd_group c)
             (Some (pending_receipts (lw_pending w))) (Opened (lw_file w)) (lw_db w) of
        (Some b, db) \<Rightarrow>
          w\<lparr>lw_db := db, lw_pending := add_batch batch_id (bt_receipt b) now (lw_pending w),
             lw_handed := (Some (batch_id, bt_lines b), offset_of (rc_from (bt_receipt b)),
                           offset_of (rc_to (bt_receipt b))) # lw_handed w\<rparr>
      | (None, db) \<Rightarrow>
          w\<lparr>lw_db := db,
             lw_handed := (None, cp_position (checkpoint_of (lw_db w) (lg_name (fd_group c))),
                           cp_position (checkpoint_of db (lg_name (fd_group c)))) # lw_handed w\<rparr>)"

text \<open>
  One turn of \<open>log_loop\<close> for a tailer that does not read ahead: stale batches go first, and a group
  with a batch in flight is held.
\<close>

definition log_tick :: "feed \<Rightarrow> string \<Rightarrow> int \<Rightarrow> resolver option \<Rightarrow> log_world \<Rightarrow> log_world" where
  "log_tick c batch_id now resolve w =
     (let w1 = w\<lparr>lw_pending := fst (prune_stale now (lw_pending w))\<rparr>
      in if in_flight (lg_name (fd_group c)) (lw_pending w1) then w1
         else ship_one c batch_id now resolve w1)"

text \<open>\<open>handle_log_batch_ack\<close>: confirm with the group's shipper, then resolve.\<close>

definition log_ack :: "feed \<Rightarrow> string \<Rightarrow> log_world \<Rightarrow> log_world" where
  "log_ack c batch_id w =
     (case peek_batch batch_id (lw_pending w) of
        None \<Rightarrow> w
      | Some r \<Rightarrow>
          (let (confirmed, db) =
                 (if rc_group r = lg_name (fd_group c)
                  then confirm_shipped (fd_digest c) (fd_group c) (Opened (lw_file w)) r (lw_db w)
                  else (False, lw_db w))
           in w\<lparr>lw_db := db, lw_pending := snd (pop_batch batch_id confirmed (lw_pending w)),
                lw_acked := batch_id # lw_acked w\<rparr>))"

datatype log_op = Grow string | Tick string int "resolver option" | LogAck string

fun log_step :: "feed \<Rightarrow> log_world \<Rightarrow> log_op \<Rightarrow> log_world" where
  "log_step c w (Grow s) = w\<lparr>lw_file := (lw_file w)\<lparr>lf_content := lf_content (lw_file w) @ s\<rparr>\<rparr>"
| "log_step c w (Tick batch_id now resolve) = log_tick c batch_id now resolve w"
| "log_step c w (LogAck batch_id) = log_ack c batch_id w"

section \<open>The promise\<close>

text \<open>
  What delivery promises, without files, receipts or stores: the log grows; ranges of it are handed
  over; an id is acknowledged; and the done mark moves over a range that was handed over, starts at or
  before the mark, and was acknowledged or had nothing to deliver.
\<close>

record delivery =
  dl_length :: nat
  dl_done :: nat
  dl_handed :: "(string option \<times> nat \<times> nat) list"
  dl_acked :: "string list"

definition settled_by :: "string list \<Rightarrow> string option \<Rightarrow> bool" where
  "settled_by ids src = (case src of None \<Rightarrow> True | Some i \<Rightarrow> i \<in> set ids)"

inductive delivery_step :: "delivery \<Rightarrow> delivery \<Rightarrow> bool" where
  grow: "dl_length d \<le> n \<Longrightarrow> delivery_step d (d\<lparr>dl_length := n\<rparr>)"
| hand: "s \<le> e \<Longrightarrow> e \<le> dl_length d \<Longrightarrow> delivery_step d (d\<lparr>dl_handed := (src, s, e) # dl_handed d\<rparr>)"
| acknowledge: "delivery_step d (d\<lparr>dl_acked := i # dl_acked d\<rparr>)"
| advance: "(src, s, e) \<in> set (dl_handed d) \<Longrightarrow> s \<le> dl_done d \<Longrightarrow> dl_done d < e \<Longrightarrow>
    settled_by (dl_acked d) src \<Longrightarrow> delivery_step d (d\<lparr>dl_done := e\<rparr>)"

inductive_cases delivery_stepE: "delivery_step d d'"

definition all_delivered :: "delivery \<Rightarrow> bool" where
  "all_delivered d \<longleftrightarrow> (\<forall>i < dl_done d. \<exists>(src, s, e)\<in>set (dl_handed d). s \<le> i \<and> i < e
     \<and> settled_by (dl_acked d) src)"

lemma delivery_keeps: "delivery_step d d' \<Longrightarrow> all_delivered d \<Longrightarrow> all_delivered d'"
proof (induction rule: delivery_step.induct)
  case (advance src s e d)
  have "\<exists>x\<in>set (dl_handed d). case x of (src, s, e) \<Rightarrow> s \<le> i \<and> i < e \<and> settled_by (dl_acked d) src"
    if "i < e" for i
  proof (cases "i < dl_done d")
    case True
    with advance.prems show ?thesis by (simp add: all_delivered_def)
  next
    case False
    with advance.hyps that show ?thesis by (intro bexI [of _ "(src, s, e)"]) auto
  qed
  then show ?case by (simp add: all_delivered_def)
next
  case (grow d n)
  then show ?case by (simp add: all_delivered_def)
next
  case (hand s e d src)
  then show ?case unfolding all_delivered_def by (simp add: bex_simps(5))
next
  case (acknowledge d i)
  have "settled_by (i # dl_acked d) src" if "settled_by (dl_acked d) src" for src
    using that by (auto simp: settled_by_def split: option.splits)
  with acknowledge show ?case unfolding all_delivered_def by fastforce
qed

lemma delivery_all: "delivery_step\<^sup>*\<^sup>* d d' \<Longrightarrow> all_delivered d \<Longrightarrow> all_delivered d'"
  by (induction rule: rtranclp_induct) (auto intro: delivery_keeps)

definition delivery_of :: "feed \<Rightarrow> log_world \<Rightarrow> delivery" where
  "delivery_of c w =
     \<lparr>dl_length = length (lf_content (lw_file w)),
      dl_done = cp_position (checkpoint_of (lw_db w) (lg_name (fd_group c))),
      dl_handed = map (\<lambda>(src, s, e). (map_option fst src, s, e)) (lw_handed w), dl_acked = lw_acked w\<rparr>"

section \<open>The store's contract\<close>

text \<open>What the tailer relies on: what it stored is what it reads back, and no other group moves.\<close>

locale checkpoint_store =
  fixes lookup :: "'db \<Rightarrow> string \<Rightarrow> checkpoint"
    and put :: "string \<Rightarrow> string \<Rightarrow> nat \<Rightarrow> nat \<Rightarrow> generation option \<Rightarrow> 'db \<Rightarrow> 'db"
  assumes lookup_put: "lookup (put g path pos inode head db) g =
      \<lparr>cp_position = pos, cp_inode = Some inode, cp_generation = map_option (\<lambda>h. h\<lparr>gn_inode := inode\<rparr>) head\<rparr>"
    and lookup_other: "g \<noteq> g' \<Longrightarrow> lookup (put g path pos inode head db) g' = lookup db g'"
begin

lemma lookup_commit:
  "lookup (put g path e (gn_inode gen) (Some gen) db) g =
     \<lparr>cp_position = e, cp_inode = Some (gn_inode gen), cp_generation = Some gen\<rparr>"
  by (simp add: lookup_put)

text \<open>Commits of other groups, however many, leave a group where it was.\<close>

lemma commits_isolated:
  "g \<notin> fst ` set commits \<Longrightarrow>
    lookup (fold (\<lambda>(h, path, e, gen). put h path e (gn_inode gen) (Some gen)) commits db) g = lookup db g"
  by (induction commits arbitrary: db) (auto simp: lookup_other)

end

lemma option_pair_case: "(case (map_option f h, map_option g h) of (Some a, Some b) \<Rightarrow> P a b | _ \<Rightarrow> Q) =
    (case h of Some x \<Rightarrow> P (f x) (g x) | None \<Rightarrow> Q)"
  by (cases h) simp_all

interpretation positions: checkpoint_store checkpoint_of set_position
proof (unfold_locales, goal_cases)
  case (1 g path pos inode head db)
  show ?case
    by (cases head) (simp_all add: checkpoint_of_def set_position_def upsert_def dict_get_set)
next
  case (2 g g' path pos inode head db)
  then show ?case by (simp add: checkpoint_of_def set_position_def upsert_def dict_get_set)
qed

section \<open>Reading lines\<close>

lemma read_line_append: "read_line s = (l, rest) \<Longrightarrow> s = l @ rest"
  by (induction s arbitrary: l rest) (auto split: if_splits prod.splits)

lemma read_line_nonempty: "read_line s = (l, rest) \<Longrightarrow> s \<noteq> [] \<Longrightarrow> l \<noteq> []"
  by (cases s) (auto split: if_splits prod.splits)

text \<open>A line that stops before the end stops at its newline, whatever follows.\<close>

lemma read_line_again:
  "read_line s = (l, rest) \<Longrightarrow> rest \<noteq> [] \<or> t = [] \<Longrightarrow> read_line (l @ t) = (l, t)"
  by (induction s arbitrary: l rest) (auto split: if_splits prod.splits)

lemma read_lines_append: "\<exists>rest. s = concat (read_lines n s) @ rest"
proof (induction n s rule: read_lines.induct)
  case (2 n s)
  obtain l rest where l: "read_line s = (l, rest)" by fastforce
  show ?case
  proof (cases "s = []")
    case False
    from 2 [OF False l [symmetric] refl] obtain t where "rest = concat (read_lines n rest) @ t" by blast
    with read_line_append [OF l] have "s = (l @ concat (read_lines n rest)) @ t" by simp
    with False l show ?thesis by auto
  qed simp
qed simp

lemma read_lines_take: "take (length (concat (read_lines n s))) s = concat (read_lines n s)"
proof -
  obtain rest where "s = concat (read_lines n s) @ rest" using read_lines_append [of s n] by blast
  then show ?thesis by (metis append_eq_conv_conj)
qed

lemma read_lines_length: "length (concat (read_lines n s)) \<le> length s"
  using read_lines_take [of n s] by (metis length_take min.cobounded1)

lemma read_lines_nonempty: "[] \<notin> set (read_lines n s)"
proof (induction n s rule: read_lines.induct)
  case (2 n s)
  obtain l rest where l: "read_line s = (l, rest)" by fastforce
  with 2 read_line_nonempty [OF l] show ?case by auto
qed simp

lemma read_lines_le: "length (read_lines n s) \<le> length (concat (read_lines n s))"
proof -
  have "length xs \<le> length (concat xs)" if "[] \<notin> set xs" for xs :: "string list"
    using that
  proof (induction xs)
    case (Cons x xs)
    then have "1 \<le> length x" by (cases x) auto
    with Cons show ?case by auto
  qed simp
  then show ?thesis using read_lines_nonempty by blast
qed

text \<open>Reading the bytes a read covered gives its lines again.\<close>

lemma read_lines_again:
  "length (read_lines n s) \<le> m \<Longrightarrow> read_lines m (concat (read_lines n s)) = read_lines n s"
proof (induction n s arbitrary: m rule: read_lines.induct)
  case (2 n s)
  show ?case
  proof (cases "s = []")
    case True
    then show ?thesis by (cases m) auto
  next
    case False
    obtain l rest where l: "read_line s = (l, rest)" by fastforce
    with False 2(2) obtain m' where m: "m = Suc m'" "length (read_lines n rest) \<le> m'"
      by (cases m) auto
    have "rest \<noteq> [] \<or> concat (read_lines n rest) = []" by (cases n) auto
    from read_line_again [OF l this] read_line_nonempty [OF l False] 2(1) [OF False l [symmetric] refl m(2)]
    show ?thesis using False l m(1) by simp
  qed
next
  case (1 s)
  then show ?case by (cases m) auto
qed

text \<open>The lines of a range of the file, as the tailer decodes them, and those the filter keeps.\<close>

definition range_lines :: "feed \<Rightarrow> nat \<Rightarrow> nat \<Rightarrow> string \<Rightarrow> string list" where
  "range_lines c s e content =
     filter (contains (lg_filter (fd_group c)))
       (map (fd_decode c) (read_lines (e - s) (take (e - s) (drop s content))))"

lemma range_lines_grow: "e \<le> length content \<Longrightarrow> range_lines c s e (content @ extra) = range_lines c s e content"
  by (simp add: range_lines_def)

lemma range_lines_read:
  assumes "raws = read_lines n (drop s content)" "e = s + length (concat raws)"
  shows "range_lines c s e content = filter (contains (lg_filter (fd_group c))) (map (fd_decode c) raws)"
proof -
  have "take (e - s) (drop s content) = concat raws"
    using read_lines_take [of n "drop s content"] assms by simp
  moreover have "length raws \<le> e - s"
    using read_lines_le [of n "drop s content"] assms by simp
  ultimately show ?thesis
    using read_lines_again [of n "drop s content" "e - s"] assms(1) by (simp add: range_lines_def)
qed

section \<open>The world stays consistent\<close>

definition fits :: "feed \<Rightarrow> log_file \<Rightarrow> checkpoint \<Rightarrow> bool" where
  "fits c f cp \<longleftrightarrow> cp_inode cp \<in> {None, Some (lf_inode f)} \<and> cp_position cp \<le> length (lf_content f)
     \<and> (case cp_generation cp of None \<Rightarrow> True | Some g \<Rightarrow> holds (fd_digest c) f g)"

definition here :: "feed \<Rightarrow> log_world \<Rightarrow> checkpoint" where
  "here c w = checkpoint_of (lw_db w) (lg_name (fd_group c))"

definition issued :: "feed \<Rightarrow> log_world \<Rightarrow> string \<Rightarrow> receipt \<Rightarrow> bool" where
  "issued c w i r \<longleftrightarrow> (\<exists>gen s e lines. r = file_receipt (fd_group c) (Some gen) s e
     \<and> holds (fd_digest c) (lw_file w) gen \<and> gn_inode gen = lf_inode (lw_file w)
     \<and> s \<le> cp_position (here c w) \<and> s \<le> e \<and> e \<le> length (lf_content (lw_file w))
     \<and> (Some (i, lines), s, e) \<in> set (lw_handed w))"

lemma issuedI:
  "r = file_receipt (fd_group c) (Some gen) s e \<Longrightarrow> holds (fd_digest c) (lw_file w) gen \<Longrightarrow>
    gn_inode gen = lf_inode (lw_file w) \<Longrightarrow> s \<le> cp_position (here c w) \<Longrightarrow> s \<le> e \<Longrightarrow>
    e \<le> length (lf_content (lw_file w)) \<Longrightarrow> (Some (i, lines), s, e) \<in> set (lw_handed w) \<Longrightarrow> issued c w i r"
  unfolding issued_def by blast

definition handed_ok :: "feed \<Rightarrow> string \<Rightarrow> handed \<Rightarrow> bool" where
  "handed_ok c content h \<longleftrightarrow> (case h of (src, s, e) \<Rightarrow> s \<le> e \<and> e \<le> length content
     \<and> (case src of
          None \<Rightarrow> s = e \<or> range_lines c s e content = []
        | Some (i, lines) \<Rightarrow> \<exists>resolve. lines = fst (parse_lines (fd_group c) (fd_parser c) resolve
              (range_lines c s e content))))"

definition world_ok :: "feed \<Rightarrow> log_world \<Rightarrow> bool" where
  "world_ok c w \<longleftrightarrow> fits c (lw_file w) (here c w) \<and> (\<forall>(i, r, t)\<in>set (pb_entries (lw_pending w)). issued c w i r)
     \<and> (\<forall>h\<in>set (lw_handed w). handed_ok c (lf_content (lw_file w)) h)"

lemma generation_grow:
  assumes "gn_head_len g \<le> length (lf_content f)"
  shows "generation_of digest inode (gn_head_len g) (f\<lparr>lf_content := lf_content f @ extra\<rparr>) =
    generation_of digest inode (gn_head_len g) f"
  using assms by (simp add: generation_of_def)

lemma holds_len: "holds digest f g \<Longrightarrow> gn_head_len g \<le> length (lf_content f)"
  by (auto simp: holds_def generation_of_def Let_def dest!: arg_cong [where f = gn_head_len])

lemma holds_grow: "holds digest f g \<Longrightarrow> holds digest (f\<lparr>lf_content := lf_content f @ extra\<rparr>) g"
  using holds_len [of digest f g] by (simp add: holds_def generation_grow)

lemma holds_read: "e \<le> length (lf_content f) \<Longrightarrow> holds digest f (generation_of digest (lf_inode f) e f)"
  by (simp add: holds_def generation_of_def min_def Let_def)

lemma resume_fits: "fits c f cp \<Longrightarrow> resume_point (fd_digest c) cp f = cp_position cp"
  by (auto simp: fits_def resume_point_def split: option.splits)

text \<open>One read of a consistent world.\<close>

lemma read_here:
  assumes "fits c (lw_file w) (here c w)"
    and "read_new_lines (fd_digest c) (fd_decode c) (fd_group c) (lw_db w) (Opened (lw_file w)) = (lines, r)"
  obtains s e where "s = cp_position (here c w)" "s \<le> e" "e \<le> length (lf_content (lw_file w))"
    "r = file_receipt (fd_group c) (Some (generation_of (fd_digest c) (lf_inode (lw_file w)) e (lw_file w))) s e"
    "filter (contains (lg_filter (fd_group c))) lines = range_lines c s e (lf_content (lw_file w))"
    "lines \<noteq> [] \<Longrightarrow> s < e" "lines = [] \<Longrightarrow> 0 < lg_max_lines (fd_group c) \<Longrightarrow> s = length (lf_content (lw_file w))"
proof -
  let ?s = "cp_position (here c w)" and ?f = "lw_file w"
  let ?n = "min (lg_max_lines (fd_group c)) MAX_LINES_PER_INTERVAL"
  let ?raws = "read_lines ?n (drop ?s (lf_content ?f))"
  let ?e = "?s + length (concat ?raws)"
  have s: "resume_point (fd_digest c) (checkpoint_of (lw_db w) (lg_name (fd_group c))) ?f = ?s"
    using resume_fits [OF assms(1)] by (simp add: here_def)
  have le: "?e \<le> length (lf_content ?f)"
  proof -
    have "length (concat ?raws) \<le> length (lf_content ?f) - ?s"
      using read_lines_length [of ?n "drop ?s (lf_content ?f)"] by (simp only: length_drop)
    moreover have "?s \<le> length (lf_content ?f)" using assms(1) by (simp add: fits_def)
    ultimately show ?thesis by linarith
  qed
  have lt: "?s < ?e" if "?raws \<noteq> []"
  proof -
    have "0 < length ?raws" using that unfolding length_greater_0_conv .
    then show ?thesis using read_lines_le [of ?n "drop ?s (lf_content ?f)"] by linarith
  qed
  have at_end: "?s = length (lf_content ?f)" if none: "?raws = []" and max: "0 < lg_max_lines (fd_group c)"
  proof -
    obtain m where m: "?n = Suc m" using max by (cases ?n) (auto simp: MAX_LINES_PER_INTERVAL_def)
    have "drop ?s (lf_content ?f) = []" using none unfolding m
      by (auto split: if_splits prod.splits)
    with le show ?thesis by simp
  qed
  show thesis
  proof (rule that [OF refl _ le])
    show "?s = length (lf_content ?f)" if "lines = []" "0 < lg_max_lines (fd_group c)"
      using assms(2) that by (intro at_end) (auto simp: read_new_lines_def s Let_def)
    show "r = file_receipt (fd_group c) (Some (generation_of (fd_digest c) (lf_inode ?f) ?e ?f)) ?s ?e"
      using assms(2) by (simp add: read_new_lines_def s Let_def)
    show "filter (contains (lg_filter (fd_group c))) lines = range_lines c ?s ?e (lf_content ?f)"
      using assms(2) by (simp add: read_new_lines_def s Let_def range_lines_read [OF refl refl])
    show "?s < ?e" if "lines \<noteq> []"
      using assms(2) that by (intro lt) (auto simp: read_new_lines_def s Let_def)
  qed simp
qed

text \<open>
  A receipt of the current file whose range starts at or before the mark moves the mark to its end,
  unless the mark is there already.
\<close>

lemma confirm_range:
  assumes fits: "fits c (lw_file w) (here c w)"
    and r: "r = file_receipt (fd_group c) (Some gen) s e"
    and gen: "holds (fd_digest c) (lw_file w) gen" "gn_inode gen = lf_inode (lw_file w)"
    and le: "s \<le> cp_position (here c w)" "e \<le> length (lf_content (lw_file w))"
    and confirm: "confirm_shipped (fd_digest c) (fd_group c) (Opened (lw_file w)) r (lw_db w) = (confirmed, db)"
  shows "(confirmed \<longleftrightarrow> cp_position (here c w) < e) \<and> fits c (lw_file w) (here c (w\<lparr>lw_db := db\<rparr>))
    \<and> cp_position (here c (w\<lparr>lw_db := db\<rparr>)) = max (cp_position (here c w)) e"
proof -
  have own: "own_range (fd_group c) r = Some (gen, s, e)"
    by (simp add: own_range_def is_own_def r file_receipt_def)
  have base: "base_for (fd_digest c) (fd_group c) (lw_db w) (Opened (lw_file w)) gen e = Some (cp_position (here c w))"
    using gen(1) le(2) resume_fits [OF fits] by (simp add: base_for_def here_def)
  show ?thesis
  proof (cases "cp_position (here c w) < e")
    case True
    with confirm own base le(1) have "confirmed" "db = set_position (lg_name (fd_group c)) (lg_source (fd_group c)) e
        (gn_inode gen) (Some gen) (lw_db w)"
      by (simp_all add: confirm_shipped_def)
    moreover from this(2) have "here c (w\<lparr>lw_db := db\<rparr>) =
        \<lparr>cp_position = e, cp_inode = Some (gn_inode gen), cp_generation = Some gen\<rparr>"
      by (simp add: here_def positions.lookup_commit)
    ultimately show ?thesis using True gen le(2) by (simp add: fits_def)
  next
    case False
    with confirm own base have "\<not> confirmed" "db = lw_db w"
      by (simp_all add: confirm_shipped_def)
    with False fits show ?thesis by (simp add: here_def)
  qed
qed

lemma issued_mono:
  assumes "issued c w i r" "cp_position (here c w) \<le> cp_position (here c w')" "lw_file w' = lw_file w"
    and "set (lw_handed w) \<subseteq> set (lw_handed w')"
  shows "issued c w' i r"
proof -
  from assms(1) obtain gen s e lines where r: "r = file_receipt (fd_group c) (Some gen) s e"
      "holds (fd_digest c) (lw_file w) gen" "gn_inode gen = lf_inode (lw_file w)"
    and le: "s \<le> cp_position (here c w)" "s \<le> e" "e \<le> length (lf_content (lw_file w))"
    and h: "(Some (i, lines), s, e) \<in> set (lw_handed w)"
    unfolding issued_def by blast
  from le(1) assms(2) have "s \<le> cp_position (here c w')" by simp
  with r(2,3) le h assms(3,4) show ?thesis by (intro issuedI [OF r(1)]) auto
qed

lemma world_ok_grow:
  assumes "world_ok c w"
  shows "world_ok c (log_step c w (Grow s))"
proof -
  let ?w = "log_step c w (Grow s)"
  have "handed_ok c (lf_content (lw_file ?w)) h" if "handed_ok c (lf_content (lw_file w)) h" for h
    using that by (auto simp: handed_ok_def range_lines_grow split: option.splits)
  moreover have "issued c ?w i r" if "issued c w i r" for i r
  proof -
    from that obtain gen s' e lines where r: "r = file_receipt (fd_group c) (Some gen) s' e"
        "holds (fd_digest c) (lw_file w) gen" "gn_inode gen = lf_inode (lw_file w)"
      and le: "s' \<le> cp_position (here c w)" "s' \<le> e" "e \<le> length (lf_content (lw_file w))"
      and h: "(Some (i, lines), s', e) \<in> set (lw_handed w)"
      unfolding issued_def by blast
    have "holds (fd_digest c) (lw_file ?w) gen" using holds_grow [OF r(2)] by simp
    with r(3) le h show ?thesis by (intro issuedI [OF r(1)]) (auto simp: here_def)
  qed
  moreover have "fits c (lw_file ?w) (here c ?w)" if "fits c (lw_file w) (here c w)"
    using that by (auto simp: fits_def here_def holds_grow split: option.splits)
  ultimately show ?thesis using assms by (auto simp: world_ok_def)
qed

lemma update_others [simp]:
  "here c (w\<lparr>lw_pending := p\<rparr>) = here c w" "here c (w\<lparr>lw_acked := ids\<rparr>) = here c w"
  "here c (w\<lparr>lw_handed := hs\<rparr>) = here c w"
  "issued c (w\<lparr>lw_pending := p\<rparr>) i r = issued c w i r" "issued c (w\<lparr>lw_acked := ids\<rparr>) i r = issued c w i r"
  by (simp_all add: here_def issued_def)

lemma world_ok_pending:
  assumes "world_ok c w" "set (pb_entries p) \<subseteq> set (pb_entries (lw_pending w))"
  shows "world_ok c (w\<lparr>lw_pending := p\<rparr>)"
  using assms unfolding world_ok_def by auto

lemma prune_subset: "set (pb_entries (fst (prune_stale now p))) \<subseteq> set (pb_entries p)"
  by (auto simp: prune_stale_def Let_def)

lemma pop_subset: "set (pb_entries (snd (pop_batch i b p))) \<subseteq> set (pb_entries p)"
  using set_dict_pop [of i "pb_entries p"] by (auto simp: pop_batch_def split: option.splits)


lemma issued_group: "issued c w i r \<Longrightarrow> rc_group r = lg_name (fd_group c)"
  by (auto simp: issued_def file_receipt_def)

lemma not_in_flight:
  assumes "world_ok c w" "\<not> in_flight (lg_name (fd_group c)) (lw_pending w)"
  shows "pb_entries (lw_pending w) = []"
proof (rule ccontr)
  assume "pb_entries (lw_pending w) \<noteq> []"
  then obtain i r t where entry: "(i, r, t) \<in> set (pb_entries (lw_pending w))"
    by (cases "pb_entries (lw_pending w)") auto
  with assms(1) have "issued c w i r" unfolding world_ok_def by auto
  with entry assms(2) issued_group show False by (force simp: in_flight_def list_ex_iff)
qed

text \<open>What a tick that is not held does.\<close>

lemma tick_cases:
  assumes ok: "world_ok c w" and free: "pb_entries (lw_pending w) = []"
    and collect: "collect_batch (fd_digest c) (fd_decode c) (fd_parser c) resolve (fd_group c)
      (Some (pending_receipts (lw_pending w))) (Opened (lw_file w)) (lw_db w) = (b, db)"
  obtains (idle) "b = None" "db = lw_db w"
      "0 < lg_max_lines (fd_group c) \<Longrightarrow> cp_position (here c w) = length (lf_content (lw_file w))"
  | (skipped) e where "b = None" "cp_position (here c w) < e" "e \<le> length (lf_content (lw_file w))"
      "range_lines c (cp_position (here c w)) e (lf_content (lw_file w)) = []"
      "fits c (lw_file w) (here c (w\<lparr>lw_db := db\<rparr>))" "cp_position (here c (w\<lparr>lw_db := db\<rparr>)) = e"
  | (batched) bt gen e where "b = Some bt" "db = lw_db w" "cp_position (here c w) < e"
      "e \<le> length (lf_content (lw_file w))" "holds (fd_digest c) (lw_file w) gen" "gn_inode gen = lf_inode (lw_file w)"
      "bt_receipt bt = file_receipt (fd_group c) (Some gen) (cp_position (here c w)) e"
      "bt_lines bt = fst (parse_lines (fd_group c) (fd_parser c) resolve
         (range_lines c (cp_position (here c w)) e (lf_content (lw_file w))))"
proof -
  obtain lines r where read: "read_new_lines (fd_digest c) (fd_decode c) (fd_group c) (lw_db w)
      (Opened (lw_file w)) = (lines, r)" by fastforce
  from ok have fits: "fits c (lw_file w) (here c w)" by (simp add: world_ok_def)
  from fits read show thesis
  proof (rule read_here, goal_cases)
    case (1 s e)
    let ?gen = "generation_of (fd_digest c) (lf_inode (lw_file w)) e (lw_file w)"
    have gen: "holds (fd_digest c) (lw_file w) ?gen" "gn_inode ?gen = lf_inode (lw_file w)"
      using 1(3) by (simp_all add: holds_read) (simp add: generation_of_def Let_def)
    consider "lines = []" | "lines \<noteq> []" "range_lines c s e (lf_content (lw_file w)) = []"
      | "lines \<noteq> []" "range_lines c s e (lf_content (lw_file w)) \<noteq> []" by blast
    then show thesis
    proof cases
      assume "lines = []"
      with collect read 1 show thesis by (intro idle) (simp_all add: collect_batch_def)
    next
      assume none: "lines \<noteq> []" "range_lines c s e (lf_content (lw_file w)) = []"
      obtain confirmed db' where confirm: "confirm_shipped (fd_digest c) (fd_group c) (Opened (lw_file w)) r (lw_db w)
          = (confirmed, db')" by fastforce
      from none collect read 1(5) free confirm have "b = None" "db = db'"
        by (simp_all add: collect_batch_def consume_filtered_def pending_receipts_def)
      with confirm_range [OF fits 1(4) gen _ 1(3) confirm] 1(1-3) 1(6) [OF none(1)] none(2) show thesis
        by (intro skipped [of e]) simp_all
    next
      assume some: "lines \<noteq> []" "range_lines c s e (lf_content (lw_file w)) \<noteq> []"
      with collect read 1(5) obtain bt where "b = Some bt" "db = lw_db w" "bt_receipt bt = r"
        "bt_lines bt = fst (parse_lines (fd_group c) (fd_parser c) resolve (range_lines c s e (lf_content (lw_file w))))"
        by (auto simp: collect_batch_def split: prod.splits)
      with 1 some(1) gen show thesis by (intro batched [of bt e ?gen]) simp_all
    qed
  qed
qed

lemma world_ok_db:
  assumes "world_ok c w" "fits c (lw_file w) (here c (w\<lparr>lw_db := db\<rparr>))"
    and "cp_position (here c w) \<le> cp_position (here c (w\<lparr>lw_db := db\<rparr>))"
  shows "world_ok c (w\<lparr>lw_db := db\<rparr>)"
proof -
  have "issued c (w\<lparr>lw_db := db\<rparr>) i r" if "issued c w i r" for i r
    using issued_mono [OF that assms(3)] by simp
  with assms(1,2) show ?thesis unfolding world_ok_def by auto
qed

lemma world_ok_hand:
  assumes "world_ok c w" "handed_ok c (lf_content (lw_file w)) h"
  shows "world_ok c (w\<lparr>lw_handed := h # lw_handed w\<rparr>)"
proof -
  have "issued c (w\<lparr>lw_handed := h # lw_handed w\<rparr>) i r" if "issued c w i r" for i r
    using issued_mono [OF that, of "w\<lparr>lw_handed := h # lw_handed w\<rparr>"] by auto
  with assms show ?thesis unfolding world_ok_def by auto
qed

lemma world_ok_acked: "world_ok c w \<Longrightarrow> world_ok c (w\<lparr>lw_acked := ids\<rparr>)"
  unfolding world_ok_def by simp

lemma delivery_of_others [simp]:
  "delivery_of c (w\<lparr>lw_pending := p\<rparr>) = delivery_of c w"
  "delivery_of c (w\<lparr>lw_acked := i # lw_acked w\<rparr>) = (delivery_of c w)\<lparr>dl_acked := i # dl_acked (delivery_of c w)\<rparr>"
  "delivery_of c (w\<lparr>lw_handed := (src, s, e) # lw_handed w\<rparr>) =
    (delivery_of c w)\<lparr>dl_handed := (map_option fst src, s, e) # dl_handed (delivery_of c w)\<rparr>"
  "delivery_of c (w\<lparr>lw_db := db\<rparr>) = (delivery_of c w)\<lparr>dl_done := cp_position (here c (w\<lparr>lw_db := db\<rparr>))\<rparr>"
  by (simp_all add: delivery_of_def here_def)

lemma delivery_of_sel [simp]:
  "dl_length (delivery_of c w) = length (lf_content (lw_file w))"
  "dl_done (delivery_of c w) = cp_position (here c w)" "dl_acked (delivery_of c w) = lw_acked w"
  by (simp_all add: delivery_of_def here_def)

section \<open>The program refines the promise\<close>

text \<open>A batch handed over, with the receipt the tracker keeps for it.\<close>

lemma hand_batch:
  assumes ok: "world_ok c w" and free: "pb_entries (lw_pending w) = []"
    and range: "cp_position (here c w) \<le> e" "e \<le> length (lf_content (lw_file w))"
    and gen: "holds (fd_digest c) (lw_file w) gen" "gn_inode gen = lf_inode (lw_file w)"
    and r: "r = file_receipt (fd_group c) (Some gen) (cp_position (here c w)) e"
    and lines: "lines = fst (parse_lines (fd_group c) (fd_parser c) resolve
      (range_lines c (cp_position (here c w)) e (lf_content (lw_file w))))"
  shows "world_ok c (w\<lparr>lw_handed := (Some (i, lines), cp_position (here c w), e) # lw_handed w,
    lw_pending := add_batch i r now (lw_pending w)\<rparr>)"
proof -
  let ?h = "(Some (i, lines), cp_position (here c w), e)"
  let ?w = "w\<lparr>lw_handed := ?h # lw_handed w\<rparr>"
  have "handed_ok c (lf_content (lw_file w)) ?h"
    using range lines by (auto simp: handed_ok_def)
  from world_ok_hand [OF ok this] have "world_ok c ?w" .
  moreover have "issued c ?w i r"
    using range gen by (intro issuedI [OF r, of _ i lines]) auto
  moreover have "pb_entries (add_batch i r now (lw_pending w)) = [(i, r, now)]"
    by (simp add: add_batch_def free)
  ultimately show ?thesis unfolding world_ok_def by simp
qed

lemma skip_range:
  assumes "dl_done d \<le> e" "e \<le> dl_length d"
  shows "delivery_step\<^sup>*\<^sup>* d (d\<lparr>dl_handed := (None, dl_done d, e) # dl_handed d, dl_done := e\<rparr>)"
proof -
  let ?d = "d\<lparr>dl_handed := (None, dl_done d, e) # dl_handed d\<rparr>"
  have "delivery_step d ?d" using assms by (rule delivery_step.hand)
  moreover have "delivery_step\<^sup>*\<^sup>* ?d (?d\<lparr>dl_done := e\<rparr>)"
  proof (cases "dl_done d = e")
    case False
    with assms show ?thesis
      by (intro r_into_rtranclp delivery_step.advance [of None "dl_done d"]) (simp_all add: settled_by_def)
  qed (cases d, simp)
  ultimately show ?thesis by (rule converse_rtranclp_into_rtranclp)
qed

text \<open>A tick of a group with nothing in flight.\<close>

lemma tick_effect:
  fixes i resolve
  assumes ok: "world_ok c w" and free: "pb_entries (fst (prune_stale now (lw_pending w))) = []"
  defines "w' \<equiv> log_tick c i now resolve w" and "d \<equiv> delivery_of c w"
  obtains (idle) "world_ok c w'" "pb_entries (lw_pending w') = []" "lw_file w' = lw_file w"
      "delivery_of c w' = d\<lparr>dl_handed := (None, dl_done d, dl_done d) # dl_handed d\<rparr>"
      "0 < lg_max_lines (fd_group c) \<Longrightarrow> dl_done d = dl_length d"
  | (skipped) e where "world_ok c w'" "pb_entries (lw_pending w') = []" "lw_file w' = lw_file w"
      "delivery_of c w' = d\<lparr>dl_handed := (None, dl_done d, e) # dl_handed d, dl_done := e\<rparr>"
      "dl_done d < e" "e \<le> dl_length d"
  | (batched) r e where "world_ok c w'" "pb_entries (lw_pending w') = [(i, r, now)]" "lw_file w' = lw_file w"
      "delivery_of c w' = d\<lparr>dl_handed := (Some i, dl_done d, e) # dl_handed d\<rparr>" "rc_to r = Offset e"
      "dl_done d < e" "e \<le> dl_length d"
proof -
  let ?p = "fst (prune_stale now (lw_pending w))"
  let ?w = "w\<lparr>lw_pending := ?p\<rparr>"
  have ok1: "world_ok c ?w" by (rule world_ok_pending [OF ok prune_subset])
  from free have held: "\<not> in_flight (lg_name (fd_group c)) ?p" by (simp add: in_flight_def)
  from free have free1: "pb_entries (lw_pending ?w) = []" by simp
  obtain b db where collect: "collect_batch (fd_digest c) (fd_decode c) (fd_parser c) resolve (fd_group c)
      (Some (pending_receipts (lw_pending ?w))) (Opened (lw_file ?w)) (lw_db ?w) = (b, db)" by fastforce
  from ok1 free1 collect show thesis
  proof (cases rule: tick_cases)
    case idle
    let ?h = "(None, cp_position (here c w), cp_position (here c w))"
    have tick: "w' = ?w\<lparr>lw_handed := ?h # lw_handed ?w\<rparr>"
      using held collect idle by (simp add: w'_def log_tick_def ship_one_def Let_def here_def)
    have "handed_ok c (lf_content (lw_file ?w)) ?h"
      using ok by (simp add: handed_ok_def world_ok_def fits_def)
    from world_ok_hand [OF ok1 this] have "world_ok c w'" unfolding tick .
    moreover have "delivery_of c w' = d\<lparr>dl_handed := (None, dl_done d, dl_done d) # dl_handed d\<rparr>"
      unfolding tick delivery_of_others d_def by simp
    moreover have "pb_entries (lw_pending w') = []" "lw_file w' = lw_file w" using free by (simp_all add: tick)
    ultimately show thesis using idle(3) by (intro that(1)) (simp_all add: d_def)
  next
    case (skipped e)
    let ?h = "(None, cp_position (here c w), e)"
    have tick: "w' = ?w\<lparr>lw_handed := ?h # lw_handed ?w\<rparr>\<lparr>lw_db := db\<rparr>"
      using held collect skipped by (simp add: w'_def log_tick_def ship_one_def Let_def here_def)
    have "handed_ok c (lf_content (lw_file ?w)) ?h"
      using skipped by (simp add: handed_ok_def)
    from world_ok_hand [OF ok1 this] have "world_ok c (?w\<lparr>lw_handed := ?h # lw_handed ?w\<rparr>)" .
    from world_ok_db [OF this, of db] skipped have "world_ok c w'"
      unfolding tick by (simp add: here_def)
    moreover have "delivery_of c w' = d\<lparr>dl_handed := (None, dl_done d, e) # dl_handed d, dl_done := e\<rparr>"
      using skipped unfolding tick delivery_of_others d_def by (simp add: here_def)
    moreover have "pb_entries (lw_pending w') = []" "lw_file w' = lw_file w" using free by (simp_all add: tick)
    ultimately show thesis using skipped by (intro that(2)) (simp_all add: d_def)
  next
    case (batched bt gen e)
    let ?h = "(Some (i, bt_lines bt), cp_position (here c w), e)"
    have tick: "w' = ?w\<lparr>lw_handed := ?h # lw_handed ?w, lw_pending := add_batch i (bt_receipt bt) now (lw_pending ?w)\<rparr>"
      using held collect batched
      by (cases w) (simp add: w'_def log_tick_def ship_one_def Let_def here_def file_receipt_def)
    have "world_ok c w'"
      using hand_batch [OF ok1 free1, of e gen "bt_receipt bt" "bt_lines bt" resolve i now] batched
      unfolding tick by simp
    moreover have "delivery_of c w' = d\<lparr>dl_handed := (Some i, dl_done d, e) # dl_handed d\<rparr>"
      unfolding tick delivery_of_others d_def by simp
    moreover have "pb_entries (lw_pending w') = [(i, bt_receipt bt, now)]" "lw_file w' = lw_file w"
      using free by (simp_all add: tick add_batch_def)
    ultimately show thesis
      using batched by (intro that(3) [of "bt_receipt bt" e]) (simp_all add: d_def file_receipt_def)
  qed
qed

lemma tick_simulates:
  assumes ok: "world_ok c w"
  shows "world_ok c (log_tick c i now resolve w)
    \<and> delivery_step\<^sup>*\<^sup>* (delivery_of c w) (delivery_of c (log_tick c i now resolve w))"
proof (cases "in_flight (lg_name (fd_group c)) (fst (prune_stale now (lw_pending w)))")
  case True
  then have "log_tick c i now resolve w = w\<lparr>lw_pending := fst (prune_stale now (lw_pending w))\<rparr>"
    by (simp add: log_tick_def Let_def)
  with world_ok_pending [OF ok prune_subset] show ?thesis by simp
next
  case False
  let ?w = "w\<lparr>lw_pending := fst (prune_stale now (lw_pending w))\<rparr>"
  have bound: "dl_done (delivery_of c w) \<le> dl_length (delivery_of c w)"
    using ok by (simp add: world_ok_def fits_def)
  have free: "pb_entries (fst (prune_stale now (lw_pending w))) = []"
    using not_in_flight [OF world_ok_pending [OF ok prune_subset]] False by simp
  from ok free show ?thesis
  proof (cases rule: tick_effect [where i = i and resolve = resolve])
    case idle
    then show ?thesis using bound
      by (auto intro!: r_into_rtranclp delivery_step.hand simp del: delivery_of_sel)
  next
    case (skipped e)
    then show ?thesis using skip_range [of "delivery_of c w" e] by simp
  next
    case (batched r e)
    then show ?thesis
      by (auto intro!: r_into_rtranclp delivery_step.hand simp del: delivery_of_sel)
  qed
qed

lemma ack_range:
  assumes "(Some i, s, e) \<in> set (dl_handed d)" "s \<le> dl_done d"
  shows "delivery_step\<^sup>*\<^sup>* d (d\<lparr>dl_acked := i # dl_acked d, dl_done := max (dl_done d) e\<rparr>)"
proof -
  let ?d = "d\<lparr>dl_acked := i # dl_acked d\<rparr>"
  have "delivery_step d ?d" by (rule delivery_step.acknowledge)
  moreover have "delivery_step\<^sup>*\<^sup>* ?d (?d\<lparr>dl_done := max (dl_done d) e\<rparr>)"
  proof (cases "dl_done d < e")
    case True
    with assms have "delivery_step ?d (?d\<lparr>dl_done := e\<rparr>)"
      by (intro delivery_step.advance [of "Some i" s]) (simp_all add: settled_by_def)
    with True show ?thesis by (simp add: max_def)
  qed (simp add: max_def)
  ultimately show ?thesis by (rule converse_rtranclp_into_rtranclp)
qed

text \<open>The acknowledgement of a pending batch.\<close>

lemma ack_effect:
  assumes ok: "world_ok c w" and pending: "peek_batch i (lw_pending w) = Some r"
  obtains s e lines where "rc_from r = Offset s" "rc_to r = Offset e" "s \<le> cp_position (here c w)"
    "(Some (i, lines), s, e) \<in> set (lw_handed w)" "world_ok c (log_ack c i w)"
    "delivery_of c (log_ack c i w) =
      (delivery_of c w)\<lparr>dl_acked := i # lw_acked w, dl_done := max (cp_position (here c w)) e\<rparr>"
proof -
  let ?confirm = "confirm_shipped (fd_digest c) (fd_group c) (Opened (lw_file w)) r (lw_db w)"
  obtain confirmed db where confirm: "?confirm = (confirmed, db)" by fastforce
  from pending obtain t where "(i, r, t) \<in> set (pb_entries (lw_pending w))"
    using dict_get_Some_in by (fastforce simp: peek_batch_def)
  with ok have "issued c w i r" unfolding world_ok_def by auto
  then obtain gen s e lines where r: "r = file_receipt (fd_group c) (Some gen) s e"
      and gen: "holds (fd_digest c) (lw_file w) gen" "gn_inode gen = lf_inode (lw_file w)"
      and le: "s \<le> cp_position (here c w)" "s \<le> e" "e \<le> length (lf_content (lw_file w))"
      and h: "(Some (i, lines), s, e) \<in> set (lw_handed w)"
    unfolding issued_def by blast
  from ok have fits: "fits c (lw_file w) (here c w)" by (simp add: world_ok_def)
  from confirm_range [OF fits r gen le(1) le(3) confirm]
  have moved: "fits c (lw_file w) (here c (w\<lparr>lw_db := db\<rparr>))"
      "cp_position (here c (w\<lparr>lw_db := db\<rparr>)) = max (cp_position (here c w)) e" by simp_all
  let ?p = "snd (pop_batch i confirmed (lw_pending w))"
  have ack: "log_ack c i w = w\<lparr>lw_acked := i # lw_acked w\<rparr>\<lparr>lw_db := db\<rparr>\<lparr>lw_pending := ?p\<rparr>"
    using pending confirm r by (cases w) (simp add: log_ack_def file_receipt_def)
  have "world_ok c (w\<lparr>lw_acked := i # lw_acked w\<rparr>\<lparr>lw_db := db\<rparr>)"
    using moved by (intro world_ok_db world_ok_acked ok) (simp_all add: here_def)
  from world_ok_pending [OF this, of ?p] pop_subset [of i confirmed "lw_pending w"]
  have ok': "world_ok c (log_ack c i w)" unfolding ack by simp
  have "delivery_of c (log_ack c i w) =
      (delivery_of c w)\<lparr>dl_acked := i # lw_acked w, dl_done := max (cp_position (here c w)) e\<rparr>"
    using moved(2) unfolding ack delivery_of_others by (simp add: here_def)
  from that [OF _ _ le(1) h ok' this] r show thesis by (simp add: file_receipt_def)
qed

lemma ack_simulates:
  assumes ok: "world_ok c w"
  shows "world_ok c (log_ack c i w)
    \<and> delivery_step\<^sup>*\<^sup>* (delivery_of c w) (delivery_of c (log_ack c i w))"
proof (cases "peek_batch i (lw_pending w)")
  case None
  with ok show ?thesis by (simp add: log_ack_def)
next
  case (Some r)
  from ok this obtain s e lines where le: "s \<le> cp_position (here c w)"
    and h: "(Some (i, lines), s, e) \<in> set (lw_handed w)" and ack: "world_ok c (log_ack c i w)"
      "delivery_of c (log_ack c i w) =
        (delivery_of c w)\<lparr>dl_acked := i # lw_acked w, dl_done := max (cp_position (here c w)) e\<rparr>"
    by (rule ack_effect)
  from h have "(Some i, s, e) \<in> set (dl_handed (delivery_of c w))"
    by (force simp: delivery_of_def)
  from ack_range [OF this] le ack show ?thesis by simp
qed

lemma log_step_simulates:
  assumes "world_ok c w"
  shows "world_ok c (log_step c w a) \<and> delivery_step\<^sup>*\<^sup>* (delivery_of c w) (delivery_of c (log_step c w a))"
proof (cases a)
  case (Grow s)
  have "delivery_of c (log_step c w (Grow s)) = (delivery_of c w)\<lparr>dl_length := length (lf_content (lw_file w) @ s)\<rparr>"
    by (simp add: delivery_of_def here_def)
  moreover have "delivery_step (delivery_of c w) ((delivery_of c w)\<lparr>dl_length := length (lf_content (lw_file w) @ s)\<rparr>)"
    by (rule delivery_step.grow) simp
  ultimately have "delivery_step (delivery_of c w) (delivery_of c (log_step c w a))"
    unfolding Grow by presburger
  then show ?thesis
    unfolding Grow using world_ok_grow [OF assms] by blast
next
  case (Tick i now resolve)
  then show ?thesis using tick_simulates [OF assms] by simp
next
  case (LogAck i)
  then show ?thesis using ack_simulates [OF assms] by simp
qed

interpretation logs: machine "log_step c" "\<lambda>w a. True" "world_ok c" for c
  by unfold_locales (rule log_step_simulates [THEN conjunct1])

lemma log_legal [simp]: "legal (log_step c) (\<lambda>w a. True) w ops"
  by (induction ops arbitrary: w) auto

definition new_world :: "log_file \<Rightarrow> log_world" where
  "new_world f = \<lparr>lw_file = f, lw_db = [], lw_pending = new_pending, lw_handed = [], lw_acked = []\<rparr>"

lemma new_world_ok: "world_ok c (new_world f)"
  by (simp add: world_ok_def new_world_def new_pending_def fits_def here_def checkpoint_of_def)

lemmas reached_ok = logs.run_inv [OF new_world_ok log_legal]

lemma logs_delivery:
  "delivery_step\<^sup>*\<^sup>* (delivery_of c (new_world f)) (delivery_of c (run (log_step c) (new_world f) ops))"
  by (rule logs.run_rel [where R = "\<lambda>w w'. delivery_step\<^sup>*\<^sup>* (delivery_of c w) (delivery_of c w')"])
    (auto intro: new_world_ok dest: log_step_simulates)



text \<open>One tick with nothing pending and the acknowledgement of what it sent.\<close>

lemma round_progress:
  fixes i now resolve
  assumes ok: "world_ok c w" and free: "pb_entries (lw_pending w) = []" and max: "0 < lg_max_lines (fd_group c)"
  defines "w' \<equiv> log_ack c i (log_tick c i now resolve w)"
  shows "world_ok c w' \<and> pb_entries (lw_pending w') = [] \<and> lw_file w' = lw_file w \<and>
    min (length (lf_content (lw_file w))) (Suc (cp_position (here c w))) \<le> cp_position (here c w')"
proof -
  let ?t = "log_tick c i now resolve w"
  have none: "log_ack c i ?t = ?t" if "pb_entries (lw_pending ?t) = []"
    using that by (simp add: log_ack_def peek_batch_def)
  have "pb_entries (fst (prune_stale now (lw_pending w))) = []"
    using free by (simp add: prune_stale_def Let_def)
  from ok this show ?thesis
  proof (cases rule: tick_effect [where i = i and resolve = resolve])
    case idle
    from arg_cong [OF idle(4), of dl_done] idle(1-3,5) max show ?thesis
      unfolding w'_def none [OF idle(2)] by simp
  next
    case (skipped e)
    from arg_cong [OF skipped(4), of dl_done] skipped(1-3,5) show ?thesis
      unfolding w'_def none [OF skipped(2)] by simp
  next
    case (batched r e)
    from batched(2) have "peek_batch i (lw_pending ?t) = Some r" by (simp add: peek_batch_def)
    from batched(1) this obtain s e' lines where to: "rc_to r = Offset e'" and ok': "world_ok c w'"
      and del: "delivery_of c w' = (delivery_of c ?t)\<lparr>dl_acked := i # lw_acked ?t, dl_done := max (cp_position (here c ?t)) e'\<rparr>"
      unfolding w'_def by (rule ack_effect)
    have "pb_entries (lw_pending w') = []" "lw_file w' = lw_file w"
      using batched(2,3) by (simp_all add: w'_def log_ack_def peek_batch_def pop_batch_def split: prod.splits)
    moreover have "Suc (cp_position (here c w)) \<le> cp_position (here c w')"
      using arg_cong [OF del, of dl_done] to batched(5,6) by simp
    ultimately show ?thesis using ok' by simp
  qed
qed

text \<open>
  C16. A backlog drains: with nothing in flight, as many ticks as there are bytes above the checkpoint,
  each acknowledged, leave the checkpoint at the end of the file.
\<close>

theorem backlog_drains:
  assumes "w = run (log_step c) (new_world f) ops" and "pending_receipts (lw_pending w) = []"
    and "0 < lg_max_lines (fd_group c)"
    and "length (lf_content (lw_file w)) \<le> fst (get_position (lw_db w) (lg_name (fd_group c))) + length rounds"
  shows "fst (get_position
      (lw_db (run (log_step c) w (concat (map (\<lambda>(i, now, resolve). [Tick i now resolve, LogAck i]) rounds))))
      (lg_name (fd_group c))) = length (lf_content (lw_file w))"
proof -
  have "cp_position (here c (run (log_step c) w
      (concat (map (\<lambda>(i, now, resolve). [Tick i now resolve, LogAck i]) rounds)))) = length (lf_content (lw_file w))"
    if "world_ok c w" "pb_entries (lw_pending w) = []"
      "length (lf_content (lw_file w)) \<le> cp_position (here c w) + length rounds" for w
    using that
  proof (induction rounds arbitrary: w)
    case Nil
    then show ?case by (simp add: world_ok_def fits_def)
  next
    case (Cons x rounds)
    obtain i now resolve where x: "x = (i, now, resolve)" by (cases x)
    let ?w = "log_ack c i (log_tick c i now resolve w)"
    from round_progress [OF Cons.prems(1,2) assms(3), of i now resolve]
    have "world_ok c ?w" "pb_entries (lw_pending ?w) = []" "lw_file ?w = lw_file w"
      and "min (length (lf_content (lw_file w))) (Suc (cp_position (here c w))) \<le> cp_position (here c ?w)"
      by blast+
    with Cons.IH [of ?w] Cons.prems(3) show ?case by (simp add: x)
  qed
  with assms(1,2,4) reached_ok [of c f ops] show ?thesis
    by (simp add: pending_receipts_def get_position_def here_def)
qed

section \<open>Concrete runs\<close>

definition sample_feed :: feed where
  "sample_feed = \<lparr>fd_digest = (\<lambda>s. s), fd_decode = (\<lambda>s. s), fd_parser = (\<lambda>l. Some [(''line'', JStr l)]),
     fd_group = \<lparr>lg_name = ''app'', lg_source = ''/a'', lg_parser = ''raw'', lg_filter = ''E'', lg_max_lines = 2\<rparr>\<rparr>"

definition sample_file :: log_file where
  "sample_file = \<lparr>lf_inode = 7, lf_content = ''ok'' @ [CHR 0x0A] @ ''E1'' @ [CHR 0x0A]\<rparr>"

definition sample_ops :: "log_op list" where
  "sample_ops = [Tick ''b1'' 0 None, LogAck ''b1'', Grow (''ok'' @ [CHR 0x0A]), Tick ''b2'' 1 None]"


definition sample_rounds :: "(string \<times> int \<times> resolver option) list" where
  "sample_rounds = [(''b1'', 0, None), (''b2'', 1, None), (''b3'', 2, None), (''b4'', 3, None)]"

lemma backlog_drains_witness:
  "fst (get_position
      (lw_db (run (log_step sample_feed) (run (log_step sample_feed) (new_world \<lparr>lf_inode = 7, lf_content = ''E''\<rparr>)
         [Grow ''x'', Grow [CHR 0x0A, CHR 0x0A]])
        (concat (map (\<lambda>(i, now, resolve). [Tick i now resolve, LogAck i]) sample_rounds))))
      (lg_name (fd_group sample_feed))) =
    length (lf_content (lw_file (run (log_step sample_feed) (new_world \<lparr>lf_inode = 7, lf_content = ''E''\<rparr>)
         [Grow ''x'', Grow [CHR 0x0A, CHR 0x0A]])))"
  by (rule backlog_drains [OF refl]) code_simp+

text \<open>
  A line still being written when it is read is handed over as it stands, and the checkpoint moves past
  it; what is written of it later is read as a line of its own.
\<close>

lemma torn_line_split:
  "read_new_lines (\<lambda>s. s) (\<lambda>s. s) (fd_group sample_feed) [] (Opened \<lparr>lf_inode = 7, lf_content = ''hal''\<rparr>) =
     ([''hal''], file_receipt (fd_group sample_feed) (Some \<lparr>gn_inode = 7, gn_head_len = 3, gn_head_digest = ''hal''\<rparr>) 0 3)
   \<and> fst (read_new_lines (\<lambda>s. s) (\<lambda>s. s) (fd_group sample_feed)
        (set_position ''app'' ''/a'' 3 7 (Some \<lparr>gn_inode = 7, gn_head_len = 3, gn_head_digest = ''hal''\<rparr>) [])
        (Opened \<lparr>lf_inode = 7, lf_content = ''halt E'' @ [CHR 0x0A]\<rparr>)) = [''t E'' @ [CHR 0x0A]]"
  by code_simp

end
