(* ===== verification/Spool.thy ===== *)
theory Spool
  imports Events
begin

text \<open>
  The event spool: \<open>agent/event_spool.py\<close> and \<open>bounded_read.py\<close>. The spool directory is a dictionary
  from names to files, a file being its identity (inode and mtime), its kind, its owners and its bytes.
  Emitters act on it at any moment, between any two system calls; system calls may fail at any moment.
  \<open>json.loads\<close> is a parameter with three outcomes, since it raises \<open>RecursionError\<close>, which is no
  \<open>ValueError\<close>, on a text nested too deep. A link names the very file it was made from.
\<close>

section \<open>Files\<close>

type_synonym identity = "nat \<times> nat"

datatype file_kind = Regular | Directory | Symlink | Special

record file_node =
  fn_id :: identity
  fn_kind :: file_kind
  fn_uid :: nat
  fn_gid :: nat
  fn_bytes :: string

type_synonym spool = "(string, file_node) dict"

text \<open>What an emitter does: rename a file in, or delete one past its bounds.\<close>

datatype emitter_move = Place string file_node | Remove string

fun emit_move :: "spool \<Rightarrow> emitter_move \<Rightarrow> spool" where
  "emit_move d (Place n f) = dict_set n f d"
| "emit_move d (Remove n) = dict_pop n d"

definition emitted :: "emitter_move list \<Rightarrow> spool \<Rightarrow> spool" where
  "emitted ms d = foldl emit_move d ms"

section \<open>A bounded read\<close>

datatype read_refusal = IsSymlink | NotRegular | ForeignOwner | TooLarge

datatype bounded_read =
    ReadBytes string identity
  | RefusedFile read_refusal "identity option"
  | OsError

definition read_bounded :: "bool \<Rightarrow> file_node option \<Rightarrow> int \<Rightarrow> (file_node \<Rightarrow> bool) \<Rightarrow> bounded_read" where
  "read_bounded open_fails path cap owner_ok =
     (case path of
        None \<Rightarrow> OsError
      | Some f \<Rightarrow>
          if open_fails then OsError
          else if fn_kind f = Symlink then RefusedFile IsSymlink None
          else if fn_kind f \<noteq> Regular then RefusedFile NotRegular (Some (fn_id f))
          else if \<not> owner_ok f then RefusedFile ForeignOwner (Some (fn_id f))
          else if cap < int (length (fn_bytes f)) then RefusedFile TooLarge (Some (fn_id f))
          else ReadBytes (fn_bytes f) (fn_id f))"

section \<open>A segment's records\<close>

definition SEGMENT_SCHEMA :: int where "SEGMENT_SCHEMA = 1"
definition MAX_SEGMENT_EVENTS :: nat where "MAX_SEGMENT_EVENTS = MAX_BATCH_EVENTS"
definition MAX_SEGMENT_BYTES :: int where "MAX_SEGMENT_BYTES = 1048576"
definition MAX_RECORD_BYTES :: nat where "MAX_RECORD_BYTES = 1024"
definition ASIDE :: string where "ASIDE = ''.settling.''"

datatype loaded = Loaded json | NotJson | TooDeep

text \<open>\<open>$\<close> also matches before a final newline.\<close>

definition chop_newline :: "string \<Rightarrow> string" where
  "chop_newline s = (if s \<noteq> [] \<and> last s = CHR 0x0A then butlast s else s)"

definition is_alnum :: "char \<Rightarrow> bool" where
  "is_alnum c \<longleftrightarrow> is_digit c \<or> (ord_of (CHR ''a'') \<le> ord_of c \<and> ord_of c \<le> ord_of (CHR ''z''))
     \<or> (ord_of (CHR ''A'') \<le> ord_of c \<and> ord_of c \<le> ord_of (CHR ''Z''))"

definition segment_name :: "string \<Rightarrow> bool" where
  "segment_name n =
     (let m = chop_newline n; k = length m - 6; p = take k m
      in p \<noteq> [] \<and> length p \<le> 128 \<and> drop k m = ''.jsonl'' \<and> is_alnum (hd p)
         \<and> list_all (\<lambda>c. is_alnum c \<or> c \<in> set ''._-'') p)"

definition ts_match :: "string \<Rightarrow> bool" where
  "ts_match s =
     (let m = chop_newline s; tail = drop 19 m
      in list_all2 (\<lambda>p c. if p = CHR ''d'' then is_digit c else p = c) ''dddd-dd-ddTdd:dd:dd'' (take 19 m)
         \<and> (tail = ''Z'' \<or> (8 \<ge> length tail \<and> 3 \<le> length tail \<and> hd tail = CHR ''.'' \<and> last tail = CHR ''Z''
              \<and> list_all is_digit (butlast (tl tail)))))"

definition valid_ts :: "json option \<Rightarrow> bool" where
  "valid_ts ts =
     (case ts of None \<Rightarrow> True | Some JNull \<Rightarrow> True | Some (JStr s) \<Rightarrow> ts_match s | Some _ \<Rightarrow> False)"

text \<open>A float's \<open>repr\<close> spells the values that are not finite.\<close>

definition is_finite :: "string \<Rightarrow> bool" where
  "is_finite f \<longleftrightarrow> f \<notin> {''nan'', ''inf'', ''-inf''}"

fun scalar :: "json \<Rightarrow> bool" where
  "scalar (JFloat f) = is_finite f"
| "scalar (JStr s) = True"
| "scalar (JInt i) = True"
| "scalar (JBool b) = True"
| "scalar v = False"

text \<open>What reading a segment needs: the decoder, the registry of shapes, the source, the clock.\<close>

record spool_env =
  se_loads :: "string \<Rightarrow> loaded"
  se_registry :: registry
  se_source :: string
  se_now :: string
  se_owner_ok :: "file_node \<Rightarrow> bool"

definition owner_ok :: "nat \<Rightarrow> nat \<Rightarrow> nat \<Rightarrow> file_node \<Rightarrow> bool" where
  "owner_ok euid dir_uid dir_gid f \<longleftrightarrow> fn_uid f \<in> {0, euid, dir_uid} \<or> fn_gid f = dir_gid"

text \<open>The outer option is the exception that escapes; the inner one the refused record.\<close>

definition record_of :: "spool_env \<Rightarrow> string \<Rightarrow> (string, json) dict option option" where
  "record_of E line =
     (if MAX_RECORD_BYTES < length line then Some None
      else case se_loads E line of
        TooDeep \<Rightarrow> None
      | Loaded (JObj r) \<Rightarrow> Some (Some r)
      | _ \<Rightarrow> Some None)"

definition event_of :: "spool_env \<Rightarrow> (string, json) dict \<Rightarrow> event option" where
  "event_of E r =
     (let kind = dict_get r ''kind''; ts = dict_get r ''ts''; flds = dict_pop ''ts'' (dict_pop ''kind'' r)
      in case kind of
        Some (JStr k) \<Rightarrow>
          if \<not> valid_ts ts then None
          else if \<not> list_all scalar (dict_values flds) then None
          else admit (se_registry E)
            [(''ts'', case ts of Some (JStr s) \<Rightarrow> JStr s | _ \<Rightarrow> JStr (se_now E)),
             (''source'', JStr (se_source E)), (''kind'', JStr k)] flds
      | _ \<Rightarrow> None)"

fun admit_records :: "spool_env \<Rightarrow> string list \<Rightarrow> event list option" where
  "admit_records E [] = Some []"
| "admit_records E (line # lines) =
     (case record_of E line of
        None \<Rightarrow> None
      | Some r \<Rightarrow>
          (case admit_records E lines of
             None \<Rightarrow> None
           | Some es \<Rightarrow> Some (case Option.bind r (event_of E) of None \<Rightarrow> es | Some e \<Rightarrow> e # es)))"

definition header_ok :: "spool_env \<Rightarrow> string \<Rightarrow> bool option" where
  "header_ok E line =
     (case se_loads E line of
        TooDeep \<Rightarrow> None
      | Loaded (JObj h) \<Rightarrow> Some (dict_get h ''schema'' = Some (JInt SEGMENT_SCHEMA))
      | _ \<Rightarrow> Some False)"

definition segment_problem :: "spool_env \<Rightarrow> string list \<Rightarrow> bool option" where
  "segment_problem E lines =
     (case lines of
        [] \<Rightarrow> Some True
      | header # records \<Rightarrow> map_option (\<lambda>ok. \<not> ok \<or> MAX_SEGMENT_EVENTS < length records) (header_ok E header))"

text \<open>\<open>bytes.strip\<close> takes the ASCII blanks.\<close>

definition blank_line :: "string \<Rightarrow> bool" where
  "blank_line line = list_all (\<lambda>c. c = CHR '' '' \<or> (9 \<le> ord_of c \<and> ord_of c \<le> 13)) line"

definition segment_lines :: "string \<Rightarrow> string list" where
  "segment_lines raw = filter (\<lambda>l. \<not> blank_line l) (split_on (CHR 0x0A) raw)"

definition parse_segment :: "spool_env \<Rightarrow> string \<Rightarrow> (event list \<times> nat) option" where
  "parse_segment E raw =
     (let records = tl (segment_lines raw) in
      case segment_problem E (segment_lines raw) of
        None \<Rightarrow> None
      | Some True \<Rightarrow> Some ([], length records)
      | Some False \<Rightarrow> map_option (\<lambda>es. (es, length records - length es)) (admit_records E records))"

section \<open>The feeder\<close>

text \<open>
  The feeder with its spool and the shared buffer. As history: \<open>sp_left\<close> is the spool had nobody but
  the emitters touched it, \<open>sp_reads\<close> every read with the interval of its events, \<open>sp_deleted\<close> every
  file deleted.
\<close>

record feeder =
  sp_dir :: spool
  sp_buffer :: event_buffer
  sp_pending :: "(string, identity option \<times> nat \<times> nat) dict"
  sp_stuck :: "(string, identity) dict"
  sp_left :: spool
  sp_reads :: "(identity option \<times> nat \<times> nat) list"
  sp_deleted :: "identity list"

text \<open>One call's luck: which system calls fail, and what the emitters do before each of them.\<close>

record weather =
  wx_fails :: "nat \<Rightarrow> bool"
  wx_moves :: "nat \<Rightarrow> emitter_move list"

definition emit_in :: "weather \<Rightarrow> nat \<Rightarrow> feeder \<Rightarrow> feeder" where
  "emit_in w i s = s\<lparr>sp_dir := emitted (wx_moves w i) (sp_dir s), sp_left := emitted (wx_moves w i) (sp_left s)\<rparr>"

definition node_id :: "spool \<Rightarrow> string \<Rightarrow> identity option" where
  "node_id d n = map_option fn_id (dict_get d n)"

definition is_directory :: "spool \<Rightarrow> string \<Rightarrow> bool" where
  "is_directory d n = (case dict_get d n of Some f \<Rightarrow> fn_kind f = Directory | None \<Rightarrow> False)"

text \<open>\<open>link(aside, path)\<close> at moment \<open>i\<close>, \<open>unlink(aside)\<close> at moment \<open>i + 1\<close>; a directory takes neither.\<close>

definition put_back :: "weather \<Rightarrow> nat \<Rightarrow> string \<Rightarrow> feeder \<Rightarrow> bool \<times> feeder" where
  "put_back w i n s0 =
     (let s = emit_in w i s0; aside = ASIDE @ n
      in if wx_fails w i then (False, s)
         else case dict_get (sp_dir s) aside of
           None \<Rightarrow> (True, s)
         | Some f \<Rightarrow>
             if fn_kind f = Directory then (False, s)
             else (let s1 = (if dict_has (sp_dir s) n then s else s\<lparr>sp_dir := dict_set n f (sp_dir s)\<rparr>);
                       s2 = emit_in w (Suc i) s1
                   in if wx_fails w (Suc i) then (False, s2)
                      else (True, s2\<lparr>sp_dir := dict_pop aside (sp_dir s2)\<rparr>)))"

definition park :: "string \<Rightarrow> identity option \<Rightarrow> feeder \<Rightarrow> feeder" where
  "park n read_id s = (case read_id of None \<Rightarrow> s | Some i \<Rightarrow> s\<lparr>sp_stuck := dict_set n i (sp_stuck s)\<rparr>)"

text \<open>The identity check and the unlink of \<open>_settle\<close>, after the rename.\<close>

definition discard :: "weather \<Rightarrow> string \<Rightarrow> identity option \<Rightarrow> feeder \<Rightarrow> feeder" where
  "discard w n read_id s0 =
     (let s = emit_in w 4 s0; aside = ASIDE @ n
      in if read_id \<noteq> None \<and> \<not> wx_fails w 4 \<and> node_id (sp_dir s) aside = read_id
         then (let s1 = emit_in w 5 s
               in if wx_fails w 5 \<or> is_directory (sp_dir s1) aside then snd (put_back w 6 n (park n read_id s1))
                  else s1\<lparr>sp_dir := dict_pop aside (sp_dir s1), sp_deleted := the read_id # sp_deleted s1\<rparr>)
         else snd (put_back w 6 n s))"

definition settle :: "weather \<Rightarrow> string \<Rightarrow> identity option \<Rightarrow> feeder \<Rightarrow> feeder" where
  "settle w n read_id s0 =
     (let (clear, s1) = put_back w 0 n s0
      in if \<not> clear then park n read_id s1
         else let s2 = emit_in w 2 s1
           in if \<not> wx_fails w 2 \<and> is_directory (sp_dir s2) n then park n read_id s2
              else let s3 = emit_in w 3 s2
                in case dict_get (sp_dir s3) n of
                     None \<Rightarrow> s3
                   | Some f \<Rightarrow>
                       if wx_fails w 3 then park n read_id s3
                       else discard w n read_id
                         (s3\<lparr>sp_dir := dict_set (ASIDE @ n) f (dict_pop n (sp_dir s3))\<rparr>))"

text \<open>\<open>_read\<close>: \<open>None\<close> when an exception escapes, \<open>Some None\<close> when the file is left for the next tick.\<close>

definition read_segment ::
  "spool_env \<Rightarrow> weather \<Rightarrow> string \<Rightarrow> feeder \<Rightarrow> (identity option \<times> event list \<times> nat) option option \<times> feeder" where
  "read_segment E w n s0 =
     (let s1 = emit_in w 10 s0;
          before = (if wx_fails w 10 then None else node_id (sp_dir s1) n);
          s2 = emit_in w 11 s1
      in (case read_bounded (wx_fails w 11) (dict_get (sp_dir s2) n) MAX_SEGMENT_BYTES (se_owner_ok E) of
            OsError \<Rightarrow> Some None
          | RefusedFile _ st \<Rightarrow> Some (Some (case st of Some i \<Rightarrow> Some i | None \<Rightarrow> before, [], 1))
          | ReadBytes raw i \<Rightarrow> map_option (\<lambda>(es, refused). Some (Some i, es, refused)) (parse_segment E raw),
         s2))"

text \<open>One turn of the second loop of \<open>tick\<close>; the flag tells that an exception escaped.\<close>

definition read_one :: "spool_env \<Rightarrow> weather \<Rightarrow> string \<Rightarrow> feeder \<Rightarrow> bool \<times> feeder" where
  "read_one E w n s0 =
     (case read_segment E w n s0 of
        (None, s) \<Rightarrow> (True, s)
      | (Some None, s) \<Rightarrow> (False, s)
      | (Some (Some (read_id, es, refused)), s) \<Rightarrow>
          (let (buf, seqs) = extend_batch (sp_buffer s) es refused;
               s1 = s\<lparr>sp_buffer := buf, sp_reads := (read_id, seqs) # sp_reads s\<rparr>
           in (False, if fst seqs < snd seqs then s1\<lparr>sp_pending := dict_set n (read_id, seqs) (sp_pending s1)\<rparr>
                      else settle w n read_id s1)))"

text \<open>One turn of the first loop.\<close>

definition settle_one :: "weather \<Rightarrow> string \<Rightarrow> feeder \<Rightarrow> feeder" where
  "settle_one w n s =
     (case dict_get (sp_pending s) n of
        None \<Rightarrow> s
      | Some (read_id, seqs) \<Rightarrow>
          if holds_any (sp_buffer s) seqs then s
          else settle w n read_id (s\<lparr>sp_pending := dict_pop n (sp_pending s)\<rparr>))"

definition unstick :: "feeder \<Rightarrow> feeder" where
  "unstick s = s\<lparr>sp_stuck := filter (\<lambda>(n, i). node_id (sp_dir s) n = Some i) (sp_stuck s)\<rparr>"

definition segments :: "bool \<Rightarrow> feeder \<Rightarrow> string list \<times> feeder" where
  "segments list_fails s =
     (if list_fails then ([], s)
      else let s1 = unstick s
        in (sort (filter (\<lambda>n. segment_name n \<and> \<not> dict_has (sp_pending s1) n \<and> \<not> dict_has (sp_stuck s1) n)
              (dict_keys (sp_dir s))), s1))"

fun read_all :: "spool_env \<Rightarrow> (string \<Rightarrow> weather) \<Rightarrow> string list \<Rightarrow> feeder \<Rightarrow> bool \<times> feeder" where
  "read_all E w [] s = (False, s)"
| "read_all E w (n # ns) s =
     (if room (sp_buffer s) < int MAX_SEGMENT_EVENTS then (False, s)
      else case read_one E (w n) n s of
        (True, s1) \<Rightarrow> (True, s1)
      | (False, s1) \<Rightarrow> read_all E w ns s1)"

definition spool_tick ::
  "spool_env \<Rightarrow> (string \<Rightarrow> weather) \<Rightarrow> bool \<Rightarrow> (string \<Rightarrow> weather) \<Rightarrow> feeder \<Rightarrow> bool \<times> feeder" where
  "spool_tick E settling list_fails reading s =
     (let s1 = foldl (\<lambda>s n. settle_one (settling n) n s) s (dict_keys (sp_pending s));
          (names, s2) = segments list_fails s1
      in read_all E reading names s2)"

text \<open>\<open>_recover_asides\<close>, for a feeder made at boot.\<close>

definition removeprefix :: "string \<Rightarrow> string \<Rightarrow> string" where
  "removeprefix p s = (if starts_with p s then drop (length p) s else s)"

definition recover_asides :: "(string \<Rightarrow> weather) \<Rightarrow> bool \<Rightarrow> feeder \<Rightarrow> feeder" where
  "recover_asides w list_fails s =
     (if list_fails then s
      else foldl (\<lambda>s aside. let n = removeprefix ASIDE aside
                  in if n \<noteq> aside \<and> segment_name n then snd (put_back (w n) 0 n s) else s)
             s (dict_keys (sp_dir s)))"

section \<open>Which spools are fed\<close>

text \<open>What \<open>islink\<close>, \<open>realpath\<close>, \<open>lstat\<close> and \<open>access\<close> say of a declared directory; \<open>lstat\<close> may raise.\<close>

record dir_facts =
  df_link :: bool
  df_real :: string
  df_stat :: bool
  df_dir :: bool
  df_mode :: nat
  df_uid :: nat
  df_gid :: nat
  df_access :: bool

datatype spool_refusal = SymlinkDir | NotDirectory | OpenToOthers | OwnedBy nat | NotWritable | StatError
  | SourceRefused source_error

definition settled_source ::
  "(string \<Rightarrow> dir_facts) \<Rightarrow> nat \<Rightarrow> event_source \<Rightarrow> spool_refusal + event_source \<times> nat \<times> nat" where
  "settled_source facts euid src =
     (let d = facts (es_spool_dir src) in
      if df_link d then Inl SymlinkDir
      else if \<not> df_stat d then Inl StatError
      else if \<not> df_dir d then Inl NotDirectory
      else if df_mode d mod 8 \<noteq> 0 then Inl OpenToOthers
      else if df_uid d \<noteq> 0 \<and> df_uid d \<noteq> euid then Inl (OwnedBy (df_uid d))
      else if \<not> df_access d then Inl NotWritable
      else Inr (src\<lparr>es_spool_dir := df_real d\<rparr>, df_uid d, df_gid d))"

text \<open>Per integration: its id, whether it is live, the source it declares. A refusal costs that source alone.\<close>

fun spool_feeders ::
  "(string \<Rightarrow> dir_facts) \<Rightarrow> nat \<Rightarrow> (string \<times> bool \<times> event_source option) list \<Rightarrow> registry
    \<Rightarrow> (string, event_source \<times> nat \<times> nat) dict \<times> registry" where
  "spool_feeders facts euid [] r = ([], r)"
| "spool_feeders facts euid ((i, live, decl) # rest) r =
     (case (if live then decl else None) of
        None \<Rightarrow> spool_feeders facts euid rest r
      | Some src \<Rightarrow>
          (case res_bind (settled_source facts euid src)
                  (\<lambda>(src', ids). map_result SourceRefused
                     (case declare_integration_source src' r of Inl e \<Rightarrow> Inl e | Inr r' \<Rightarrow> Inr ((src', ids), r'))) of
             Inl e \<Rightarrow> spool_feeders facts euid rest r
           | Inr (feeder, r') \<Rightarrow>
               (let (fs, r'') = spool_feeders facts euid rest r' in ((i, feeder) # fs, r''))))"

section \<open>The feeder among emitters and the buffer's other users\<close>

datatype spool_op =
    Buffer buf_op
  | Emitters "emitter_move list"
  | SettleOne weather string
  | ReadOne weather string
  | Unstick

fun spool_step :: "spool_env \<Rightarrow> feeder \<Rightarrow> spool_op \<Rightarrow> feeder" where
  "spool_step E s (Buffer a) = s\<lparr>sp_buffer := buf_step (sp_buffer s) a\<rparr>"
| "spool_step E s (Emitters ms) = s\<lparr>sp_dir := emitted ms (sp_dir s), sp_left := emitted ms (sp_left s)\<rparr>"
| "spool_step E s (SettleOne w n) = settle_one w n s"
| "spool_step E s (ReadOne w n) = snd (read_one E w n s)"
| "spool_step E s Unstick = unstick s"

text \<open>Emitters keep off the feeder's private names; everything else may happen at any time.\<close>

fun moved_name :: "emitter_move \<Rightarrow> string" where
  "moved_name (Place n f) = n"
| "moved_name (Remove n) = n"

definition hidden :: "string \<Rightarrow> bool" where
  "hidden n \<longleftrightarrow> starts_with ASIDE n"

definition fair_moves :: "emitter_move list \<Rightarrow> bool" where
  "fair_moves ms \<longleftrightarrow> list_all (\<lambda>m. \<not> hidden (moved_name m)) ms"

definition fair :: "weather \<Rightarrow> bool" where
  "fair w \<longleftrightarrow> (\<forall>i. fair_moves (wx_moves w i))"

fun spool_allowed :: "feeder \<Rightarrow> spool_op \<Rightarrow> bool" where
  "spool_allowed s (Buffer a) = buf_allowed (sp_buffer s) a"
| "spool_allowed s (Emitters ms) = fair_moves ms"
| "spool_allowed s (SettleOne w n) = fair w"
| "spool_allowed s (ReadOne w n) = (fair w \<and> segment_name n)"
| "spool_allowed s Unstick = True"

definition new_feeder :: "spool \<Rightarrow> event_buffer \<Rightarrow> feeder" where
  "new_feeder d b = \<lparr>sp_dir = d, sp_buffer = b, sp_pending = [], sp_stuck = [], sp_left = d,
     sp_reads = [], sp_deleted = []\<rparr>"

section \<open>Facts\<close>

lemma hidden_aside [simp]: "hidden (ASIDE @ n)"
  by (simp add: hidden_def starts_with_def)

lemma aside_other [simp]: "\<not> hidden n \<Longrightarrow> ASIDE @ m \<noteq> n" "\<not> hidden n \<Longrightarrow> n \<noteq> ASIDE @ m"
  by auto

lemma segment_public: "segment_name n \<Longrightarrow> \<not> hidden n"
proof
  assume seg: "segment_name n" and "hidden n"
  then obtain m where n: "n = CHR ''.'' # m"
    unfolding hidden_def starts_with_def ASIDE_def by (cases n) auto
  have "is_alnum (hd (take (length (chop_newline n) - 6) (chop_newline n)))"
    and ne: "take (length (chop_newline n) - 6) (chop_newline n) \<noteq> []"
    using seg unfolding segment_name_def Let_def by blast+
  moreover have "hd (take (length (chop_newline n) - 6) (chop_newline n)) = CHR ''.''"
    using ne n by (cases m) (auto simp: chop_newline_def split: if_splits)
  ultimately show False by (simp add: is_alnum_def is_digit_def ord_of_def)
qed

definition kept :: "feeder \<Rightarrow> bool" where
  "kept s \<longleftrightarrow> (\<forall>n f. \<not> hidden n \<longrightarrow> dict_get (sp_left s) n = Some f \<longrightarrow> fn_id f \<notin> set (sp_deleted s) \<longrightarrow>
     dict_get (sp_dir s) n = Some f \<or> (dict_get (sp_dir s) n = None \<and> dict_get (sp_dir s) (ASIDE @ n) = Some f))"

lemma keptD:
  "kept s \<Longrightarrow> \<not> hidden n \<Longrightarrow> dict_get (sp_left s) n = Some f \<Longrightarrow> fn_id f \<notin> set (sp_deleted s) \<Longrightarrow>
    dict_get (sp_dir s) n = Some f \<or> (dict_get (sp_dir s) n = None \<and> dict_get (sp_dir s) (ASIDE @ n) = Some f)"
  unfolding kept_def by blast

lemma emitted_snoc: "emitted (ms @ [m]) d = emit_move (emitted ms d) m"
  by (simp add: emitted_def)

lemma emit_move_get:
  "dict_get (emit_move d m) n = (if n = moved_name m then (case m of Place _ f \<Rightarrow> Some f | _ \<Rightarrow> None) else dict_get d n)"
  by (cases m) (auto simp: dict_simps)

text \<open>Moves leave private names alone; every other name shows them in the spool and in what was left.\<close>

lemma emitted_get:
  "fair_moves ms \<Longrightarrow> (hidden n \<longrightarrow> dict_get (emitted ms d) n = dict_get d n)
    \<and> (dict_get (emitted ms d) n = dict_get d n \<and> dict_get (emitted ms e) n = dict_get e n
       \<or> dict_get (emitted ms d) n = dict_get (emitted ms e) n)"
proof (induction ms rule: rev_induct)
  case (snoc m ms)
  then show ?case
    unfolding fair_moves_def by (auto simp: emitted_snoc emit_move_get)
qed (simp add: emitted_def)

lemma emit_in_get:
  assumes "fair w"
  shows "hidden n \<Longrightarrow> dict_get (sp_dir (emit_in w i s)) n = dict_get (sp_dir s) n"
    and "dict_get (sp_dir (emit_in w i s)) n = dict_get (sp_dir s) n \<and> dict_get (sp_left (emit_in w i s)) n = dict_get (sp_left s) n
       \<or> dict_get (sp_dir (emit_in w i s)) n = dict_get (sp_left (emit_in w i s)) n"
  using assms emitted_get [of "wx_moves w i" n "sp_dir s" "sp_left s"] by (auto simp: emit_in_def fair_def)

lemma emit_in_frame [simp]:
  "sp_buffer (emit_in w i s) = sp_buffer s" "sp_pending (emit_in w i s) = sp_pending s"
  "sp_stuck (emit_in w i s) = sp_stuck s" "sp_reads (emit_in w i s) = sp_reads s"
  "sp_deleted (emit_in w i s) = sp_deleted s"
  by (simp_all add: emit_in_def)

lemma kept_emit:
  assumes "kept s" "fair w"
  shows "kept (emit_in w i s)"
  unfolding kept_def
proof (intro allI impI)
  fix n f
  assume pub: "\<not> hidden n" and left: "dict_get (sp_left (emit_in w i s)) n = Some f"
    and del: "fn_id f \<notin> set (sp_deleted (emit_in w i s))"
  show "dict_get (sp_dir (emit_in w i s)) n = Some f
    \<or> (dict_get (sp_dir (emit_in w i s)) n = None \<and> dict_get (sp_dir (emit_in w i s)) (ASIDE @ n) = Some f)"
    using emit_in_get(2) [OF assms(2), of i s n]
  proof
    assume "dict_get (sp_dir (emit_in w i s)) n = dict_get (sp_left (emit_in w i s)) n"
    with left show ?thesis by simp
  next
    assume "dict_get (sp_dir (emit_in w i s)) n = dict_get (sp_dir s) n
      \<and> dict_get (sp_left (emit_in w i s)) n = dict_get (sp_left s) n"
    with left del keptD [OF assms(1) pub, of f] emit_in_get(1) [OF assms(2), of "ASIDE @ n" i s] show ?thesis
      by auto
  qed
qed

definition present :: "string \<Rightarrow> feeder \<Rightarrow> bool" where
  "present n s \<longleftrightarrow> dict_get (sp_dir s) n \<noteq> None \<or> dict_get (sp_left s) n = None"

lemma present_emit: "fair w \<Longrightarrow> present n s \<Longrightarrow> present n (emit_in w i s)"
  using emit_in_get(2) [of w i s n] by (auto simp: present_def)

text \<open>The three changes the feeder makes to the spool.\<close>

lemma kept_link:
  assumes "kept s" "\<not> hidden n" "dict_get (sp_dir s) (ASIDE @ n) = Some f" "dict_get (sp_dir s) n = None"
  shows "kept (s\<lparr>sp_dir := dict_set n f (sp_dir s)\<rparr>)"
  using assms by (auto simp: kept_def dict_simps)

lemma kept_unlink:
  assumes "kept s" "present n s"
  shows "kept (s\<lparr>sp_dir := dict_pop (ASIDE @ n) (sp_dir s)\<rparr>)"
  using assms by (auto simp: kept_def present_def dict_simps)

lemma kept_delete:
  assumes "kept s" "node_id (sp_dir s) (ASIDE @ n) = Some i"
  shows "kept (s\<lparr>sp_dir := dict_pop (ASIDE @ n) (sp_dir s), sp_deleted := i # sp_deleted s\<rparr>)"
  using assms by (auto simp: kept_def node_id_def dict_simps)

lemma kept_rename:
  assumes "kept s" "\<not> hidden n" "dict_get (sp_dir s) n = Some f" "dict_get (sp_dir s) (ASIDE @ n) = None"
  shows "kept (s\<lparr>sp_dir := dict_set (ASIDE @ n) f (dict_pop n (sp_dir s))\<rparr>)"
  using assms by (auto simp: kept_def dict_simps)

lemma put_back_frame [simp]:
  "sp_buffer (snd (put_back w i n s)) = sp_buffer s" "sp_pending (snd (put_back w i n s)) = sp_pending s"
  "sp_stuck (snd (put_back w i n s)) = sp_stuck s" "sp_reads (snd (put_back w i n s)) = sp_reads s"
  "sp_deleted (snd (put_back w i n s)) = sp_deleted s"
  by (simp_all add: put_back_def Let_def split: option.split)

lemma put_back_kept:
  assumes kept: "kept s" and fair: "fair w" and pub: "\<not> hidden n"
  shows "kept (snd (put_back w i n s))"
    and "fst (put_back w i n s) \<Longrightarrow> dict_get (sp_dir (snd (put_back w i n s))) (ASIDE @ n) = None"
proof -
  let ?s = "emit_in w i s"
  have kept1: "kept ?s" by (rule kept_emit [OF kept fair])
  have "kept (snd (put_back w i n s)) \<and> (fst (put_back w i n s) \<longrightarrow>
      dict_get (sp_dir (snd (put_back w i n s))) (ASIDE @ n) = None)"
  proof (cases "dict_get (sp_dir ?s) (ASIDE @ n)")
    case None
    with kept1 show ?thesis by (simp add: put_back_def Let_def)
  next
    case (Some f)
    define s1 where "s1 = (if dict_has (sp_dir ?s) n then ?s else ?s\<lparr>sp_dir := dict_set n f (sp_dir ?s)\<rparr>)"
    have "kept s1"
      using kept1 kept_link [OF kept1 pub Some] by (auto simp: s1_def dict_has_def)
    moreover have "present n s1" by (auto simp: s1_def present_def dict_has_def dict_simps)
    ultimately have "kept (emit_in w (Suc i) s1)" "present n (emit_in w (Suc i) s1)"
      by (simp_all add: kept_emit present_emit fair)
    with kept_unlink show ?thesis
      using kept1 Some by (simp add: put_back_def Let_def dict_get_pop flip: s1_def)
  qed
  then show "kept (snd (put_back w i n s))"
    "fst (put_back w i n s) \<Longrightarrow> dict_get (sp_dir (snd (put_back w i n s))) (ASIDE @ n) = None" by blast+
qed

lemma kept_park [simp]: "kept (park n r s) = kept s"
  by (cases r) (simp_all add: park_def kept_def)

lemma park_frame [simp]:
  "sp_buffer (park n r s) = sp_buffer s" "sp_pending (park n r s) = sp_pending s"
  "sp_reads (park n r s) = sp_reads s" "sp_deleted (park n r s) = sp_deleted s"
  by (cases r; simp add: park_def)+

text \<open>What settling changes beside the spool: at most the file it was asked to delete is deleted.\<close>

definition settles_only :: "identity option \<Rightarrow> feeder \<Rightarrow> feeder \<Rightarrow> bool" where
  "settles_only r s s' \<longleftrightarrow> sp_buffer s' = sp_buffer s \<and> sp_pending s' = sp_pending s \<and> sp_reads s' = sp_reads s
     \<and> set (sp_deleted s') \<subseteq> set_option r \<union> set (sp_deleted s)"

lemma settles_only_trans: "settles_only r s t \<Longrightarrow> settles_only r t u \<Longrightarrow> settles_only r s u"
  by (auto simp: settles_only_def)

lemma settles_only_emit [simp]: "settles_only r s (emit_in w i t) = settles_only r s t"
  by (simp add: settles_only_def)

lemma settles_only_park: "settles_only r s t \<Longrightarrow> settles_only r s (park n r t)"
  by (simp add: settles_only_def)

lemma discard_kept:
  assumes kept: "kept s" and fair: "fair w" and pub: "\<not> hidden n"
  shows "kept (discard w n r s)" "settles_only r s (discard w n r s)"
proof -
  let ?s = "emit_in w 4 s" and ?t = "emit_in w 5 (emit_in w 4 s)"
  have kept1: "kept ?s" "kept ?t" using kept fair by (simp_all add: kept_emit)
  have same: "node_id (sp_dir ?t) (ASIDE @ n) = node_id (sp_dir ?s) (ASIDE @ n)"
    using emit_in_get(1) [OF fair, of "ASIDE @ n" 5 ?s] by (simp add: node_id_def)
  show "kept (discard w n r s)"
  proof (cases "r \<noteq> None \<and> \<not> wx_fails w 4 \<and> node_id (sp_dir ?s) (ASIDE @ n) = r")
    case True
    then obtain i where i: "r = Some i" "node_id (sp_dir ?t) (ASIDE @ n) = Some i" using same by auto
    with True kept1 fair pub kept_delete [OF kept1(2) i(2)] put_back_kept(1) [of "park n r ?t" w n 6] show ?thesis
      by (simp add: discard_def Let_def)
  next
    case False
    with kept1 fair pub put_back_kept(1) show ?thesis by (auto simp: discard_def Let_def)
  qed
  show "settles_only r s (discard w n r s)"
    by (auto simp: discard_def Let_def settles_only_def)
qed

lemma settle_kept:
  assumes kept: "kept s" and fair: "fair w" and pub: "\<not> hidden n"
  shows "kept (settle w n r s)" "settles_only r s (settle w n r s)"
proof -
  obtain clear s1 where put: "put_back w 0 n s = (clear, s1)" by fastforce
  let ?s2 = "emit_in w 2 s1" and ?s3 = "emit_in w 3 (emit_in w 2 s1)"
  have kept1: "kept s1" and free: "clear \<Longrightarrow> dict_get (sp_dir s1) (ASIDE @ n) = None"
    using put_back_kept [OF kept fair pub, of 0] put by simp_all
  then have kept2: "kept ?s2" "kept ?s3" by (simp_all add: kept_emit fair)
  have only: "settles_only r s s1"
    using put_back_frame [of w 0 n s] unfolding put by (simp add: settles_only_def)
  let ?t = "\<lambda>f. ?s3\<lparr>sp_dir := dict_set (ASIDE @ n) f (dict_pop n (sp_dir ?s3))\<rparr>"
  have renamed: "kept (?t f)" if "clear" "dict_get (sp_dir ?s3) n = Some f" for f
    using that free emit_in_get(1) [OF fair, of "ASIDE @ n"] by (intro kept_rename [OF kept2(2) pub]) simp_all
  then have "kept (discard w n r (?t f))" if "clear" "dict_get (sp_dir ?s3) n = Some f" for f
    using that discard_kept(1) fair pub by blast
  then show "kept (settle w n r s)"
    using put kept1 kept2 by (simp add: settle_def Let_def split: option.split)
  have "settles_only r s (?t f)" for f using only by (simp add: settles_only_def)
  then have "settles_only r s (discard w n r (?t f))" if "kept (?t f)" for f
    using settles_only_trans discard_kept(2) [OF that fair pub] by blast
  with renamed only show "settles_only r s (settle w n r s)"
    using put settles_only_park [OF only] settles_only_park [of r s ?s2 n] settles_only_park [of r s ?s3 n]
    by (simp add: settle_def Let_def split: option.split)
qed

section \<open>The invariant\<close>

text \<open>A file whose events are gone: some read of it stamped an interval of which the buffer holds nothing.\<close>

definition range_gone :: "feeder \<Rightarrow> identity option \<times> nat \<times> nat \<Rightarrow> bool" where
  "range_gone s x \<longleftrightarrow> x \<in> set (sp_reads s) \<and> snd (snd x) \<le> Suc (eb_seq (sp_buffer s))
     \<and> \<not> holds_any (sp_buffer s) (snd x)"

definition feeder_ok :: "feeder \<Rightarrow> bool" where
  "feeder_ok s \<longleftrightarrow> eb_inv (sp_buffer s) \<and> kept s
     \<and> (\<forall>(n, x)\<in>set (sp_pending s). segment_name n \<and> x \<in> set (sp_reads s) \<and> snd (snd x) \<le> Suc (eb_seq (sp_buffer s)))
     \<and> (\<forall>i\<in>set (sp_deleted s). \<exists>seqs. range_gone s (Some i, seqs))"

lemma range_gone_mono:
  assumes "range_gone s x" "derives (sp_buffer s) (sp_buffer s')" "set (sp_reads s) \<subseteq> set (sp_reads s')"
  shows "range_gone s' x"
proof -
  have "eb_seq (sp_buffer s) \<le> eb_seq (sp_buffer s')" using assms(2) by (simp add: derives_def)
  with assms derives_holds [OF assms(2), of "snd x"] show ?thesis by (auto simp: range_gone_def)
qed

lemma settle_ok:
  assumes ok: "feeder_ok s" and fair: "fair w" and seg: "segment_name n" and gone: "range_gone s (r, seqs)"
  shows "feeder_ok (settle w n r s)"
proof -
  have pub: "\<not> hidden n" by (rule segment_public [OF seg])
  have kept: "kept s" using ok by (simp add: feeder_ok_def)
  have only: "settles_only r s (settle w n r s)" and kept': "kept (settle w n r s)"
    using settle_kept [OF kept fair pub] by blast+
  have gone': "range_gone (settle w n r s) x" if "range_gone s x" for x
    using that only by (simp add: range_gone_def settles_only_def)
  have "\<exists>seqs. range_gone (settle w n r s) (Some i, seqs)" if "i \<in> set (sp_deleted (settle w n r s))" for i
  proof (cases "i \<in> set (sp_deleted s)")
    case True
    with ok show ?thesis using gone' unfolding feeder_ok_def by blast
  next
    case False
    with that only have "r = Some i" unfolding settles_only_def by auto
    with gone gone' show ?thesis by blast
  qed
  with ok only kept' show ?thesis
    unfolding feeder_ok_def settles_only_def by simp
qed

lemma buffer_ok:
  assumes ok: "feeder_ok s" and deriv: "derives (sp_buffer s) b" and inv: "eb_inv b"
  shows "feeder_ok (s\<lparr>sp_buffer := b\<rparr>)"
proof -
  have gone: "range_gone (s\<lparr>sp_buffer := b\<rparr>) x" if "range_gone s x" for x
    using range_gone_mono [OF that] deriv by simp
  have "\<exists>seqs. range_gone (s\<lparr>sp_buffer := b\<rparr>) (Some i, seqs)" if "i \<in> set (sp_deleted s)" for i
    using that ok gone unfolding feeder_ok_def by blast
  moreover have "eb_seq (sp_buffer s) \<le> eb_seq b" using deriv by (simp add: derives_def)
  then have "\<forall>(n, x)\<in>set (sp_pending s). segment_name n \<and> x \<in> set (sp_reads s) \<and> snd (snd x) \<le> Suc (eb_seq b)"
    using ok unfolding feeder_ok_def by fastforce
  ultimately show ?thesis using ok inv unfolding feeder_ok_def kept_def by simp
qed

lemma moves_ok: "feeder_ok s \<Longrightarrow> fair w \<Longrightarrow> feeder_ok (emit_in w i s)"
  using kept_emit [of s w i] unfolding feeder_ok_def range_gone_def by simp

lemma pop_pending_ok:
  "feeder_ok s \<Longrightarrow> feeder_ok (s\<lparr>sp_pending := dict_pop n (sp_pending s)\<rparr>)"
  unfolding feeder_ok_def kept_def range_gone_def
  using set_dict_pop [of n "sp_pending s"] by auto

lemma settle_one_ok:
  assumes ok: "feeder_ok s" and fair: "fair w"
  shows "feeder_ok (settle_one w n s)"
proof (cases "dict_get (sp_pending s) n")
  case (Some x)
  then have "(n, x) \<in> set (sp_pending s)" by (rule dict_get_Some_in)
  with ok have x: "segment_name n" "x \<in> set (sp_reads s)" "snd (snd x) \<le> Suc (eb_seq (sp_buffer s))"
    unfolding feeder_ok_def by auto
  show ?thesis
  proof (cases "holds_any (sp_buffer s) (snd x)")
    case False
    obtain r seqs where rs: "x = (r, seqs)" by (cases x) blast
    let ?s = "s\<lparr>sp_pending := dict_pop n (sp_pending s)\<rparr>"
    have "feeder_ok ?s" by (rule pop_pending_ok [OF ok])
    moreover have "range_gone ?s (r, seqs)" using x(2,3) False rs by (simp add: range_gone_def)
    ultimately have "feeder_ok (settle w n r ?s)" using settle_ok fair x(1) by blast
    with Some False rs show ?thesis by (simp add: settle_one_def)
  qed (cases x, simp add: settle_one_def Some ok)
qed (simp add: settle_one_def ok)

lemma no_range: "snd r \<le> fst r \<Longrightarrow> \<not> holds_any b r"
  by (auto simp: holds_any_def list_ex_iff seq_in_def split: option.splits)

text \<open>The buffer takes a segment's events, and the read is noted.\<close>

lemma taken_ok:
  fixes r
  assumes ok: "feeder_ok s" and ext: "extend_batch (sp_buffer s) es refused = (buf, seqs)"
  defines "t \<equiv> s\<lparr>sp_buffer := buf, sp_reads := (r, seqs) # sp_reads s\<rparr>"
  shows "feeder_ok t" "snd seqs = Suc (eb_seq buf)"
proof -
  have buf: "buf = buf_step (sp_buffer s) (Extend es refused)" using ext by simp
  have "feeder_ok (s\<lparr>sp_buffer := buf\<rparr>)"
  proof (rule buffer_ok [OF ok])
    show "derives (sp_buffer s) buf" unfolding buf by (rule buf_step_derives) simp
    show "eb_inv buf" unfolding buf using ok by (intro buf_step_inv) (simp_all add: feeder_ok_def)
  qed
  then show "feeder_ok t"
    unfolding t_def feeder_ok_def kept_def range_gone_def by (simp, blast)
  show "snd seqs = Suc (eb_seq buf)" using ext by (auto simp: extend_batch_def Let_def)
qed

lemma read_one_ok:
  assumes ok: "feeder_ok s" and fair: "fair w" and seg: "segment_name n"
  shows "feeder_ok (snd (read_one E w n s))"
proof -
  let ?s = "snd (read_segment E w n s)"
  have ok1: "feeder_ok ?s"
    using ok fair by (simp add: read_segment_def Let_def moves_ok)
  show ?thesis
  proof (cases "fst (read_segment E w n s)")
    case (Some x)
    show ?thesis
    proof (cases x)
      case (Some y)
      obtain r es refused where y: "y = (r, es, refused)" by (cases y) auto
      obtain buf seqs where ext: "extend_batch (sp_buffer ?s) es refused = (buf, seqs)"
        by (cases "extend_batch (sp_buffer ?s) es refused") blast
      let ?t = "?s\<lparr>sp_buffer := buf, sp_reads := (r, seqs) # sp_reads ?s\<rparr>"
      have t: "feeder_ok ?t" "snd seqs = Suc (eb_seq buf)" using taken_ok [OF ok1 ext] by blast+
      have read: "snd (read_one E w n s) = (if fst seqs < snd seqs
          then ?t\<lparr>sp_pending := dict_set n (r, seqs) (sp_pending ?t)\<rparr> else settle w n r ?t)"
        using \<open>fst (read_segment E w n s) = Some x\<close> Some y ext
        by (cases "read_segment E w n s") (simp add: read_one_def)
      show ?thesis
      proof (cases "fst seqs < snd seqs")
        case True
        have "feeder_ok (?t\<lparr>sp_pending := dict_set n (r, seqs) (sp_pending ?t)\<rparr>)"
          using t seg unfolding feeder_ok_def kept_def range_gone_def
          using set_dict_set [of n "(r, seqs)" "sp_pending ?t"] by auto
        with True read show ?thesis by simp
      next
        case False
        with t(2) have "range_gone ?t (r, seqs)" by (simp add: range_gone_def no_range)
        from settle_ok [OF t(1) fair seg this] False read show ?thesis by simp
      qed
    qed (use Some ok1 in \<open>cases "read_segment E w n s"; simp add: read_one_def\<close>)
  qed (use ok1 in \<open>cases "read_segment E w n s"; simp add: read_one_def\<close>)
qed

lemma emitters_ok:
  assumes "feeder_ok s" "fair_moves ms"
  shows "feeder_ok (spool_step E s (Emitters ms))"
  using moves_ok [OF assms(1), of "\<lparr>wx_fails = \<lambda>i. False, wx_moves = \<lambda>i. ms\<rparr>" 0] assms(2)
  by (simp add: fair_def emit_in_def)

lemma unstick_ok: "feeder_ok s \<Longrightarrow> feeder_ok (unstick s)"
  unfolding feeder_ok_def kept_def range_gone_def unstick_def by simp

lemma spool_step_ok: "feeder_ok s \<Longrightarrow> spool_allowed s a \<Longrightarrow> feeder_ok (spool_step E s a)"
proof (cases a)
  case (Buffer b)
  assume ok: "feeder_ok s" and "spool_allowed s a"
  then have b: "buf_allowed (sp_buffer s) b" by (simp add: Buffer)
  from ok have "eb_inv (sp_buffer s)" by (simp add: feeder_ok_def)
  with buffer_ok [OF ok buf_step_derives [OF b]] buf_step_inv [OF _ b] show ?thesis by (simp add: Buffer)
next
  case (Emitters ms)
  assume "feeder_ok s" "spool_allowed s a"
  then show ?thesis unfolding Emitters by (intro emitters_ok) simp_all
qed (auto intro: settle_one_ok read_one_ok unstick_ok)

interpretation spool: machine "spool_step E" spool_allowed feeder_ok for E
  by unfold_locales (rule spool_step_ok)

lemma new_feeder_ok: "eb_inv b \<Longrightarrow> feeder_ok (new_feeder d b)"
  by (simp add: feeder_ok_def new_feeder_def kept_def)

text \<open>A whole tick is a run of these steps, so what holds of runs holds between and across ticks.\<close>

lemma legal_append:
  "legal step allowed s (as @ bs) \<longleftrightarrow> legal step allowed s as \<and> legal step allowed (run step s as) bs"
  by (induction as arbitrary: s) auto

lemma settling_run:
  "\<forall>n. fair (w n) \<Longrightarrow> legal (spool_step E) spool_allowed s (map (\<lambda>n. SettleOne (w n) n) ns)
    \<and> run (spool_step E) s (map (\<lambda>n. SettleOne (w n) n) ns) = foldl (\<lambda>s n. settle_one (w n) n s) s ns"
  by (induction ns arbitrary: s) auto

lemma reading_run:
  "\<forall>n. fair (w n) \<Longrightarrow> \<forall>n\<in>set ns. segment_name n \<Longrightarrow>
    \<exists>k. legal (spool_step E) spool_allowed s (map (\<lambda>n. ReadOne (w n) n) (take k ns))
      \<and> run (spool_step E) s (map (\<lambda>n. ReadOne (w n) n) (take k ns)) = snd (read_all E w ns s)"
proof (induction ns arbitrary: s)
  case (Cons n ns)
  obtain escaped t where t: "read_one E (w n) n s = (escaped, t)" by fastforce
  show ?case
  proof (cases "room (sp_buffer s) < int MAX_SEGMENT_EVENTS \<or> escaped")
    case True
    then show ?thesis
    proof
      assume "room (sp_buffer s) < int MAX_SEGMENT_EVENTS"
      then show ?thesis by (intro exI [of _ 0]) simp
    next
      assume "escaped"
      then show ?thesis
      proof (cases "room (sp_buffer s) < int MAX_SEGMENT_EVENTS")
        case False
        with t \<open>escaped\<close> Cons.prems show ?thesis by (intro exI [of _ 1]) simp
      qed (intro exI [of _ 0], simp)
    qed
  next
    case False
    from Cons.prems Cons.IH [of t] obtain k where
      "legal (spool_step E) spool_allowed t (map (\<lambda>n. ReadOne (w n) n) (take k ns))"
      "run (spool_step E) t (map (\<lambda>n. ReadOne (w n) n) (take k ns)) = snd (read_all E w ns t)" by auto
    with False t Cons.prems show ?thesis by (intro exI [of _ "Suc k"]) simp
  qed
qed simp

lemma tick_is_run:
  assumes "\<forall>n. fair (w n)" "\<forall>n. fair (w' n)"
  shows "\<exists>ops. legal (spool_step E) spool_allowed s ops
    \<and> snd (spool_tick E w list_fails w' s) = run (spool_step E) s ops"
proof -
  let ?as = "map (\<lambda>n. SettleOne (w n) n) (dict_keys (sp_pending s))"
  let ?s1 = "foldl (\<lambda>s n. settle_one (w n) n s) s (dict_keys (sp_pending s))"
  obtain names s2 where seg: "segments list_fails ?s1 = (names, s2)" by fastforce
  let ?us = "if list_fails then [] else [Unstick]"
  have s2: "run (spool_step E) ?s1 ?us = s2" "legal (spool_step E) spool_allowed ?s1 ?us"
    and names: "\<forall>n\<in>set names. segment_name n"
    using seg by (auto simp: segments_def Let_def split: if_splits)
  from reading_run [OF assms(2) names, of E s2] obtain k where k:
    "legal (spool_step E) spool_allowed s2 (map (\<lambda>n. ReadOne (w' n) n) (take k names))"
    "run (spool_step E) s2 (map (\<lambda>n. ReadOne (w' n) n) (take k names)) = snd (read_all E w' names s2)" by blast
  have "snd (spool_tick E w list_fails w' s) = snd (read_all E w' names s2)"
    using seg by (simp add: spool_tick_def)
  with settling_run [OF assms(1), of E s "dict_keys (sp_pending s)"] s2 k show ?thesis
    by (intro exI [of _ "?as @ ?us @ map (\<lambda>n. ReadOne (w' n) n) (take k names)"]) (simp add: legal_append)
qed

section \<open>Properties\<close>

text \<open>
  C5. No file is lost: whatever the emitters rename in or delete, between whatever system calls, and
  whichever of them fail, a file an emitter left under a name is still there, or set aside for that
  name, unless it was read and no event of that read is buffered or in flight any more.
\<close>

theorem spool_file_kept_or_settled:
  assumes "eb_inv b" "legal (spool_step E) spool_allowed (new_feeder d b) ops"
    and "s = run (spool_step E) (new_feeder d b) ops"
    and "\<not> starts_with ASIDE n" "dict_get (sp_left s) n = Some f"
  shows "dict_get (sp_dir s) n = Some f \<or> dict_get (sp_dir s) (ASIDE @ n) = Some f
    \<or> (\<exists>seqs. (Some (fn_id f), seqs) \<in> set (sp_reads s) \<and> \<not> holds_any (sp_buffer s) seqs)"
proof -
  have ok: "feeder_ok s"
    unfolding assms(3) by (rule spool.run_inv [OF new_feeder_ok [OF assms(1)] assms(2)])
  show ?thesis
  proof (cases "fn_id f \<in> set (sp_deleted s)")
    case True
    with ok show ?thesis unfolding feeder_ok_def range_gone_def by auto
  next
    case False
    with ok keptD [of s n f] assms(4,5) show ?thesis by (auto simp: feeder_ok_def hidden_def)
  qed
qed

lemma record_event:
  assumes "event_of E r = Some e"
  shows "\<exists>kind shape. lookup_shape (se_registry E) (se_source E, kind) = Some shape
    \<and> (\<forall>n v. dict_get e n = Some v \<longrightarrow> n \<in> set shape
        \<or> (n, v) \<in> {(''source'', JStr (se_source E)), (''kind'', JStr kind)} \<or> n = ''ts'')"
proof -
  from assms obtain k ts where adm: "admit (se_registry E)
      [(''ts'', ts), (''source'', JStr (se_source E)), (''kind'', JStr k)]
      (dict_pop ''ts'' (dict_pop ''kind'' r)) = Some e"
    by (auto simp: event_of_def Let_def split: option.splits json.splits if_splits)
  then obtain shape kept where shape: "lookup_shape (se_registry E) (se_source E, k) = Some shape"
    and kept: "admit_fields shape (dict_pop ''ts'' (dict_pop ''kind'' r)) = Some kept"
      "e = dict_update [(''ts'', ts), (''source'', JStr (se_source E)), (''kind'', JStr k)] kept"
    by (auto simp: admit_def event_text_def split: option.splits)
  have "n \<in> set shape \<or> (n, v) \<in> {(''source'', JStr (se_source E)), (''kind'', JStr k)} \<or> n = ''ts''"
    if "dict_get e n = Some v" for n v
    using dict_update_get [OF that [unfolded kept(2)]] admit_fields_Some [OF kept(1)]
    by (auto split: if_splits)
  with shape show ?thesis by blast
qed

lemma admit_records_events:
  "admit_records E lines = Some es \<Longrightarrow> length es \<le> length lines
    \<and> (\<forall>e\<in>set es. \<exists>r. event_of E r = Some e)"
  by (induction E lines arbitrary: es rule: admit_records.induct)
    (fastforce split: option.splits simp: Option.bind_eq_Some_conv)+

text \<open>
  A segment adds nothing undeclared: of its records each is admitted or counted as refused, at most
  500 are admitted, and an admitted event carries a declared kind of its own source and, beside its
  instant, source and kind, only fields that kind declares.
\<close>

theorem segment_admits_declared:
  assumes "parse_segment E raw = Some (es, refused)"
  shows "length es + refused = length (tl (segment_lines raw)) \<and> length es \<le> 500
    \<and> list_all (\<lambda>e. \<exists>kind shape. lookup_shape (se_registry E) (se_source E, kind) = Some shape
        \<and> (\<forall>n v. dict_get e n = Some v \<longrightarrow> n \<in> set shape
            \<or> (n, v) \<in> {(''source'', JStr (se_source E)), (''kind'', JStr kind)} \<or> n = ''ts'')) es"
proof (cases "segment_problem E (segment_lines raw)")
  case (Some problem)
  show ?thesis
  proof (cases problem)
    case True
    with assms Some show ?thesis by (simp add: parse_segment_def Let_def)
  next
    case False
    with assms Some have es: "admit_records E (tl (segment_lines raw)) = Some es"
      "refused = length (tl (segment_lines raw)) - length es"
      by (auto simp: parse_segment_def Let_def)
    have "length (tl (segment_lines raw)) \<le> 500"
      using Some False
      by (auto simp: segment_problem_def MAX_SEGMENT_EVENTS_def MAX_BATCH_EVENTS_def split: list.splits)
    with es admit_records_events [OF es(1)] record_event show ?thesis
      by (auto simp: list_all_iff)
  qed
qed (use assms in \<open>simp add: parse_segment_def Let_def\<close>)

section \<open>Calm weather\<close>

definition calm :: weather where
  "calm = \<lparr>wx_fails = (\<lambda>i. False), wx_moves = (\<lambda>i. [])\<rparr>"

lemma fair_calm [simp]: "fair calm"
  by (simp add: fair_def fair_moves_def calm_def)

lemma emit_calm [simp]: "emit_in calm i s = s"
  by (simp add: emit_in_def calm_def emitted_def)

lemma calm_fails [simp]: "wx_fails calm i = False"
  by (simp add: calm_def)

text \<open>
  Nothing settled stays: when no call fails and the name still holds the file that was read,
  the turn that finds its events gone deletes that file and forgets the name.
\<close>

lemma settled_segment_deleted:
  assumes "dict_get (sp_pending s) n = Some (Some (fn_id f), seqs)" "\<not> holds_any (sp_buffer s) seqs"
    and "dict_get (sp_dir s) n = Some f" "fn_kind f \<noteq> Directory" "dict_get (sp_dir s) (ASIDE @ n) = None"
  shows "dict_get (sp_dir (settle_one calm n s)) n = None
    \<and> dict_get (sp_dir (settle_one calm n s)) (ASIDE @ n) = None
    \<and> dict_get (sp_pending (settle_one calm n s)) n = None
    \<and> sp_deleted (settle_one calm n s) = fn_id f # sp_deleted s"
  using assms
  by (simp add: settle_one_def settle_def put_back_def discard_def Let_def is_directory_def node_id_def
      dict_get_set dict_get_pop ASIDE_def)

text \<open>
  One segment can stop a source: when the first segment listed has a header that \<open>json.loads\<close> gives
  up on with \<open>RecursionError\<close>, the tick ends there by an exception, nothing is read, and the segment
  is neither refused nor counted, so the next tick ends there again.
\<close>

theorem deep_header_stops_tick:
  assumes "int MAX_SEGMENT_EVENTS \<le> room (sp_buffer s)"
    and "dict_get (sp_dir s) n = Some f" "fn_kind f = Regular" "se_owner_ok E f" "int (length (fn_bytes f)) \<le> MAX_SEGMENT_BYTES"
    and "segment_lines (fn_bytes f) = header # records" "se_loads E header = TooDeep"
  shows "read_all E (\<lambda>n. calm) (n # ns) s = (True, s)"
proof -
  have "parse_segment E (fn_bytes f) = None"
    using assms(6,7) by (simp add: parse_segment_def segment_problem_def header_ok_def)
  with assms(2-5) have "read_segment E calm n s = (None, s)"
    by (simp add: read_segment_def read_bounded_def Let_def)
  with assms(1) show ?thesis by (simp add: read_one_def)
qed

section \<open>Witnesses\<close>

definition spool_loads :: "string \<Rightarrow> loaded" where
  "spool_loads line =
     (if line = ''H'' then Loaded (JObj [(''schema'', JInt 1)])
      else if line = ''R'' then Loaded (JObj [(''kind'', JStr ''reconnect''), (''reason'', JStr ''gone'')])
      else if line = ''D'' then TooDeep else NotJson)"

definition demo_env :: spool_env where
  "demo_env = \<lparr>se_loads = spool_loads, se_registry = demo_registry, se_source = ''ws'', se_now = ''t'',
     se_owner_ok = owner_ok 1 1 1\<rparr>"

definition demo_segment :: "string \<Rightarrow> file_node" where
  "demo_segment bytes = \<lparr>fn_id = (7, 1), fn_kind = Regular, fn_uid = 1, fn_gid = 1, fn_bytes = bytes\<rparr>"

definition good_bytes :: string where
  "good_bytes = ''H'' @ [CHR 0x0A] @ ''R'' @ [CHR 0x0A] @ ''X'' @ [CHR 0x0A]"

definition spool_start :: feeder where
  "spool_start = new_feeder [(''a.jsonl'', demo_segment good_bytes)] (new_buffer 1000)"

definition spool_ops :: "spool_op list" where
  "spool_ops = [ReadOne calm ''a.jsonl'', Buffer (Drain ''b1'' ''now'' 500), Buffer (Ack ''b1''), SettleOne calm ''a.jsonl'']"

lemma segment_admits_declared_witness:
  "parse_segment demo_env good_bytes =
     Some ([[(''ts'', JStr ''t''), (''source'', JStr ''ws''), (''kind'', JStr ''reconnect''), (''reason'', JStr ''gone'')]], 1)
   \<and> (1::nat) + 1 = length (tl (segment_lines good_bytes))"
proof -
  have parse: "parse_segment demo_env good_bytes =
     Some ([[(''ts'', JStr ''t''), (''source'', JStr ''ws''), (''kind'', JStr ''reconnect''), (''reason'', JStr ''gone'')]], 1)"
    by code_simp
  with segment_admits_declared [OF parse] show ?thesis by simp
qed

lemma spool_file_kept_or_settled_witness:
  "\<exists>seqs. (Some (7, 1), seqs) \<in> set (sp_reads (run (spool_step demo_env) spool_start spool_ops))
    \<and> \<not> holds_any (sp_buffer (run (spool_step demo_env) spool_start spool_ops)) seqs"
proof -
  let ?s = "run (spool_step demo_env) spool_start spool_ops"
  have "segment_name ''a.jsonl''" "\<not> starts_with ASIDE ''a.jsonl''" by code_simp+
  moreover have "buf_allowed (sp_buffer (spool_step demo_env spool_start (ReadOne calm ''a.jsonl''))) (Drain ''b1'' ''now'' 500)"
    by code_simp
  ultimately have "legal (spool_step demo_env) spool_allowed spool_start spool_ops"
    by (simp add: spool_ops_def)
  moreover have "dict_get (sp_left ?s) ''a.jsonl'' = Some (demo_segment good_bytes)"
    "dict_get (sp_dir ?s) ''a.jsonl'' = None" "dict_get (sp_dir ?s) (ASIDE @ ''a.jsonl'') = None"
    "fn_id (demo_segment good_bytes) = (7, 1)" by code_simp+
  ultimately show ?thesis
    using spool_file_kept_or_settled [OF new_buffer_inv [of 1000] _ refl \<open>\<not> starts_with ASIDE ''a.jsonl''\<close>]
    unfolding spool_start_def by fastforce
qed

lemma deep_header_stops_tick_witness:
  "read_all demo_env (\<lambda>n. calm) [''a.jsonl'', ''b.jsonl'']
     (new_feeder [(''a.jsonl'', demo_segment (''D'' @ [CHR 0x0A])), (''b.jsonl'', demo_segment good_bytes)] (new_buffer 1000)) =
   (True, new_feeder [(''a.jsonl'', demo_segment (''D'' @ [CHR 0x0A])), (''b.jsonl'', demo_segment good_bytes)] (new_buffer 1000))"
  by (rule deep_header_stops_tick [where f = "demo_segment (''D'' @ [CHR 0x0A])" and header = "''D''" and records = "[]"])
    code_simp+

end
