(* ===== verification/Garage.thy ===== *)
theory Garage
  imports Jobs
begin

text \<open>
  The Garage admin client: \<open>garage/admin_api.py\<close> and \<open>garage/tiers.py\<close>. The server is an arbitrary
  function of every request made so far, so it may keep any state, lose replies, and change under our
  feet; each operation returns its answer and the log of exchanges, latest first. A query is the pairs
  \<open>urlencode\<close> renders.
\<close>

section \<open>Exchanges\<close>

record http_request =
  hr_method :: string
  hr_path :: string
  hr_query :: "(string \<times> string) list"
  hr_body :: "json option"
  hr_token :: string

text \<open>The text of the exception, or a status and a body.\<close>

type_synonym http_reply = "string + int \<times> string"
type_synonym http_log = "(http_request \<times> http_reply) list"

record admin =
  ad_url :: string
  ad_token :: string
  ad_url_problem :: "string option"
  ad_loads :: "string \<Rightarrow> json option"
  ad_int :: "json \<Rightarrow> int option"
  ad_query_text :: "(string \<times> string) list \<Rightarrow> string"
  ad_net :: "http_log \<Rightarrow> http_request \<Rightarrow> http_reply"

definition configured :: "admin \<Rightarrow> bool" where
  "configured A \<longleftrightarrow> ad_url A \<noteq> [] \<and> ad_token A \<noteq> []"

definition request :: "admin \<Rightarrow> http_request \<Rightarrow> http_log \<Rightarrow> (int option \<times> string) \<times> http_log" where
  "request A r h =
     (case ad_url_problem A of
        Some problem \<Rightarrow> ((None, problem), h)
      | None \<Rightarrow>
          (let reply = ad_net A h r in
           (case reply of
              Inl exc \<Rightarrow> (None, ''Could not reach Garage admin API at '' @ ad_url A @ '': '' @ exc)
            | Inr (status, body) \<Rightarrow> (Some status, body), (r, reply) # h)))"

definition http_error :: "nat \<Rightarrow> int \<Rightarrow> string \<Rightarrow> string" where
  "http_error n status resp = ''HTTP '' @ int_str status @ '': '' @ take n (strip resp)"

definition success_status :: "int \<Rightarrow> bool" where
  "success_status status \<longleftrightarrow> 200 \<le> status \<and> status < 300"

definition a_request :: "admin \<Rightarrow> string \<Rightarrow> string \<Rightarrow> (string \<times> string) list \<Rightarrow> json option \<Rightarrow> http_request" where
  "a_request A method path query body =
     \<lparr>hr_method = method, hr_path = path, hr_query = query, hr_body = body, hr_token = ad_token A\<rparr>"

text \<open>A decoded body, \<open>JNull\<close> where the code has \<open>None\<close>, and the error.\<close>

definition decoded :: "admin \<Rightarrow> http_request \<Rightarrow> int option \<times> string \<Rightarrow> json \<times> string" where
  "decoded A r reply =
     (case reply of
        (None, resp) \<Rightarrow> (JNull, resp)
      | (Some status, resp) \<Rightarrow>
          if \<not> success_status status then (JNull, http_error 300 status resp)
          else case ad_loads A resp of
            None \<Rightarrow> (JNull, ''admin API returned non-JSON for '' @ hr_path r
                       @ (if hr_query r = [] then [] else ''?'' @ ad_query_text A (hr_query r)))
          | Some v \<Rightarrow> (v, []))"

definition get_json :: "admin \<Rightarrow> string \<Rightarrow> (string \<times> string) list \<Rightarrow> http_log \<Rightarrow> (json \<times> string) \<times> http_log" where
  "get_json A path query h =
     (let r = a_request A ''GET'' path query None; (reply, h1) = request A r h in (decoded A r reply, h1))"

definition post_json :: "admin \<Rightarrow> string \<Rightarrow> json \<Rightarrow> http_log \<Rightarrow> (json \<times> string) \<times> http_log" where
  "post_json A path body h =
     (let r = a_request A ''POST'' path [] (Some body); (reply, h1) = request A r h in (decoded A r reply, h1))"

definition post ::
  "admin \<Rightarrow> string \<Rightarrow> (string \<times> string) list \<Rightarrow> json option \<Rightarrow> http_log \<Rightarrow> (bool \<times> string) \<times> http_log" where
  "post A path query body h =
     (let (reply, h1) = request A (a_request A ''POST'' path query body) h
      in (case reply of
            (None, resp) \<Rightarrow> (False, resp)
          | (Some status, resp) \<Rightarrow> if success_status status then (True, []) else (False, http_error 500 status resp), h1))"

section \<open>Bucket references\<close>

definition FULL_BUCKET_ID_LEN :: nat where "FULL_BUCKET_ID_LEN = 64"

definition get_or_null :: "(string, json) dict \<Rightarrow> string \<Rightarrow> json" where
  "get_or_null d k = (case dict_get d k of Some v \<Rightarrow> v | None \<Rightarrow> JNull)"

definition text_or_empty :: "json \<Rightarrow> json" where
  "text_or_empty v = (if truthy v then v else JStr [])"

definition bucket_query :: "string \<Rightarrow> (string \<times> string) list" where
  "bucket_query ref = [(if length ref = FULL_BUCKET_ID_LEN then ''id'' else ''search'', ref)]"

definition resolve_full_bucket_id :: "admin \<Rightarrow> string \<Rightarrow> http_log \<Rightarrow> (string \<times> string) \<times> http_log" where
  "resolve_full_bucket_id A ref h =
     (if length ref = FULL_BUCKET_ID_LEN then ((ref, []), h)
      else let (reply, h1) = request A (a_request A ''GET'' ''/v2/GetBucketInfo'' [(''search'', ref)] None) h;
               failed = (\<lambda>why. ([], ''resolve bucket id '' @ py_repr ref @ '': '' @ why))
        in (case reply of
              (None, resp) \<Rightarrow> ([], resp)
            | (Some status, resp) \<Rightarrow>
                if \<not> success_status status then failed (http_error 300 status resp)
                else case ad_loads A resp of
                  None \<Rightarrow> failed ''admin API returned non-JSON''
                | Some info \<Rightarrow>
                    (case (case info of JObj d \<Rightarrow> (case dict_get d ''id'' of Some v \<Rightarrow> v | None \<Rightarrow> JStr []) | _ \<Rightarrow> JStr []) of
                       JStr full \<Rightarrow> if starts_with ref full then (full, []) else failed ''no bucket matched the prefix''
                     | _ \<Rightarrow> failed ''no bucket matched the prefix''),
            h1))"

text \<open>Every write to a bucket resolves the reference, then posts.\<close>

definition bucket_post ::
  "admin \<Rightarrow> string \<Rightarrow> string \<Rightarrow> (string \<Rightarrow> (string \<times> string) list) \<Rightarrow> (string \<Rightarrow> json option) \<Rightarrow> http_log
    \<Rightarrow> (bool \<times> string) \<times> http_log" where
  "bucket_post A ref path query body h =
     (case resolve_full_bucket_id A ref h of
        ((full, err), h1) \<Rightarrow> if full = [] then ((False, err), h1) else post A path (query full) (body full) h1)"

section \<open>The operations\<close>

definition update_bucket :: "admin \<Rightarrow> string \<Rightarrow> json \<Rightarrow> http_log \<Rightarrow> (bool \<times> string) \<times> http_log" where
  "update_bucket A ref payload =
     bucket_post A ref ''/v2/UpdateBucket'' (\<lambda>full. [(''id'', full)]) (\<lambda>full. Some payload)"

definition set_bucket_quota :: "admin \<Rightarrow> string \<Rightarrow> int \<Rightarrow> http_log \<Rightarrow> (bool \<times> string) \<times> http_log" where
  "set_bucket_quota A ref max_size =
     update_bucket A ref (JObj [(''quotas'', JObj [(''maxSize'', JInt max_size), (''maxObjects'', JNull)])])"

definition set_bucket_cors :: "admin \<Rightarrow> string \<Rightarrow> json list \<Rightarrow> http_log \<Rightarrow> (bool \<times> string) \<times> http_log" where
  "set_bucket_cors A ref rules = update_bucket A ref (JObj [(''corsRules'', JArr rules)])"

text \<open>The entries of a list that are objects; a body that is not a list is an error.\<close>

definition object_list :: "string \<Rightarrow> json \<times> string \<Rightarrow> (string, json) dict list option \<times> string" where
  "object_list name answer =
     (case answer of
        (JNull, err) \<Rightarrow> (None, err)
      | (JArr items, _) \<Rightarrow> (Some (List.map_filter (\<lambda>i. case i of JObj d \<Rightarrow> Some d | _ \<Rightarrow> None) items), [])
      | _ \<Rightarrow> (None, name @ '' returned a non-list body''))"

definition object_of :: "string \<Rightarrow> json \<times> string \<Rightarrow> (string, json) dict option \<times> string" where
  "object_of name answer =
     (case answer of
        (JNull, err) \<Rightarrow> (None, err)
      | (JObj d, _) \<Rightarrow> (Some d, [])
      | _ \<Rightarrow> (None, name @ '' returned a non-object body''))"

definition list_buckets :: "admin \<Rightarrow> http_log \<Rightarrow> ((string, json) dict list option \<times> string) \<times> http_log" where
  "list_buckets A h = apfst (object_list ''ListBuckets'') (get_json A ''/v2/ListBuckets'' [] h)"

definition get_bucket_info ::
  "admin \<Rightarrow> string \<Rightarrow> http_log \<Rightarrow> ((string, json) dict option \<times> string) \<times> http_log" where
  "get_bucket_info A ref h =
     apfst (\<lambda>answer.
       case object_of (''GetBucketInfo '' @ py_repr ref) answer of
         (None, err) \<Rightarrow> (None, err)
       | (Some d, _) \<Rightarrow>
           (let full = (case dict_get d ''id'' of Some v \<Rightarrow> v | None \<Rightarrow> JStr []);
                mismatch = (None, ''GetBucketInfo '' @ py_repr ref @ '': returned id '' @ json_repr full
                                   @ '' does not match the requested prefix'')
            in case full of JStr s \<Rightarrow> if starts_with ref s then (Some d, []) else mismatch | _ \<Rightarrow> mismatch))
     (get_json A ''/v2/GetBucketInfo'' (bucket_query ref) h)"

definition get_cluster_status :: "admin \<Rightarrow> http_log \<Rightarrow> ((string, json) dict option \<times> string) \<times> http_log" where
  "get_cluster_status A h = apfst (object_of ''GetClusterStatus'') (get_json A ''/v2/GetClusterStatus'' [] h)"

definition get_cluster_statistics :: "admin \<Rightarrow> http_log \<Rightarrow> ((string, json) dict option \<times> string) \<times> http_log" where
  "get_cluster_statistics A h =
     apfst (object_of ''GetClusterStatistics'') (get_json A ''/v2/GetClusterStatistics'' [] h)"

definition list_keys :: "admin \<Rightarrow> http_log \<Rightarrow> ((string, json) dict list option \<times> string) \<times> http_log" where
  "list_keys A h = apfst (object_list ''ListKeys'') (get_json A ''/v2/ListKeys'' [] h)"

definition get_key_info ::
  "admin \<Rightarrow> string \<Rightarrow> http_log \<Rightarrow> ((string, json) dict option \<times> string) \<times> http_log" where
  "get_key_info A key h = apfst (object_of ''GetKeyInfo'') (get_json A ''/v2/GetKeyInfo'' [(''id'', key)] h)"

definition create_key ::
  "admin \<Rightarrow> string \<Rightarrow> bool \<Rightarrow> http_log \<Rightarrow> ((string, json) dict option \<times> string) \<times> http_log" where
  "create_key A name allow_create h =
     apfst (object_of ''CreateKey'')
       (post_json A ''/v2/CreateKey''
          (JObj ([(''name'', JStr name)]
             @ (if allow_create then [(''allow'', JObj [(''createBucket'', JBool True)])] else []))) h)"

definition update_key :: "admin \<Rightarrow> string \<Rightarrow> bool \<Rightarrow> http_log \<Rightarrow> (bool \<times> string) \<times> http_log" where
  "update_key A key allow_create =
     post A ''/v2/UpdateKey'' [(''id'', key)]
       (Some (JObj [(if allow_create then ''allow'' else ''deny'', JObj [(''createBucket'', JBool True)])]))"

definition create_bucket ::
  "admin \<Rightarrow> json option \<Rightarrow> string option \<Rightarrow> http_log \<Rightarrow> ((string, json) dict option \<times> string) \<times> http_log" where
  "create_bucket A local_alias global_alias h =
     apfst (object_of ''CreateBucket'')
       (post_json A ''/v2/CreateBucket''
          (JObj ((case global_alias of None \<Rightarrow> [] | Some a \<Rightarrow> [(''globalAlias'', JStr a)])
             @ (case local_alias of None \<Rightarrow> [] | Some a \<Rightarrow> [(''localAlias'', a)]))) h)"

definition delete_bucket :: "admin \<Rightarrow> string \<Rightarrow> http_log \<Rightarrow> (bool \<times> string) \<times> http_log" where
  "delete_bucket A ref = bucket_post A ref ''/v2/DeleteBucket'' (\<lambda>full. [(''id'', full)]) (\<lambda>full. None)"

definition delete_key :: "admin \<Rightarrow> string \<Rightarrow> http_log \<Rightarrow> (bool \<times> string) \<times> http_log" where
  "delete_key A key = post A ''/v2/DeleteKey'' [(''id'', key)] None"

text \<open>The outer option is the exception \<open>int()\<close> may raise.\<close>

definition cleanup_incomplete_uploads ::
  "admin \<Rightarrow> string \<Rightarrow> int \<Rightarrow> http_log \<Rightarrow> (int option \<times> string) option \<times> http_log" where
  "cleanup_incomplete_uploads A ref older_than h =
     (case resolve_full_bucket_id A ref h of
        ((full, err), h1) \<Rightarrow>
          if full = [] then (Some (None, err), h1)
          else apfst (\<lambda>answer. case answer of
              (JNull, err) \<Rightarrow> Some (None, err)
            | (JObj d, _) \<Rightarrow>
                (case dict_get d ''uploadsDeleted'' of
                   None \<Rightarrow> Some (None, ''CleanupIncompleteUploads returned an unexpected body'')
                 | Some v \<Rightarrow> map_option (\<lambda>n. (Some n, [])) (ad_int A v))
            | _ \<Rightarrow> Some (None, ''CleanupIncompleteUploads returned an unexpected body''))
            (post_json A ''/v2/CleanupIncompleteUploads''
               (JObj [(''bucketId'', JStr full), (''olderThanSecs'', JInt older_than)]) h1))"

type_synonym perms = "bool \<times> bool \<times> bool"

definition perms_body :: "perms \<Rightarrow> json" where
  "perms_body p = (case p of (r, w, own) \<Rightarrow> JObj [(''read'', JBool r), (''write'', JBool w), (''owner'', JBool own)])"

definition bucket_key_perm_change ::
  "string \<Rightarrow> admin \<Rightarrow> string \<Rightarrow> json \<Rightarrow> perms \<Rightarrow> http_log \<Rightarrow> (bool \<times> string) \<times> http_log" where
  "bucket_key_perm_change path A ref key p =
     bucket_post A ref path (\<lambda>full. [])
       (\<lambda>full. Some (JObj [(''bucketId'', JStr full), (''accessKeyId'', key), (''permissions'', perms_body p)]))"

definition allow_bucket_key :: "admin \<Rightarrow> string \<Rightarrow> json \<Rightarrow> perms \<Rightarrow> http_log \<Rightarrow> (bool \<times> string) \<times> http_log" where
  "allow_bucket_key = bucket_key_perm_change ''/v2/AllowBucketKey''"

definition deny_bucket_key :: "admin \<Rightarrow> string \<Rightarrow> json \<Rightarrow> perms \<Rightarrow> http_log \<Rightarrow> (bool \<times> string) \<times> http_log" where
  "deny_bucket_key = bucket_key_perm_change ''/v2/DenyBucketKey''"

definition bucket_alias_local_change ::
  "string \<Rightarrow> admin \<Rightarrow> string \<Rightarrow> json \<Rightarrow> json \<Rightarrow> http_log \<Rightarrow> (bool \<times> string) \<times> http_log" where
  "bucket_alias_local_change path A ref key alias =
     bucket_post A ref path (\<lambda>full. [])
       (\<lambda>full. Some (JObj [(''bucketId'', JStr full), (''localAlias'', alias), (''accessKeyId'', key)]))"

definition add_bucket_alias_local :: "admin \<Rightarrow> string \<Rightarrow> json \<Rightarrow> json \<Rightarrow> http_log \<Rightarrow> (bool \<times> string) \<times> http_log" where
  "add_bucket_alias_local = bucket_alias_local_change ''/v2/AddBucketAlias''"

definition remove_bucket_alias_local :: "admin \<Rightarrow> string \<Rightarrow> json \<Rightarrow> json \<Rightarrow> http_log \<Rightarrow> (bool \<times> string) \<times> http_log" where
  "remove_bucket_alias_local = bucket_alias_local_change ''/v2/RemoveBucketAlias''"

definition lower_char :: "char \<Rightarrow> char" where
  "lower_char c = (if 65 \<le> ord_of c \<and> ord_of c \<le> 90 then char_of (ord_of c + 32) else c)"

definition is_not_found :: "string \<Rightarrow> bool" where
  "is_not_found err =
     list_ex (\<lambda>s. contains s (map lower_char err)) [''404'', ''not found'', ''nosuchbucket'', ''nosuchkey'']"

section \<open>The call meter\<close>

text \<open>
  Per endpoint the samples of the last 300 s, oldest first, as instant and duration in milliseconds. A
  rate is the count over the window.
\<close>

type_synonym call_meter = "(string, (int \<times> int) list) dict"

definition METER_WINDOW_MS :: int where "METER_WINDOW_MS = 300000"

definition evict_samples :: "int \<Rightarrow> (int \<times> int) list \<Rightarrow> (int \<times> int) list" where
  "evict_samples now = dropWhile (\<lambda>(seen, d). seen < now - METER_WINDOW_MS)"

definition record_sample :: "string \<Rightarrow> int \<Rightarrow> int \<Rightarrow> call_meter \<Rightarrow> call_meter" where
  "record_sample url duration now m =
     dict_set url (evict_samples now ((case dict_get m url of Some q \<Rightarrow> q | None \<Rightarrow> []) @ [(now, duration)])) m"

text \<open>The nearest rank at 0.95.\<close>

definition percentile95 :: "int list \<Rightarrow> int" where
  "percentile95 vals =
     (if vals = [] then 0
      else vals ! (min (max 1 ((95 * length vals + 99) div 100)) (length vals) - 1))"

record call_stats =
  st_count :: nat
  st_p95 :: int

definition meter_snapshot :: "int \<Rightarrow> call_meter \<Rightarrow> (string, call_stats) dict \<times> call_meter" where
  "meter_snapshot now m =
     (let m1 = map (\<lambda>(url, q). (url, evict_samples now q)) m
      in (map (\<lambda>(url, q). (url, \<lparr>st_count = length q, st_p95 = percentile95 (sort (map snd q))\<rparr>))
            (filter (\<lambda>(url, q). q \<noteq> []) m1), m1))"

section \<open>What a call adds to the log\<close>

definition grows :: "(http_request \<Rightarrow> bool) \<Rightarrow> http_log \<Rightarrow> http_log \<Rightarrow> bool" where
  "grows P h h' \<longleftrightarrow> (\<exists>new. h' = new @ h \<and> (\<forall>(r, reply)\<in>set new. P r))"

lemma grows_refl [simp]: "grows P h h"
  by (simp add: grows_def)

lemma grows_trans: "grows P h h1 \<Longrightarrow> grows P h1 h2 \<Longrightarrow> grows P h h2"
proof -
  assume "grows P h h1" "grows P h1 h2"
  then obtain n1 n2 where "h1 = n1 @ h" "h2 = n2 @ h1" "\<forall>(r, reply)\<in>set n1. P r" "\<forall>(r, reply)\<in>set n2. P r"
    by (auto simp: grows_def)
  then show ?thesis unfolding grows_def by (intro exI [of _ "n2 @ n1"]) auto
qed

lemma grows_mono: "grows P h h' \<Longrightarrow> (\<And>r. P r \<Longrightarrow> Q r) \<Longrightarrow> grows Q h h'"
  unfolding grows_def by fastforce

lemma grows_set: "grows P h h' \<Longrightarrow> (r, reply) \<in> set h' \<Longrightarrow> (r, reply) \<in> set h \<or> P r"
  unfolding grows_def by auto

lemma grows_subset: "grows P h h' \<Longrightarrow> set h \<subseteq> set h'"
  unfolding grows_def by auto

lemma request_grows: "request A r h = (x, h') \<Longrightarrow> P r \<Longrightarrow> grows P h h'"
  by (auto simp: request_def grows_def Let_def split: option.splits)

lemma post_grows:
  "post A path query body h = (x, h') \<Longrightarrow> P (a_request A ''POST'' path query body) \<Longrightarrow> grows P h h'"
  by (auto simp: post_def Let_def split: prod.splits dest: request_grows)

lemma post_json_grows:
  "post_json A path body h = (x, h') \<Longrightarrow> P (a_request A ''POST'' path [] (Some body)) \<Longrightarrow> grows P h h'"
  by (auto simp: post_json_def Let_def split: prod.splits dest: request_grows)

definition is_get :: "http_request \<Rightarrow> bool" where
  "is_get r \<longleftrightarrow> hr_method r = ''GET''"

lemma is_get_request [simp]:
  "is_get (a_request A ''GET'' path query body)" "\<not> is_get (a_request A ''POST'' path query body)"
  by (simp_all add: is_get_def a_request_def)

lemma get_json_grows: "get_json A path query h = (x, h') \<Longrightarrow> grows is_get h h'"
  by (auto simp: get_json_def Let_def split: prod.splits dest: request_grows [where P = is_get])

lemma resolve_grows: "resolve_full_bucket_id A ref h = (x, h') \<Longrightarrow> grows is_get h h'"
  by (auto simp: resolve_full_bucket_id_def Let_def split: if_splits prod.splits dest: request_grows [where P = is_get])

text \<open>The resolved id is the reference itself or extends it.\<close>

lemma resolve_prefix: "resolve_full_bucket_id A ref h = ((full, err), h') \<Longrightarrow> full = [] \<or> starts_with ref full"
  by (auto simp: resolve_full_bucket_id_def starts_with_def Let_def
      split: if_splits prod.splits option.splits json.splits)

lemma bucket_post_grows:
  assumes "bucket_post A ref path query body h = (x, h')"
    and "\<And>full. full \<noteq> [] \<Longrightarrow> starts_with ref full \<Longrightarrow> P (a_request A ''POST'' path (query full) (body full))"
    and "\<And>r. is_get r \<Longrightarrow> P r"
  shows "grows P h h'"
proof -
  obtain full err h1 where res: "resolve_full_bucket_id A ref h = ((full, err), h1)"
    by (metis prod.exhaust)
  have "grows P h h1" using resolve_grows [OF res] assms(3) by (rule grows_mono)
  moreover have "grows P h1 h'"
  proof (cases "full = []")
    case False
    with assms(1) res have "post A path (query full) (body full) h1 = (x, h')"
      by (simp add: bucket_post_def)
    from post_grows [OF this] resolve_prefix [OF res] False assms(2) show ?thesis by blast
  qed (use assms(1) res in \<open>simp add: bucket_post_def\<close>)
  ultimately show ?thesis by (rule grows_trans)
qed

lemma post_ok:
  assumes "post A path query body h = ((True, err), h')"
  shows "\<exists>status text. h' = (a_request A ''POST'' path query body, Inr (status, text)) # h \<and> success_status status"
  using assms
  by (auto simp: post_def request_def Let_def split: option.splits sum.splits prod.splits if_splits)

lemma object_reads:
  "get_bucket_info A ref h = (x, h') \<Longrightarrow> grows is_get h h'"
  "get_key_info A key h = (x, h') \<Longrightarrow> grows is_get h h'"
  "list_buckets A h = (y, h') \<Longrightarrow> grows is_get h h'"
  "list_keys A h = (y, h') \<Longrightarrow> grows is_get h h'"
  "get_cluster_status A h = (x, h') \<Longrightarrow> grows is_get h h'"
  "get_cluster_statistics A h = (x, h') \<Longrightarrow> grows is_get h h'"
  by (auto simp: get_bucket_info_def get_key_info_def list_buckets_def list_keys_def get_cluster_status_def
      get_cluster_statistics_def apfst_def map_prod_def split: prod.splits dest: get_json_grows)

section \<open>Properties\<close>

text \<open>The bucket writes, and the full bucket id a request names.\<close>

datatype bucket_write =
    SetQuota int | SetCors "json list" | Drop | Allow json perms | Deny json perms
  | AddAlias json json | RemoveAlias json json

fun write_bucket :: "admin \<Rightarrow> string \<Rightarrow> bucket_write \<Rightarrow> http_log \<Rightarrow> (bool \<times> string) \<times> http_log" where
  "write_bucket A ref (SetQuota n) = set_bucket_quota A ref n"
| "write_bucket A ref (SetCors rules) = set_bucket_cors A ref rules"
| "write_bucket A ref Drop = delete_bucket A ref"
| "write_bucket A ref (Allow key p) = allow_bucket_key A ref key p"
| "write_bucket A ref (Deny key p) = deny_bucket_key A ref key p"
| "write_bucket A ref (AddAlias key alias) = add_bucket_alias_local A ref key alias"
| "write_bucket A ref (RemoveAlias key alias) = remove_bucket_alias_local A ref key alias"

definition named_bucket :: "http_request \<Rightarrow> string option" where
  "named_bucket r =
     (case dict_get (hr_query r) ''id'' of
        Some full \<Rightarrow> Some full
      | None \<Rightarrow>
          (case hr_body r of
             Some (JObj body) \<Rightarrow> (case dict_get body ''bucketId'' of Some (JStr full) \<Rightarrow> Some full | _ \<Rightarrow> None)
           | _ \<Rightarrow> None))"

definition writes_to :: "string \<Rightarrow> http_request \<Rightarrow> bool" where
  "writes_to ref r \<longleftrightarrow> is_get r \<or> (\<exists>full. named_bucket r = Some full \<and> full \<noteq> [] \<and> starts_with ref full)"

lemmas write_defs = set_bucket_quota_def set_bucket_cors_def update_bucket_def delete_bucket_def
  allow_bucket_key_def deny_bucket_key_def bucket_key_perm_change_def add_bucket_alias_local_def
  remove_bucket_alias_local_def bucket_alias_local_change_def

lemma write_grows: "write_bucket A ref w h = (x, h') \<Longrightarrow> grows (writes_to ref) h h'"
  by (cases w)
    (auto simp: write_defs writes_to_def named_bucket_def a_request_def perms_body_def elim!: bucket_post_grows)

lemma bucket_post_ok:
  assumes "bucket_post A ref path query body h = ((True, err), h')"
  shows "\<exists>full status text h1. h' = (a_request A ''POST'' path (query full) (body full), Inr (status, text)) # h1
    \<and> grows is_get h h1 \<and> full \<noteq> [] \<and> starts_with ref full \<and> success_status status"
proof -
  obtain full err' h1 where res: "resolve_full_bucket_id A ref h = ((full, err'), h1)"
    by (metis prod.exhaust)
  with assms have full: "full \<noteq> []" "post A path (query full) (body full) h1 = ((True, err), h')"
    by (auto simp: bucket_post_def split: if_splits)
  with post_ok [OF full(2)] resolve_prefix [OF res] resolve_grows [OF res] show ?thesis by blast
qed

lemma write_ok:
  assumes "write_bucket A ref w h = ((True, err), h')"
  shows "\<exists>r status text h1. h' = (r, Inr (status, text)) # h1 \<and> grows is_get h h1 \<and> hr_method r = ''POST'' \<and> success_status status"
  using assms by (cases w) (auto simp: write_defs a_request_def dest!: bucket_post_ok)

text \<open>
  C22. A bucket write changes only a bucket the reference names: whatever the server answers to the
  lookup, each exchange a write adds is a read, or posts to a nonempty id that begins with the
  reference given, so an alias that collides with a prefix is refused; and a write that reports
  success was answered with a 2xx status.
\<close>

theorem bucket_writes_match_reference:
  assumes "write_bucket A ref w h = ((ok, err), h')"
  shows "\<exists>new. h' = new @ h \<and> list_all (\<lambda>(r, reply). hr_method r = ''GET''
      \<or> (\<exists>full. named_bucket r = Some full \<and> full \<noteq> [] \<and> starts_with ref full)) new
    \<and> (ok \<longrightarrow> (\<exists>r status text. new \<noteq> [] \<and> hd new = (r, Inr (status, text)) \<and> hr_method r = ''POST'' \<and> success_status status))"
proof -
  from write_grows [OF assms] obtain new where new: "h' = new @ h" "\<forall>(r, reply)\<in>set new. writes_to ref r"
    by (auto simp: grows_def)
  have "\<exists>r status text h1. h' = (r, Inr (status, text)) # h1 \<and> grows is_get h h1 \<and> hr_method r = ''POST'' \<and> success_status status"
    if "ok"
    using write_ok [of A ref w h err h'] assms that by simp
  then have "\<exists>r status text. new \<noteq> [] \<and> hd new = (r, Inr (status, text)) \<and> hr_method r = ''POST'' \<and> success_status status"
    if "ok"
    using that new(1) by (cases new) (fastforce simp: grows_def)+
  with new show ?thesis
    by (intro exI [of _ new]) (auto simp: list_all_iff writes_to_def is_get_def)
qed

section \<open>A small server\<close>

text \<open>Reads answer one object, writes answer 200.\<close>

definition demo_info :: "(string, json) dict" where
  "demo_info = [(''id'', JStr ''ab12''), (''accessKeyId'', JStr ''K1'')]"

definition demo_admin :: admin where
  "demo_admin = \<lparr>ad_url = ''http://h'', ad_token = ''t'', ad_url_problem = None,
     ad_loads = (\<lambda>t. if t = ''I'' then Some (JObj demo_info) else None),
     ad_int = (\<lambda>v. case v of JInt i \<Rightarrow> Some i | _ \<Rightarrow> None), ad_query_text = (\<lambda>q. []),
     ad_net = (\<lambda>h r. Inr (200, ''I''))\<rparr>"

lemma bucket_writes_match_reference_witness:
  "\<exists>r reply. hd (snd (write_bucket demo_admin ''ab'' Drop [])) = (r, reply) \<and> named_bucket r = Some ''ab12''"
proof -
  let ?post = "a_request demo_admin ''POST'' ''/v2/DeleteBucket'' [(''id'', ''ab12'')] None"
  let ?get = "a_request demo_admin ''GET'' ''/v2/GetBucketInfo'' [(''search'', ''ab'')] None"
  have w: "write_bucket demo_admin ''ab'' Drop [] = ((True, []), [(?post, Inr (200, ''I'')), (?get, Inr (200, ''I''))])"
    by (simp add: delete_bucket_def bucket_post_def resolve_full_bucket_id_def FULL_BUCKET_ID_LEN_def request_def
        demo_admin_def demo_info_def success_status_def starts_with_def post_def a_request_def)
  from bucket_writes_match_reference [OF w] w show ?thesis
    by (auto simp: a_request_def named_bucket_def)
qed

end
