(* ===== verification/GarageJobs.thy ===== *)
theory GarageJobs
  imports Garage
begin

text \<open>
  The Garage jobs that change keys, grants and buckets: \<open>garage/jobs/\<close>. Each job is a function of its
  params, the admin client and the log of exchanges; \<open>None\<close> is an exception the job manager turns into
  its crash outcome. Progress frames are left out; \<open>el\<close> is the text of the elapsed seconds.
\<close>

section \<open>Outcomes\<close>

type_synonym job_run = "http_log \<Rightarrow> job_outcome option \<times> http_log"
type_synonym job_params = "(string, json) dict"

datatype rollback_status = RbComplete | RbPartial | RbNotRequired

fun rollback_value :: "rollback_status \<Rightarrow> string" where
  "rollback_value RbComplete = ''complete''"
| "rollback_value RbPartial = ''partial''"
| "rollback_value RbNotRequired = ''not_required''"

definition done_with :: "string \<Rightarrow> (string, json) dict \<Rightarrow> job_outcome option" where
  "done_with out extras = Some (success_outcome out extras)"

definition failed_with :: "failure_reason \<Rightarrow> string \<Rightarrow> (string, json) dict \<Rightarrow> job_outcome option" where
  "failed_with reason err extras = Some (failure_outcome reason err extras)"

definition unconfigured :: string where
  "unconfigured = ''Garage admin API not configured (admin_url + admin_token); set [garage] admin_url and admin_token_file.''"

text \<open>\<open>params.get(k)\<close> is true; its text.\<close>

definition has_params :: "string list \<Rightarrow> job_params \<Rightarrow> bool" where
  "has_params ks p \<longleftrightarrow> list_all (\<lambda>k. truthy (get_or_null p k)) ks"

definition ptext :: "job_params \<Rightarrow> string \<Rightarrow> string" where
  "ptext p k = (case dict_get p k of None \<Rightarrow> [] | Some (JStr s) \<Rightarrow> s | Some v \<Rightarrow> json_to_str v)"

definition opt_text :: "string option \<Rightarrow> json" where
  "opt_text s = (case s of None \<Rightarrow> JNull | Some t \<Rightarrow> JStr t)"

text \<open>Iterating \<open>v or []\<close>, and \<open>v or {}\<close>: what is neither raises.\<close>

definition items_of :: "json \<Rightarrow> json list option" where
  "items_of v = (if \<not> truthy v then Some [] else case v of JArr xs \<Rightarrow> Some xs | _ \<Rightarrow> None)"

definition dict_of :: "json \<Rightarrow> (string, json) dict option" where
  "dict_of v = (if \<not> truthy v then Some [] else case v of JObj d \<Rightarrow> Some d | _ \<Rightarrow> None)"

definition perm_bits :: "(string, json) dict \<Rightarrow> perms" where
  "perm_bits p = (truthy (get_or_null p ''read''), truthy (get_or_null p ''write''), truthy (get_or_null p ''owner''))"

definition any_perm :: "perms \<Rightarrow> bool" where
  "any_perm p = (case p of (r, w, own) \<Rightarrow> r \<or> w \<or> own)"

definition TIER_PERMS :: "(string, perms) dict" where
  "TIER_PERMS = [(''all'', True, True, True), (''rw'', True, True, False), (''ro'', True, False, False)]"

definition ATTACH_TIER_PERMS :: "(string, perms) dict" where
  "ATTACH_TIER_PERMS = [(''ro'', True, False, False), (''rw'', True, True, False), (''owner'', True, True, True)]"

section \<open>Deleting a key\<close>

definition delete_key_extras :: "string \<Rightarrow> string \<Rightarrow> string \<Rightarrow> bool \<Rightarrow> string \<Rightarrow> (string, json) dict" where
  "delete_key_extras el key outcome absent err =
     [(''key_id'', JStr key), (''outcome'', JStr outcome), (''confirmed_absent'', JBool absent),
      (''garage_stderr'', JStr err), (''duration_seconds'', JFloat el)]"

definition confirmed_gone :: "string \<Rightarrow> string \<Rightarrow> string \<Rightarrow> job_outcome option" where
  "confirmed_gone el key outcome =
     done_with (''Key '' @ key @ '' '' @ outcome) (delete_key_extras el key outcome True [])"

definition run_delete_key :: "string \<Rightarrow> admin \<Rightarrow> string \<Rightarrow> job_run" where
  "run_delete_key el A key h =
     (let failure = (\<lambda>err. failed_with FKeyDeleteFailed err (delete_key_extras el key ''transient_error'' False err))
      in if \<not> configured A then (failure unconfigured, h)
         else case delete_key A key h of
           ((ok, err), h1) \<Rightarrow>
             (if ok then confirmed_gone el key ''deleted''
              else if is_not_found err then confirmed_gone el key ''already_absent''
              else failure err, h1))"

definition make_delete_key_handler :: "string \<Rightarrow> admin \<Rightarrow> job_params \<Rightarrow> job_run option" where
  "make_delete_key_handler el A p =
     (if \<not> has_params [''key_id''] p then None else Some (run_delete_key el A (ptext p ''key_id'')))"

section \<open>Provisioning a bucket with its admin key\<close>

definition cleanup_key :: "json \<Rightarrow> json" where
  "cleanup_key key = JObj [(''type'', JStr ''key''), (''id'', key)]"

definition cleanup_unknown :: "string \<Rightarrow> json" where
  "cleanup_unknown name = JObj [(''type'', JStr ''key_unknown_id''), (''name'', JStr name)]"

definition rollback_reason :: "rollback_status \<Rightarrow> failure_reason \<Rightarrow> failure_reason" where
  "rollback_reason status reason = (if status = RbPartial then FRollbackFailed else reason)"

definition provision_failure ::
  "string \<Rightarrow> failure_reason \<Rightarrow> string option \<Rightarrow> string option \<Rightarrow> string \<Rightarrow> rollback_status \<Rightarrow> json list \<Rightarrow> job_outcome option"
where
  "provision_failure el reason step_failed step_completed err status manual =
     failed_with (rollback_reason status reason) err
       [(''bucket_uuid'', JNull), (''step_completed'', opt_text step_completed), (''step_failed'', opt_text step_failed),
        (''rollback_status'', JStr (rollback_value status)), (''manual_cleanup_required'', JArr manual),
        (''garage_stderr'', JStr err), (''duration_seconds'', JFloat el)]"

definition rollback_orphan_key :: "admin \<Rightarrow> json \<Rightarrow> http_log \<Rightarrow> (rollback_status \<times> json list) \<times> http_log" where
  "rollback_orphan_key A key h =
     (case delete_key A (json_to_str key) h of
        ((ok, _), h1) \<Rightarrow> (if ok then (RbComplete, []) else (RbPartial, [cleanup_key key]), h1))"

definition admin_perms :: json where
  "admin_perms = JObj [(''read'', JBool True), (''write'', JBool True), (''owner'', JBool True)]"

text \<open>\<open>bucket_uuid[:16]\<close> of a JSON value: a string or a list is cut, anything else raises.\<close>

definition short_id :: "json \<Rightarrow> json option" where
  "short_id v = (case v of JStr s \<Rightarrow> Some (JStr (take 16 s)) | JArr xs \<Rightarrow> Some (JArr (take 16 xs)) | _ \<Rightarrow> None)"

definition run_provision_customer_bucket :: "string \<Rightarrow> admin \<Rightarrow> string \<Rightarrow> string \<Rightarrow> job_run" where
  "run_provision_customer_bucket el A display_name key_name h =
     (if \<not> configured A then (provision_failure el FAdminApiUnconfigured None None unconfigured RbNotRequired [], h)
      else case create_key A key_name False h of
        ((None, err), h1) \<Rightarrow>
          (provision_failure el FAdminKeyCreateFailed (Some ''admin_key_create'') None err RbNotRequired [], h1)
      | ((Some info, _), h1) \<Rightarrow>
          (let key = text_or_empty (get_or_null info ''accessKeyId'') in
           if \<not> truthy key
           then (provision_failure el FAdminKeyCreateFailed (Some ''admin_key_create'') None
                   ''CreateKey response missing accessKeyId'' RbPartial [cleanup_unknown key_name], h1)
           else (let undo = (\<lambda>err h. case rollback_orphan_key A key h of
                         ((status, manual), h') \<Rightarrow>
                           (provision_failure el FBucketCreateFailed (Some ''bucket_create'') (Some ''admin_key_create'')
                              err status manual, h'))
             in case create_bucket A
                    (Some (JObj [(''accessKeyId'', key), (''alias'', JStr display_name), (''allow'', admin_perms)])) None h1 of
                  ((None, err), h2) \<Rightarrow> undo err h2
                | ((Some bucket, _), h2) \<Rightarrow>
                    (let uuid = text_or_empty (get_or_null bucket ''id'') in
                     if \<not> truthy uuid then undo ''CreateBucket response missing id'' h2
                     else (Option.bind (short_id uuid) (\<lambda>short.
                       done_with (''Bucket UUID: '' @ json_to_str short @ [CHR 0x0A] @ ''Admin key: '' @ json_to_str key)
                         [(''bucket_uuid'', short),
                          (''admin'', JObj [(''key_id'', key), (''secret'', text_or_empty (get_or_null info ''secretAccessKey'')),
                             (''key_name'', JStr key_name)]),
                          (''step_completed'', JStr ''bucket_create''), (''step_failed'', JNull),
                          (''rollback_status'', JStr (rollback_value RbNotRequired)),
                          (''manual_cleanup_required'', JArr []), (''garage_stderr'', JStr []),
                          (''duration_seconds'', JFloat el)]), h2)))))"

definition make_provision_customer_bucket_handler :: "string \<Rightarrow> admin \<Rightarrow> job_params \<Rightarrow> job_run option" where
  "make_provision_customer_bucket_handler el A p =
     (if \<not> has_params [''display_name'', ''key_name_admin''] p then None
      else Some (run_provision_customer_bucket el A (ptext p ''display_name'') (ptext p ''key_name_admin'')))"

section \<open>An additional key for a bucket\<close>

definition additional_failure ::
  "string \<Rightarrow> failure_reason \<Rightarrow> string option \<Rightarrow> json \<Rightarrow> string \<Rightarrow> string option \<Rightarrow> string \<Rightarrow> rollback_status \<Rightarrow> json list
    \<Rightarrow> job_outcome option" where
  "additional_failure el reason step_failed key tier step_completed err status manual =
     failed_with (rollback_reason status reason) err
       [(''new_key_id'', key), (''key_tier'', JStr tier), (''step_completed'', opt_text step_completed),
        (''step_failed'', opt_text step_failed), (''rollback_status'', JStr (rollback_value status)),
        (''manual_cleanup_required'', JArr manual), (''garage_stderr'', JStr err), (''duration_seconds'', JFloat el)]"

definition cleanup_grant_bits :: "json \<Rightarrow> perms \<Rightarrow> json" where
  "cleanup_grant_bits key p =
     JObj [(''type'', JStr ''permission_grant''), (''key_id'', key), (''permissions'', perms_body p)]"

text \<open>\<open>_rollback\<close>: the grant first, where there is one, then the key; it halts on the first failure.\<close>

definition rollback_additional ::
  "admin \<Rightarrow> string \<Rightarrow> perms \<Rightarrow> json \<Rightarrow> bool \<Rightarrow> http_log \<Rightarrow> (rollback_status \<times> json list) \<times> http_log" where
  "rollback_additional A bucket p key granted h =
     (case (if granted then deny_bucket_key A bucket key p h else ((True, []), h)) of
        ((False, _), h1) \<Rightarrow> ((RbPartial, [cleanup_grant_bits key p, cleanup_key key]), h1)
      | ((True, _), h1) \<Rightarrow> rollback_orphan_key A key h1)"

definition run_provision_additional_key :: "string \<Rightarrow> admin \<Rightarrow> string \<Rightarrow> string \<Rightarrow> string \<Rightarrow> string \<Rightarrow> job_run" where
  "run_provision_additional_key el A name bucket alias tier h =
     (case dict_get TIER_PERMS tier of
        None \<Rightarrow> (additional_failure el FInvalidKeyTier None JNull tier None
                  (''key_tier must be one of ('' @ join '', '' (map py_repr (dict_keys TIER_PERMS)) @ ''), got '' @ py_repr tier)
                  RbNotRequired [], h)
      | Some p \<Rightarrow>
          if \<not> configured A
          then (additional_failure el FAdminApiUnconfigured None JNull tier None unconfigured RbNotRequired [], h)
          else case create_key A name False h of
            ((None, err), h1) \<Rightarrow>
              (additional_failure el FNewKeyCreateFailed (Some ''new_key_create'') JNull tier None err RbNotRequired [], h1)
          | ((Some info, _), h1) \<Rightarrow>
              (let key = text_or_empty (get_or_null info ''accessKeyId'') in
               if \<not> truthy key
               then (additional_failure el FNewKeyCreateFailed (Some ''new_key_create'') JNull tier None
                       ''CreateKey response missing accessKeyId'' RbPartial [cleanup_unknown name], h1)
               else case allow_bucket_key A bucket key p h1 of
                 ((False, err), h2) \<Rightarrow>
                   (case rollback_additional A bucket p key False h2 of
                      ((status, manual), h3) \<Rightarrow>
                        (additional_failure el FNewKeyPermissionGrantFailed (Some ''new_key_permission_grant'') key tier
                           (Some ''new_key_create'') err status manual, h3))
               | ((True, _), h2) \<Rightarrow>
                   (case add_bucket_alias_local A bucket key (JStr alias) h2 of
                      ((False, err), h3) \<Rightarrow>
                        (case rollback_additional A bucket p key True h3 of
                           ((status, manual), h4) \<Rightarrow>
                             (additional_failure el FNewKeyAliasAttachFailed (Some ''new_key_alias_attach'') key tier
                                (Some ''new_key_permission_grant'') err status manual, h4))
                    | ((True, _), h3) \<Rightarrow>
                        (done_with (''New '' @ tier @ '' key: '' @ json_to_str key)
                           [(''new_key_id'', key), (''new_secret'', text_or_empty (get_or_null info ''secretAccessKey'')),
                            (''new_key_name'', JStr name), (''key_tier'', JStr tier),
                            (''step_completed'', JStr ''new_key_alias_attach''), (''step_failed'', JNull),
                            (''rollback_status'', JStr (rollback_value RbNotRequired)),
                            (''manual_cleanup_required'', JArr []), (''garage_stderr'', JStr []),
                            (''duration_seconds'', JFloat el)], h3))))"

definition make_provision_additional_key_handler :: "string \<Rightarrow> admin \<Rightarrow> job_params \<Rightarrow> job_run option" where
  "make_provision_additional_key_handler el A p =
     (if \<not> has_params [''new_key_name'', ''bucket_id'', ''local_alias'', ''key_tier''] p
         \<or> \<not> dict_has TIER_PERMS (ptext p ''key_tier'') then None
      else Some (run_provision_additional_key el A (ptext p ''new_key_name'') (ptext p ''bucket_id'')
                   (ptext p ''local_alias'') (ptext p ''key_tier'')))"

section \<open>Rotating a bucket key\<close>

definition rotate_failure ::
  "string \<Rightarrow> failure_reason \<Rightarrow> string option \<Rightarrow> json \<Rightarrow> string option \<Rightarrow> string \<Rightarrow> rollback_status \<Rightarrow> json list
    \<Rightarrow> job_outcome option" where
  "rotate_failure el reason step_failed key step_completed err status manual =
     failed_with (rollback_reason status reason) err
       [(''new_key_id'', key), (''step_completed'', opt_text step_completed), (''step_failed'', opt_text step_failed),
        (''rollback_status'', JStr (rollback_value status)), (''manual_cleanup_required'', JArr manual),
        (''garage_stderr'', JStr err), (''duration_seconds'', JFloat el)]"

definition cleanup_grant :: "json \<Rightarrow> string \<Rightarrow> json" where
  "cleanup_grant key bucket =
     JObj [(''type'', JStr ''permission_grant''), (''key_id'', key), (''bucket_id'', JStr bucket)]"

definition cleanup_alias :: "json \<Rightarrow> string \<Rightarrow> json" where
  "cleanup_alias key alias = JObj [(''type'', JStr ''local_alias''), (''key_id'', key), (''alias'', JStr alias)]"

text \<open>The alias, the grant and the new key, each where it was made; the old key is not touched.\<close>

definition rollback_rotation ::
  "admin \<Rightarrow> string \<Rightarrow> string \<Rightarrow> perms \<Rightarrow> json \<Rightarrow> bool \<Rightarrow> bool \<Rightarrow> http_log \<Rightarrow> (rollback_status \<times> json list) \<times> http_log" where
  "rollback_rotation A bucket alias p key granted attached h =
     (case (if attached then remove_bucket_alias_local A bucket key (JStr alias) h else ((True, []), h)) of
        ((False, _), h1) \<Rightarrow>
          ((RbPartial, [cleanup_alias key alias] @ (if granted then [cleanup_grant key bucket] else []) @ [cleanup_key key]), h1)
      | ((True, _), h1) \<Rightarrow>
          (case (if granted then deny_bucket_key A bucket key p h1 else ((True, []), h1)) of
             ((False, _), h2) \<Rightarrow> ((RbPartial, [cleanup_grant key bucket, cleanup_key key]), h2)
           | ((True, _), h2) \<Rightarrow> rollback_orphan_key A key h2))"

text \<open>The outer option is the \<open>ValueError\<close> of an unknown tier.\<close>

definition run_rotate_customer_key ::
  "string \<Rightarrow> admin \<Rightarrow> string \<Rightarrow> string \<Rightarrow> string \<Rightarrow> string \<Rightarrow> string \<Rightarrow> job_run" where
  "run_rotate_customer_key el A old_key name bucket alias tier h =
     (case dict_get TIER_PERMS tier of
        None \<Rightarrow> (None, h)
      | Some p \<Rightarrow>
          if \<not> configured A then (rotate_failure el FAdminApiUnconfigured None JNull None unconfigured RbNotRequired [], h)
          else case create_key A name False h of
            ((None, err), h1) \<Rightarrow>
              (rotate_failure el FNewKeyCreateFailed (Some ''new_key_create'') JNull None err RbNotRequired [], h1)
          | ((Some info, _), h1) \<Rightarrow>
              (let key = text_or_empty (get_or_null info ''accessKeyId'') in
               if \<not> truthy key
               then (rotate_failure el FNewKeyCreateFailed (Some ''new_key_create'') JNull None
                       ''CreateKey response missing accessKeyId'' RbPartial [cleanup_unknown name], h1)
               else (let undo = (\<lambda>reason failed completed err granted attached h.
                           case rollback_rotation A bucket alias p key granted attached h of
                             ((status, manual), h') \<Rightarrow>
                               (rotate_failure el reason (Some failed) key (Some completed) err status manual, h'))
                 in case allow_bucket_key A bucket key p h1 of
                      ((False, err), h2) \<Rightarrow>
                        undo FNewKeyPermissionGrantFailed ''new_key_permission_grant'' ''new_key_create'' err False False h2
                    | ((True, _), h2) \<Rightarrow>
                        (case add_bucket_alias_local A bucket key (JStr alias) h2 of
                           ((False, err), h3) \<Rightarrow>
                             undo FNewKeyAliasAttachFailed ''new_key_alias_attach'' ''new_key_permission_grant'' err True False h3
                         | ((True, _), h3) \<Rightarrow>
                             (case delete_key A old_key h3 of
                                ((False, err), h4) \<Rightarrow>
                                  undo FOldKeyDeleteFailed ''old_key_delete'' ''new_key_alias_attach'' err True True h4
                              | ((True, _), h4) \<Rightarrow>
                                  (done_with (''New key ID: '' @ json_to_str key @ [CHR 0x0A] @ ''Old key '' @ old_key @ '' deleted.'')
                                     [(''new_key_id'', key), (''new_secret'', text_or_empty (get_or_null info ''secretAccessKey'')),
                                      (''new_key_name'', JStr name), (''step_completed'', JStr ''old_key_delete''),
                                      (''step_failed'', JNull), (''rollback_status'', JStr (rollback_value RbNotRequired)),
                                      (''manual_cleanup_required'', JArr []), (''garage_stderr'', JStr []),
                                      (''duration_seconds'', JFloat el)], h4))))))"

definition make_rotate_customer_key_handler :: "string \<Rightarrow> admin \<Rightarrow> job_params \<Rightarrow> job_run option" where
  "make_rotate_customer_key_handler el A p =
     (if \<not> has_params [''old_key_id'', ''new_key_name'', ''bucket_id'', ''local_alias'', ''key_tier''] p
         \<or> \<not> dict_has TIER_PERMS (ptext p ''key_tier'') then None
      else Some (run_rotate_customer_key el A (ptext p ''old_key_id'') (ptext p ''new_key_name'') (ptext p ''bucket_id'')
                   (ptext p ''local_alias'') (ptext p ''key_tier'')))"

section \<open>An account key\<close>

definition coerce_bool :: "json \<Rightarrow> bool" where
  "coerce_bool v =
     (case v of JBool b \<Rightarrow> b | JStr s \<Rightarrow> map lower_char (strip s) = ''true'' | _ \<Rightarrow> False)"

definition account_key_failure :: "string \<Rightarrow> failure_reason \<Rightarrow> string \<Rightarrow> json list \<Rightarrow> job_outcome option" where
  "account_key_failure el reason err manual =
     failed_with reason err
       [(''new_key_id'', JNull), (''can_create_bucket'', JBool True), (''step_completed'', JNull),
        (''step_failed'', JStr ''account_key_create''), (''rollback_status'', JStr (rollback_value RbNotRequired)),
        (''manual_cleanup_required'', JArr manual), (''garage_stderr'', JStr err), (''duration_seconds'', JFloat el)]"

definition run_provision_account_key :: "string \<Rightarrow> admin \<Rightarrow> string \<Rightarrow> bool \<Rightarrow> job_run" where
  "run_provision_account_key el A name allow_create h =
     (if \<not> configured A then (account_key_failure el FAdminApiUnconfigured unconfigured [], h)
      else case create_key A name allow_create h of
        ((None, err), h1) \<Rightarrow> (account_key_failure el FAccountKeyCreateFailed err [], h1)
      | ((Some info, _), h1) \<Rightarrow>
          (let key = text_or_empty (get_or_null info ''accessKeyId'') in
           if \<not> truthy key
           then (account_key_failure el FAccountKeyCreateFailed ''CreateKey response missing accessKeyId'' [cleanup_unknown name], h1)
           else (done_with (''New account key: '' @ json_to_str key)
                   [(''new_key_id'', key), (''new_secret'', text_or_empty (get_or_null info ''secretAccessKey'')),
                    (''new_key_name'', JStr name), (''can_create_bucket'', JBool allow_create),
                    (''step_completed'', JStr ''account_key_create''), (''step_failed'', JNull),
                    (''rollback_status'', JStr (rollback_value RbNotRequired)), (''manual_cleanup_required'', JArr []),
                    (''garage_stderr'', JStr []), (''duration_seconds'', JFloat el)], h1)))"

definition make_provision_account_key_handler :: "string \<Rightarrow> admin \<Rightarrow> job_params \<Rightarrow> job_run option" where
  "make_provision_account_key_handler el A p =
     (if \<not> has_params [''new_key_name''] p then None
      else Some (run_provision_account_key el A (ptext p ''new_key_name'')
                   (coerce_bool (get_or_null p ''allow_create_bucket''))))"

definition run_set_account_key_capability :: "string \<Rightarrow> admin \<Rightarrow> string \<Rightarrow> bool \<Rightarrow> job_run" where
  "run_set_account_key_capability el A key enable h =
     (case update_key A key enable h of
        ((False, err), h1) \<Rightarrow>
          (failed_with FOsError (''UpdateKey createBucket failed: '' @ err)
             [(''duration_seconds'', JFloat el), (''error'', JStr err), (''access_key_id'', JStr key), (''enable'', JBool enable)], h1)
      | ((True, _), h1) \<Rightarrow>
          (done_with (''Set allow_create_bucket='' @ (if enable then ''True'' else ''False'') @ '' on '' @ key)
             [(''access_key_id'', JStr key), (''enable'', JBool enable), (''duration_seconds'', JFloat el)], h1))"

definition make_set_account_key_capability_handler :: "string \<Rightarrow> admin \<Rightarrow> job_params \<Rightarrow> job_run option" where
  "make_set_account_key_capability_handler el A p =
     (let key = ptext p ''access_key_id''; enable = ptext p ''enable'' in
      if key = [] \<or> enable \<notin> {''true'', ''false''} then None
      else if \<not> configured A then None
      else Some (run_set_account_key_capability el A key (enable = ''true'')))"

section \<open>Quota and abandoned uploads\<close>

definition run_set_quota :: "string \<Rightarrow> admin \<Rightarrow> string \<Rightarrow> int \<Rightarrow> job_run" where
  "run_set_quota el A bucket max_size h =
     (case set_bucket_quota A bucket max_size h of
        ((False, err), h1) \<Rightarrow>
          (failed_with FOsError (''UpdateBucket quota failed: '' @ err)
             [(''duration_seconds'', JFloat el), (''error'', JStr err), (''bucket_id'', JStr bucket), (''max_size_bytes'', JInt max_size)], h1)
      | ((True, _), h1) \<Rightarrow>
          (done_with (''Set max-size quota '' @ int_str max_size @ '' bytes on '' @ bucket)
             [(''bucket_id'', JStr bucket), (''max_size_bytes'', JInt max_size), (''duration_seconds'', JFloat el)], h1))"

text \<open>Both factories read a number that is at least 0 out of a param.\<close>

definition count_param :: "admin \<Rightarrow> job_params \<Rightarrow> string \<Rightarrow> int option" where
  "count_param A p k =
     (case ad_int A (get_or_null p k) of None \<Rightarrow> None | Some n \<Rightarrow> if n < 0 then None else Some n)"

definition make_set_quota_handler :: "string \<Rightarrow> admin \<Rightarrow> job_params \<Rightarrow> job_run option" where
  "make_set_quota_handler el A p =
     (if \<not> has_params [''bucket_id'', ''max_size''] p then None
      else case count_param A p ''max_size'' of
        None \<Rightarrow> None
      | Some n \<Rightarrow> if \<not> configured A then None else Some (run_set_quota el A (ptext p ''bucket_id'') n))"

definition run_cleanup_uploads :: "string \<Rightarrow> admin \<Rightarrow> string \<Rightarrow> int \<Rightarrow> job_run" where
  "run_cleanup_uploads el A bucket older_than h =
     (case cleanup_incomplete_uploads A bucket older_than h of
        (None, h1) \<Rightarrow> (None, h1)
      | (Some (None, err), h1) \<Rightarrow>
          (failed_with FOsError (''CleanupIncompleteUploads failed: '' @ err)
             [(''duration_seconds'', JFloat el), (''error'', JStr err), (''bucket_id'', JStr bucket), (''older_than_secs'', JInt older_than)], h1)
      | (Some (Some n, _), h1) \<Rightarrow>
          (done_with (''Aborted '' @ int_str n @ '' incomplete upload(s) older than '' @ int_str older_than @ ''s in '' @ bucket)
             [(''bucket_id'', JStr bucket), (''older_than_secs'', JInt older_than), (''uploads_aborted'', JInt n),
              (''duration_seconds'', JFloat el)], h1))"

definition make_cleanup_uploads_handler :: "string \<Rightarrow> admin \<Rightarrow> job_params \<Rightarrow> job_run option" where
  "make_cleanup_uploads_handler el A p =
     (if \<not> has_params [''bucket_id'', ''older_than_secs''] p then None
      else case count_param A p ''older_than_secs'' of
        None \<Rightarrow> None
      | Some n \<Rightarrow> if \<not> configured A then None else Some (run_cleanup_uploads el A (ptext p ''bucket_id'') n))"

section \<open>Deleting a bucket\<close>

definition delete_bucket_extras ::
  "string \<Rightarrow> string \<Rightarrow> string option \<Rightarrow> string option \<Rightarrow> string \<Rightarrow> (string, json) dict" where
  "delete_bucket_extras el bucket step_completed step_failed err =
     [(''bucket_id'', JStr (take 16 bucket)), (''step_completed'', opt_text step_completed),
      (''step_failed'', opt_text step_failed), (''rollback_status'', JStr (rollback_value RbNotRequired)),
      (''manual_cleanup_required'', JArr []), (''garage_stderr'', JStr err), (''duration_seconds'', JFloat el)]"

definition already_absent_extras :: "string \<Rightarrow> string \<Rightarrow> (string, json) dict" where
  "already_absent_extras el bucket =
     [(''bucket_id'', JStr (take 16 bucket)), (''step_completed'', JStr ''bucket_info''), (''step_failed'', JNull),
      (''rollback_status'', JStr (rollback_value RbNotRequired)), (''manual_cleanup_required'', JArr []),
      (''already_absent'', JBool True), (''garage_stderr'', JStr []), (''duration_seconds'', JFloat el)]"

definition object_count :: "admin \<Rightarrow> (string, json) dict \<Rightarrow> int option" where
  "object_count A info =
     (let v = get_or_null info ''objects'' in if truthy v then ad_int A v else Some 0)"

definition run_delete_provisioned_bucket :: "string \<Rightarrow> admin \<Rightarrow> string \<Rightarrow> job_run" where
  "run_delete_provisioned_bucket el A bucket h =
     (let failure = (\<lambda>reason completed failed err.
            failed_with reason err (delete_bucket_extras el bucket completed failed err))
      in if \<not> configured A then (failure FAdminApiUnconfigured None None unconfigured, h)
         else case get_bucket_info A bucket h of
           ((None, err), h1) \<Rightarrow>
             (if is_not_found err
              then done_with (''Bucket '' @ take 16 bucket @ '' already absent'') (already_absent_extras el bucket)
              else failure FBucketInfoFailed None (Some ''bucket_info'') err, h1)
         | ((Some info, _), h1) \<Rightarrow>
             (case object_count A info of
                None \<Rightarrow> (None, h1)
              | Some n \<Rightarrow>
                  if 0 < n
                  then (failure FBucketNotEmpty None (Some ''bucket_info'')
                          (''Bucket has '' @ int_str n @ '' object(s). Clear the bucket before deleting.''), h1)
                  else (let full = text_or_empty (get_or_null info ''id'') in
                    case delete_bucket A (case full of JStr (c # cs) \<Rightarrow> c # cs | _ \<Rightarrow> bucket) h1 of
                      ((False, err), h2) \<Rightarrow>
                        (failure (if contains ''not empty'' (map lower_char err) then FBucketNotEmpty else FBucketDeleteFailed)
                           (Some ''bucket_info'') (Some ''bucket_delete'') err, h2)
                    | ((True, _), h2) \<Rightarrow>
                        (done_with (''Bucket '' @ take 16 bucket @ '' deleted'')
                           (delete_bucket_extras el bucket (Some ''bucket_delete'') None []), h2))))"

definition make_delete_provisioned_bucket_handler :: "string \<Rightarrow> admin \<Rightarrow> job_params \<Rightarrow> job_run option" where
  "make_delete_provisioned_bucket_handler el A p =
     (if \<not> has_params [''bucket_id''] p then None else Some (run_delete_provisioned_bucket el A (ptext p ''bucket_id'')))"

section \<open>Attaching and detaching an account key\<close>

text \<open>The key's entry for the bucket named by its prefix, read back; \<open>None\<close> is the exception of a malformed body.\<close>

fun grant_on :: "json list \<Rightarrow> string \<Rightarrow> perms option option" where
  "grant_on [] bucket = Some None"
| "grant_on (JObj e # rest) bucket =
     (case text_or_empty (get_or_null e ''id'') of
        JStr full \<Rightarrow>
          if \<not> starts_with bucket full then grant_on rest bucket
          else map_option (\<lambda>p. Some (perm_bits p)) (dict_of (get_or_null e ''permissions''))
      | _ \<Rightarrow> None)"
| "grant_on (_ # rest) bucket = None"

definition read_grant :: "(string, json) dict \<Rightarrow> string \<Rightarrow> perms option option" where
  "read_grant kinfo bucket =
     (case items_of (get_or_null kinfo ''buckets'') of None \<Rightarrow> None | Some entries \<Rightarrow> grant_on entries bucket)"

definition covers :: "perms \<Rightarrow> perms \<Rightarrow> bool" where
  "covers have want = (case (have, want) of ((hr, hw, ho), (wr, ww, wo)) \<Rightarrow> (hr \<or> \<not> wr) \<and> (hw \<or> \<not> ww) \<and> (ho \<or> \<not> wo))"

definition grant_present :: "(string, json) dict \<Rightarrow> string \<Rightarrow> perms \<Rightarrow> bool option" where
  "grant_present kinfo bucket want =
     map_option (\<lambda>g. case g of None \<Rightarrow> False | Some have \<Rightarrow> covers have want) (read_grant kinfo bucket)"

definition still_granted :: "(string, json) dict \<Rightarrow> string \<Rightarrow> bool option" where
  "still_granted kinfo bucket =
     map_option (\<lambda>g. case g of None \<Rightarrow> False | Some have \<Rightarrow> any_perm have) (read_grant kinfo bucket)"

definition complement :: "perms \<Rightarrow> perms" where
  "complement p = (case p of (r, w, own) \<Rightarrow> (\<not> r, \<not> w, \<not> own))"

definition attach_failure :: "string \<Rightarrow> failure_reason \<Rightarrow> string \<Rightarrow> string \<Rightarrow> string \<Rightarrow> string \<Rightarrow> job_outcome option" where
  "attach_failure el reason bucket key tier err =
     failed_with reason err
       [(''bucket_id'', JStr (take 16 bucket)), (''account_key_id'', JStr key), (''tier'', JStr tier),
        (''confirmed_attached'', JBool False), (''manual_cleanup_required'', JArr []), (''garage_stderr'', JStr err),
        (''duration_seconds'', JFloat el)]"

text \<open>The alias and the read-back, once the grant is what was asked.\<close>

definition confirm_attach :: "string \<Rightarrow> admin \<Rightarrow> string \<Rightarrow> string \<Rightarrow> string \<Rightarrow> string \<Rightarrow> perms \<Rightarrow> job_run" where
  "confirm_attach el A bucket key alias tier p h =
     (case add_bucket_alias_local A bucket (JStr key) (JStr alias) h of
        ((alias_ok, _), h1) \<Rightarrow>
          (case get_key_info A key h1 of
             ((None, err), h2) \<Rightarrow>
               (attach_failure el FGrantUnconfirmed bucket key tier (''read-back GetKeyInfo failed: '' @ err), h2)
           | ((Some kinfo, _), h2) \<Rightarrow>
               (case grant_present kinfo bucket p of
                  None \<Rightarrow> None
                | Some False \<Rightarrow>
                    attach_failure el FGrantNotPresent bucket key tier
                      ''AllowBucketKey returned success but the read-back does not show the account key holding the requested grant on the bucket.''
                | Some True \<Rightarrow>
                    done_with (''Account key '' @ key @ '' attached to '' @ take 16 bucket @ '' ('' @ tier @ '')'')
                      [(''bucket_id'', JStr (take 16 bucket)), (''account_key_id'', JStr key), (''tier'', JStr tier),
                       (''confirmed_attached'', JBool True), (''alias_added'', JBool alias_ok),
                       (''manual_cleanup_required'', JArr (if alias_ok then [] else [cleanup_alias (JStr key) alias])),
                       (''garage_stderr'', JStr []), (''duration_seconds'', JFloat el)], h2)))"

definition run_attach_account_key :: "string \<Rightarrow> admin \<Rightarrow> string \<Rightarrow> string \<Rightarrow> string \<Rightarrow> string \<Rightarrow> job_run" where
  "run_attach_account_key el A bucket key alias tier h =
     (if \<not> configured A then (attach_failure el FAdminApiUnconfigured bucket key tier unconfigured, h)
      else case dict_get ATTACH_TIER_PERMS tier of
        None \<Rightarrow> (attach_failure el FInvalidTier bucket key tier
                  (''tier must be one of ('' @ join '', '' (map py_repr (dict_keys ATTACH_TIER_PERMS)) @ ''), got '' @ py_repr tier), h)
      | Some p \<Rightarrow>
          (case allow_bucket_key A bucket (JStr key) p h of
             ((False, err), h1) \<Rightarrow> (attach_failure el FGrantFailed bucket key tier err, h1)
           | ((True, _), h1) \<Rightarrow>
               if p = (True, True, True) then confirm_attach el A bucket key alias tier p h1
               else case deny_bucket_key A bucket (JStr key) (complement p) h1 of
                 ((False, err), h2) \<Rightarrow> (attach_failure el FGrantNarrowFailed bucket key tier err, h2)
               | ((True, _), h2) \<Rightarrow> confirm_attach el A bucket key alias tier p h2))"

definition make_attach_account_key_handler :: "string \<Rightarrow> admin \<Rightarrow> job_params \<Rightarrow> job_run option" where
  "make_attach_account_key_handler el A p =
     (if \<not> has_params [''bucket_id'', ''account_key_id'', ''local_alias'', ''tier''] p
         \<or> \<not> dict_has ATTACH_TIER_PERMS (ptext p ''tier'') then None
      else Some (run_attach_account_key el A (ptext p ''bucket_id'') (ptext p ''account_key_id'')
                   (ptext p ''local_alias'') (ptext p ''tier'')))"

definition detach_failure :: "string \<Rightarrow> failure_reason \<Rightarrow> string \<Rightarrow> string \<Rightarrow> string \<Rightarrow> job_outcome option" where
  "detach_failure el reason bucket key err =
     failed_with reason err
       [(''bucket_id'', JStr (take 16 bucket)), (''account_key_id'', JStr key), (''confirmed_detached'', JBool False),
        (''manual_cleanup_required'', JArr []), (''garage_stderr'', JStr err), (''duration_seconds'', JFloat el)]"

definition run_detach_account_key :: "string \<Rightarrow> admin \<Rightarrow> string \<Rightarrow> string \<Rightarrow> string \<Rightarrow> job_run" where
  "run_detach_account_key el A bucket key alias h =
     (if \<not> configured A then (detach_failure el FAdminApiUnconfigured bucket key unconfigured, h)
      else case deny_bucket_key A bucket (JStr key) (True, True, True) h of
        ((False, err), h1) \<Rightarrow> (detach_failure el FGrantRevokeFailed bucket key err, h1)
      | ((True, _), h1) \<Rightarrow>
          (case remove_bucket_alias_local A bucket (JStr key) (JStr alias) h1 of
             ((alias_ok, _), h2) \<Rightarrow>
               (case get_key_info A key h2 of
                  ((None, err), h3) \<Rightarrow>
                    (detach_failure el FGrantAbsenceUnconfirmed bucket key (''read-back GetKeyInfo failed: '' @ err), h3)
                | ((Some kinfo, _), h3) \<Rightarrow>
                    (case still_granted kinfo bucket of
                       None \<Rightarrow> None
                     | Some True \<Rightarrow>
                         detach_failure el FGrantStillPresent bucket key
                           ''DenyBucketKey returned success but the read-back still shows the account key holding a grant on the bucket.''
                     | Some False \<Rightarrow>
                         done_with (''Account key '' @ key @ '' detached from '' @ take 16 bucket)
                           [(''bucket_id'', JStr (take 16 bucket)), (''account_key_id'', JStr key),
                            (''confirmed_detached'', JBool True), (''alias_removed'', JBool alias_ok),
                            (''manual_cleanup_required'', JArr (if alias_ok then [] else [cleanup_alias (JStr key) alias])),
                            (''garage_stderr'', JStr []), (''duration_seconds'', JFloat el)], h3))))"

definition make_detach_account_key_handler :: "string \<Rightarrow> admin \<Rightarrow> job_params \<Rightarrow> job_run option" where
  "make_detach_account_key_handler el A p =
     (if \<not> has_params [''bucket_id'', ''account_key_id'', ''local_alias''] p then None
      else Some (run_detach_account_key el A (ptext p ''bucket_id'') (ptext p ''account_key_id'') (ptext p ''local_alias'')))"

section \<open>Enforcing an account key's tier\<close>

definition exceeds :: "perms \<Rightarrow> perms \<Rightarrow> bool" where
  "exceeds g m = (case (g, m) of ((gr, gw, go), (mr, mw, mo)) \<Rightarrow> (gw \<and> \<not> mw) \<or> (go \<and> \<not> mo))"

definition enforce_failure ::
  "string \<Rightarrow> failure_reason \<Rightarrow> string \<Rightarrow> string \<Rightarrow> string \<Rightarrow> string list \<Rightarrow> string list \<Rightarrow> job_outcome option" where
  "enforce_failure el reason key tier err narrowed strand =
     failed_with reason err
       [(''account_key_id'', JStr key), (''tier'', JStr tier), (''narrowed_buckets'', JArr (map JStr narrowed)),
        (''strand_risk'', JArr (map JStr strand)), (''garage_stderr'', JStr err), (''duration_seconds'', JFloat el)]"

definition enforce_success :: "string \<Rightarrow> string \<Rightarrow> string \<Rightarrow> string list \<Rightarrow> job_outcome option" where
  "enforce_success el key tier narrowed =
     done_with (''Enforced tier '' @ tier @ '' on '' @ key @ '': narrowed '' @ nat_str (length narrowed) @ '' bucket(s)'')
       [(''account_key_id'', JStr key), (''tier'', JStr tier), (''narrowed_buckets'', JArr (map JStr narrowed)),
        (''garage_stderr'', JStr []), (''duration_seconds'', JFloat el)]"

text \<open>The entries whose grant is above the tier, in the reply's order; an id that is no text raises.\<close>

fun over_tier :: "perms \<Rightarrow> json list \<Rightarrow> (string \<times> perms) list option" where
  "over_tier m [] = Some []"
| "over_tier m (JObj e # rest) =
     (let bid = text_or_empty (get_or_null e ''id'') in
      if \<not> truthy bid then over_tier m rest
      else case (bid, dict_of (get_or_null e ''permissions'')) of
        (JStr full, Some p) \<Rightarrow>
          if exceeds (perm_bits p) m then map_option (Cons (full, perm_bits p)) (over_tier m rest) else over_tier m rest
      | _ \<Rightarrow> None)"
| "over_tier m (_ # rest) = None"

fun other_owner :: "string \<Rightarrow> json list \<Rightarrow> bool option" where
  "other_owner key [] = Some False"
| "other_owner key (JObj k # rest) =
     (if text_or_empty (get_or_null k ''accessKeyId'') = JStr key then other_owner key rest
      else case dict_of (get_or_null k ''permissions'') of
        None \<Rightarrow> None
      | Some p \<Rightarrow> if truthy (get_or_null p ''owner'') then Some True else other_owner key rest)"
| "other_owner key (_ # rest) = None"

text \<open>The pre-pass: the buckets that would lose their last owner, or the outcome that ends the job.\<close>

fun strand_check ::
  "string \<Rightarrow> admin \<Rightarrow> string \<Rightarrow> string \<Rightarrow> perms \<Rightarrow> (string \<times> perms) list \<Rightarrow> http_log
    \<Rightarrow> (job_outcome option + string list) \<times> http_log" where
  "strand_check el A key tier m [] h = (Inr [], h)"
| "strand_check el A key tier m ((bid, g) # rest) h =
     (if \<not> (snd (snd g) \<and> \<not> snd (snd m)) then strand_check el A key tier m rest h
      else case get_bucket_info A bid h of
        ((None, err), h1) \<Rightarrow>
          (Inl (enforce_failure el FStrandCheckFailed key tier (''GetBucketInfo failed for '' @ take 16 bid @ '': '' @ err) [] []), h1)
      | ((Some info, _), h1) \<Rightarrow>
          (case Option.bind (items_of (get_or_null info ''keys'')) (other_owner key) of
             None \<Rightarrow> (Inl None, h1)
           | Some other \<Rightarrow>
               (case strand_check el A key tier m rest h1 of
                  (Inl out, h2) \<Rightarrow> (Inl out, h2)
                | (Inr risk, h2) \<Rightarrow> (Inr (if other then risk else take 16 bid # risk), h2))))"

fun narrow_grants ::
  "string \<Rightarrow> admin \<Rightarrow> string \<Rightarrow> string \<Rightarrow> perms \<Rightarrow> (string \<times> perms) list \<Rightarrow> string list \<Rightarrow> job_run" where
  "narrow_grants el A key tier m [] narrowed h = (enforce_success el key tier narrowed, h)"
| "narrow_grants el A key tier m ((bid, g) # rest) narrowed h =
     (case allow_bucket_key A bid (JStr key) m h of
        ((False, err), h1) \<Rightarrow>
          (enforce_failure el FNarrowAllowFailed key tier (''AllowBucketKey '' @ take 16 bid @ '': '' @ err) narrowed [], h1)
      | ((True, _), h1) \<Rightarrow>
          if m = (True, True, True) then narrow_grants el A key tier m rest (narrowed @ [take 16 bid]) h1
          else case deny_bucket_key A bid (JStr key) (complement m) h1 of
            ((False, err), h2) \<Rightarrow>
              (enforce_failure el FNarrowDenyFailed key tier (''DenyBucketKey '' @ take 16 bid @ '': '' @ err) narrowed [], h2)
          | ((True, _), h2) \<Rightarrow> narrow_grants el A key tier m rest (narrowed @ [take 16 bid]) h2)"

definition run_enforce_account_key_tier :: "string \<Rightarrow> admin \<Rightarrow> string \<Rightarrow> string \<Rightarrow> job_run" where
  "run_enforce_account_key_tier el A key tier h =
     (if \<not> configured A then (enforce_failure el FAdminApiUnconfigured key tier unconfigured [] [], h)
      else case dict_get TIER_PERMS tier of
        None \<Rightarrow> (enforce_failure el FInvalidTier key tier
                  (''tier must be one of ('' @ join '', '' (map py_repr (dict_keys TIER_PERMS)) @ ''), got '' @ py_repr tier) [] [], h)
      | Some m \<Rightarrow>
          (case get_key_info A key h of
             ((None, err), h1) \<Rightarrow> (enforce_failure el FReadFailed key tier (''GetKeyInfo failed: '' @ err) [] [], h1)
           | ((Some kinfo, _), h1) \<Rightarrow>
               (case Option.bind (items_of (get_or_null kinfo ''buckets'')) (over_tier m) of
                  None \<Rightarrow> (None, h1)
                | Some [] \<Rightarrow> (enforce_success el key tier [], h1)
                | Some over \<Rightarrow>
                    (case strand_check el A key tier m over h1 of
                       (Inl out, h2) \<Rightarrow> (out, h2)
                     | (Inr [], h2) \<Rightarrow> narrow_grants el A key tier m over [] h2
                     | (Inr risk, h2) \<Rightarrow>
                         (enforce_failure el FWouldStrand key tier
                            (''Refusing to narrow: these buckets would be left with no owner. ''
                             @ ''Claim an admin key on each, then retry: '' @ join '', '' risk) [] risk, h2)))))"

definition make_enforce_account_key_tier_handler :: "string \<Rightarrow> admin \<Rightarrow> job_params \<Rightarrow> job_run option" where
  "make_enforce_account_key_tier_handler el A p =
     (if \<not> has_params [''account_key_id''] p \<or> \<not> dict_has TIER_PERMS (ptext p ''tier'') then None
      else Some (run_enforce_account_key_tier el A (ptext p ''account_key_id'') (ptext p ''tier'')))"

section \<open>Replacing an account key\<close>

text \<open>A bucket id in a reply is a text by the API's schema; here anything else raises.\<close>

definition list_of :: "json \<Rightarrow> json list option" where
  "list_of v =
     (if \<not> truthy v then Some []
      else case v of
        JArr xs \<Rightarrow> Some xs
      | JStr s \<Rightarrow> Some (map (\<lambda>c. JStr [c]) s)
      | JObj d \<Rightarrow> Some (map JStr (dict_keys d))
      | _ \<Rightarrow> None)"

type_synonym key_grants = "(string, perms \<times> json list) dict"

text \<open>\<open>_owned\<close>: every bucket the key has a grant on, with its tier and aliases.\<close>

fun owned_from :: "json list \<Rightarrow> key_grants \<Rightarrow> key_grants option" where
  "owned_from [] acc = Some acc"
| "owned_from (JObj e # rest) acc =
     (case (text_or_empty (get_or_null e ''id''), dict_of (get_or_null e ''permissions'')) of
        (JStr full, Some p) \<Rightarrow>
          if full \<noteq> [] \<and> any_perm (perm_bits p)
          then (case list_of (get_or_null e ''localAliases'') of
                  None \<Rightarrow> None
                | Some aliases \<Rightarrow> owned_from rest (dict_set full (perm_bits p, aliases) acc))
          else owned_from rest acc
      | _ \<Rightarrow> None)"
| "owned_from (_ # rest) acc = None"

definition owned :: "(string, json) dict \<Rightarrow> key_grants option" where
  "owned kinfo = Option.bind (items_of (get_or_null kinfo ''buckets'')) (\<lambda>es. owned_from es [])"

definition reap_extras :: "string \<Rightarrow> string \<Rightarrow> bool \<Rightarrow> json list \<Rightarrow> string \<Rightarrow> (string, json) dict" where
  "reap_extras el key reaped snapshot err =
     [(''old_key_id'', JStr key), (''reaped'', JBool reaped), (''snapshot'', JArr snapshot),
      (''garage_stderr'', JStr err), (''duration_seconds'', JFloat el)]"

definition reap_success :: "string \<Rightarrow> string \<Rightarrow> json list \<Rightarrow> job_outcome option" where
  "reap_success el key snapshot =
     done_with (''Snapshotted '' @ nat_str (length snapshot) @ '' bucket(s) and reaped '' @ key)
       (reap_extras el key True snapshot [])"

definition snapshot_entry :: "string \<Rightarrow> json \<Rightarrow> perms \<Rightarrow> json" where
  "snapshot_entry full alias p =
     (case p of (r, w, own) \<Rightarrow>
        JObj [(''id'', JStr full), (''alias'', alias), (''perms'', JArr [JBool r, JBool w, JBool own])])"

definition first_alias :: "json \<Rightarrow> json option" where
  "first_alias v =
     (if \<not> truthy v then Some (JStr [])
      else case v of JArr (a # _) \<Rightarrow> Some a | JStr (c # _) \<Rightarrow> Some (JStr [c]) | _ \<Rightarrow> None)"

fun owned_snapshot :: "json list \<Rightarrow> json list option" where
  "owned_snapshot [] = Some []"
| "owned_snapshot (JObj e # rest) =
     (case (text_or_empty (get_or_null e ''id''), dict_of (get_or_null e ''permissions'')) of
        (JStr full, Some p) \<Rightarrow>
          if full \<noteq> [] \<and> any_perm (perm_bits p)
          then (case first_alias (get_or_null e ''localAliases'') of
                  None \<Rightarrow> None
                | Some alias \<Rightarrow> map_option (Cons (snapshot_entry full alias (perm_bits p))) (owned_snapshot rest))
          else owned_snapshot rest
      | _ \<Rightarrow> None)"
| "owned_snapshot (_ # rest) = None"

definition run_snapshot_and_reap_account_key :: "string \<Rightarrow> admin \<Rightarrow> string \<Rightarrow> job_run" where
  "run_snapshot_and_reap_account_key el A key h =
     (let failure = (\<lambda>reason err. failed_with reason err (reap_extras el key False [] err)) in
      if \<not> configured A then (failure FAdminApiUnconfigured unconfigured, h)
      else case get_key_info A key h of
        ((None, err), h1) \<Rightarrow> (if is_not_found err then reap_success el key [] else failure FSnapshotReadFailed err, h1)
      | ((Some kinfo, _), h1) \<Rightarrow>
          (case Option.bind (items_of (get_or_null kinfo ''buckets'')) owned_snapshot of
             None \<Rightarrow> (None, h1)
           | Some snapshot \<Rightarrow>
               (case delete_key A key h1 of
                  ((ok, err), h2) \<Rightarrow>
                    (if ok \<or> is_not_found err then reap_success el key snapshot else failure FReapFailed err, h2))))"

definition make_snapshot_and_reap_account_key_handler :: "string \<Rightarrow> admin \<Rightarrow> job_params \<Rightarrow> job_run option" where
  "make_snapshot_and_reap_account_key_handler el A p =
     (if \<not> has_params [''old_key_id''] p then None
      else Some (run_snapshot_and_reap_account_key el A (ptext p ''old_key_id'')))"

definition converge_extras ::
  "string \<Rightarrow> string \<Rightarrow> string \<Rightarrow> bool \<Rightarrow> string list \<Rightarrow> nat \<Rightarrow> json list \<Rightarrow> (string, json) dict" where
  "converge_extras el old new converged transferred remaining manual =
     [(''old_key_id'', JStr old), (''new_key_id'', JStr new), (''converged'', JBool converged),
      (''transferred'', JArr (map (\<lambda>b. JStr (take 16 b)) transferred)), (''remaining'', JInt (int remaining)),
      (''manual_cleanup_required'', JArr manual), (''garage_stderr'', JStr []), (''duration_seconds'', JFloat el)]"

definition converged_outcome :: "string \<Rightarrow> string \<Rightarrow> string \<Rightarrow> job_outcome option" where
  "converged_outcome el old new =
     done_with (''Rotation '' @ old @ '' -> '' @ new @ '' converged'') (converge_extras el old new True [] 0 [])"

definition converge_failure :: "string \<Rightarrow> failure_reason \<Rightarrow> string \<Rightarrow> string \<Rightarrow> string \<Rightarrow> job_outcome option" where
  "converge_failure el reason old new err =
     failed_with reason err
       [(''old_key_id'', JStr old), (''new_key_id'', JStr new), (''converged'', JBool False), (''remaining'', JInt (-1)),
        (''manual_cleanup_required'', JArr []), (''garage_stderr'', JStr err), (''duration_seconds'', JFloat el)]"

text \<open>The leak path: the grants of a snapshot taken before the old key was reaped; no tier means all.\<close>

definition snapshot_perms :: "json \<Rightarrow> perms" where
  "snapshot_perms raw =
     (case raw of JArr [r, w, own] \<Rightarrow> (truthy r, truthy w, truthy own) | _ \<Rightarrow> (True, True, True))"

fun snapshot_grants :: "(string, json) dict list \<Rightarrow> key_grants \<Rightarrow> key_grants option" where
  "snapshot_grants [] acc = Some acc"
| "snapshot_grants (e # rest) acc =
     (case get_or_null e ''id'' of
        JStr full \<Rightarrow>
          snapshot_grants rest (dict_set full
            (snapshot_perms (get_or_null e ''perms''),
             if truthy (get_or_null e ''alias'') then [get_or_null e ''alias''] else []) acc)
      | _ \<Rightarrow> None)"

text \<open>One pass: grant the old tier, then the first alias for the name; a failed grant is left for the next pass.\<close>

fun transfer_grants ::
  "admin \<Rightarrow> string \<Rightarrow> (string \<times> perms \<times> json list) list \<Rightarrow> http_log \<Rightarrow> (string list \<times> json list) \<times> http_log" where
  "transfer_grants A new [] h = (([], []), h)"
| "transfer_grants A new ((full, p, aliases) # rest) h =
     (case allow_bucket_key A full (JStr new) p h of
        ((False, err), h1) \<Rightarrow>
          (case transfer_grants A new rest h1 of
             ((transferred, manual), h2) \<Rightarrow>
               ((transferred, JObj [(''type'', JStr ''grant''), (''bucket_id'', JStr (take 16 full)), (''error'', JStr err)] # manual), h2))
      | ((True, _), h1) \<Rightarrow>
          (let h2 = (case aliases of [] \<Rightarrow> h1 | a # _ \<Rightarrow> snd (add_bucket_alias_local A full (JStr new) a h1)) in
           (case transfer_grants A new rest h2 of
              ((transferred, manual), h3) \<Rightarrow> ((full # transferred, manual), h3))))"

definition uncovered :: "key_grants \<Rightarrow> key_grants \<Rightarrow> (string \<times> perms \<times> json list) list" where
  "uncovered old new =
     filter (\<lambda>(full, p, aliases). \<not> (case dict_get new full of None \<Rightarrow> False | Some (q, _) \<Rightarrow> covers q p)) old"

definition converge_pass :: "string \<Rightarrow> admin \<Rightarrow> string \<Rightarrow> string \<Rightarrow> key_grants \<Rightarrow> job_run" where
  "converge_pass el A old new old_owned h =
     (case get_key_info A new h of
        ((None, err), h1) \<Rightarrow> (converge_failure el FNewKeyReadFailed old new err, h1)
      | ((Some info, _), h1) \<Rightarrow>
          (case owned info of
             None \<Rightarrow> (None, h1)
           | Some new_owned \<Rightarrow>
               (let todo = uncovered old_owned new_owned in
                if todo = [] then (converged_outcome el old new, h1)
                else (case transfer_grants A new todo h1 of
                  ((transferred, manual), h2) \<Rightarrow>
                    (done_with (''Transferred '' @ nat_str (length transferred) @ ''/'' @ nat_str (length todo)
                        @ '' bucket(s) to '' @ new)
                      (converge_extras el old new False transferred (length todo - length transferred) manual), h2)))))"

definition run_converge_account_key_rotation ::
  "string \<Rightarrow> admin \<Rightarrow> string \<Rightarrow> string \<Rightarrow> (string, json) dict list option \<Rightarrow> job_run" where
  "run_converge_account_key_rotation el A old new snapshot h =
     (if \<not> configured A then (converge_failure el FAdminApiUnconfigured old new unconfigured, h)
      else case snapshot of
        Some entries \<Rightarrow>
          (case snapshot_grants entries [] of
             None \<Rightarrow> (None, h)
           | Some old_owned \<Rightarrow> converge_pass el A old new old_owned h)
      | None \<Rightarrow>
          (case get_key_info A old h of
             ((None, err), h1) \<Rightarrow>
               (if is_not_found err then converged_outcome el old new
                else converge_failure el FOldKeyReadFailed old new err, h1)
           | ((Some info, _), h1) \<Rightarrow>
               (case owned info of
                  None \<Rightarrow> (None, h1)
                | Some old_owned \<Rightarrow> converge_pass el A old new old_owned h1)))"

definition make_converge_account_key_rotation_handler :: "string \<Rightarrow> admin \<Rightarrow> job_params \<Rightarrow> job_run option" where
  "make_converge_account_key_rotation_handler el A p =
     (if \<not> has_params [''old_key_id'', ''new_key_id''] p then None
      else Some (run_converge_account_key_rotation el A (ptext p ''old_key_id'') (ptext p ''new_key_id'')
        (case get_or_null p ''bucket_snapshot'' of
           JArr es \<Rightarrow> Some (List.map_filter (\<lambda>e. case e of
                JObj d \<Rightarrow> if truthy (get_or_null d ''id'') then Some d else None | _ \<Rightarrow> None) es)
         | _ \<Rightarrow> None)))"

section \<open>Facts\<close>

lemma create_key_grows:
  "create_key A name allow h = (x, h') \<Longrightarrow> P (a_request A ''POST'' ''/v2/CreateKey'' []
      (Some (JObj ([(''name'', JStr name)] @ (if allow then [(''allow'', JObj [(''createBucket'', JBool True)])] else []))))) \<Longrightarrow>
    grows P h h'"
  by (auto simp: create_key_def apfst_def map_prod_def split: prod.splits dest: post_json_grows)

definition delete_key_request :: "admin \<Rightarrow> string \<Rightarrow> http_request" where
  "delete_key_request A key = a_request A ''POST'' ''/v2/DeleteKey'' [(''id'', key)] None"

lemma delete_key_ok:
  "delete_key A key h = ((True, err), h') \<Longrightarrow>
    \<exists>status text. h' = (delete_key_request A key, Inr (status, text)) # h \<and> success_status status"
  unfolding delete_key_def delete_key_request_def by (rule post_ok)

text \<open>A key is deleted with a positive answer.\<close>

definition key_deleted :: "admin \<Rightarrow> string \<Rightarrow> http_log \<Rightarrow> bool" where
  "key_deleted A key h \<longleftrightarrow> list_ex (\<lambda>(r, reply). r = delete_key_request A key
     \<and> (case reply of Inr (status, text) \<Rightarrow> success_status status | Inl exc \<Rightarrow> False)) h"

text \<open>The cleanup list of an outcome, and what an outcome owes a key it created.\<close>

definition manual_cleanup :: "job_outcome \<Rightarrow> json list" where
  "manual_cleanup o' = (case get_or_null (jo_extras o') ''manual_cleanup_required'' of JArr xs \<Rightarrow> xs | _ \<Rightarrow> [])"

definition reports_key :: "job_outcome \<Rightarrow> json \<Rightarrow> bool" where
  "reports_key o' key \<longleftrightarrow> get_or_null (jo_extras o') ''new_key_id'' = key
     \<or> (case get_or_null (jo_extras o') ''admin'' of JObj d \<Rightarrow> get_or_null d ''key_id'' = key | _ \<Rightarrow> False)"

definition accounts_for_key :: "admin \<Rightarrow> job_outcome \<Rightarrow> http_log \<Rightarrow> json \<Rightarrow> bool" where
  "accounts_for_key A o' h key \<longleftrightarrow>
     (if jo_success o' then reports_key o' key
      else key_deleted A (json_to_str key) h \<or> cleanup_key key \<in> set (manual_cleanup o'))"

datatype minting_job =
    ProvisionBucket string string
  | AdditionalKey string string string string
  | RotateKey string string string string string

fun run_minting :: "string \<Rightarrow> admin \<Rightarrow> minting_job \<Rightarrow> job_run" where
  "run_minting el A (ProvisionBucket display_name name) = run_provision_customer_bucket el A display_name name"
| "run_minting el A (AdditionalKey name bucket alias tier) = run_provision_additional_key el A name bucket alias tier"
| "run_minting el A (RotateKey old name bucket alias tier) = run_rotate_customer_key el A old name bucket alias tier"

fun minted_name :: "minting_job \<Rightarrow> string" where
  "minted_name (ProvisionBucket display_name name) = name"
| "minted_name (AdditionalKey name bucket alias tier) = name"
| "minted_name (RotateKey old name bucket alias tier) = name"

definition cleaned :: "admin \<Rightarrow> json \<Rightarrow> (rollback_status \<times> json list) \<times> http_log \<Rightarrow> bool" where
  "cleaned A key x \<longleftrightarrow> key_deleted A (json_to_str key) (snd x) \<or> cleanup_key key \<in> set (snd (fst x))"

lemma rollback_orphan_cleaned: "cleaned A key (rollback_orphan_key A key h)"
proof (cases "delete_key A (json_to_str key) h")
  case (Pair ok h1)
  then show ?thesis
    using delete_key_ok [of A "json_to_str key" h "snd ok" h1]
    by (cases ok; cases "fst ok") (auto simp: rollback_orphan_key_def cleaned_def key_deleted_def)
qed

lemma rollback_additional_cleaned: "cleaned A key (rollback_additional A bucket p key granted h)"
  by (auto simp: rollback_additional_def cleaned_def [of A key "((_, _), _)"] rollback_orphan_cleaned
      split: prod.splits bool.splits)

lemma rollback_rotation_cleaned: "cleaned A key (rollback_rotation A bucket alias p key granted attached h)"
  by (auto simp: rollback_rotation_def cleaned_def [of A key "((_, _), _)"] rollback_orphan_cleaned
      split: prod.splits bool.splits)

text \<open>What a run owes a key: its outcome, when it has one, accounts for it.\<close>

definition accounted :: "admin \<Rightarrow> json \<Rightarrow> job_outcome option \<times> http_log \<Rightarrow> bool" where
  "accounted A key x \<longleftrightarrow> (case fst x of None \<Rightarrow> True | Some out \<Rightarrow> accounts_for_key A out (snd x) key)"

lemma undo_accounted [simp]:
  "rollback_orphan_key A key h = ((st, m), h') \<Longrightarrow> accounted A key (provision_failure el r f c e st m, h')"
  "rollback_additional A bucket p key granted h = ((st, m), h') \<Longrightarrow>
    accounted A key (additional_failure el r f key tier c e st m, h')"
  "rollback_rotation A bucket alias p key granted attached h = ((st, m), h') \<Longrightarrow>
    accounted A key (rotate_failure el r f key c e st m, h')"
  using rollback_orphan_cleaned [of A key h] rollback_additional_cleaned [of A key bucket p granted h]
    rollback_rotation_cleaned [of A key bucket "alias" p granted attached h]
  by (auto simp: accounted_def accounts_for_key_def cleaned_def manual_cleanup_def get_or_null_def failed_with_def
      provision_failure_def additional_failure_def rotate_failure_def split: prod.splits)

lemma done_accounted [simp]:
  "accounted A key (done_with t ((''new_key_id'', key) # rest), h)"
  "accounted A key (done_with t ((''bucket_uuid'', b) # (''admin'', JObj ((''key_id'', key) # others)) # rest), h)"
  "accounted A key (None, h)"
  by (simp_all add: accounted_def accounts_for_key_def reports_key_def get_or_null_def done_with_def)

lemma bind_accounted:
  "(\<And>y. accounted A key (f y, h)) \<Longrightarrow> accounted A key (Option.bind x f, h)"
  by (cases x) simp_all

lemma minting_accounted:
  assumes "create_key A (minted_name job) False h = ((Some info, err), h1)"
    and "truthy (get_or_null info ''accessKeyId'')"
  shows "snd (run_minting el A job h) = h \<or> accounted A (get_or_null info ''accessKeyId'') (run_minting el A job h)"
  using assms
  by (cases job)
    (auto simp: run_provision_customer_bucket_def run_provision_additional_key_def run_rotate_customer_key_def
      Let_def text_or_empty_def intro!: bind_accounted split: option.split prod.split bool.split)


text \<open>The demo server, except that it refuses to create a bucket.\<close>

definition stingy_admin :: admin where
  "stingy_admin = demo_admin\<lparr>ad_net := (\<lambda>h r. Inr (if hr_path r = ''/v2/CreateBucket'' then 500 else 200, ''I''))\<rparr>"


section \<open>What counts as absent\<close>

lemma unreachable_request:
  assumes "ad_url_problem A = None" "\<And>h r. \<exists>exc. ad_net A h r = Inl exc"
  shows "\<exists>exc reply. request A r h = ((None, ''Could not reach Garage admin API at '' @ ad_url A @ '': '' @ exc), (r, reply) # h)"
  using assms(2) [of h r] assms(1) by (auto simp: request_def)

lemma lower_404: "map lower_char ''404'' = ''404''"
  by code_simp

lemma contains_404_not_found: "contains ''404'' s \<Longrightarrow> is_not_found s"
proof -
  assume "contains ''404'' s"
  then obtain a b where "s = a @ ''404'' @ b" by (auto simp only: contains_iff)
  then have "map lower_char s = map lower_char a @ ''404'' @ map lower_char b" by (simp only: map_append lower_404)
  then have "contains ''404'' (map lower_char s)" by (auto simp only: contains_iff)
  then show ?thesis by (simp add: is_not_found_def del: contains.simps)
qed

lemma contains_append: "contains p s \<Longrightarrow> contains p (a @ s @ b)"
  unfolding contains_iff by (metis append_assoc)

lemmas unreachable_not_found = contains_404_not_found [OF contains_append]

lemma unreachable_calls:
  assumes "ad_url_problem A = None" "\<And>h r. \<exists>exc. ad_net A h r = Inl exc" "contains ''404'' (ad_url A)"
  shows "\<exists>err h'. delete_key A key h = ((False, err), h') \<and> is_not_found err"
    and "\<exists>err h'. get_key_info A key h = ((None, err), h') \<and> is_not_found err"
    and "\<exists>err h'. get_bucket_info A key h = ((None, err), h') \<and> is_not_found err"
proof -
  from assms(3) have nf: "is_not_found (''Could not reach Garage admin API at '' @ ad_url A @ '': '' @ exc)" for exc
    by (rule unreachable_not_found)
  note down = unreachable_request [OF assms(1,2)]
  from down [of "a_request A ''POST'' ''/v2/DeleteKey'' [(''id'', key)] None" h] nf
  show "\<exists>err h'. delete_key A key h = ((False, err), h') \<and> is_not_found err"
    by (auto simp: delete_key_def post_def)
  from down [of "a_request A ''GET'' ''/v2/GetKeyInfo'' [(''id'', key)] None" h] nf
  show "\<exists>err h'. get_key_info A key h = ((None, err), h') \<and> is_not_found err"
    by (auto simp: get_key_info_def get_json_def decoded_def object_of_def apfst_def map_prod_def)
  from down [of "a_request A ''GET'' ''/v2/GetBucketInfo'' (bucket_query key) None" h] nf
  show "\<exists>err h'. get_bucket_info A key h = ((None, err), h') \<and> is_not_found err"
    by (auto simp: get_bucket_info_def get_json_def decoded_def object_of_def apfst_def map_prod_def)
qed

text \<open>
  C25. An unreachable server passes for an empty one: \<open>is_not_found\<close> looks for \<open>404\<close> anywhere in the
  error text, and that text quotes the admin URL, so with a URL that has \<open>404\<close> in it (a port 4040, say)
  and every exchange failing, deleting a key reports it confirmed absent, deleting a bucket reports it
  already absent, reaping a key reports it reaped with an empty snapshot, and a rotation reports that it
  has converged.
\<close>

theorem unreachable_certifies_deletion:
  assumes "configured A" "ad_url_problem A = None" "\<And>h r. \<exists>exc. ad_net A h r = Inl exc"
    and "contains ''404'' (ad_url A)"
  shows "fst (run_delete_key el A key h) = confirmed_gone el key ''already_absent''
    \<and> fst (run_delete_provisioned_bucket el A bucket h)
      = done_with (''Bucket '' @ take 16 bucket @ '' already absent'') (already_absent_extras el bucket)
    \<and> fst (run_snapshot_and_reap_account_key el A key h) = reap_success el key []
    \<and> fst (run_converge_account_key_rotation el A key new None h) = converged_outcome el key new"
  using unreachable_calls [OF assms(2,3,4), of key h] unreachable_calls(3) [OF assms(2,3,4), of bucket h] assms(1)
  by (auto simp: run_delete_key_def run_delete_provisioned_bucket_def run_snapshot_and_reap_account_key_def
      run_converge_account_key_rotation_def)

text \<open>A server on port 4040 that is down.\<close>

definition down_admin :: admin where
  "down_admin = demo_admin\<lparr>ad_url := ''http://h:4040'', ad_net := (\<lambda>h r. Inl ''refused'')\<rparr>"

lemma unreachable_certifies_deletion_witness:
  "map_option jo_success (fst (run_delete_key [] down_admin ''K'' [])) = Some True"
proof -
  have "configured down_admin" "ad_url_problem down_admin = None" "\<And>h r. \<exists>exc. ad_net down_admin h r = Inl exc"
    "contains ''404'' (ad_url down_admin)"
    by (simp_all add: down_admin_def demo_admin_def configured_def starts_with_def)
  from unreachable_certifies_deletion [OF this, of "[]" "''K''" "[]"] show ?thesis
    by (simp add: confirmed_gone_def done_with_def)
qed

section \<open>Narrowing an account key\<close>

definition answered :: "admin \<Rightarrow> http_log \<Rightarrow> http_request \<Rightarrow> (string, json) dict \<Rightarrow> bool" where
  "answered A h r d \<longleftrightarrow>
     list_ex (\<lambda>(r', reply). r' = r \<and> (case reply of
        Inr (status, body) \<Rightarrow> success_status status \<and> ad_loads A body = Some (JObj d) | Inl exc \<Rightarrow> False)) h"

lemma answered_mono: "answered A h r d \<Longrightarrow> set h \<subseteq> set h' \<Longrightarrow> answered A h' r d"
  by (auto simp: answered_def list_ex_iff)

definition bucket_info_request :: "admin \<Rightarrow> string \<Rightarrow> http_request" where
  "bucket_info_request A ref = a_request A ''GET'' ''/v2/GetBucketInfo'' (bucket_query ref) None"

definition key_info_request :: "admin \<Rightarrow> string \<Rightarrow> http_request" where
  "key_info_request A key = a_request A ''GET'' ''/v2/GetKeyInfo'' [(''id'', key)] None"

lemma get_json_answered:
  "get_json A path query h = ((JObj d, err), h') \<Longrightarrow> answered A h' (a_request A ''GET'' path query None) d"
  by (auto simp: get_json_def decoded_def request_def answered_def Let_def
      split: option.splits sum.splits prod.splits if_splits)

lemma object_of_Some: "object_of name (v, err) = (Some d, err') \<Longrightarrow> v = JObj d"
  by (auto simp: object_of_def split: json.splits)

lemma info_answered:
  "get_key_info A key h = ((Some d, err), h') \<Longrightarrow> answered A h' (key_info_request A key) d"
  "get_bucket_info A ref h = ((Some d, err), h') \<Longrightarrow> answered A h' (bucket_info_request A ref) d"
  by (auto simp: get_key_info_def get_bucket_info_def key_info_request_def bucket_info_request_def apfst_def map_prod_def Let_def
      split: prod.splits option.splits json.splits if_splits dest!: object_of_Some dest: get_json_answered)

text \<open>A read in the log shows another key that owns the bucket.\<close>

definition shows_other_owner :: "admin \<Rightarrow> string \<Rightarrow> string \<Rightarrow> http_log \<Rightarrow> bool" where
  "shows_other_owner A key bid h \<longleftrightarrow> (\<exists>info. answered A h (bucket_info_request A bid) info
     \<and> Option.bind (items_of (get_or_null info ''keys'')) (other_owner key) = Some True)"

definition loses_owner :: "perms \<Rightarrow> perms \<Rightarrow> bool" where
  "loses_owner g m \<longleftrightarrow> snd (snd g) \<and> \<not> snd (snd m)"

lemma strand_check_clear:
  assumes "strand_check el A key tier m over h = (x, h')"
  shows "grows is_get h h'"
    and "x = Inr [] \<Longrightarrow> (bid, g) \<in> set over \<Longrightarrow> loses_owner g m \<Longrightarrow> shows_other_owner A key bid h'"
proof -
  have "grows is_get h h' \<and> (x = Inr [] \<longrightarrow> (\<forall>(bid, g)\<in>set over. loses_owner g m \<longrightarrow> shows_other_owner A key bid h'))"
    using assms
  proof (induction el A key tier m over h arbitrary: x h' rule: strand_check.induct)
    case (2 el A key tier m bid g rest h)
    show ?case
    proof (cases "loses_owner g m")
      case False
      then show ?thesis using 2 by (simp add: loses_owner_def) blast
    next
      case True
      obtain info err h1 where read: "get_bucket_info A bid h = ((info, err), h1)" by (metis prod.exhaust)
      note gets = object_reads(1) [OF read]
      show ?thesis
      proof (cases "info = None \<or> Option.bind (items_of (get_or_null (the info) ''keys'')) (other_owner key) = None")
        case True
        with 2(3) \<open>loses_owner g m\<close> read gets show ?thesis
          by (cases info) (auto simp: loses_owner_def)
      next
        case False
        then obtain d other where d: "info = Some d"
            "Option.bind (items_of (get_or_null d ''keys'')) (other_owner key) = Some other" by auto
        obtain y h2 where rest: "strand_check el A key tier m rest h1 = (y, h2)" by (metis prod.exhaust)
        have x: "h' = h2" "x = Inr [] \<Longrightarrow> y = Inr [] \<and> other"
          using 2(3) \<open>loses_owner g m\<close> read d rest by (auto simp: loses_owner_def split: sum.splits if_splits)
        have ih: "grows is_get h1 h2"
          "y = Inr [] \<Longrightarrow> (\<forall>(bid, g)\<in>set rest. loses_owner g m \<longrightarrow> shows_other_owner A key bid h2)"
          using 2(2) [OF _ _ _ _ _ rest] \<open>loses_owner g m\<close> read d by (auto simp: loses_owner_def)
        have "shows_other_owner A key bid h2" if "other"
          using info_answered(2) [OF read [unfolded d(1)]] d(2) that grows_subset [OF ih(1)]
          by (auto simp: shows_other_owner_def intro: answered_mono)
        with x ih gets show ?thesis by (auto intro: grows_trans)
      qed
    qed
  qed simp
  then show "grows is_get h h'"
    and "x = Inr [] \<Longrightarrow> (bid, g) \<in> set over \<Longrightarrow> loses_owner g m \<Longrightarrow> shows_other_owner A key bid h'" by auto
qed

text \<open>The posts of a narrowing: the tier allowed, its complement denied, on a bucket of the list.\<close>

definition narrows :: "admin \<Rightarrow> string \<Rightarrow> perms \<Rightarrow> (string \<times> perms) list \<Rightarrow> http_request \<Rightarrow> bool" where
  "narrows A key m over r \<longleftrightarrow> (\<exists>(bid, g)\<in>set over. \<exists>full. full \<noteq> [] \<and> starts_with bid full
     \<and> (\<exists>(path, p)\<in>{(''/v2/AllowBucketKey'', m), (''/v2/DenyBucketKey'', complement m)}.
          r = a_request A ''POST'' path []
            (Some (JObj [(''bucketId'', JStr full), (''accessKeyId'', JStr key), (''permissions'', perms_body p)]))))"

lemma allow_grows:
  assumes "allow_bucket_key A bid (JStr key) m h = (x, h')" "(bid, g) \<in> set over"
  shows "grows (\<lambda>r. is_get r \<or> narrows A key m over r) h h'"
  using assms(1) unfolding allow_bucket_key_def bucket_key_perm_change_def
  by (rule bucket_post_grows) (use assms(2) in \<open>auto simp: narrows_def\<close>)

lemma deny_grows:
  assumes "deny_bucket_key A bid (JStr key) (complement m) h = (x, h')" "(bid, g) \<in> set over"
  shows "grows (\<lambda>r. is_get r \<or> narrows A key m over r) h h'"
  using assms(1) unfolding deny_bucket_key_def bucket_key_perm_change_def
  by (rule bucket_post_grows) (use assms(2) in \<open>auto simp: narrows_def\<close>)

lemma narrow_grants_grows:
  assumes "narrow_grants el A key tier m todo narrowed h = (x, h')" "set todo \<subseteq> set over"
  shows "grows (\<lambda>r. is_get r \<or> narrows A key m over r) h h'"
  using assms
proof (induction el A key tier m todo narrowed h rule: narrow_grants.induct)
  case (2 el A key tier m bid g rest narrowed h)
  from 2(4) have mem: "(bid, g) \<in> set over" "set rest \<subseteq> set over" by auto
  obtain ok err h1 where allow: "allow_bucket_key A bid (JStr key) m h = ((ok, err), h1)" by (metis prod.exhaust)
  obtain ok' err' h2 where deny: "deny_bucket_key A bid (JStr key) (complement m) h1 = ((ok', err'), h2)" by (metis prod.exhaust)
  note step = allow_grows [OF allow mem(1)] deny_grows [OF deny mem(1)]
  show ?case
    using 2(1) [OF allow [symmetric]] 2(2) [OF allow [symmetric]] 2(3) allow deny step mem(2)
    by (auto split: if_splits bool.splits intro: grows_trans)
qed simp


text \<open>A server where a key owns a bucket that has another owner.\<close>

definition shared_bucket :: "(string, json) dict" where
  "shared_bucket = [(''id'', JStr ''ab12''), (''permissions'', admin_perms)]"

definition shared_admin :: admin where
  "shared_admin = demo_admin\<lparr>ad_loads := (\<lambda>t.
     if t = ''K'' then Some (JObj [(''buckets'', JArr [JObj shared_bucket])])
     else Some (JObj (shared_bucket @ [(''keys'', JArr [JObj [(''accessKeyId'', JStr ''K2''), (''permissions'', admin_perms)]])]))),
     ad_net := (\<lambda>h r. Inr (200, if hr_path r = ''/v2/GetKeyInfo'' then ''K'' else ''B''))\<rparr>"


section \<open>Moving the grants of a replaced key\<close>

text \<open>The posts of a transfer: an old grant as it was, or its first alias, for the new key.\<close>

definition transfers :: "string \<Rightarrow> key_grants \<Rightarrow> admin \<Rightarrow> http_request \<Rightarrow> bool" where
  "transfers new old_owned A r \<longleftrightarrow> (\<exists>(bid, p, aliases)\<in>set old_owned. \<exists>full. full \<noteq> [] \<and> starts_with bid full
     \<and> (r = a_request A ''POST'' ''/v2/AllowBucketKey'' []
              (Some (JObj [(''bucketId'', JStr full), (''accessKeyId'', JStr new), (''permissions'', perms_body p)]))
        \<or> (aliases \<noteq> [] \<and> r = a_request A ''POST'' ''/v2/AddBucketAlias'' []
              (Some (JObj [(''bucketId'', JStr full), (''localAlias'', hd aliases), (''accessKeyId'', JStr new)])))))"

lemma transfer_steps:
  assumes "(bid, p, aliases) \<in> set old_owned"
  shows "allow_bucket_key A bid (JStr new) p h = (x, h') \<Longrightarrow> grows (\<lambda>r. is_get r \<or> transfers new old_owned A r) h h'"
    and "aliases \<noteq> [] \<Longrightarrow> add_bucket_alias_local A bid (JStr new) (hd aliases) h = (x, h') \<Longrightarrow>
      grows (\<lambda>r. is_get r \<or> transfers new old_owned A r) h h'"
proof -
  assume "allow_bucket_key A bid (JStr new) p h = (x, h')"
  then show "grows (\<lambda>r. is_get r \<or> transfers new old_owned A r) h h'"
    unfolding allow_bucket_key_def bucket_key_perm_change_def
    by (rule bucket_post_grows) (use assms in \<open>auto simp: transfers_def\<close>)
next
  assume "aliases \<noteq> []" "add_bucket_alias_local A bid (JStr new) (hd aliases) h = (x, h')"
  from this(2) show "grows (\<lambda>r. is_get r \<or> transfers new old_owned A r) h h'"
    unfolding add_bucket_alias_local_def bucket_alias_local_change_def
    by (rule bucket_post_grows) (use assms \<open>aliases \<noteq> []\<close> in \<open>auto simp: transfers_def\<close>)
qed

lemma transfer_grants_grows:
  assumes "transfer_grants A new todo h = (x, h')" "set todo \<subseteq> set old_owned"
  shows "grows (\<lambda>r. is_get r \<or> transfers new old_owned A r) h h'"
  using assms
proof (induction A new todo h arbitrary: x h' rule: transfer_grants.induct)
  case (2 A new full p aliases rest h)
  from 2(4) have mem: "(full, p, aliases) \<in> set old_owned" "set rest \<subseteq> set old_owned" by auto
  obtain ok err h1 where allow: "allow_bucket_key A full (JStr new) p h = ((ok, err), h1)" by (metis prod.exhaust)
  note step = transfer_steps(1) [OF mem(1) allow]
  define h2 where "h2 = (case aliases of [] \<Rightarrow> h1 | a # _ \<Rightarrow> snd (add_bucket_alias_local A full (JStr new) a h1))"
  have "grows (\<lambda>r. is_get r \<or> transfers new old_owned A r) h1 h2"
    using transfer_steps(2) [OF mem(1), of A new h1 "fst (add_bucket_alias_local A full (JStr new) (hd aliases) h1)" h2]
    by (cases aliases) (auto simp: h2_def)
  note step2 = grows_trans [OF step this]
  obtain y h3 where rest: "transfer_grants A new rest (if ok then h2 else h1) = (y, h3)" by (metis prod.exhaust)
  have "grows (\<lambda>r. is_get r \<or> transfers new old_owned A r) (if ok then h2 else h1) h3"
    using 2(1) [OF allow [symmetric] refl _ h2_def] 2(2) [OF allow [symmetric] refl] rest mem(2)
    by (cases ok) auto
  moreover have "h' = h3"
    using 2(3) allow rest by (cases ok; cases y) (auto simp: h2_def [symmetric] Let_def)
  ultimately show ?case using step step2 by (cases ok) (auto intro: grows_trans)
qed simp

lemma converge_pass_grows:
  assumes "converge_pass el A old new old_owned h = (out, h')"
  shows "grows (\<lambda>r. is_get r \<or> transfers new old_owned A r) h h'"
proof -
  obtain info err h1 where read: "get_key_info A new h = ((info, err), h1)" by (metis prod.exhaust)
  have gets: "grows (\<lambda>r. is_get r \<or> transfers new old_owned A r) h h1"
    by (rule grows_mono [OF object_reads(2) [OF read]]) simp
  have sub: "set (uncovered old_owned now) \<subseteq> set old_owned" for now by (auto simp: uncovered_def)
  show ?thesis
  proof (cases "\<exists>d now. info = Some d \<and> owned d = Some now \<and> uncovered old_owned now \<noteq> []")
    case True
    then obtain d now where d: "info = Some d" "owned d = Some now" "uncovered old_owned now \<noteq> []" by auto
    obtain y h2 where tr: "transfer_grants A new (uncovered old_owned now) h1 = (y, h2)" by (metis prod.exhaust)
    with assms read d have "h' = h2" by (auto simp: converge_pass_def Let_def split: prod.splits)
    with grows_trans [OF gets transfer_grants_grows [OF tr sub]] show ?thesis by simp
  next
    case False
    with assms read have "h' = h1"
      by (cases info; cases "owned (the info)") (auto simp: converge_pass_def Let_def split: prod.splits if_splits)
    with gets show ?thesis by simp
  qed
qed

text \<open>
  A rotation pass only adds: every change it makes gives the new key, on a bucket the old key has a
  grant on, exactly the old grant, or that bucket's first alias; it never denies, deletes or touches the
  old key. What the old key had is the leak path's snapshot, or else a read of the old key by this pass.
\<close>

theorem converge_only_copies_grants:
  assumes run: "run_converge_account_key_rotation el A old new snapshot h = (out, h')"
    and wrote: "(r, reply) \<in> set h'" "(r, reply) \<notin> set h" "hr_method r \<noteq> ''GET''"
  shows "\<exists>old_owned. transfers new old_owned A r
    \<and> (case snapshot of
        Some entries \<Rightarrow> snapshot_grants entries [] = Some old_owned
      | None \<Rightarrow> \<exists>info. answered A h' (key_info_request A old) info \<and> owned info = Some old_owned)"
proof -
  have conc: "transfers new old_owned A r" if "converge_pass el A old new old_owned h1 = (out, h')" "grows is_get h h1"
    for old_owned h1
    using grows_set [OF converge_pass_grows [OF that(1)] wrote(1)] grows_set [OF that(2)] wrote by (auto simp: is_get_def)
  have cfg: "configured A" using run wrote by (auto simp: run_converge_account_key_rotation_def split: if_splits)
  show ?thesis
  proof (cases snapshot)
    case (Some entries)
    with run cfg wrote conc show ?thesis
      by (auto simp: run_converge_account_key_rotation_def split: option.splits)
  next
    case None
    obtain info err h1 where read: "get_key_info A old h = ((info, err), h1)" by (metis prod.exhaust)
    note gets = object_reads(2) [OF read]
    have "h' \<noteq> h1" using grows_set [OF gets] wrote by (auto simp: is_get_def)
    with run cfg None read obtain d old_owned where d: "info = Some d" "owned d = Some old_owned"
      "converge_pass el A old new old_owned h1 = (out, h')"
      by (cases info; cases "owned (the info)") (auto simp: run_converge_account_key_rotation_def)
    then have "answered A h' (key_info_request A old) d"
      using info_answered(1) [OF read [unfolded d(1)]] grows_subset [OF converge_pass_grows] by (blast intro: answered_mono)
    with conc [OF d(3) gets] d None show ?thesis by auto
  qed
qed

lemma converge_only_copies_grants_witness:
  "\<exists>r reply old_owned. (r, reply) \<in> set (snd (run_converge_account_key_rotation [] shared_admin ''K1'' ''K3''
       (Some [[(''id'', JStr ''ab12''), (''perms'', JArr [JBool True, JBool False, JBool False])], [(''id'', JStr ''ab'')]]) []))
     \<and> transfers ''K3'' old_owned shared_admin r \<and> dict_get old_owned ''ab12'' = Some ((True, False, False), [])"
proof -
  let ?es = "[[(''id'', JStr ''ab12''), (''perms'', JArr [JBool True, JBool False, JBool False])], [(''id'', JStr ''ab'')]]"
  let ?run = "run_converge_account_key_rotation [] shared_admin ''K1'' ''K3'' (Some ?es) []"
  obtain out h' where run: "?run = (out, h')" by (cases ?run)
  have "list_ex (\<lambda>(r, reply). hr_method r \<noteq> ''GET'') (snd ?run)" by code_simp
  with run obtain r reply where w: "(r, reply) \<in> set h'" "hr_method r \<noteq> ''GET''" by (auto simp: list_ex_iff)
  have owned: "map_option (\<lambda>g. dict_get g ''ab12'') (snapshot_grants ?es []) = Some (Some ((True, False, False), []))"
    by code_simp
  from converge_only_copies_grants [OF run w(1) _ w(2)] obtain old_owned where
    old: "transfers ''K3'' old_owned shared_admin r" "snapshot_grants ?es [] = Some old_owned" by auto
  from owned old(2) have "dict_get old_owned ''ab12'' = Some ((True, False, False), [])" by (simp only: option.map option.inject)
  moreover from run w have "(r, reply) \<in> set (snd ?run)" by simp
  ultimately show ?thesis using old(1) by blast
qed

end
