(* ===== verification/GarageState.thy ===== *)
theory GarageState
  imports GarageJobs Integrations Spool
begin

text \<open>
  What the agent knows of Garage: \<open>garage/hint.py\<close>, \<open>garage/state.py\<close>, \<open>garage/state_reader.py\<close> and
  \<open>garage/bucket_resolver.py\<close>. The reader is shared by the periodic collect and by the hook that re-reads
  what a command changed, each on a thread of its own; a collect gives way before every exchange and
  before every locked section, where the script says what the hooks do. Float arithmetic, the clock and
  the stamp are parameters; a reading of them depends on what was exchanged so far.
\<close>

section \<open>The hint file\<close>

datatype hint_refusal =
    HUnreadable | HSymlink | HNotRegular | HForeignOwner | HTooLarge | HBadSchema | HStale | HBadId

record hint_read =
  hi_ids :: "string list"
  hi_refusal :: "hint_refusal option"

definition MAX_HINT_BYTES :: int where "MAX_HINT_BYTES = 65536"
definition HINT_VERSION :: int where "HINT_VERSION = 1"

definition refuse_hint :: "hint_refusal \<Rightarrow> hint_read" where
  "refuse_hint r = \<lparr>hi_ids = [], hi_refusal = Some r\<rparr>"

definition bucket_id_match :: "string \<Rightarrow> bool" where
  "bucket_id_match s \<longleftrightarrow> length s = 64 \<and> list_all (\<lambda>c. c \<in> set ''0123456789abcdef'') s"

text \<open>
  What a reading needs: whether the config names a hint file, the file and whether its open fails, our
  uid, the decoder, whether a float is 1, and whether \<open>-5 <= now - written_at <= 60\<close>, the outer option
  being the \<open>OverflowError\<close> of an integer no float holds. Then the server, the clock in milliseconds,
  the stamp, the two float figures of a peer and the call meter.
\<close>

record reader_env =
  ge_hinted :: bool
  ge_hint_file :: "http_log \<Rightarrow> bool \<times> file_node option"
  ge_uid :: nat
  ge_loads :: "string \<Rightarrow> loaded"
  ge_is_one :: "string \<Rightarrow> bool"
  ge_fresh :: "http_log \<Rightarrow> json \<Rightarrow> bool option"
  ge_admin :: admin
  ge_clock :: "http_log \<Rightarrow> int"
  ge_stamp :: "http_log \<Rightarrow> string"
  ge_gigabytes :: "json \<Rightarrow> json option"
  ge_percent :: "json \<Rightarrow> json \<Rightarrow> json option"
  ge_meter :: "http_log \<Rightarrow> (string, call_stats) dict"

definition is_number :: "json \<Rightarrow> bool" where
  "is_number v = (case v of JInt i \<Rightarrow> True | JFloat f \<Rightarrow> True | _ \<Rightarrow> False)"

text \<open>\<open>None\<close> is an exception: \<open>json.loads\<close> past its depth, or the overflow of the age.\<close>

definition parse_hint :: "reader_env \<Rightarrow> http_log \<Rightarrow> string \<Rightarrow> hint_read option" where
  "parse_hint E h raw =
     (case ge_loads E raw of
        TooDeep \<Rightarrow> None
      | Loaded (JObj doc) \<Rightarrow>
          (let version = get_or_null doc ''version''; written_at = get_or_null doc ''written_at'' in
           if \<not> (case version of JInt i \<Rightarrow> i = HINT_VERSION | JFloat f \<Rightarrow> ge_is_one E f | _ \<Rightarrow> False)
           then Some (refuse_hint HBadSchema)
           else case get_or_null doc ''bucket_ids'' of
             JArr ids \<Rightarrow>
               if \<not> is_number written_at then Some (refuse_hint HBadSchema)
               else (case ge_fresh E h written_at of
                  None \<Rightarrow> None
                | Some False \<Rightarrow> Some (refuse_hint HStale)
                | Some True \<Rightarrow>
                    Some (if list_all (\<lambda>i. case i of JStr s \<Rightarrow> bucket_id_match s | _ \<Rightarrow> False) ids
                      then \<lparr>hi_ids = dict_keys (dict_update [] (List.map_filter
                              (\<lambda>i. case i of JStr s \<Rightarrow> Some (s, ()) | _ \<Rightarrow> None) ids)), hi_refusal = None\<rparr>
                      else refuse_hint HBadId))
           | _ \<Rightarrow> Some (refuse_hint HBadSchema))
      | _ \<Rightarrow> Some (refuse_hint HBadSchema))"

fun hint_refusal_of :: "read_refusal \<Rightarrow> hint_refusal" where
  "hint_refusal_of IsSymlink = HSymlink"
| "hint_refusal_of NotRegular = HNotRegular"
| "hint_refusal_of ForeignOwner = HForeignOwner"
| "hint_refusal_of TooLarge = HTooLarge"

definition read_hint :: "reader_env \<Rightarrow> http_log \<Rightarrow> hint_read option" where
  "read_hint E h =
     (case ge_hint_file E h of
        (open_fails, path) \<Rightarrow>
          (case read_bounded open_fails path MAX_HINT_BYTES (\<lambda>f. fn_uid f = ge_uid E) of
             OsError \<Rightarrow> Some (refuse_hint HUnreadable)
           | RefusedFile r st \<Rightarrow> Some (refuse_hint (hint_refusal_of r))
           | ReadBytes raw i \<Rightarrow> parse_hint E h raw))"

section \<open>Buckets\<close>

text \<open>A field the code takes from a reply as it is stays a JSON value.\<close>

record key_ref =
  kr_id :: json
  kr_name :: json
  kr_permissions :: string
  kr_aliases :: "json list"

record bucket =
  bk_id :: string
  bk_alias :: json
  bk_size_bytes :: int
  bk_object_count :: int
  bk_keys :: "key_ref list"
  bk_website_access :: bool
  bk_website_index :: json
  bk_website_error :: json
  bk_quota_size :: json
  bk_quota_objects :: json
  bk_unfinished_bytes :: int
  bk_unfinished_uploads :: int
  bk_read_at :: string

definition perm_flags :: "json \<Rightarrow> string option" where
  "perm_flags v = map_option (\<lambda>p. case perm_bits p of (r, w, own) \<Rightarrow>
     (if r then ''R'' else []) @ (if w then ''W'' else []) @ (if own then ''O'' else [])) (dict_of v)"

definition key_ref_of :: "json \<Rightarrow> key_ref option" where
  "key_ref_of v =
     (case v of
        JObj k \<Rightarrow> Option.bind (list_of (get_or_null k ''bucketLocalAliases'')) (\<lambda>aliases.
          map_option (\<lambda>flags. \<lparr>kr_id = text_or_empty (get_or_null k ''accessKeyId''),
              kr_name = text_or_empty (get_or_null k ''name''), kr_permissions = flags,
              kr_aliases = filter truthy aliases\<rparr>)
            (perm_flags (get_or_null k ''permissions'')))
      | _ \<Rightarrow> None)"

fun all_some :: "'a option list \<Rightarrow> 'a list option" where
  "all_some [] = Some []"
| "all_some (None # xs) = None"
| "all_some (Some x # xs) = map_option (Cons x) (all_some xs)"

definition count_field :: "admin \<Rightarrow> (string, json) dict \<Rightarrow> string \<Rightarrow> int option" where
  "count_field A d k = (let v = get_or_null d k in if truthy v then ad_int A v else Some 0)"

text \<open>\<open>None\<close> is the exception of a malformed body; a missing field is a zero value.\<close>

definition bucket_from_admin_info :: "admin \<Rightarrow> (string, json) dict \<Rightarrow> bucket option" where
  "bucket_from_admin_info A info =
     Option.bind (dict_of (get_or_null info ''quotas'')) (\<lambda>quotas.
     Option.bind (dict_of (get_or_null info ''websiteConfig'')) (\<lambda>website.
     Option.bind (Option.bind (items_of (get_or_null info ''keys'')) (\<lambda>ks. all_some (map key_ref_of ks))) (\<lambda>keys.
     Option.bind (first_alias (get_or_null info ''globalAliases'')) (\<lambda>alias.
     Option.bind (count_field A info ''bytes'') (\<lambda>size.
     Option.bind (count_field A info ''objects'') (\<lambda>objects.
     Option.bind (count_field A info ''unfinishedMultipartUploadBytes'') (\<lambda>ubytes.
     Option.bind (count_field A info ''unfinishedMultipartUploads'') (\<lambda>uploads.
     Some \<lparr>bk_id = (case text_or_empty (get_or_null info ''id'') of JStr s \<Rightarrow> s | _ \<Rightarrow> []), bk_alias = alias,
       bk_size_bytes = size, bk_object_count = objects, bk_keys = keys,
       bk_website_access = truthy (get_or_null info ''websiteAccess''),
       bk_website_index = (let v = get_or_null website ''indexDocument'' in if truthy v then v else JStr ''index.html''),
       bk_website_error = get_or_null website ''errorDocument'',
       bk_quota_size = get_or_null quotas ''maxSize'', bk_quota_objects = get_or_null quotas ''maxObjects'',
       bk_unfinished_bytes = ubytes, bk_unfinished_uploads = uploads, bk_read_at = []\<rparr>))))))))"

text \<open>One \<open>GetBucketInfo\<close>: \<open>Inr\<close> the bucket, stamped as it returns, \<open>Inl\<close> whether a failure is a 404.\<close>

definition read_bucket :: "reader_env \<Rightarrow> string \<Rightarrow> http_log \<Rightarrow> (bool + bucket) option \<times> http_log" where
  "read_bucket E i h =
     (case get_bucket_info (ge_admin E) i h of
        ((None, err), h1) \<Rightarrow> (Some (Inl (starts_with ''HTTP 404'' err)), h1)
      | ((Some info, _), h1) \<Rightarrow>
          (map_option (\<lambda>b. Inr (b\<lparr>bk_read_at := ge_stamp E h1\<rparr>)) (bucket_from_admin_info (ge_admin E) info), h1))"

text \<open>The ids of a listing; an id that is no text raises.\<close>

definition list_bucket_ids :: "admin \<Rightarrow> http_log \<Rightarrow> string list option option \<times> http_log" where
  "list_bucket_ids A h =
     (case list_buckets A h of
        ((None, err), h1) \<Rightarrow> (Some None, h1)
      | ((Some items, _), h1) \<Rightarrow>
          (map_option Some (all_some (map (\<lambda>i. case get_or_null i ''id'' of JStr s \<Rightarrow> Some s | _ \<Rightarrow> None)
             (filter (\<lambda>i. truthy (get_or_null i ''id'')) items))), h1))"

text \<open>A targeted read: the buckets read, and the ids answered with a 404.\<close>

fun read_buckets_by_id ::
  "reader_env \<Rightarrow> string list \<Rightarrow> http_log \<Rightarrow> (bucket list \<times> string list) option \<times> http_log" where
  "read_buckets_by_id E [] h = (Some ([], []), h)"
| "read_buckets_by_id E (i # ids) h =
     (if \<not> configured (ge_admin E) then (Some ([], []), h)
      else case read_bucket E i h of
        (None, h1) \<Rightarrow> (None, h1)
      | (Some r, h1) \<Rightarrow>
          apfst (map_option (\<lambda>(bs, gone). case r of
              Inr b \<Rightarrow> (b # bs, gone) | Inl absent \<Rightarrow> (bs, if absent then i # gone else gone)))
            (read_buckets_by_id E ids h1))"

section \<open>The whole state\<close>

record peer =
  pe_node_id :: json
  pe_hostname :: json
  pe_address :: json
  pe_zone :: json
  pe_capacity_gb :: json
  pe_avail_gb :: json
  pe_avail_percent :: json
  pe_version :: json
  pe_healthy :: bool

record topology =
  to_object_count :: int
  to_keys :: "key_ref list"
  to_peers :: "peer list"

record admin_metric =
  am_target :: json
  am_stats :: call_stats

record garage_state =
  gs_node :: peer
  gs_object_count :: int
  gs_buckets :: "bucket list"
  gs_keys :: "key_ref list"
  gs_peers :: "peer list"
  gs_metrics :: "admin_metric list"
  gs_read :: freshness

definition zero_or :: "json \<Rightarrow> json" where
  "zero_or v = (if truthy v then v else JInt 0)"

definition peer_from_node :: "reader_env \<Rightarrow> json \<Rightarrow> peer option" where
  "peer_from_node E v =
     (case v of
        JObj node \<Rightarrow>
          Option.bind (dict_of (get_or_null node ''role'')) (\<lambda>role.
          Option.bind (dict_of (get_or_null node ''dataPartition'')) (\<lambda>part.
            (let avail = get_or_null part ''available''; total = get_or_null part ''total'' in
             Option.bind (if avail \<noteq> JNull \<and> truthy total then ge_percent E avail total else Some (JFloat ''0.0'')) (\<lambda>pct.
             Option.bind (ge_gigabytes E (zero_or (get_or_null role ''capacity''))) (\<lambda>capacity_gb.
             Option.bind (ge_gigabytes E (zero_or avail)) (\<lambda>avail_gb.
             Some \<lparr>pe_node_id = text_or_empty (get_or_null node ''id''),
               pe_hostname = text_or_empty (get_or_null node ''hostname''),
               pe_address = text_or_empty (get_or_null node ''addr''), pe_zone = text_or_empty (get_or_null role ''zone''),
               pe_capacity_gb = capacity_gb, pe_avail_gb = avail_gb, pe_avail_percent = pct,
               pe_version = (let ver = get_or_null node ''garageVersion'' in if truthy ver then ver else JStr ''unknown''),
               pe_healthy = truthy (get_or_null node ''isUp'')\<rparr>))))))
      | _ \<Rightarrow> None)"

definition total_objects :: "admin \<Rightarrow> http_log \<Rightarrow> int option \<times> http_log" where
  "total_objects A h =
     (case get_cluster_statistics A h of
        ((stats, _), h1) \<Rightarrow> (count_field A (case stats of None \<Rightarrow> [] | Some d \<Rightarrow> d) ''totalObjectCount'', h1))"

definition key_inventory :: "admin \<Rightarrow> http_log \<Rightarrow> key_ref list \<times> http_log" where
  "key_inventory A h =
     (case list_keys A h of
        ((raw, _), h1) \<Rightarrow>
          (map (\<lambda>k. \<lparr>kr_id = text_or_empty (get_or_null k ''id''), kr_name = text_or_empty (get_or_null k ''name''),
                    kr_permissions = [], kr_aliases = []\<rparr>) (case raw of None \<Rightarrow> [] | Some ks \<Rightarrow> ks), h1))"

text \<open>The outer option is an exception, the inner one a read to skip.\<close>

definition collect_topology :: "reader_env \<Rightarrow> http_log \<Rightarrow> topology option option \<times> http_log" where
  "collect_topology E h =
     (case get_cluster_status (ge_admin E) h of
        ((None, err), h1) \<Rightarrow> (Some None, h1)
      | ((Some status, _), h1) \<Rightarrow>
          (case Option.bind (items_of (get_or_null status ''nodes'')) (\<lambda>ns. all_some (map (peer_from_node E) ns)) of
             None \<Rightarrow> (None, h1)
           | Some [] \<Rightarrow> (Some None, h1)
           | Some peers \<Rightarrow>
               (case total_objects (ge_admin E) h1 of
                  (None, h2) \<Rightarrow> (None, h2)
                | (Some n, h2) \<Rightarrow>
                    (case key_inventory (ge_admin E) h2 of
                       (keys, h3) \<Rightarrow> (Some (Some \<lparr>to_object_count = n, to_keys = keys, to_peers = peers\<rparr>), h3)))))"

definition full_read_freshness :: "string \<Rightarrow> string list \<Rightarrow> bucket list \<Rightarrow> freshness" where
  "full_read_freshness now ids bs =
     (let read = filter (\<lambda>i. i \<noteq> []) (map bk_id bs)
      in \<lparr>fr_complete = list_all (\<lambda>i. i \<in> set read) ids, fr_last_full_read_at = now, fr_changed_ids = read\<rparr>)"

definition read_admin_metrics :: "reader_env \<Rightarrow> http_log \<Rightarrow> peer \<Rightarrow> admin_metric list" where
  "read_admin_metrics E h node =
     map (\<lambda>(endpoint, stats). \<lparr>am_target = (if endpoint = ad_url (ge_admin E) then pe_node_id node else JStr endpoint),
                               am_stats = stats\<rparr>) (ge_meter E h)"

definition compose :: "reader_env \<Rightarrow> http_log \<Rightarrow> topology \<Rightarrow> bucket list \<Rightarrow> freshness \<Rightarrow> garage_state" where
  "compose E h t bs f =
     \<lparr>gs_node = hd (to_peers t), gs_object_count = to_object_count t, gs_buckets = bs, gs_keys = to_keys t,
      gs_peers = to_peers t, gs_metrics = read_admin_metrics E h (hd (to_peers t)), gs_read = f\<rparr>"

definition walk_and_compose :: "reader_env \<Rightarrow> topology \<Rightarrow> http_log \<Rightarrow> garage_state option option \<times> http_log" where
  "walk_and_compose E t h =
     (case list_bucket_ids (ge_admin E) h of
        (None, h1) \<Rightarrow> (None, h1)
      | (Some None, h1) \<Rightarrow> (Some None, h1)
      | (Some (Some ids), h1) \<Rightarrow>
          (case read_buckets_by_id E ids h1 of
             (None, h2) \<Rightarrow> (None, h2)
           | (Some (bs, _), h2) \<Rightarrow> (Some (Some (compose E h2 t bs (full_read_freshness (ge_stamp E h2) ids bs))), h2)))"

definition collect_garage_state :: "reader_env \<Rightarrow> http_log \<Rightarrow> garage_state option option \<times> http_log" where
  "collect_garage_state E h =
     (if \<not> configured (ge_admin E) then (Some None, h)
      else case collect_topology E h of
        (None, h1) \<Rightarrow> (None, h1)
      | (Some None, h1) \<Rightarrow> (Some None, h1)
      | (Some (Some t), h1) \<Rightarrow> walk_and_compose E t h1)"

text \<open>The shared merge: known ids are replaced in place, new ones follow.\<close>

definition with_items :: "garage_state \<Rightarrow> bucket list \<Rightarrow> garage_state" where
  "with_items s bs =
     (let incoming = dict_update [] (map (\<lambda>b. (bk_id b, b)) (filter (\<lambda>b. bk_id b \<noteq> []) bs));
          (merged, rest) = foldl (\<lambda>(acc, d) b. (acc @ [case dict_get d (bk_id b) of Some n \<Rightarrow> n | None \<Rightarrow> b], dict_pop (bk_id b) d))
            ([], incoming) (gs_buckets s)
      in if incoming = [] then s else s\<lparr>gs_buckets := merged @ dict_values rest\<rparr>)"

section \<open>Which buckets a command touched\<close>

definition BUCKET_ID_PARAMS :: "string list" where "BUCKET_ID_PARAMS = [''bucket_id'']"
definition BUCKET_ALIAS_PARAMS :: "string list" where
  "BUCKET_ALIAS_PARAMS = [''bucket_name'', ''alias_name'', ''local_alias'']"
definition KEY_ID_PARAMS :: "string list" where
  "KEY_ID_PARAMS = [''key_id'', ''account_key_id'', ''access_key_id'', ''old_key_id'']"
definition MAX_TARGETED_BUCKET_READS :: nat where "MAX_TARGETED_BUCKET_READS = 8"

definition given :: "(string, string) dict \<Rightarrow> string list \<Rightarrow> string list" where
  "given params names = List.map_filter (\<lambda>n. case dict_get params n of Some (c # cs) \<Rightarrow> Some (c # cs) | _ \<Rightarrow> None) names"

definition affected_bucket_ids :: "(string, string) dict \<Rightarrow> garage_state \<Rightarrow> string list" where
  "affected_bucket_ids params s =
     (let direct = given params BUCKET_ID_PARAMS; keys = map JStr (given params KEY_ID_PARAMS) in
      if direct \<noteq> [] then direct
      else if given params BUCKET_ALIAS_PARAMS \<noteq> [] then []
      else map bk_id (filter (\<lambda>b. bk_id b \<noteq> [] \<and> list_ex (\<lambda>k. kr_id k \<in> set keys) (bk_keys b)) (gs_buckets s)))"

definition cap_targeted_reads :: "string list \<Rightarrow> string list" where
  "cap_targeted_reads ids = take MAX_TARGETED_BUCKET_READS ids"

section \<open>Naming the bucket of an access-log line\<close>

text \<open>Key ids and aliases are texts by the API's schema; as JSON values they are compared as such.\<close>

record bucket_resolver =
  br_key_scoped :: "(json \<times> json, string) dict"
  br_global_alias :: "(json, string) dict"

definition resolver_from_state :: "garage_state option \<Rightarrow> bucket_resolver" where
  "resolver_from_state s =
     (let bs = (case s of None \<Rightarrow> [] | Some st \<Rightarrow> filter (\<lambda>b. bk_id b \<noteq> []) (gs_buckets st))
      in \<lparr>br_key_scoped = dict_update [] (concat (map (\<lambda>b. concat (map (\<lambda>k.
              if truthy (kr_id k) then map (\<lambda>a. ((kr_id k, a), bk_id b)) (filter truthy (kr_aliases k)) else [])
            (bk_keys b))) bs)),
          br_global_alias = dict_update [] (map (\<lambda>b. (bk_alias b, bk_id b)) (filter (\<lambda>b. truthy (bk_alias b)) bs))\<rparr>)"

definition resolve_bucket :: "bucket_resolver \<Rightarrow> string \<Rightarrow> string \<Rightarrow> string" where
  "resolve_bucket r key name =
     (if name = [] then []
      else case dict_get (br_key_scoped r) (JStr key, JStr name) of
        Some (c # cs) \<Rightarrow> c # cs
      | _ \<Rightarrow> (case dict_get (br_global_alias r) (JStr name) of Some i \<Rightarrow> i | None \<Rightarrow> []))"

section \<open>The reader\<close>

text \<open>A hook's read: the ids left, the buckets read so far, the ids answered with a 404.\<close>

record hook_read =
  hk_left :: "string list"
  hk_got :: "bucket list"
  hk_gone :: "string list"

datatype hook_move = HookStart "string list" | HookNext nat

text \<open>
  The fields of \<open>GarageStateReader\<close>, a cadence as the value of its last mark. Then the world: the
  exchanges so far, the hooks under way, what they do at each point where a collect gives way, and how
  many ids the walks were told were dropped.
\<close>

record reader =
  rd_topology :: "topology option"
  rd_buckets :: "(string, bucket) dict option"
  rd_absorbed :: "(string, bucket) dict option"
  rd_pending :: "string list"
  rd_full :: freshness
  rd_last_refusal :: "hint_refusal option"
  rd_ticks :: nat
  rd_topology_at :: "nat option"
  rd_sweep_at :: "int option"
  rd_reread_at :: "int option"
  rd_log :: http_log
  rd_hooks :: "hook_read list"
  rd_script :: "hook_move list list"
  rd_dropped :: nat

definition MAX_HINTED_READS :: nat where "MAX_HINTED_READS = 32"
definition TOPOLOGY_EVERY :: nat where "TOPOLOGY_EVERY = 6"
definition SWEEP_MS :: int where "SWEEP_MS = 60000"
definition REREAD_MS :: int where "REREAD_MS = 300000"

definition due :: "int \<Rightarrow> int option \<Rightarrow> int \<Rightarrow> bool" where
  "due period mark now \<longleftrightarrow> (case mark of None \<Rightarrow> True | Some t \<Rightarrow> period \<le> now - t)"

definition by_id :: "bucket list \<Rightarrow> (string, bucket) dict" where
  "by_id bs = map (\<lambda>b. (bk_id b, b)) (filter (\<lambda>b. bk_id b \<noteq> []) bs)"

definition merge_listing ::
  "(string, bucket) dict \<Rightarrow> string list \<Rightarrow> bucket list \<Rightarrow> (string, bucket) dict \<Rightarrow> bool \<Rightarrow> (string, bucket) dict \<times> nat" where
  "merge_listing prior ids bs absorbed every =
     (let merged = dict_update (dict_update (if every then [] else prior) (by_id bs)) absorbed;
          keep = (\<lambda>(i, b). i \<in> set ids \<or> dict_has absorbed i)
      in (filter keep merged, length (filter (\<lambda>p. \<not> keep p) prior)))"

definition pops :: "string list \<Rightarrow> (string, bucket) dict \<Rightarrow> (string, bucket) dict" where
  "pops ids d = fold dict_pop ids d"

text \<open>The locked half of \<open>read_buckets\<close>.\<close>

definition absorb :: "bucket list \<Rightarrow> string list \<Rightarrow> reader \<Rightarrow> reader" where
  "absorb bs gone s =
     (let s1 = (case rd_buckets s of
          None \<Rightarrow> s
        | Some c \<Rightarrow>
            (let c1 = dict_update c (by_id bs)
             in s\<lparr>rd_buckets := Some (pops gone c1), rd_dropped := rd_dropped s + (length c1 - length (pops gone c1))\<rparr>))
      in s1\<lparr>rd_absorbed := map_option (\<lambda>a. pops gone (dict_update a (by_id bs))) (rd_absorbed s)\<rparr>)"

text \<open>One step of a hook: its next exchange, or the absorption that ends it; an exception ends it too.\<close>

definition drop_nth :: "nat \<Rightarrow> 'a list \<Rightarrow> 'a list" where
  "drop_nth n xs = take n xs @ drop (Suc n) xs"

fun hook_step :: "reader_env \<Rightarrow> reader \<Rightarrow> hook_move \<Rightarrow> reader" where
  "hook_step E s (HookStart ids) =
     s\<lparr>rd_hooks := rd_hooks s @ [\<lparr>hk_left = (if configured (ge_admin E) then ids else []), hk_got = [], hk_gone = []\<rparr>]\<rparr>"
| "hook_step E s (HookNext n) =
     (if length (rd_hooks s) \<le> n then s
      else let t = rd_hooks s ! n in
        case hk_left t of
          [] \<Rightarrow> absorb (hk_got t) (hk_gone t) (s\<lparr>rd_hooks := drop_nth n (rd_hooks s)\<rparr>)
        | i # rest \<Rightarrow>
            (case read_bucket E i (rd_log s) of
               (None, h) \<Rightarrow> s\<lparr>rd_log := h, rd_hooks := drop_nth n (rd_hooks s)\<rparr>
             | (Some (Inr b), h) \<Rightarrow>
                 s\<lparr>rd_log := h, rd_hooks := (rd_hooks s)[n := t\<lparr>hk_left := rest, hk_got := hk_got t @ [b]\<rparr>]\<rparr>
             | (Some (Inl absent), h) \<Rightarrow>
                 s\<lparr>rd_log := h, rd_hooks := (rd_hooks s)[n := t\<lparr>hk_left := rest,
                     hk_gone := hk_gone t @ (if absent then [i] else [])\<rparr>]\<rparr>))"

definition give_way :: "reader_env \<Rightarrow> reader \<Rightarrow> reader" where
  "give_way E s =
     (case rd_script s of [] \<Rightarrow> s | ms # rest \<Rightarrow> foldl (hook_step E) (s\<lparr>rd_script := rest\<rparr>) ms)"

text \<open>The reads of a collect, the hooks between them.\<close>

fun walk_ids :: "reader_env \<Rightarrow> string list \<Rightarrow> reader \<Rightarrow> (bucket list \<times> string list) option \<times> reader" where
  "walk_ids E [] s = (Some ([], []), s)"
| "walk_ids E (i # ids) s =
     (let s1 = give_way E s in
      case read_bucket E i (rd_log s1) of
        (None, h) \<Rightarrow> (None, s1\<lparr>rd_log := h\<rparr>)
      | (Some r, h) \<Rightarrow>
          apfst (map_option (\<lambda>(bs, gone). case r of
              Inr b \<Rightarrow> (b # bs, gone) | Inl absent \<Rightarrow> (bs, if absent then i # gone else gone)))
            (walk_ids E ids (s1\<lparr>rd_log := h\<rparr>)))"

definition absorb_listing ::
  "reader_env \<Rightarrow> string list \<Rightarrow> bucket list \<Rightarrow> (string, bucket) dict \<Rightarrow> bool \<Rightarrow> reader \<Rightarrow> string list \<times> reader" where
  "absorb_listing E ids bs absorbed every s =
     (let (cache, dropped) = merge_listing (case rd_buckets s of None \<Rightarrow> [] | Some c \<Rightarrow> c) ids bs absorbed every;
          s1 = s\<lparr>rd_buckets := Some cache, rd_dropped := rd_dropped s + dropped\<rparr>;
          s2 = (if every then s1\<lparr>rd_pending := [], rd_full := full_read_freshness (ge_stamp E (rd_log s1)) ids (dict_values cache)\<rparr> else s1)
      in (filter (\<lambda>i. i \<in> set (map bk_id bs) \<or> dict_has absorbed i) (dict_keys cache), s2))"

text \<open>
  \<open>_refresh\<close>, with its \<open>finally\<close>: whatever happened, the absorbed reads are taken back, and a listing
  that came back is merged, with no reads when reading raised.
\<close>

definition refresh :: "reader_env \<Rightarrow> bool \<Rightarrow> reader \<Rightarrow> string list option option \<times> reader" where
  "refresh E every s =
     (let s1 = give_way E (s\<lparr>rd_absorbed := Some []\<rparr>) in
      case list_bucket_ids (ge_admin E) (rd_log s1) of
        (None, h) \<Rightarrow> (None, s1\<lparr>rd_log := h, rd_absorbed := None\<rparr>)
      | (Some None, h) \<Rightarrow> (Some None, s1\<lparr>rd_log := h, rd_absorbed := None\<rparr>)
      | (Some (Some ids), h) \<Rightarrow>
          (let s2 = give_way E (s1\<lparr>rd_log := h\<rparr>);
               cached = (case rd_buckets s2 of None \<Rightarrow> [] | Some c \<Rightarrow> c);
               (res, s3) = walk_ids E (if every then ids else filter (\<lambda>i. \<not> dict_has cached i) ids) s2;
               s4 = give_way E s3;
               absorbed = (case rd_absorbed s4 of None \<Rightarrow> [] | Some a \<Rightarrow> a);
               (read, s5) = absorb_listing E ids (case res of None \<Rightarrow> [] | Some (bs, _) \<Rightarrow> bs) absorbed every
                              (s4\<lparr>rd_absorbed := None\<rparr>)
           in (map_option (\<lambda>_. Some read) res, s5)))"

text \<open>\<open>read_buckets\<close>, called by a collect.\<close>

definition read_buckets :: "reader_env \<Rightarrow> string list \<Rightarrow> reader \<Rightarrow> bucket list option \<times> reader" where
  "read_buckets E ids s =
     (case walk_ids E ids s of
        (None, s1) \<Rightarrow> (None, s1)
      | (Some (bs, gone), s1) \<Rightarrow> (Some bs, absorb bs gone (give_way E s1)))"

definition take_hint :: "reader_env \<Rightarrow> reader \<Rightarrow> reader option" where
  "take_hint E s =
     (if \<not> ge_hinted E then Some s
      else case read_hint E (rd_log s) of
        None \<Rightarrow> None
      | Some r \<Rightarrow>
          (case hi_refusal r of
             None \<Rightarrow> Some (s\<lparr>rd_last_refusal := None,
                          rd_pending := hi_ids r @ filter (\<lambda>i. i \<notin> set (hi_ids r)) (rd_pending s)\<rparr>)
           | Some why \<Rightarrow> Some (s\<lparr>rd_last_refusal := Some why\<rparr>)))"

definition drain_hints :: "reader \<Rightarrow> string list \<times> reader" where
  "drain_hints s = (take MAX_HINTED_READS (rd_pending s), s\<lparr>rd_pending := drop MAX_HINTED_READS (rd_pending s)\<rparr>)"

definition read_topology :: "reader_env \<Rightarrow> bool \<Rightarrow> reader \<Rightarrow> topology option option \<times> reader" where
  "read_topology E fresh s =
     (if fresh \<or> due (int TOPOLOGY_EVERY) (map_option int (rd_topology_at s)) (int (rd_ticks s))
      then (let s1 = give_way E s in
        case collect_topology E (rd_log s1) of
          (None, h) \<Rightarrow> (None, s1\<lparr>rd_log := h\<rparr>)
        | (Some None, h) \<Rightarrow> (Some (rd_topology s1), s1\<lparr>rd_log := h\<rparr>)
        | (Some (Some t), h) \<Rightarrow> (Some (Some t), s1\<lparr>rd_log := h, rd_topology := Some t, rd_topology_at := Some (rd_ticks s1)\<rparr>))
      else (Some (rd_topology s), s))"

definition changed_this_tick :: "reader_env \<Rightarrow> bool \<Rightarrow> reader \<Rightarrow> string list option option \<times> reader" where
  "changed_this_tick E fresh s =
     (if fresh \<or> \<not> ge_hinted E \<or> due REREAD_MS (rd_reread_at s) (ge_clock E (rd_log s))
      then (case refresh E True s of
          (Some (Some read), s1) \<Rightarrow>
            (Some (Some read), s1\<lparr>rd_reread_at := Some (ge_clock E (rd_log s1)), rd_sweep_at := Some (ge_clock E (rd_log s1))\<rparr>)
        | (res, s1) \<Rightarrow> (res, s1))
      else (case (if due SWEEP_MS (rd_sweep_at s) (ge_clock E (rd_log s)) then refresh E False s else (Some None, s)) of
          (None, s1) \<Rightarrow> (None, s1)
        | (Some found, s1) \<Rightarrow>
            (let s2 = (case found of None \<Rightarrow> s1 | Some _ \<Rightarrow> s1\<lparr>rd_sweep_at := Some (ge_clock E (rd_log s1))\<rparr>);
                 changed = (case found of None \<Rightarrow> [] | Some ids \<Rightarrow> ids);
                 (batch, s3) = drain_hints (give_way E s2)
             in case read_buckets E batch s3 of
                  (None, s4) \<Rightarrow> (None, s4)
                | (Some hinted, s4) \<Rightarrow>
                    (Some (Some (changed @ filter (\<lambda>i. i \<noteq> [] \<and> i \<notin> set changed) (map bk_id hinted))), s4))))"

text \<open>One periodic read; the outer option is an exception, the inner one a tick with nothing to push.\<close>

definition collect :: "reader_env \<Rightarrow> bool \<Rightarrow> reader \<Rightarrow> garage_state option option \<times> reader" where
  "collect E fresh s =
     (if \<not> configured (ge_admin E) then (Some None, s)
      else case take_hint E (give_way E s) of
        None \<Rightarrow> (None, give_way E s)
      | Some s1 \<Rightarrow>
          (case read_topology E fresh s1 of
             (None, s2) \<Rightarrow> (None, s2)
           | (Some None, s2) \<Rightarrow> (Some None, s2)
           | (Some (Some t), s2) \<Rightarrow>
               (case changed_this_tick E fresh s2 of
                  (None, s3) \<Rightarrow> (None, s3)
                | (Some None, s3) \<Rightarrow> (Some None, s3)
                | (Some (Some changed), s3) \<Rightarrow>
                    (let s4 = give_way E s3 in
                     case rd_buckets s4 of
                       None \<Rightarrow> (None, s4)
                     | Some c \<Rightarrow>
                         (Some (Some (compose E (rd_log s4) t (dict_values c) ((rd_full s4)\<lparr>fr_changed_ids := changed\<rparr>))),
                          s4\<lparr>rd_ticks := Suc (rd_ticks s4)\<rparr>)))))"

definition new_reader :: "hook_move list list \<Rightarrow> reader" where
  "new_reader script =
     \<lparr>rd_topology = None, rd_buckets = None, rd_absorbed = None, rd_pending = [],
      rd_full = \<lparr>fr_complete = True, fr_last_full_read_at = [], fr_changed_ids = []\<rparr>, rd_last_refusal = None, rd_ticks = 0,
      rd_topology_at = None, rd_sweep_at = None, rd_reread_at = None, rd_log = [], rd_hooks = [], rd_script = script,
      rd_dropped = 0\<rparr>"

section \<open>Facts\<close>

text \<open>A bucket is genuine when a 2xx answer of the log says it, its stamp apart.\<close>

definition genuine :: "reader_env \<Rightarrow> http_log \<Rightarrow> bucket \<Rightarrow> bool" where
  "genuine E h b \<longleftrightarrow> (\<exists>ref info b0. answered (ge_admin E) h (bucket_info_request (ge_admin E) ref) info
     \<and> bucket_from_admin_info (ge_admin E) info = Some b0 \<and> b = b0\<lparr>bk_read_at := bk_read_at b\<rparr> \<and> starts_with ref (bk_id b))"

lemma genuine_mono: "genuine E h b \<Longrightarrow> grows P h h' \<Longrightarrow> genuine E h' b"
  unfolding genuine_def by (meson answered_mono grows_subset)

lemma bucket_info_id:
  assumes "get_bucket_info A ref h = ((Some info, err), h')" "bucket_from_admin_info A info = Some b"
  shows "starts_with ref (bk_id b)"
proof -
  obtain s where s: "(case dict_get info ''id'' of Some v \<Rightarrow> v | None \<Rightarrow> JStr []) = JStr s" "starts_with ref s"
    using assms(1)
    by (auto simp: get_bucket_info_def apfst_def map_prod_def Let_def split: prod.splits option.splits json.splits if_splits)
  then have "text_or_empty (get_or_null info ''id'') = JStr s"
    by (auto simp: text_or_empty_def get_or_null_def split: option.splits)
  with assms(2) s(2) show ?thesis
    by (auto simp: bucket_from_admin_info_def Option.bind_eq_Some_conv)
qed

lemma read_bucket_genuine:
  assumes "read_bucket E i h = (r, h')"
  shows "grows is_get h h'" and "r = Some (Inr b) \<Longrightarrow> genuine E h' b"
proof -
  obtain info err h1 where read: "get_bucket_info (ge_admin E) i h = ((info, err), h1)" by (metis prod.exhaust)
  with assms have "h' = h1" by (cases info) (auto simp: read_bucket_def)
  with object_reads(1) [OF read] show "grows is_get h h'" by simp
  assume "r = Some (Inr b)"
  with assms read obtain d b0 where d: "info = Some d" "bucket_from_admin_info (ge_admin E) d = Some b0"
    "b = b0\<lparr>bk_read_at := ge_stamp E h1\<rparr>"
    by (cases info) (auto simp: read_bucket_def)
  have "starts_with i (bk_id b0)" using bucket_info_id [OF read [unfolded d(1)] d(2)] .
  then show "genuine E h' b"
    using info_answered(2) [OF read [unfolded d(1)]] d \<open>h' = h1\<close>
    unfolding genuine_def by (intro exI [of _ i] exI [of _ d] exI [of _ b0]) simp
qed

definition cache_ok :: "reader_env \<Rightarrow> http_log \<Rightarrow> (string, bucket) dict \<Rightarrow> bool" where
  "cache_ok E h d \<longleftrightarrow> dict_ok d \<and> (\<forall>(i, b)\<in>set d. i = bk_id b \<and> i \<noteq> [] \<and> genuine E h b)"

definition hooked :: "reader \<Rightarrow> bucket set" where
  "hooked s = (\<Union>t\<in>set (rd_hooks s). set (hk_got t))"

definition reader_ok :: "reader_env \<Rightarrow> reader \<Rightarrow> bool" where
  "reader_ok E s \<longleftrightarrow> pred_option (cache_ok E (rd_log s)) (rd_buckets s) \<and> pred_option (cache_ok E (rd_log s)) (rd_absorbed s)
     \<and> (\<forall>b\<in>hooked s. genuine E (rd_log s) b)"

lemma cache_ok_mono: "cache_ok E h d \<Longrightarrow> grows P h h' \<Longrightarrow> cache_ok E h' d"
  unfolding cache_ok_def using genuine_mono by fast

lemma reader_ok_log: "reader_ok E s \<Longrightarrow> grows P (rd_log s) h \<Longrightarrow> reader_ok E (s\<lparr>rd_log := h\<rparr>)"
  by (cases "rd_buckets s"; cases "rd_absorbed s")
    (simp_all add: reader_ok_def hooked_def cache_ok_mono [where P = P and h = "rd_log s" and h' = h]
      genuine_mono [where P = P and h = "rd_log s" and h' = h])

lemma cache_ok_update: "cache_ok E h d \<Longrightarrow> cache_ok E h e \<Longrightarrow> cache_ok E h (dict_update d e)"
  unfolding cache_ok_def using set_dict_update [of d e] dict_ok_update [of d e] by blast

lemma cache_ok_by_id:
  assumes "cache_ok E h d" "\<forall>b\<in>set bs. genuine E h b"
  shows "cache_ok E h (dict_update d (by_id bs))"
  unfolding cache_ok_def
proof (intro conjI)
  show "dict_ok (dict_update d (by_id bs))" using assms(1) by (simp add: cache_ok_def dict_ok_update)
  show "\<forall>(i, b)\<in>set (dict_update d (by_id bs)). i = bk_id b \<and> i \<noteq> [] \<and> genuine E h b"
    using set_dict_update [of d "by_id bs"] assms unfolding cache_ok_def by_id_def by fastforce
qed

lemma cache_ok_pops: "cache_ok E h d \<Longrightarrow> cache_ok E h (pops ids d)"
  unfolding pops_def
proof (induction ids arbitrary: d)
  case (Cons i ids)
  have "cache_ok E h (dict_pop i d)"
    using Cons.prems set_dict_pop [of i d] unfolding cache_ok_def by (auto simp: dict_ok_pop)
  with Cons.IH show ?case by simp
qed simp

lemma cache_ok_filter: "cache_ok E h d \<Longrightarrow> cache_ok E h (filter P d)"
  unfolding cache_ok_def by (auto simp: distinct_map_filter)

lemma absorb_log [simp]: "rd_log (absorb bs gone s) = rd_log s" "rd_hooks (absorb bs gone s) = rd_hooks s"
  by (cases "rd_buckets s"; simp add: absorb_def Let_def)+

lemma absorb_ok:
  assumes "reader_ok E s" "\<forall>b\<in>set bs. genuine E (rd_log s) b"
  shows "reader_ok E (absorb bs gone s)"
  using assms
  by (cases "rd_buckets s"; cases "rd_absorbed s")
    (simp_all add: reader_ok_def absorb_def hooked_def Let_def cache_ok_pops cache_ok_by_id)

lemma drop_nth_subset: "set (drop_nth n xs) \<subseteq> set xs"
  by (auto simp: drop_nth_def dest: in_set_takeD in_set_dropD)

text \<open>What every operation of the reader does: it keeps the invariant and only reads.\<close>

definition reads :: "reader_env \<Rightarrow> reader \<Rightarrow> reader \<Rightarrow> bool" where
  "reads E s s' \<longleftrightarrow> (reader_ok E s \<longrightarrow> reader_ok E s') \<and> grows is_get (rd_log s) (rd_log s')"

lemma reads_refl [simp]: "reads E s s"
  by (simp add: reads_def)

lemma reads_trans: "reads E s s1 \<Longrightarrow> reads E s1 s2 \<Longrightarrow> reads E s s2"
  unfolding reads_def by (blast intro: grows_trans)

lemma reads_log: "grows is_get (rd_log s) h \<Longrightarrow> reads E s (s\<lparr>rd_log := h\<rparr>)"
  by (simp add: reads_def reader_ok_log)

text \<open>A change of any other field.\<close>

lemma reads_frame:
  "rd_log s' = rd_log s \<Longrightarrow> rd_buckets s' = rd_buckets s \<Longrightarrow> rd_absorbed s' = rd_absorbed s \<Longrightarrow>
    set (rd_hooks s') \<subseteq> set (rd_hooks s) \<Longrightarrow> reads E s s'"
  by (auto simp: reads_def reader_ok_def hooked_def)

lemma hook_step_reads: "reads E s (hook_step E s a)"
proof (cases a)
  case (HookStart ids)
  then show ?thesis by (simp add: reads_def reader_ok_def hooked_def)
next
  case (HookNext n)
  show ?thesis
  proof (cases "length (rd_hooks s) \<le> n")
    case False
    define t where "t = rd_hooks s ! n"
    have t: "t \<in> set (rd_hooks s)" using False by (simp add: t_def)
    let ?s = "s\<lparr>rd_hooks := drop_nth n (rd_hooks s)\<rparr>"
    have frame: "reads E s ?s" by (rule reads_frame) (simp_all add: drop_nth_subset)
    show ?thesis
    proof (cases "hk_left t")
      case Nil
      have "reads E s (absorb (hk_got t) (hk_gone t) ?s)"
        unfolding reads_def
      proof
        show "reader_ok E s \<longrightarrow> reader_ok E (absorb (hk_got t) (hk_gone t) ?s)"
        proof
          assume ok: "reader_ok E s"
          with frame have "reader_ok E ?s" by (simp add: reads_def)
          moreover from ok t have "\<forall>b\<in>set (hk_got t). genuine E (rd_log s) b"
            by (auto simp only: reader_ok_def hooked_def)
          then have "\<forall>b\<in>set (hk_got t). genuine E (rd_log ?s) b" by simp
          ultimately show "reader_ok E (absorb (hk_got t) (hk_gone t) ?s)" by (rule absorb_ok)
        qed
        show "grows is_get (rd_log s) (rd_log (absorb (hk_got t) (hk_gone t) ?s))"
          by simp
      qed
      with Nil False HookNext show ?thesis by (simp add: t_def [symmetric])
    next
      case (Cons i rest)
      obtain r h where read: "read_bucket E i (rd_log s) = (r, h)" by (metis prod.exhaust)
      note gr = read_bucket_genuine [OF read]
      let ?put = "\<lambda>t'. s\<lparr>rd_log := h, rd_hooks := (rd_hooks s)[n := t']\<rparr>"
      have put: "reads E s (?put t')" if t': "set (hk_got t') \<subseteq> set (hk_got t) \<union> {b. genuine E h b}" for t'
      proof -
        have "hooked (?put t') \<subseteq> set (hk_got t') \<union> hooked s"
          using set_update_subset_insert [of "rd_hooks s" n t'] by (auto simp: hooked_def)
        with t' t have sub: "hooked (?put t') \<subseteq> hooked s \<union> {b. genuine E h b}" by (auto simp: hooked_def)
        have "reader_ok E (?put t')" if ok: "reader_ok E (s\<lparr>rd_log := h\<rparr>)"
        proof -
          have "\<forall>b\<in>hooked (?put t'). genuine E h b"
            using sub ok by (auto simp: reader_ok_def hooked_def)
          with ok show ?thesis by (simp add: reader_ok_def)
        qed
        with reads_log [OF gr(1), of E] show ?thesis by (simp add: reads_def)
      qed
      have gone: "reads E s (s\<lparr>rd_log := h, rd_hooks := drop_nth n (rd_hooks s)\<rparr>)"
        by (rule reads_trans [OF reads_log [OF gr(1)]], rule reads_frame) (simp_all add: drop_nth_subset)
      show ?thesis
      proof (cases r)
        case None
        with Cons False HookNext read gone show ?thesis by (simp add: t_def [symmetric] Let_def)
      next
        case (Some x)
        have step: "hook_step E s a = (case x of
            Inr b \<Rightarrow> ?put (t\<lparr>hk_left := rest, hk_got := hk_got t @ [b]\<rparr>)
          | Inl absent \<Rightarrow> ?put (t\<lparr>hk_left := rest, hk_gone := hk_gone t @ (if absent then [i] else [])\<rparr>))"
          using Cons False HookNext read Some by (simp add: t_def [symmetric] Let_def split: sum.split)
        show ?thesis
        proof (cases x)
          case (Inl absent)
          show ?thesis unfolding step Inl sum.case by (rule put) simp
        next
          case (Inr b)
          with gr(2) Some show ?thesis unfolding step Inr sum.case by (intro put) auto
        qed
      qed
    qed
  qed (simp add: HookNext)
qed

lemma give_way_reads: "reads E s (give_way E s)"
proof -
  have "reads E s (foldl (hook_step E) s ms)" for s ms
    by (induction ms arbitrary: s) (auto intro: reads_trans hook_step_reads)
  moreover have "reads E s (s\<lparr>rd_script := rest\<rparr>)" for rest by (rule reads_frame) simp_all
  ultimately show ?thesis
    unfolding give_way_def by (cases "rd_script s") (auto intro: reads_trans)
qed

lemma reads_okD: "reads E s s' \<Longrightarrow> reader_ok E s \<Longrightarrow> reader_ok E s'"
  by (simp add: reads_def)

lemma reads_grows: "reads E s s' \<Longrightarrow> grows is_get (rd_log s) (rd_log s')"
  by (simp add: reads_def)

lemma walk_ids_reads:
  assumes "walk_ids E ids s = (res, s')"
  shows "reads E s s'" and "res = Some (bs, gone) \<Longrightarrow> b \<in> set bs \<Longrightarrow> genuine E (rd_log s') b"
proof -
  have "reads E s s' \<and> (\<forall>bs gone b. res = Some (bs, gone) \<longrightarrow> b \<in> set bs \<longrightarrow> genuine E (rd_log s') b)"
    using assms
  proof (induction E ids s arbitrary: res s' rule: walk_ids.induct)
    case (2 E i ids s)
    define s1 where "s1 = give_way E s"
    obtain r h where read: "read_bucket E i (rd_log s1) = (r, h)" by (metis prod.exhaust)
    note gr = read_bucket_genuine [OF read]
    have head: "reads E s (s1\<lparr>rd_log := h\<rparr>)"
      using give_way_reads [of E s] reads_log [OF gr(1), of E] by (auto simp: s1_def intro: reads_trans)
    show ?case
    proof (cases r)
      case None
      with 2(2) read head show ?thesis by (simp add: s1_def [symmetric] Let_def)
    next
      case (Some x)
      obtain res' s2 where rest: "walk_ids E ids (s1\<lparr>rd_log := h\<rparr>) = (res', s2)" by (metis prod.exhaust)
      note ih = 2(1) [OF s1_def read [symmetric] Some rest]
      have s': "s' = s2" "res = map_option (\<lambda>(bs, gone). case x of
            Inr b \<Rightarrow> (b # bs, gone) | Inl absent \<Rightarrow> (bs, if absent then i # gone else gone)) res'"
        using 2(2) read Some rest by (auto simp: s1_def [symmetric] Let_def apfst_def map_prod_def)
      have "genuine E (rd_log s2) b" if "x = Inr b" for b
        using gr(2) Some that reads_grows [of E "s1\<lparr>rd_log := h\<rparr>" s2] ih by (auto intro: genuine_mono)
      moreover have "genuine E (rd_log s2) b" if "res' = Some (bs, gone)" "b \<in> set bs" for bs gone b
        using ih that by blast
      ultimately have "genuine E (rd_log s2) b" if "res = Some (bs, gone)" "b \<in> set bs" for bs gone b
        using that unfolding s'(2) by (cases res'; cases x) auto
      moreover have "reads E s s2" using head ih by (blast intro: reads_trans)
      ultimately show ?thesis by (simp add: s'(1))
    qed
  qed simp
  then show "reads E s s'" and "res = Some (bs, gone) \<Longrightarrow> b \<in> set bs \<Longrightarrow> genuine E (rd_log s') b" by auto
qed

lemma cache_ok_Nil [simp]: "cache_ok E h []"
  by (simp add: cache_ok_def)

lemma absorb_listing_ok:
  assumes "absorb_listing E ids bs absorbed every s = (read, s')"
    and "reader_ok E s" "\<forall>b\<in>set bs. genuine E (rd_log s) b" "cache_ok E (rd_log s) absorbed"
  shows "reader_ok E s'"
proof -
  obtain cache dropped where m: "merge_listing (case rd_buckets s of None \<Rightarrow> [] | Some c \<Rightarrow> c) ids bs absorbed every = (cache, dropped)"
    by (metis prod.exhaust)
  have "cache_ok E (rd_log s) (case rd_buckets s of None \<Rightarrow> [] | Some c \<Rightarrow> c)"
    using assms(2) by (auto simp: reader_ok_def split: option.splits)
  then have base: "cache_ok E (rd_log s) (if every then [] else case rd_buckets s of None \<Rightarrow> [] | Some c \<Rightarrow> c)" by simp
  have "cache_ok E (rd_log s) (fst (merge_listing (case rd_buckets s of None \<Rightarrow> [] | Some c \<Rightarrow> c) ids bs absorbed every))"
    unfolding merge_listing_def Let_def fst_conv
    by (intro cache_ok_filter cache_ok_update cache_ok_by_id base assms(3,4))
  then have "cache_ok E (rd_log s) cache" by (simp add: m)
  moreover have "rd_log s' = rd_log s" "rd_buckets s' = Some cache" "rd_absorbed s' = rd_absorbed s" "rd_hooks s' = rd_hooks s"
    using assms(1) m by (auto simp: absorb_listing_def Let_def split: if_splits)
  ultimately show ?thesis using assms(2) by (simp add: reader_ok_def hooked_def)
qed

lemma absorb_listing_log: "rd_log (snd (absorb_listing E ids bs absorbed every s)) = rd_log s"
  by (simp add: absorb_listing_def Let_def split: prod.splits)

lemma list_bucket_ids_grows: "list_bucket_ids A h = (x, h') \<Longrightarrow> grows is_get h h'"
  by (auto simp: list_bucket_ids_def split: prod.splits option.splits dest: object_reads(3))

lemma refresh_reads:
  assumes "refresh E every s = (res, s')"
  shows "reads E s s'"
proof -
  define s1 where "s1 = give_way E (s\<lparr>rd_absorbed := Some []\<rparr>)"
  have start: "reads E s s1"
  proof -
    have "reads E s (s\<lparr>rd_absorbed := Some []\<rparr>)" by (simp add: reads_def reader_ok_def hooked_def)
    then show ?thesis unfolding s1_def by (rule reads_trans [OF _ give_way_reads])
  qed
  obtain listed h where listing: "list_bucket_ids (ge_admin E) (rd_log s1) = (listed, h)" by (metis prod.exhaust)
  note listed = reads_trans [OF start reads_log [OF list_bucket_ids_grows [OF listing]]]
  have none: "reads E s (s1\<lparr>rd_log := h, rd_absorbed := None\<rparr>)"
    using listed by (auto simp: reads_def reader_ok_def hooked_def)
  show ?thesis
  proof (cases "\<exists>ids. listed = Some (Some ids)")
    case False
    with assms listing none show ?thesis
      by (cases listed; cases "the listed") (auto simp: refresh_def s1_def [symmetric] Let_def)
  next
    case True
    then obtain ids where ids: "listed = Some (Some ids)" by auto
    define s2 where "s2 = give_way E (s1\<lparr>rd_log := h\<rparr>)"
    define targets where "targets = (if every then ids
        else filter (\<lambda>i. \<not> dict_has (case rd_buckets s2 of None \<Rightarrow> [] | Some c \<Rightarrow> c) i) ids)"
    obtain got s3 where walk: "walk_ids E targets s2 = (got, s3)" by (metis prod.exhaust)
    define s4 where "s4 = give_way E s3"
    have s4: "reads E s s4" "grows is_get (rd_log s3) (rd_log s4)"
      using listed give_way_reads [of E "s1\<lparr>rd_log := h\<rparr>"] walk_ids_reads(1) [OF walk] give_way_reads [of E s3]
      by (auto simp: s2_def [symmetric] s4_def [symmetric] intro: reads_trans reads_grows)
    let ?bs = "case got of None \<Rightarrow> [] | Some (bs, _) \<Rightarrow> bs"
    let ?ab = "case rd_absorbed s4 of None \<Rightarrow> [] | Some a \<Rightarrow> a"
    obtain read s5 where merged: "absorb_listing E ids ?bs ?ab every (s4\<lparr>rd_absorbed := None\<rparr>) = (read, s5)"
      by (metis prod.exhaust)
    have s': "s' = s5"
      using assms unfolding refresh_def Let_def s1_def [symmetric] listing prod.case ids option.case s2_def [symmetric]
        targets_def [symmetric] walk s4_def [symmetric] merged by simp
    have bs: "\<forall>b\<in>set ?bs. genuine E (rd_log s4) b"
      using walk_ids_reads(2) [OF walk] s4(2) by (auto split: option.splits intro: genuine_mono)
    have "reader_ok E s5" if ok: "reader_ok E s4"
    proof (rule absorb_listing_ok [OF merged])
      show "reader_ok E (s4\<lparr>rd_absorbed := None\<rparr>)" using ok by (simp add: reader_ok_def hooked_def)
      show "cache_ok E (rd_log (s4\<lparr>rd_absorbed := None\<rparr>)) ?ab"
        using ok by (auto simp: reader_ok_def split: option.splits)
    qed (use bs in simp)
    moreover have "rd_log s5 = rd_log s4"
      using merged absorb_listing_log [of E ids ?bs ?ab every "s4\<lparr>rd_absorbed := None\<rparr>"] by simp
    ultimately show ?thesis using s4(1) by (simp add: s' reads_def)
  qed
qed

lemma read_buckets_reads:
  assumes "read_buckets E ids s = (res, s')"
  shows "reads E s s'"
proof -
  obtain r s1 where walk: "walk_ids E ids s = (r, s1)" by (metis prod.exhaust)
  note w = walk_ids_reads [OF walk]
  show ?thesis
  proof (cases r)
    case None
    with assms walk w show ?thesis by (simp add: read_buckets_def)
  next
    case (Some p)
    then obtain bs gone where p: "r = Some (bs, gone)" by (cases p) auto
    let ?s = "give_way E s1"
    note gw = give_way_reads [of E s1]
    have bs: "\<forall>b\<in>set bs. genuine E (rd_log ?s) b"
      using w(2) [OF p] reads_grows [OF gw] by (auto intro: genuine_mono)
    have "reads E ?s (absorb bs gone ?s)" using absorb_ok bs by (simp add: reads_def)
    with assms walk p w(1) gw show ?thesis by (auto simp: read_buckets_def intro: reads_trans)
  qed
qed

lemma take_hint_reads: "take_hint E s = Some s' \<Longrightarrow> reads E s s'"
  by (rule reads_frame) (auto simp: take_hint_def split: if_splits option.splits)

lemma collect_topology_grows:
  assumes "collect_topology E h = (x, h')"
  shows "grows is_get h h'"
proof -
  obtain st err h1 where st: "get_cluster_status (ge_admin E) h = ((st, err), h1)" by (metis prod.exhaust)
  obtain n h2 where n: "total_objects (ge_admin E) h1 = (n, h2)" by (metis prod.exhaust)
  obtain ks h3 where ks: "key_inventory (ge_admin E) h2 = (ks, h3)" by (metis prod.exhaust)
  have "grows is_get h h1" "grows is_get h1 h2" "grows is_get h2 h3"
    using object_reads(5) [OF st] n ks
    by (auto simp: total_objects_def key_inventory_def split: prod.splits dest: object_reads)
  moreover have "h' = h1 \<or> h' = h2 \<or> h' = h3"
    using assms st n ks by (auto simp: collect_topology_def split: option.splits list.splits)
  ultimately show ?thesis by (auto intro: grows_trans)
qed

lemma read_topology_reads:
  assumes "read_topology E fresh s = (x, s')"
  shows "reads E s s'"
proof (cases "fresh \<or> due (int TOPOLOGY_EVERY) (map_option int (rd_topology_at s)) (int (rd_ticks s))")
  case True
  obtain t h where read: "collect_topology E (rd_log (give_way E s)) = (t, h)" by (metis prod.exhaust)
  note log = reads_trans [OF give_way_reads reads_log [OF collect_topology_grows [OF read]]]
  have "reads E s (s1\<lparr>rd_topology := a, rd_topology_at := b\<rparr>)" if "reads E s s1" for a b s1
    by (rule reads_trans [OF that]) (rule reads_frame, simp_all)
  from this [OF log] log True assms read show ?thesis
    by (auto simp: read_topology_def Let_def split: option.splits)
next
  case False
  with assms show ?thesis by (simp add: read_topology_def)
qed

lemma reads_sweep_marks:
  "reads E s s1 \<Longrightarrow> reads E s (s1\<lparr>rd_sweep_at := a\<rparr>)"
  "reads E s s1 \<Longrightarrow> reads E s (s1\<lparr>rd_reread_at := b, rd_sweep_at := a\<rparr>)"
  "reads E s s1 \<Longrightarrow> reads E s (s1\<lparr>rd_pending := p\<rparr>)"
  "reads E s s1 \<Longrightarrow> reads E s (s1\<lparr>rd_ticks := n\<rparr>)"
  by (erule reads_trans, rule reads_frame, simp_all)+

lemma changed_this_tick_reads:
  assumes "changed_this_tick E fresh s = (x, s')"
  shows "reads E s s'"
proof (cases "fresh \<or> \<not> ge_hinted E \<or> due REREAD_MS (rd_reread_at s) (ge_clock E (rd_log s))")
  case True
  obtain r s1 where ref: "refresh E True s = (r, s1)" by (metis prod.exhaust)
  from refresh_reads [OF ref] True assms ref show ?thesis
    by (auto simp: changed_this_tick_def intro: reads_sweep_marks split: option.splits)
next
  case False
  obtain r s1 where diff: "(if due SWEEP_MS (rd_sweep_at s) (ge_clock E (rd_log s)) then refresh E False s else (Some None, s)) = (r, s1)"
    by (metis prod.exhaust)
  have r1: "reads E s s1" using diff refresh_reads by (auto split: if_splits)
  show ?thesis
  proof (cases r)
    case None
    with False assms diff r1 show ?thesis by (simp add: changed_this_tick_def)
  next
    case (Some found)
    define s2 where "s2 = give_way E (case found of None \<Rightarrow> s1 | Some _ \<Rightarrow> s1\<lparr>rd_sweep_at := Some (ge_clock E (rd_log s1))\<rparr>)"
    define s3 where "s3 = s2\<lparr>rd_pending := drop MAX_HINTED_READS (rd_pending s2)\<rparr>"
    have "reads E s (case found of None \<Rightarrow> s1 | Some _ \<Rightarrow> s1\<lparr>rd_sweep_at := Some (ge_clock E (rd_log s1))\<rparr>)"
      using r1 by (auto intro: reads_sweep_marks split: option.splits)
    then have r3: "reads E s s3"
      unfolding s3_def s2_def by (intro reads_sweep_marks reads_trans [OF _ give_way_reads])
    obtain got s4 where rb: "read_buckets E (take MAX_HINTED_READS (rd_pending s2)) s3 = (got, s4)" by (metis prod.exhaust)
    have "s' = s4"
      using False assms diff Some rb
      by (cases got) (auto simp: changed_this_tick_def Let_def drain_hints_def s2_def [symmetric] s3_def [symmetric])
    with r3 read_buckets_reads [OF rb] show ?thesis by (auto intro: reads_trans)
  qed
qed

lemma collect_reads:
  assumes "collect E fresh s = (x, s')"
  shows "reads E s s'"
    and "x = Some (Some st) \<Longrightarrow> rd_buckets s' = Some c \<Longrightarrow> gs_buckets st = dict_values c"
    and "x = Some (Some st) \<Longrightarrow> rd_buckets s' \<noteq> None"
proof -
  have "reads E s s' \<and> (\<forall>st. x = Some (Some st) \<longrightarrow> (\<exists>c. rd_buckets s' = Some c \<and> gs_buckets st = dict_values c))"
  proof (cases "configured (ge_admin E) \<and> take_hint E (give_way E s) \<noteq> None")
    case False
    with assms give_way_reads show ?thesis by (auto simp: collect_def split: if_splits option.splits)
  next
    case True
    then obtain s1 where s1: "take_hint E (give_way E s) = Some s1" by auto
    obtain t s2 where t: "read_topology E fresh s1 = (t, s2)" by (metis prod.exhaust)
    obtain ch s3 where ch: "changed_this_tick E fresh s2 = (ch, s3)" by (metis prod.exhaust)
    have r: "reads E s s2" "reads E s s3" "reads E s (give_way E s3)"
      using give_way_reads take_hint_reads [OF s1] read_topology_reads [OF t] changed_this_tick_reads [OF ch]
      by (blast intro: reads_trans)+
    from assms True s1 t ch r show ?thesis
      by (auto simp: collect_def Let_def compose_def intro: reads_sweep_marks split: option.splits)
  qed
  then show "reads E s s'" "x = Some (Some st) \<Longrightarrow> rd_buckets s' = Some c \<Longrightarrow> gs_buckets st = dict_values c"
    "x = Some (Some st) \<Longrightarrow> rd_buckets s' \<noteq> None" by auto
qed

text \<open>The reader as a machine: collects and hooks in any order.\<close>

datatype reader_op = Periodic bool | Hook hook_move

fun reader_step :: "reader_env \<Rightarrow> reader \<Rightarrow> reader_op \<Rightarrow> reader" where
  "reader_step E s (Periodic fresh) = snd (collect E fresh s)"
| "reader_step E s (Hook a) = hook_step E s a"

lemma reader_step_reads: "reads E s (reader_step E s a)"
  using collect_reads(1) [OF prod.collapse [symmetric]] by (cases a) (auto intro: hook_step_reads)

interpretation reader: machine "reader_step E" "\<lambda>s a. True" "reader_ok E" for E
  by unfold_locales (rule reads_okD [OF reader_step_reads])

lemma always_legal [simp]: "legal step (\<lambda>s a. True) s as"
  by (induction as arbitrary: s) auto

lemma new_reader_ok: "reader_ok E (new_reader script)"
  by (simp add: reader_ok_def new_reader_def hooked_def)

section \<open>Properties\<close>

text \<open>
  C26. The reader never makes a bucket up and never writes: after any run of collects and hooks, with any
  interleaving and any server, every exchange was a read, the cache and the absorbed reads hold each id
  once, under the id of its bucket, and every bucket held is, its stamp apart, what a 2xx answer in the
  log says of a reference it begins with.
\<close>

theorem cache_is_genuine:
  "let s = foldl (reader_step E) (new_reader script) ops in
     list_all (\<lambda>(r, reply). hr_method r = ''GET'') (rd_log s)
     \<and> pred_option (cache_ok E (rd_log s)) (rd_buckets s) \<and> pred_option (cache_ok E (rd_log s)) (rd_absorbed s)"
proof -
  let ?s = "foldl (reader_step E) (new_reader script) ops"
  have "reader_ok E ?s" by (rule reader.run_inv [OF new_reader_ok]) simp
  moreover have "grows is_get (rd_log (new_reader script)) (rd_log ?s)"
    by (rule reader.run_rel [where R = "\<lambda>s s'. grows is_get (rd_log s) (rd_log s')" and E = E])
      (auto intro: reads_grows reader_step_reads grows_trans new_reader_ok)
  ultimately show ?thesis
    by (auto simp: Let_def reader_ok_def grows_def new_reader_def is_get_def list_all_iff)
qed

text \<open>Looking up a merged dictionary: the last entry of an id wins.\<close>

lemma dict_get_update_rev:
  "dict_get (dict_update d e) i = (case dict_get (rev e) i of Some v \<Rightarrow> Some v | None \<Rightarrow> dict_get d i)"
  unfolding dict_update_def
proof (induction e arbitrary: d)
  case (Cons p e)
  then show ?case by (cases p) (auto simp: dict_get_set map_add_def split: option.splits)
qed simp

lemma dict_keys_update: "set (dict_keys (dict_update d e)) = set (dict_keys d) \<union> set (dict_keys e)"
  unfolding dict_update_def
proof (induction e arbitrary: d)
  case (Cons p e)
  then show ?case by (cases p) (simp add: dict_keys_set)
qed simp

text \<open>
  What a listing leaves in the cache, id by id: nothing unless the id is listed or was absorbed
  meanwhile; else the absorbed read, or the last read of this listing, or, unless every bucket was to be
  re-read, what was there before; and the ids counted as dropped are those of the old cache that are
  gone.
\<close>

theorem listing_merge:
  assumes "dict_ok absorbed"
  shows "dict_get (fst (merge_listing prior ids bs absorbed every)) i =
      (if i \<notin> set ids \<and> \<not> dict_has absorbed i then None
       else case dict_get absorbed i of Some b \<Rightarrow> Some b
         | None \<Rightarrow> (case dict_get (rev (by_id bs)) i of Some b \<Rightarrow> Some b
             | None \<Rightarrow> if every then None else dict_get prior i))
    \<and> (dict_ok prior \<longrightarrow> snd (merge_listing prior ids bs absorbed every)
        = card {i \<in> set (dict_keys prior). i \<notin> set ids \<and> \<not> dict_has absorbed i})"
proof
  have "dict_get (rev absorbed) i = dict_get absorbed i"
    using assms by (metis distinct_rev map_of_eqI rev_map set_map set_rev map_of_SomeD map_of_is_SomeI not_None_eq map_of_eq_None_iff)
  then show "dict_get (fst (merge_listing prior ids bs absorbed every)) i =
      (if i \<notin> set ids \<and> \<not> dict_has absorbed i then None
       else case dict_get absorbed i of Some b \<Rightarrow> Some b
         | None \<Rightarrow> (case dict_get (rev (by_id bs)) i of Some b \<Rightarrow> Some b
             | None \<Rightarrow> if every then None else dict_get prior i))"
    by (auto simp: merge_listing_def Let_def dict_get_filter_key dict_get_update_rev split: option.splits)
next
  let ?P = "\<lambda>i. i \<notin> set ids \<and> \<not> dict_has absorbed i"
  have "length (filter (\<lambda>(i, b). ?P i) prior) = length (filter ?P (dict_keys prior))"
    by (induction prior) auto
  moreover have "length (filter ?P (dict_keys prior)) = card {i \<in> set (dict_keys prior). ?P i}" if "dict_ok prior"
    using distinct_card [of "filter ?P (dict_keys prior)"] that by (simp add: distinct_filter)
  moreover have "snd (merge_listing prior ids bs absorbed every) = length (filter (\<lambda>(i, b). ?P i) prior)"
    by (simp add: merge_listing_def Let_def case_prod_unfold)
  ultimately show "dict_ok prior \<longrightarrow> snd (merge_listing prior ids bs absorbed every) = card {i \<in> set (dict_keys prior). ?P i}"
    by simp
qed

text \<open>
  A hint file names ids only past every check: ids come from a regular file of our own of at most
  64 KiB, each is 64 lowercase hex digits and none comes twice, and a refused file yields none. So a
  hint can never become a prefix search. It does not say that reading it never raises.
\<close>

theorem hint_names_full_ids:
  assumes "read_hint E h = Some r"
  shows "(hi_refusal r \<noteq> None \<longrightarrow> hi_ids r = [])
    \<and> (hi_refusal r = None \<longrightarrow> (\<exists>f. snd (ge_hint_file E h) = Some f \<and> fn_kind f = Regular \<and> fn_uid f = ge_uid E
        \<and> int (length (fn_bytes f)) \<le> 65536))
    \<and> list_all (\<lambda>i. length i = FULL_BUCKET_ID_LEN \<and> list_all (\<lambda>c. c \<in> set ''0123456789abcdef'') i) (hi_ids r)
    \<and> distinct (hi_ids r)"
proof -
  obtain fails path where hf: "ge_hint_file E h = (fails, path)" by (metis prod.exhaust)
  have keys: "distinct (dict_keys (dict_update [] xs)) \<and> set (dict_keys (dict_update [] xs)) = set (dict_keys xs)"
    for xs :: "(string, unit) dict"
    using dict_ok_update [of "[]" xs] dict_keys_update [of "[]" xs] by simp
  have parsed: "(hi_refusal r \<noteq> None \<longrightarrow> hi_ids r = []) \<and> distinct (hi_ids r) \<and> list_all bucket_id_match (hi_ids r)"
    if "parse_hint E h raw = Some r" for raw
  proof -
    have ids: "set (dict_keys (List.map_filter (\<lambda>i. case i of JStr s \<Rightarrow> Some (s, ()) | _ \<Rightarrow> None) ids)) \<subseteq> Collect bucket_id_match"
      if "list_all (\<lambda>i. case i of JStr s \<Rightarrow> bucket_id_match s | _ \<Rightarrow> False) ids" for ids
      using that by (induction ids) (auto simp: List.map_filter_def split: json.splits)
    from that show ?thesis
      using keys ids
      by (auto simp: parse_hint_def Let_def refuse_hint_def list_all_iff subset_iff
          split: loaded.splits json.splits if_splits option.splits bool.splits)
  qed
  show ?thesis
    using assms hf parsed
    by (auto simp: read_hint_def read_bounded_def refuse_hint_def MAX_HINT_BYTES_def list_all_iff bucket_id_match_def
        FULL_BUCKET_ID_LEN_def split: option.splits if_splits)
qed

text \<open>Hints are touched by a collect alone.\<close>

lemma hook_step_pending [simp]: "rd_pending (hook_step E s a) = rd_pending s"
proof -
  have "rd_pending (absorb bs gone s) = rd_pending s" for bs gone s
    by (cases "rd_buckets s") (simp_all add: absorb_def Let_def)
  then show ?thesis
    by (cases a) (auto simp: Let_def split: list.splits option.splits prod.splits sum.splits)
qed

lemma absorb_frame [simp]: "rd_pending (absorb bs gone s) = rd_pending s" "rd_reread_at (absorb bs gone s) = rd_reread_at s"
  by (cases "rd_buckets s"; simp add: absorb_def Let_def)+

lemma give_way_pending [simp]: "rd_pending (give_way E s) = rd_pending s"
proof -
  have "rd_pending (foldl (hook_step E) s ms) = rd_pending s" for s ms
    by (induction ms arbitrary: s) simp_all
  then show ?thesis by (simp add: give_way_def split: list.splits)
qed

lemma walk_ids_pending: "walk_ids E ids s = (res, s') \<Longrightarrow> rd_pending s' = rd_pending s"
proof (induction E ids s arbitrary: res s' rule: walk_ids.induct)
  case (2 E i ids s)
  obtain r h where read: "read_bucket E i (rd_log (give_way E s)) = (r, h)" by (metis prod.exhaust)
  obtain res2 s2 where rest: "walk_ids E ids (give_way E s\<lparr>rd_log := h\<rparr>) = (res2, s2)" by (metis prod.exhaust)
  from 2(2) read rest 2(1) [OF refl read [symmetric] _ rest] show ?case
    by (cases r) (auto simp: Let_def)
qed simp

lemma get_bucket_info_asks:
  "get_bucket_info A i h = (x, h') \<Longrightarrow> ad_url_problem A = None \<Longrightarrow> \<exists>reply. h' = (bucket_info_request A i, reply) # h"
  by (auto simp: get_bucket_info_def get_json_def request_def bucket_info_request_def apfst_def map_prod_def Let_def
      split: prod.splits option.splits sum.splits)

lemma walk_ids_asks:
  assumes "walk_ids E ids s = (Some res, s')" "ad_url_problem (ge_admin E) = None" "i \<in> set ids"
  shows "\<exists>reply. (bucket_info_request (ge_admin E) i, reply) \<in> set (rd_log s')"
  using assms
proof (induction E ids s arbitrary: res s' rule: walk_ids.induct)
  case (2 E j ids s)
  obtain r h where read: "read_bucket E j (rd_log (give_way E s)) = (r, h)" by (metis prod.exhaust)
  with 2(2) obtain x where x: "r = Some x" by (cases r) (simp_all add: Let_def)
  obtain res2 s2 where rest: "walk_ids E ids (give_way E s\<lparr>rd_log := h\<rparr>) = (res2, s2)" by (metis prod.exhaust)
  with 2(2) read x obtain y where y: "res2 = Some y" "s' = s2"
    by (cases res2) (auto simp: Let_def apfst_def map_prod_def)
  show ?case
  proof (cases "i = j")
    case True
    obtain info h1 where info: "get_bucket_info (ge_admin E) j (rd_log (give_way E s)) = (info, h1)" by (metis prod.exhaust)
    with read have "h = h1" by (cases info; cases "fst info") (auto simp: read_bucket_def)
    with get_bucket_info_asks [OF info 2(3)] obtain reply where
      "(bucket_info_request (ge_admin E) j, reply) \<in> set h" by (metis list.set_intros(1))
    with grows_subset [OF reads_grows [OF walk_ids_reads(1) [OF rest]]] True y show ?thesis by auto
  next
    case False
    with 2(1) [OF refl read [symmetric] x rest [unfolded y]] 2(3,4) y show ?thesis by auto
  qed
qed simp

lemma refresh_pending:
  assumes "refresh E every s = (res, s')"
  shows "rd_pending s' = rd_pending s \<or> (every \<and> rd_pending s' = [])"
    and "every \<Longrightarrow> res = Some (Some ids) \<Longrightarrow> rd_pending s' = []"
proof -
  define s1 where "s1 = give_way E (s\<lparr>rd_absorbed := Some []\<rparr>)"
  have p1: "rd_pending s1 = rd_pending s" by (simp add: s1_def)
  obtain listed h where listing: "list_bucket_ids (ge_admin E) (rd_log s1) = (listed, h)" by (metis prod.exhaust)
  have "(rd_pending s' = rd_pending s \<or> (every \<and> rd_pending s' = [])) \<and>
      (every \<longrightarrow> res = Some (Some ids) \<longrightarrow> rd_pending s' = [])"
  proof (cases "\<exists>ids. listed = Some (Some ids)")
    case False
    with assms listing p1 show ?thesis
      by (cases listed; cases "the listed") (auto simp: refresh_def s1_def [symmetric] Let_def)
  next
    case True
    then obtain ids where ids: "listed = Some (Some ids)" by auto
    define s2 where "s2 = give_way E (s1\<lparr>rd_log := h\<rparr>)"
    define targets where "targets = (if every then ids
        else filter (\<lambda>i. \<not> dict_has (case rd_buckets s2 of None \<Rightarrow> [] | Some c \<Rightarrow> c) i) ids)"
    obtain got s3 where walk: "walk_ids E targets s2 = (got, s3)" by (metis prod.exhaust)
    have p3: "rd_pending (give_way E s3) = rd_pending s"
      using walk_ids_pending [OF walk] p1 by (simp add: s2_def)
    from assms have "s' = snd (absorb_listing E ids (case got of None \<Rightarrow> [] | Some (bs, _) \<Rightarrow> bs)
        (case rd_absorbed (give_way E s3) of None \<Rightarrow> [] | Some a \<Rightarrow> a) every (give_way E s3\<lparr>rd_absorbed := None\<rparr>))"
      unfolding refresh_def Let_def s1_def [symmetric] listing prod.case ids option.case s2_def [symmetric]
        targets_def [symmetric] walk by (auto split: prod.splits)
    with p3 show ?thesis by (simp add: absorb_listing_def Let_def split: prod.splits)
  qed
  then show "rd_pending s' = rd_pending s \<or> (every \<and> rd_pending s' = [])"
    and "every \<Longrightarrow> res = Some (Some ids) \<Longrightarrow> rd_pending s' = []" by auto
qed

lemma read_topology_pending: "read_topology E fresh s = (x, s') \<Longrightarrow> rd_pending s' = rd_pending s"
  by (auto simp: read_topology_def Let_def split: if_splits prod.splits option.splits)

text \<open>
  Hints are served in order: whatever the hooks do meanwhile, a tick that produces a state either has
  re-read every bucket, which settles all hints, or has asked for each of the first 32 pending ids and
  left exactly the others pending; with no new hints, n ids are served within n / 32 ticks, rounded up.
\<close>

theorem hints_are_served:
  assumes "collect E fresh s = (Some (Some st), s')" "take_hint E (give_way E s) = Some s1"
    and "ad_url_problem (ge_admin E) = None"
  shows "rd_pending s' = []
    \<or> (rd_pending s' = drop 32 (rd_pending s1)
        \<and> (\<forall>i\<in>set (take 32 (rd_pending s1)). \<exists>reply. (bucket_info_request (ge_admin E) i, reply) \<in> set (rd_log s')))"
proof -
  obtain t s2 where t: "read_topology E fresh s1 = (t, s2)" by (metis prod.exhaust)
  note p2 = read_topology_pending [OF t]
  obtain x s3 where ch: "changed_this_tick E fresh s2 = (x, s3)" by (metis prod.exhaust)
  have x: "\<exists>ids. x = Some (Some ids)" and s': "rd_pending s' = rd_pending s3" "rd_log s' = rd_log (give_way E s3)"
    using assms(1,2) t ch by (auto simp: collect_def Let_def split: if_splits option.splits)
  have grown: "set (rd_log s3) \<subseteq> set (rd_log s')"
    unfolding s' by (rule grows_subset [OF reads_grows [OF give_way_reads]])
  show ?thesis
  proof (cases "fresh \<or> \<not> ge_hinted E \<or> due REREAD_MS (rd_reread_at s2) (ge_clock E (rd_log s2))")
    case True
    obtain r s4 where ref: "refresh E True s2 = (r, s4)" by (metis prod.exhaust)
    with True ch x have "\<exists>ids. r = Some (Some ids)" "rd_pending s3 = rd_pending s4"
      by (auto simp: changed_this_tick_def split: option.splits)
    with refresh_pending(2) [OF ref] s' show ?thesis by auto
  next
    case False
    obtain r s4 where diff: "(if due SWEEP_MS (rd_sweep_at s2) (ge_clock E (rd_log s2)) then refresh E False s2 else (Some None, s2)) = (r, s4)"
      by (metis prod.exhaust)
    have p4: "rd_pending s4 = rd_pending s2" using diff refresh_pending(1) by (fastforce split: if_splits)
    from False ch x diff obtain found where r: "r = Some found" by (cases r) (auto simp: changed_this_tick_def)
    define s5 where "s5 = give_way E (case found of None \<Rightarrow> s4 | Some _ \<Rightarrow> s4\<lparr>rd_sweep_at := Some (ge_clock E (rd_log s4))\<rparr>)"
    have p5: "rd_pending s5 = rd_pending s1" using p4 p2 by (simp add: s5_def split: option.splits)
    define s6 where "s6 = s5\<lparr>rd_pending := drop MAX_HINTED_READS (rd_pending s5)\<rparr>"
    obtain got s7 where rb: "read_buckets E (take MAX_HINTED_READS (rd_pending s5)) s6 = (got, s7)" by (metis prod.exhaust)
    with False ch x diff r obtain bs where got: "got = Some bs" "s3 = s7"
      by (cases got)
        (auto simp: changed_this_tick_def Let_def drain_hints_def s5_def [symmetric] s6_def [symmetric] simp del: give_way_pending)
    obtain res s8 where walk: "walk_ids E (take MAX_HINTED_READS (rd_pending s5)) s6 = (res, s8)" by (metis prod.exhaust)
    with rb got obtain bs' gone where res: "res = Some (bs', gone)" "s7 = absorb bs' gone (give_way E s8)"
      by (cases res) (auto simp: read_buckets_def)
    have "rd_pending s3 = drop 32 (rd_pending s1)"
      using walk_ids_pending [OF walk] got res p5 by (simp add: s6_def MAX_HINTED_READS_def)
    moreover have "set (rd_log s8) \<subseteq> set (rd_log s')"
      using grows_subset [OF reads_grows [OF give_way_reads [of E s8]]] grown got res by auto
    ultimately show ?thesis
      using walk_ids_asks [OF walk [unfolded res(1)] assms(3)] p5 s' by (fastforce simp: MAX_HINTED_READS_def)
  qed
qed

lemma dict_get_pops: "dict_get (pops ids d) i = (if i \<in> set ids then None else dict_get d i)"
  unfolding pops_def by (induction ids arbitrary: d) (auto simp: dict_get_pop)

text \<open>
  A targeted read wins over whatever the cache held when it is absorbed: an id answered with a 404 is
  out, an id that was read has that read, every other id is as it was. The reads are absorbed together
  after the last exchange, so a read another thread made and absorbed meanwhile, though newer, is
  overwritten by the older one.
\<close>

theorem targeted_reads_win:
  assumes "walk_ids E ids s = (Some (bs, gone), s1)" "rd_buckets (give_way E s1) = Some c"
  shows "map_option (\<lambda>c'. dict_get c' i) (rd_buckets (snd (read_buckets E ids s))) =
    Some (if i \<in> set gone then None
          else case dict_get (rev (by_id bs)) i of Some b \<Rightarrow> Some b | None \<Rightarrow> dict_get c i)"
  using assms by (simp add: read_buckets_def absorb_def Let_def dict_get_pops dict_get_update_rev)

text \<open>A hint file that decodes too deep ends every collect with an exception.\<close>

lemma deep_hint_stops_collect:
  assumes "configured (ge_admin E)" "ge_hinted E"
    and "\<And>h. \<exists>f. ge_hint_file E h = (False, Some f) \<and> fn_kind f = Regular \<and> fn_uid f = ge_uid E
      \<and> int (length (fn_bytes f)) \<le> MAX_HINT_BYTES \<and> ge_loads E (fn_bytes f) = TooDeep"
  shows "fst (collect E fresh s) = None"
proof -
  have "read_hint E h = None" for h
    using assms(3) [of h] by (auto simp: read_hint_def read_bounded_def parse_hint_def)
  with assms(1,2) show ?thesis by (simp add: collect_def take_hint_def)
qed

section \<open>A re-read that raises\<close>

lemma quiet_give_way: "rd_script s = [] \<Longrightarrow> give_way E s = s"
  by (simp add: give_way_def)

lemma quiet_walk: "walk_ids E ids s = (res, s') \<Longrightarrow> rd_script s = [] \<Longrightarrow> \<exists>h. s' = s\<lparr>rd_log := h\<rparr>"
proof (induction E ids s arbitrary: res s' rule: walk_ids.induct)
  case (1 E s)
  then show ?case by (intro exI [of _ "rd_log s"]) simp
next
  case (2 E i ids s)
  obtain r h where read: "read_bucket E i (rd_log s) = (r, h)" by (metis prod.exhaust)
  obtain res2 s2 where rest: "walk_ids E ids (s\<lparr>rd_log := h\<rparr>) = (res2, s2)" by (metis prod.exhaust)
  show ?case
  proof (cases r)
    case None
    with 2(2,3) read show ?thesis by (auto simp: quiet_give_way Let_def)
  next
    case (Some x)
    from 2(1) [OF quiet_give_way [OF 2(3), symmetric] read [symmetric] Some rest] 2(2,3) read rest Some show ?thesis
      by (auto simp: quiet_give_way Let_def apfst_def map_prod_def)
  qed
qed

lemma raising_refresh:
  assumes "refresh E True s = (None, s')" "rd_script s = []" "fst (list_bucket_ids (ge_admin E) (rd_log s)) \<noteq> None"
  shows "rd_buckets s' = Some []" "rd_pending s' = []" "rd_script s' = []" "rd_topology s' = rd_topology s"
    "rd_sweep_at s' = rd_sweep_at s" "rd_reread_at s' = rd_reread_at s"
proof -
  let ?s = "s\<lparr>rd_absorbed := Some []\<rparr>"
  obtain listed h where listing: "list_bucket_ids (ge_admin E) (rd_log s) = (listed, h)" by (metis prod.exhaust)
  with assms obtain ids where ids: "listed = Some (Some ids)"
    by (cases listed; cases "the listed") (auto simp: refresh_def quiet_give_way Let_def)
  obtain got s3 where walk: "walk_ids E ids (?s\<lparr>rd_log := h\<rparr>) = (got, s3)" by (metis prod.exhaust)
  with quiet_walk [OF walk] assms(2) obtain h3 where s3: "s3 = ?s\<lparr>rd_log := h3\<rparr>" by auto
  have got: "got = None"
    using assms listing ids walk s3 by (auto simp: refresh_def quiet_give_way Let_def split: prod.splits)
  with assms listing ids walk s3
  show "rd_buckets s' = Some []" "rd_pending s' = []" "rd_script s' = []" "rd_topology s' = rd_topology s"
    "rd_sweep_at s' = rd_sweep_at s" "rd_reread_at s' = rd_reread_at s"
    by (auto simp: refresh_def quiet_give_way Let_def absorb_listing_def merge_listing_def dict_update_def by_id_def)
qed

lemma quiet_refresh:
  assumes "refresh E True s = (Some (Some read), s')" "rd_script s = []"
  shows "rd_script s' = []" "rd_buckets s' \<noteq> None"
proof -
  let ?s = "s\<lparr>rd_absorbed := Some []\<rparr>"
  obtain listed h where listing: "list_bucket_ids (ge_admin E) (rd_log s) = (listed, h)" by (metis prod.exhaust)
  with assms obtain ids where ids: "listed = Some (Some ids)"
    by (cases listed; cases "the listed") (auto simp: refresh_def quiet_give_way Let_def)
  obtain got s3 where walk: "walk_ids E ids (?s\<lparr>rd_log := h\<rparr>) = (got, s3)" by (metis prod.exhaust)
  with quiet_walk [OF walk] assms(2) obtain h3 where s3: "s3 = ?s\<lparr>rd_log := h3\<rparr>" by auto
  show "rd_script s' = []" "rd_buckets s' \<noteq> None"
    using assms listing ids walk s3
    by (auto simp: refresh_def quiet_give_way Let_def absorb_listing_def split: prod.splits)
qed

lemma quiet_topology:
  assumes "rd_script s = []" "rd_topology s \<noteq> None" "fst (collect_topology E (rd_log s)) \<noteq> None"
  obtains t s' where "read_topology E fresh s = (Some (Some t), s')" "rd_script s' = []" "rd_topology s' \<noteq> None"
    "rd_buckets s' = rd_buckets s" "rd_pending s' = rd_pending s" "rd_sweep_at s' = rd_sweep_at s"
    "rd_reread_at s' = rd_reread_at s"
proof (cases "fresh \<or> due (int TOPOLOGY_EVERY) (map_option int (rd_topology_at s)) (int (rd_ticks s))")
  case True
  obtain x h where read: "collect_topology E (rd_log s) = (x, h)" by (metis prod.exhaust)
  with assms(3) obtain y where y: "x = Some y" by auto
  let ?t = "case y of None \<Rightarrow> the (rd_topology s) | Some t \<Rightarrow> t"
  let ?s = "case y of None \<Rightarrow> s\<lparr>rd_log := h\<rparr>
    | Some t \<Rightarrow> s\<lparr>rd_log := h, rd_topology := Some t, rd_topology_at := Some (rd_ticks s)\<rparr>"
  show ?thesis
    by (rule that [of ?t ?s])
      (use True assms read y in \<open>auto simp: read_topology_def quiet_give_way Let_def split: option.splits\<close>)
next
  case False
  show ?thesis
    by (rule that [of "the (rd_topology s)" s]) (use False assms in \<open>auto simp: read_topology_def\<close>)
qed

text \<open>
  A forced re-read that raises forgets every bucket, and the next tick reports none: with the listing
  answered and an exception while the buckets are read (a malformed body, say), the \<open>finally\<close> of
  \<open>_refresh\<close> merges the listing with no reads; then, no cadence being due and no hook at work, the next
  collect produces a state with an empty bucket list, which \<open>list_bucket_ids\<close> says must never be pushed.
\<close>

theorem raising_reread_reports_no_buckets:
  assumes "configured (ge_admin E)" "ge_hinted E" "rd_script s = []"
    and hint: "\<And>h. \<exists>r. read_hint E h = Some (refuse_hint r)"
    and topology: "rd_topology s \<noteq> None" "\<And>h. fst (collect_topology E h) \<noteq> None"
    and listing: "\<And>h. fst (list_bucket_ids (ge_admin E) h) \<noteq> None"
    and clock: "\<And>h. ge_clock E h = now" "rd_sweep_at s = Some now" "rd_reread_at s = Some now"
    and raised: "collect E True s = (None, s1)"
  shows "\<exists>st s2. collect E False s1 = (Some (Some st), s2) \<and> gs_buckets st = []"
proof -
  have hinted: "\<exists>r. take_hint E u = Some (u\<lparr>rd_last_refusal := r\<rparr>)" for u
    using hint [of "rd_log u"] assms(2) by (auto simp: take_hint_def refuse_hint_def)
  obtain r0 where s0: "take_hint E s = Some (s\<lparr>rd_last_refusal := r0\<rparr>)" using hinted by blast
  let ?s0 = "s\<lparr>rd_last_refusal := r0\<rparr>"
  obtain t u where t: "read_topology E True ?s0 = (Some (Some t), u)" "rd_script u = []" "rd_topology u \<noteq> None"
    "rd_sweep_at u = Some now" "rd_reread_at u = Some now"
    by (rule quiet_topology [of ?s0 E True]) (use assms(3) topology clock in auto)
  obtain res s3 where ref: "refresh E True u = (res, s3)" by (metis prod.exhaust)
  have raises: "res = None \<and> s1 = s3"
    using raised assms(1,3) s0 t ref quiet_refresh [of E u _ s3]
    by (cases res; cases "the res")
      (auto simp: collect_def quiet_give_way changed_this_tick_def Let_def split: option.splits if_splits)
  note q = raising_refresh [OF ref [unfolded conjunct1 [OF raises]] t(2) listing]
  obtain r1 where h1: "take_hint E s3 = Some (s3\<lparr>rd_last_refusal := r1\<rparr>)" using hinted by blast
  let ?s3 = "s3\<lparr>rd_last_refusal := r1\<rparr>"
  obtain t1 u1 where t1: "read_topology E False ?s3 = (Some (Some t1), u1)" "rd_script u1 = []" "rd_topology u1 \<noteq> None"
    "rd_buckets u1 = Some []" "rd_pending u1 = []" "rd_sweep_at u1 = Some now" "rd_reread_at u1 = Some now"
    by (rule quiet_topology [of ?s3 E False]) (use q t topology in auto)
  have "changed_this_tick E False u1 = (Some (Some []), absorb [] [] (u1\<lparr>rd_pending := []\<rparr>))"
    using t1 assms(2) clock(1)
    by (simp add: changed_this_tick_def due_def REREAD_MS_def SWEEP_MS_def drain_hints_def quiet_give_way read_buckets_def)
  moreover have "absorb [] [] v = v\<lparr>rd_absorbed := rd_absorbed (absorb [] [] v)\<rparr>" if "rd_buckets v = Some []" for v
    using that by (simp add: absorb_def pops_def by_id_def dict_update_def)
  ultimately show ?thesis
    using assms(1) q(3) h1 t1 raises
    by (simp add: collect_def quiet_give_way absorb_def pops_def by_id_def dict_update_def compose_def)
qed

section \<open>A small cluster\<close>

text \<open>
  One node and one bucket, whose size is the number of exchanges so far; a read of any other id is a 404.
  The hint file can be read and is no JSON.
\<close>

definition tiny_loads :: "string \<Rightarrow> json option" where
  "tiny_loads t =
     (if t = ''S'' then Some (JObj [(''nodes'', JArr [JObj [(''id'', JStr ''n'')]])])
      else if t = ''L'' then Some (JArr [JObj [(''id'', JStr ''b'')]])
      else Some (JObj [(''id'', JStr ''b''), (''bytes'', JInt (int (length t)))]))"

definition tiny_net :: "http_log \<Rightarrow> http_request \<Rightarrow> http_reply" where
  "tiny_net h r =
     (if hr_path r = ''/v2/GetClusterStatus'' then Inr (200, ''S'')
      else if hr_path r = ''/v2/ListBuckets'' \<or> hr_path r = ''/v2/ListKeys'' then Inr (200, ''L'')
      else if hr_path r = ''/v2/GetBucketInfo'' \<and> hr_query r \<noteq> [(''search'', ''b'')] then Inr (404, [])
      else Inr (200, replicate (Suc (length h)) (CHR ''x'')))"

definition tiny_env :: reader_env where
  "tiny_env = \<lparr>ge_hinted = True,
     ge_hint_file = (\<lambda>h. (False, Some \<lparr>fn_id = (1, 1), fn_kind = Regular, fn_uid = 7, fn_gid = 7, fn_bytes = ''?''\<rparr>)),
     ge_uid = 7, ge_loads = (\<lambda>t. NotJson), ge_is_one = (\<lambda>f. False), ge_fresh = (\<lambda>h v. Some True),
     ge_admin = demo_admin\<lparr>ad_loads := tiny_loads, ad_net := tiny_net\<rparr>,
     ge_clock = (\<lambda>h. 0), ge_stamp = (\<lambda>h. []), ge_gigabytes = Some, ge_percent = (\<lambda>a b. Some a), ge_meter = (\<lambda>h. [])\<rparr>"

definition seen_size :: "reader \<Rightarrow> string \<Rightarrow> int option" where
  "seen_size s i = Option.bind (rd_buckets s) (\<lambda>c. map_option bk_size_bytes (dict_get c i))"

lemma hint_names_full_ids_witness: "\<exists>r. read_hint tiny_env [] = Some r \<and> hi_ids r = [] \<and> hi_refusal r = Some HBadSchema"
proof -
  have read: "read_hint tiny_env [] = Some (refuse_hint HBadSchema)"
    by (simp add: read_hint_def tiny_env_def read_bounded_def MAX_HINT_BYTES_def parse_hint_def)
  from hint_names_full_ids [OF read] read show ?thesis by (simp add: refuse_hint_def)
qed

lemma listing_merge_witness:
  "\<exists>b. dict_get (fst (merge_listing [(''a'', b), (''c'', b)] [''c''] [] [(''d'', b)] False)) ''c'' = Some b
     \<and> snd (merge_listing [(''a'', b), (''c'', b)] [''c''] [] [(''d'', b)] False) = 1"
proof -
  fix b :: bucket
  have ok: "dict_ok [(''d'', b)]" "dict_ok [(''a'', b), (''c'', b)]" by simp_all
  have "{i \<in> set (dict_keys [(''a'', b), (''c'', b)]). i \<notin> set [''c''] \<and> \<not> dict_has [(''d'', b)] i} = {''a''}"
    by (auto simp: dict_has_def)
  with listing_merge [OF ok(1), of "[(''a'', b), (''c'', b)]" "[''c'']" "[]" False "''c''"] ok(2)
  show ?thesis by (auto simp: by_id_def intro!: exI [of _ b])
qed

text \<open>A hook reads the bucket after a collect did, and absorbs its read first; the older one stays.\<close>

definition raced :: reader where
  "raced = (new_reader [[], [HookStart [''b''], HookNext 0, HookNext 0], []])\<lparr>rd_buckets := Some []\<rparr>"

lemma targeted_reads_win_witness:
  "\<exists>s1. snd (walk_ids tiny_env [''b'', ''c''] raced) = s1 \<and> seen_size s1 ''b'' = Some 2
     \<and> seen_size (snd (read_buckets tiny_env [''b'', ''c''] raced)) ''b'' = Some 1"
proof -
  obtain bs gone s1 where walk: "walk_ids tiny_env [''b'', ''c''] raced = (Some (bs, gone), s1)"
    and facts: "map bk_id bs = [''b'']" "map bk_size_bytes bs = [1]" "gone = [''c'']" "seen_size s1 ''b'' = Some 2"
      "seen_size (give_way tiny_env s1) ''b'' = Some 2"
  proof -
    have "map_option (\<lambda>(bs, gone). (map bk_id bs, map bk_size_bytes bs, gone)) (fst (walk_ids tiny_env [''b'', ''c''] raced))
          = Some ([''b''], [1], [''c''])"
      "seen_size (snd (walk_ids tiny_env [''b'', ''c''] raced)) ''b'' = Some 2"
      "seen_size (give_way tiny_env (snd (walk_ids tiny_env [''b'', ''c''] raced))) ''b'' = Some 2"
      by code_simp+
    then show ?thesis using that by (cases "walk_ids tiny_env [''b'', ''c''] raced") auto
  qed
  obtain c where c: "rd_buckets (give_way tiny_env s1) = Some c"
    using facts(5) by (auto simp: seen_size_def Option.bind_eq_Some_conv)
  obtain b where "bs = [b]" "bk_id b = ''b''" "bk_size_bytes b = 1" using facts(1,2) by (cases bs) auto
  with targeted_reads_win [OF walk c, of "''b''"] facts(3,4) walk show ?thesis
    by (auto simp: by_id_def seen_size_def)
qed

text \<open>The cluster, but a bucket's size is a text no \<open>int()\<close> reads.\<close>

definition broken_env :: reader_env where
  "broken_env = tiny_env\<lparr>ge_admin := (ge_admin tiny_env)\<lparr>ad_loads := (\<lambda>t.
     if t \<in> {''S'', ''L''} then tiny_loads t else Some (JObj [(''id'', JStr ''b''), (''bytes'', JStr ''?'')]))\<rparr>\<rparr>"

definition settled_reader :: reader where
  "settled_reader = (new_reader [])\<lparr>rd_topology := Some \<lparr>to_object_count = 0, to_keys = [], to_peers = []\<rparr>,
     rd_buckets := Some [(''b'', \<lparr>bk_id = ''b'', bk_alias = JNull, bk_size_bytes = 5, bk_object_count = 1, bk_keys = [],
       bk_website_access = False, bk_website_index = JNull, bk_website_error = JNull, bk_quota_size = JNull,
       bk_quota_objects = JNull, bk_unfinished_bytes = 0, bk_unfinished_uploads = 0, bk_read_at = []\<rparr>)],
     rd_sweep_at := Some 0, rd_reread_at := Some 0\<rparr>"

lemmas exchange_defs = get_json_def request_def decoded_def object_of_def object_list_def a_request_def success_status_def
  apfst_def map_prod_def get_or_null_def

lemma broken_replies:
  "fst (list_bucket_ids (ge_admin broken_env) h) \<noteq> None"
  "fst (collect_topology broken_env h) \<noteq> None"
  by (simp_all add: list_bucket_ids_def list_buckets_def collect_topology_def get_cluster_status_def total_objects_def
      get_cluster_statistics_def key_inventory_def list_keys_def peer_from_node_def count_field_def items_of_def dict_of_def
      zero_or_def text_or_empty_def exchange_defs broken_env_def tiny_env_def tiny_net_def tiny_loads_def demo_admin_def
      List.map_filter_def split: list.split)

lemma raising_reread_reports_no_buckets_witness:
  "map_option (map_option (map bk_id \<circ> gs_buckets)) (fst (collect broken_env False (snd (collect broken_env True settled_reader))))
     = Some (Some [])
   \<and> seen_size settled_reader ''b'' = Some 5"
proof
  obtain s1 where raised: "collect broken_env True settled_reader = (None, s1)"
  proof -
    have "fst (collect broken_env True settled_reader) = None" by code_simp
    then show ?thesis using that by (metis prod.collapse)
  qed
  have "\<exists>st s2. collect broken_env False s1 = (Some (Some st), s2) \<and> gs_buckets st = []"
  proof (rule raising_reread_reports_no_buckets [OF _ _ _ _ _ broken_replies(2) broken_replies(1) _ _ _ raised])
    show "configured (ge_admin broken_env)"
      by (simp add: configured_def broken_env_def tiny_env_def demo_admin_def)
    show "\<exists>r. read_hint broken_env h = Some (refuse_hint r)" for h
      by (auto simp: read_hint_def broken_env_def tiny_env_def read_bounded_def MAX_HINT_BYTES_def parse_hint_def)
    show "ge_clock broken_env h = 0" for h by (simp add: broken_env_def tiny_env_def)
  qed (simp_all add: broken_env_def tiny_env_def settled_reader_def new_reader_def)
  with raised show "map_option (map_option (map bk_id \<circ> gs_buckets))
      (fst (collect broken_env False (snd (collect broken_env True settled_reader)))) = Some (Some [])" by auto
  show "seen_size settled_reader ''b'' = Some 5"
    by (simp add: seen_size_def settled_reader_def new_reader_def)
qed

lemma hints_are_served_witness:
  "rd_pending (snd (collect tiny_env False (settled_reader\<lparr>rd_pending := [''b'', ''c'']\<rparr>))) = []"
proof -
  let ?s = "settled_reader\<lparr>rd_pending := [''b'', ''c'']\<rparr>"
  obtain st s' where run: "collect tiny_env False ?s = (Some (Some st), s')"
  proof -
    have "(case fst (collect tiny_env False ?s) of Some (Some st) \<Rightarrow> True | _ \<Rightarrow> False)" by code_simp
    then show ?thesis using that by (cases "collect tiny_env False ?s") (auto split: option.splits)
  qed
  have hint: "take_hint tiny_env (give_way tiny_env ?s) = Some (?s\<lparr>rd_last_refusal := Some HBadSchema\<rparr>)"
    by (simp add: give_way_def settled_reader_def new_reader_def take_hint_def read_hint_def tiny_env_def read_bounded_def
        MAX_HINT_BYTES_def parse_hint_def refuse_hint_def)
  have "ad_url_problem (ge_admin tiny_env) = None" by (simp add: tiny_env_def demo_admin_def)
  from hints_are_served [OF run hint this] run show ?thesis by auto
qed

end
