(* ===== verification/Effects.thy ===== *)
theory Effects
  imports Prelude
begin

text \<open>
  Code that touches the host one system call at a time: a call works, raises, or is the last thing the
  process does. An effect maps the state to what came of it and the state it leaves.
\<close>

datatype fate = Works | Fails | Dies

datatype 'a outcome = Value 'a | Raised string | Died

type_synonym ('s, 'a) effect = "'s \<Rightarrow> 'a outcome \<times> 's"

definition then_do :: "('s, 'a) effect \<Rightarrow> ('a \<Rightarrow> ('s, 'b) effect) \<Rightarrow> ('s, 'b) effect" where
  "then_do m f s =
     (case m s of (Value x, s1) \<Rightarrow> f x s1 | (Raised e, s1) \<Rightarrow> (Raised e, s1) | (Died, s1) \<Rightarrow> (Died, s1))"

definition give :: "'a \<Rightarrow> ('s, 'a) effect" where
  "give x s = (Value x, s)"

definition fail_with :: "string \<Rightarrow> ('s, 'a) effect" where
  "fail_with e s = (Raised e, s)"

lemma then_do_Value:
  "then_do m f s = (Value y, s') \<Longrightarrow> (\<And>x s1. m s = (Value x, s1) \<Longrightarrow> f x s1 = (Value y, s') \<Longrightarrow> thesis) \<Longrightarrow> thesis"
  by (auto simp: then_do_def split: prod.splits outcome.splits)

lemma then_do_step:
  "m s = (r, s1) \<Longrightarrow>
    then_do m f s = (case r of Value x \<Rightarrow> f x s1 | Raised e \<Rightarrow> (Raised e, s1) | Died \<Rightarrow> (Died, s1))"
  by (simp add: then_do_def split: outcome.split)

text \<open>A relation between the states of every step, reflexive and transitive, holds across a sequence.\<close>

lemma then_do_rel:
  assumes "\<And>s. R s (snd (m s))" "\<And>x s. R s (snd (f x s))" "\<And>s t u. R s t \<Longrightarrow> R t u \<Longrightarrow> R s u"
  shows "R s (snd (then_do m f s))"
proof -
  obtain r s1 where m: "m s = (r, s1)" by (metis prod.exhaust)
  with assms(1) [of s] have "R s s1" by simp
  with m assms(2,3) show ?thesis by (cases r) (auto simp: then_do_def)
qed

end
