(* ===== verification/Wizard.thy ===== *)
theory Wizard
  imports Json Effects
begin

text \<open>
  The wizard's mutation engine: \<open>wizard/engine.py\<close>, \<open>wizard/mutations.py\<close>, \<open>wizard/journal.py\<close>,
  \<open>wizard/toml_edit.py\<close> and the plan of \<open>sdk/plan.py\<close>. Every system call has a fate: it works, it
  raises, or the process dies there. A file is its bytes and mode; services and capability providers act
  on the rest of the host, an arbitrary type. The lock, the temporary file beside a target and the JSON
  form of the journal are left out.
\<close>

section \<open>The host\<close>

type_synonym file_path = string

record host_file =
  hf_bytes :: string
  hf_mode :: nat

record journal_entry =
  je_index :: nat
  je_kind :: string
  je_target :: string
  je_path :: "file_path option"
  je_pre :: "string option"
  je_mode :: nat

record receipt_line =
  rl_kind :: string
  rl_target :: string
  rl_digest :: "string option"
  rl_verified :: bool
  rl_compensated :: "bool option"

record receipt =
  rc_status :: string
  rc_applied :: "receipt_line list"
  rc_failure :: "string option"

text \<open>\<open>ho_journal\<close> is \<open>active.json\<close>, \<open>None\<close> when absent; \<open>ho_calls\<close> counts the system calls.\<close>

record 'w host =
  ho_files :: "file_path \<rightharpoonup> host_file"
  ho_journal :: "journal_entry list option"
  ho_receipts :: "receipt list"
  ho_world :: 'w
  ho_calls :: nat

type_synonym ('w, 'a) act = "('w host, 'a) effect"

section \<open>Plans\<close>

datatype mutation =
    ClaimTomlSection string "(string, json) dict"
  | InstallFile string string nat
  | InstallBinary string string nat
  | CreateSystemdUserUnit string string
  | CaddyDropIn string string
  | RestartOrReload string string
  | VerifyProbe string

fun mutation_kind :: "mutation \<Rightarrow> string" where
  "mutation_kind (ClaimTomlSection s c) = ''claim_toml_section''"
| "mutation_kind (InstallFile r d m) = ''install_file''"
| "mutation_kind (InstallBinary r d m) = ''install_binary''"
| "mutation_kind (CreateSystemdUserUnit u c) = ''create_systemd_user_unit''"
| "mutation_kind (CaddyDropIn n c) = ''caddy_drop_in''"
| "mutation_kind (RestartOrReload u a) = ''restart_or_reload''"
| "mutation_kind (VerifyProbe c) = ''verify_probe''"

fun mutation_target :: "mutation \<Rightarrow> string" where
  "mutation_target (ClaimTomlSection s c) = s"
| "mutation_target (InstallFile r d m) = r"
| "mutation_target (InstallBinary r d m) = r"
| "mutation_target (CreateSystemdUserUnit u c) = u"
| "mutation_target (CaddyDropIn n c) = n"
| "mutation_target (RestartOrReload u a) = u"
| "mutation_target (VerifyProbe c) = c"

definition BEST_EFFORT :: "string list" where
  "BEST_EFFORT = [''create_systemd_user_unit'', ''caddy_drop_in'', ''restart_or_reload'']"

record preview_step =
  pv_kind :: string
  pv_target :: string
  pv_best_effort :: bool

definition describe :: "mutation \<Rightarrow> preview_step" where
  "describe m = \<lparr>pv_kind = mutation_kind m, pv_target = mutation_target m, pv_best_effort = mutation_kind m \<in> set BEST_EFFORT\<rparr>"

record init_plan =
  ip_sdk_api :: nat
  ip_mutations :: "mutation list"

definition preview_plan :: "init_plan \<Rightarrow> preview_step list" where
  "preview_plan p = map describe (ip_mutations p)"

text \<open>A registered capability provider, on the rest of the host; \<open>None\<close> is an exception.\<close>

record 'w provider =
  pr_capture :: "mutation \<Rightarrow> 'w \<Rightarrow> string option option"
  pr_forward :: "mutation \<Rightarrow> 'w \<Rightarrow> bool \<times> 'w"
  pr_verify :: "mutation \<Rightarrow> 'w \<Rightarrow> bool option"
  pr_compensate :: "mutation \<Rightarrow> string option \<Rightarrow> 'w \<Rightarrow> bool \<times> 'w"

text \<open>
  \<open>ApplyEnv\<close>, with what is not the engine's: UTF-8, \<open>tomllib.loads\<close>, SHA-256, resolving links, the
  umask, and the fate of each system call. A service action tells whether it raised; a check or a probe that
  raises is \<open>None\<close>.
\<close>

record 'w apply_env =
  ae_config_path :: file_path
  ae_base_dir :: file_path
  ae_systemd_dir :: file_path
  ae_content :: "string \<rightharpoonup> string"
  ae_caddy :: "'w provider option"
  ae_restart :: "(string \<Rightarrow> string \<Rightarrow> 'w \<Rightarrow> bool \<times> 'w) option"
  ae_health :: "(string \<Rightarrow> 'w \<Rightarrow> bool option) option"
  ae_probe :: "(string \<Rightarrow> 'w \<Rightarrow> bool option) option"
  ae_daemon_reload :: "('w \<Rightarrow> bool \<times> 'w) option"
  ae_post_check :: "('w \<Rightarrow> string list option) option"
  ae_decode :: "string \<Rightarrow> string option"
  ae_encode :: "string \<Rightarrow> string option"
  ae_toml :: "string \<Rightarrow> (string, json) dict option"
  ae_same :: "json \<Rightarrow> json \<Rightarrow> bool"
  ae_sha256 :: "string \<Rightarrow> string"
  ae_resolve :: "file_path \<Rightarrow> file_path"
  ae_umask :: "nat \<Rightarrow> nat"
  ae_fate :: "nat \<Rightarrow> fate"

definition SDK_API :: nat where "SDK_API = 3"

definition syscall :: "'w apply_env \<Rightarrow> ('w host \<Rightarrow> 'w host) \<Rightarrow> ('w, unit) act" where
  "syscall E f s =
     (let s1 = s\<lparr>ho_calls := Suc (ho_calls s)\<rparr> in
      case ae_fate E (ho_calls s) of Works \<Rightarrow> (Value (), f s1) | Fails \<Rightarrow> (Raised ''OSError'', s1) | Dies \<Rightarrow> (Died, s1))"

section \<open>Files\<close>

definition put_file :: "file_path \<Rightarrow> string \<Rightarrow> nat \<Rightarrow> 'w host \<Rightarrow> 'w host" where
  "put_file p data mode s = s\<lparr>ho_files := (ho_files s)(p \<mapsto> \<lparr>hf_bytes = data, hf_mode = mode\<rparr>)\<rparr>"

text \<open>The temporary file written, renamed over the target, its mode set, the directory synced.\<close>

definition atomic_write_bytes :: "'w apply_env \<Rightarrow> file_path \<Rightarrow> string \<Rightarrow> nat \<Rightarrow> ('w, unit) act" where
  "atomic_write_bytes E p data mode =
     then_do (syscall E (\<lambda>s. s)) (\<lambda>_.
     then_do (syscall E (put_file p data (ae_umask E mode))) (\<lambda>_.
     then_do (syscall E (put_file p data mode)) (\<lambda>_.
     syscall E (\<lambda>s. s))))"

definition read_bytes_or_none :: "'w apply_env \<Rightarrow> file_path \<Rightarrow> ('w, string option) act" where
  "read_bytes_or_none E p =
     then_do (syscall E (\<lambda>s. s)) (\<lambda>_ s. (Value (map_option hf_bytes (ho_files s p)), s))"

definition restore_or_remove :: "'w apply_env \<Rightarrow> file_path \<Rightarrow> string option \<Rightarrow> nat \<Rightarrow> ('w, unit) act" where
  "restore_or_remove E p pre mode =
     (case pre of
        None \<Rightarrow> syscall E (\<lambda>s. s\<lparr>ho_files := (ho_files s)(p := None)\<rparr>)
      | Some data \<Rightarrow> atomic_write_bytes E p data mode)"

definition MODE_644 :: nat where "MODE_644 = 420"

section \<open>TOML sections\<close>

fun render_scalar :: "json \<Rightarrow> string option" where
  "render_scalar (JBool b) = Some (if b then ''true'' else ''false'')"
| "render_scalar (JInt i) = Some (int_str i)"
| "render_scalar (JFloat f) = Some f"
| "render_scalar (JStr s) = Some ([CHR 0x22]
     @ concat (map (\<lambda>c. if c = CHR 0x5C \<or> c = CHR 0x22 then [CHR 0x5C, c] else [c]) s) @ [CHR 0x22])"
| "render_scalar v = None"

fun render_all :: "json list \<Rightarrow> string list option" where
  "render_all [] = Some []"
| "render_all (v # vs) = (case (render_scalar v, render_all vs) of (Some s, Some ss) \<Rightarrow> Some (s # ss) | _ \<Rightarrow> None)"

fun render_value :: "json \<Rightarrow> string option" where
  "render_value (JArr vs) = map_option (\<lambda>ss. ''['' @ join '', '' ss @ '']'') (render_all vs)"
| "render_value v = render_scalar v"

fun render_lines :: "(string, json) dict \<Rightarrow> string list option" where
  "render_lines [] = Some []"
| "render_lines ((k, v) # kvs) =
     (case (render_value v, render_lines kvs) of (Some s, Some ls) \<Rightarrow> Some ((k @ '' = '' @ s) # ls) | _ \<Rightarrow> None)"

definition newline :: char where "newline = CHR 0x0A"

definition render_section :: "string \<Rightarrow> (string, json) dict \<Rightarrow> string option" where
  "render_section name content =
     map_option (\<lambda>ls. join [newline] (([newline] @ ''['' @ name @ '']'') # ls) @ [newline]) (render_lines content)"

definition pop_blank :: "string list \<Rightarrow> string list" where
  "pop_blank acc = (if acc \<noteq> [] \<and> strip (last acc) = [] then butlast acc else acc)"

fun drop_section :: "string \<Rightarrow> bool \<Rightarrow> string list \<Rightarrow> string list \<Rightarrow> string list" where
  "drop_section header inside acc [] = acc"
| "drop_section header inside acc (l # ls) =
     (if strip l = header then drop_section header True (pop_blank acc) ls
      else if inside then
        (if starts_with ''['' (strip l) then drop_section header False (acc @ [l]) ls
         else drop_section header True acc ls)
      else drop_section header False (acc @ [l]) ls)"

definition remove_section :: "string list \<Rightarrow> string \<Rightarrow> string list" where
  "remove_section lines name = drop_section (''['' @ name @ '']'') False [] lines"

definition claim_section :: "'w apply_env \<Rightarrow> file_path \<Rightarrow> string \<Rightarrow> (string, json) dict \<Rightarrow> ('w, unit) act" where
  "claim_section E p name content =
     then_do (read_bytes_or_none E p) (\<lambda>bytes.
       case ae_decode E (case bytes of None \<Rightarrow> [] | Some b \<Rightarrow> b) of
         None \<Rightarrow> fail_with ''UnicodeDecodeError''
       | Some text \<Rightarrow>
           (case render_section name content of
              None \<Rightarrow> fail_with ''unsupported TOML scalar type''
            | Some new \<Rightarrow>
                (case ae_encode E (concat (remove_section (split_lines text) name) @ new) of
                   None \<Rightarrow> fail_with ''UnicodeEncodeError''
                 | Some data \<Rightarrow> atomic_write_bytes E p data MODE_644)))"

definition section_equals :: "'w apply_env \<Rightarrow> file_path \<Rightarrow> string \<Rightarrow> (string, json) dict \<Rightarrow> ('w, bool) act" where
  "section_equals E p name content s =
     (case read_bytes_or_none E p s of
        (Died, s1) \<Rightarrow> (Died, s1)
      | (Raised e, s1) \<Rightarrow> (Value False, s1)
      | (Value None, s1) \<Rightarrow> (Value False, s1)
      | (Value (Some bytes), s1) \<Rightarrow>
          (case ae_decode E bytes of
             None \<Rightarrow> (Raised ''UnicodeDecodeError'', s1)
           | Some text \<Rightarrow>
               (case ae_toml E text of
                  None \<Rightarrow> (Value False, s1)
                | Some parsed \<Rightarrow>
                    (Value (case dict_get parsed name of None \<Rightarrow> False | Some v \<Rightarrow> ae_same E v (JObj content)), s1))))"

section \<open>Steps\<close>

text \<open>A built step: its mutation stands for the three closures.\<close>

record step =
  st_mutation :: mutation
  st_atomic :: bool
  st_pre :: "string option"
  st_digest :: "string option"
  st_path :: "file_path option"
  st_mode :: nat

text \<open>\<open>Path.parts\<close> drops empty parts and single dots.\<close>

definition resolve_under :: "'w apply_env \<Rightarrow> string \<Rightarrow> file_path option" where
  "resolve_under E rel =
     (if rel = [] \<or> starts_with ''/'' rel \<or> CHR 0x5C \<in> set rel \<or> CHR 0x00 \<in> set rel then None
      else if ''..'' \<in> set (split_on (CHR ''/'') rel) then None
      else let p = ae_resolve E (ae_base_dir E @ ''/'' @ rel); base = ae_resolve E (ae_base_dir E) in
        if p = base \<or> starts_with (base @ ''/'') p then Some p else None)"

text \<open>\<open>^[a-z0-9@._-]+\.service$\<close>, where the end also matches before a last newline.\<close>

definition unit_char :: "char \<Rightarrow> bool" where
  "unit_char c \<longleftrightarrow> c \<in> set ''abcdefghijklmnopqrstuvwxyz0123456789@._-''"

definition unit_match :: "string \<Rightarrow> bool" where
  "unit_match u =
     (let body = (if u \<noteq> [] \<and> last u = newline then butlast u else u); n = length body - length ''.service''
      in length ''.service'' < length body \<and> drop n body = ''.service'' \<and> list_all unit_char (take n body))"

definition sha_of :: "'w apply_env \<Rightarrow> string \<Rightarrow> string" where
  "sha_of E data = ''sha256:'' @ ae_sha256 E data"

definition file_step :: "'w apply_env \<Rightarrow> mutation \<Rightarrow> bool \<Rightarrow> file_path \<Rightarrow> nat \<Rightarrow> ('w, step) act" where
  "file_step E m atomic p mode =
     then_do (read_bytes_or_none E p) (\<lambda>pre.
       give \<lparr>st_mutation = m, st_atomic = atomic, st_pre = pre, st_digest = map_option (sha_of E) pre,
             st_path = Some p, st_mode = mode\<rparr>)"

definition build_install :: "'w apply_env \<Rightarrow> mutation \<Rightarrow> string \<Rightarrow> string \<Rightarrow> nat \<Rightarrow> ('w, string + step) act" where
  "build_install E m rel digest mode =
     (case resolve_under E rel of
        None \<Rightarrow> give (Inl ''illegal install target'')
      | Some p \<Rightarrow>
          (case ae_content E digest of
             None \<Rightarrow> give (Inl ''no content for digest'')
           | Some data \<Rightarrow>
               if sha_of E data \<noteq> digest then give (Inl ''content does not match digest'')
               else then_do (file_step E m True p mode) (\<lambda>st. give (Inr st))))"

definition plain_step :: "mutation \<Rightarrow> bool \<Rightarrow> step" where
  "plain_step m atomic = \<lparr>st_mutation = m, st_atomic = atomic, st_pre = None, st_digest = None, st_path = None, st_mode = 0\<rparr>"

text \<open>\<open>Inl\<close> is the \<open>WizardError\<close> of an invalid mutation, which alone rolls back; nothing is written.\<close>

fun build_step :: "'w apply_env \<Rightarrow> mutation \<Rightarrow> ('w, string + step) act" where
  "build_step E (ClaimTomlSection name content) =
     then_do (file_step E (ClaimTomlSection name content) True (ae_config_path E) MODE_644) (\<lambda>st. give (Inr st))"
| "build_step E (InstallFile rel digest mode) = build_install E (InstallFile rel digest mode) rel digest mode"
| "build_step E (InstallBinary rel digest mode) = build_install E (InstallBinary rel digest mode) rel digest mode"
| "build_step E (CreateSystemdUserUnit u content) =
     (if \<not> unit_match u then give (Inl ''illegal unit name'')
      else then_do (file_step E (CreateSystemdUserUnit u content) False (ae_systemd_dir E @ ''/'' @ u) MODE_644)
        (\<lambda>st. if ae_encode E content = None then fail_with ''UnicodeEncodeError'' else give (Inr st)))"
| "build_step E (CaddyDropIn n content) =
     (case ae_caddy E of
        None \<Rightarrow> give (Inl ''no provider registered'')
      | Some p \<Rightarrow>
          (\<lambda>s. case pr_capture p (CaddyDropIn n content) (ho_world s) of
             None \<Rightarrow> (Raised ''check'', s)
           | Some pre \<Rightarrow> (Value (Inr ((plain_step (CaddyDropIn n content) False)
                 \<lparr>st_pre := pre, st_digest := map_option (sha_of E) pre\<rparr>)), s)))"
| "build_step E (RestartOrReload u action) =
     (if action \<notin> {''restart'', ''reload''} then give (Inl ''illegal restart action'')
      else give (Inr (plain_step (RestartOrReload u action) False)))"
| "build_step E (VerifyProbe c) = give (Inr (plain_step (VerifyProbe c) True))"

text \<open>A service action: one call that may raise, or at which the process may die.\<close>

definition service :: "'w apply_env \<Rightarrow> ('w \<Rightarrow> bool \<times> 'w) \<Rightarrow> ('w, unit) act" where
  "service E f =
     then_do (syscall E (\<lambda>s. s)) (\<lambda>_ s.
       (case f (ho_world s) of (ok, w) \<Rightarrow> (if ok then Value () else Raised ''service'', s\<lparr>ho_world := w\<rparr>)))"

definition optional :: "('a \<Rightarrow> ('w, unit) act) \<Rightarrow> 'a option \<Rightarrow> ('w, unit) act" where
  "optional f x = (case x of None \<Rightarrow> give () | Some y \<Rightarrow> f y)"

fun the_path :: "step \<Rightarrow> file_path" where
  "the_path st = (case st_path st of None \<Rightarrow> [] | Some p \<Rightarrow> p)"

text \<open>Creating parent directories is a call that touches no file.\<close>

definition install_forward :: "'w apply_env \<Rightarrow> step \<Rightarrow> string \<Rightarrow> nat \<Rightarrow> ('w, unit) act" where
  "install_forward E st digest mode =
     then_do (syscall E (\<lambda>s. s)) (\<lambda>_. case ae_content E digest of
        None \<Rightarrow> fail_with ''no content'' | Some data \<Rightarrow> atomic_write_bytes E (the_path st) data mode)"

definition forward :: "'w apply_env \<Rightarrow> step \<Rightarrow> ('w, unit) act" where
  "forward E st =
     (case st_mutation st of
        ClaimTomlSection name content \<Rightarrow> claim_section E (the_path st) name content
      | InstallFile rel digest mode \<Rightarrow> install_forward E st digest mode
      | InstallBinary rel digest mode \<Rightarrow> install_forward E st digest mode
      | CreateSystemdUserUnit u content \<Rightarrow>
          then_do (syscall E (\<lambda>s. s)) (\<lambda>_.
          then_do (case ae_encode E content of None \<Rightarrow> fail_with ''UnicodeEncodeError''
                   | Some body \<Rightarrow> atomic_write_bytes E (the_path st) body MODE_644)
            (\<lambda>_. optional (service E) (ae_daemon_reload E)))
      | CaddyDropIn n content \<Rightarrow> optional (\<lambda>p. service E (pr_forward p (st_mutation st))) (ae_caddy E)
      | RestartOrReload u action \<Rightarrow>
          (case ae_restart E of None \<Rightarrow> fail_with ''no restart handler configured'' | Some f \<Rightarrow> service E (f u action))
      | VerifyProbe c \<Rightarrow> give ())"

definition file_is :: "'w apply_env \<Rightarrow> file_path \<Rightarrow> (host_file \<Rightarrow> bool) \<Rightarrow> ('w, bool) act" where
  "file_is E p P =
     then_do (syscall E (\<lambda>s. s)) (\<lambda>_ s. (Value (case ho_files s p of None \<Rightarrow> False | Some f \<Rightarrow> P f), s))"

definition asked :: "('w \<Rightarrow> 'a option) \<Rightarrow> ('w, 'a) act" where
  "asked f s = (case f (ho_world s) of None \<Rightarrow> (Raised ''check'', s) | Some x \<Rightarrow> (Value x, s))"

definition verify_step :: "'w apply_env \<Rightarrow> step \<Rightarrow> ('w, bool) act" where
  "verify_step E st =
     (case st_mutation st of
        ClaimTomlSection name content \<Rightarrow> section_equals E (the_path st) name content
      | InstallFile rel digest mode \<Rightarrow> file_is E (the_path st) (\<lambda>f. sha_of E (hf_bytes f) = digest \<and> hf_mode f = mode)
      | InstallBinary rel digest mode \<Rightarrow> file_is E (the_path st) (\<lambda>f. sha_of E (hf_bytes f) = digest \<and> hf_mode f = mode)
      | CreateSystemdUserUnit u content \<Rightarrow> file_is E (the_path st) (\<lambda>f. ae_encode E content = Some (hf_bytes f))
      | CaddyDropIn n content \<Rightarrow>
          (case ae_caddy E of None \<Rightarrow> give True | Some p \<Rightarrow> asked (pr_verify p (st_mutation st)))
      | RestartOrReload u action \<Rightarrow>
          (case ae_health E of None \<Rightarrow> give True | Some f \<Rightarrow> asked (f u))
      | VerifyProbe c \<Rightarrow> (case ae_probe E of None \<Rightarrow> give True | Some f \<Rightarrow> asked (f c)))"

definition compensate :: "'w apply_env \<Rightarrow> step \<Rightarrow> ('w, unit) act" where
  "compensate E st =
     (case st_mutation st of
        ClaimTomlSection name content \<Rightarrow> restore_or_remove E (the_path st) (st_pre st) MODE_644
      | InstallFile rel digest mode \<Rightarrow> restore_or_remove E (the_path st) (st_pre st) mode
      | InstallBinary rel digest mode \<Rightarrow> restore_or_remove E (the_path st) (st_pre st) mode
      | CreateSystemdUserUnit u content \<Rightarrow>
          then_do (restore_or_remove E (the_path st) (st_pre st) MODE_644)
            (\<lambda>_. optional (service E) (ae_daemon_reload E))
      | CaddyDropIn n content \<Rightarrow> optional (\<lambda>p. service E (pr_compensate p (st_mutation st) (st_pre st))) (ae_caddy E)
      | RestartOrReload u action \<Rightarrow> give ()
      | VerifyProbe c \<Rightarrow> give ())"

section \<open>The journal\<close>

definition flush_journal :: "'w apply_env \<Rightarrow> journal_entry list \<Rightarrow> ('w, unit) act" where
  "flush_journal E es =
     then_do (syscall E (\<lambda>s. s)) (\<lambda>_.
     then_do (syscall E (\<lambda>s. s\<lparr>ho_journal := Some es\<rparr>)) (\<lambda>_.
     syscall E (\<lambda>s. s)))"

definition begin_journal :: "'w apply_env \<Rightarrow> ('w, unit) act" where
  "begin_journal E = then_do (syscall E (\<lambda>s. s)) (\<lambda>_. flush_journal E [])"

definition finalize_journal :: "'w apply_env \<Rightarrow> ('w, unit) act" where
  "finalize_journal E = syscall E (\<lambda>s. s\<lparr>ho_journal := None\<rparr>)"

definition entry_of :: "nat \<Rightarrow> step \<Rightarrow> journal_entry" where
  "entry_of i st =
     \<lparr>je_index = i, je_kind = mutation_kind (st_mutation st), je_target = mutation_target (st_mutation st),
      je_path = st_path st, je_pre = st_pre st, je_mode = st_mode st\<rparr>"

text \<open>Entries in descending index order; Python's sort is stable.\<close>

definition newest_first :: "journal_entry list \<Rightarrow> journal_entry list" where
  "newest_first es = sort_key (\<lambda>e. - int (je_index e)) es"

record recovery =
  ry_recovered :: "(string \<times> string) list"
  ry_manual :: "(string \<times> string) list"

fun recover_entries :: "'w apply_env \<Rightarrow> journal_entry list \<Rightarrow> ('w, recovery) act" where
  "recover_entries E [] = give \<lparr>ry_recovered = [], ry_manual = []\<rparr>"
| "recover_entries E (e # es) =
     (case je_path e of
        None \<Rightarrow> then_do (recover_entries E es) (\<lambda>r. give (r\<lparr>ry_manual := (je_kind e, je_target e) # ry_manual r\<rparr>))
      | Some p \<Rightarrow>
          then_do (restore_or_remove E p (je_pre e) (if je_mode e = 0 then MODE_644 else je_mode e)) (\<lambda>_.
          then_do (recover_entries E es) (\<lambda>r. give (r\<lparr>ry_recovered := (je_kind e, je_target e) # ry_recovered r\<rparr>))))"

definition recover :: "'w apply_env \<Rightarrow> ('w, recovery option) act" where
  "recover E s =
     (case ho_journal s of
        None \<Rightarrow> (Value None, s)
      | Some es \<Rightarrow>
          then_do (recover_entries E (newest_first es)) (\<lambda>r.
          then_do (finalize_journal E) (\<lambda>_. give (Some r))) s)"

section \<open>The engine\<close>

text \<open>An applied step and whether it verified.\<close>

type_synonym progress_list = "(step \<times> bool) list"

text \<open>Compensations in reverse; one that raises is recorded and the others go on.\<close>

fun compensate_all :: "'w apply_env \<Rightarrow> step list \<Rightarrow> ('w, bool list) act" where
  "compensate_all E [] s = give [] s"
| "compensate_all E (st # sts) s =
     (case compensate E st s of
        (Died, s1) \<Rightarrow> (Died, s1)
      | (Raised e, s1) \<Rightarrow> then_do (compensate_all E sts) (\<lambda>oks. give (False # oks)) s1
      | (Value _, s1) \<Rightarrow> then_do (compensate_all E sts) (\<lambda>oks. give (True # oks)) s1)"

definition receipt_line_of :: "step \<times> bool \<Rightarrow> bool option \<Rightarrow> receipt_line" where
  "receipt_line_of x ok =
     \<lparr>rl_kind = mutation_kind (st_mutation (fst x)), rl_target = mutation_target (st_mutation (fst x)),
      rl_digest = st_digest (fst x), rl_verified = snd x, rl_compensated = ok\<rparr>"

definition STATUS_COMMITTED :: string where "STATUS_COMMITTED = ''committed''"
definition STATUS_ROLLED_BACK :: string where "STATUS_ROLLED_BACK = ''rolled_back''"
definition STATUS_PARTIAL_ROLLBACK :: string where "STATUS_PARTIAL_ROLLBACK = ''partial_rollback''"

definition roll_back :: "'w apply_env \<Rightarrow> string \<Rightarrow> progress_list \<Rightarrow> ('w, receipt) act" where
  "roll_back E why steps =
     then_do (compensate_all E (rev (map fst steps))) (\<lambda>oks.
       give \<lparr>rc_status = (if list_all (\<lambda>b. b) oks then STATUS_ROLLED_BACK else STATUS_PARTIAL_ROLLBACK),
             rc_applied = map2 (\<lambda>x ok. receipt_line_of x (Some ok)) steps (rev oks), rc_failure = Some why\<rparr>)"

text \<open>The config parses, and the injected checks.\<close>

definition injected_checks :: "'w apply_env \<Rightarrow> bool \<Rightarrow> ('w, bool) act" where
  "injected_checks E parses =
     (case ae_post_check E of
        None \<Rightarrow> give parses
      | Some f \<Rightarrow> then_do (asked f) (\<lambda>failures. give (parses \<and> failures = [])))"

definition post_apply_checks :: "'w apply_env \<Rightarrow> ('w, bool) act" where
  "post_apply_checks E s =
     (case read_bytes_or_none E (ae_config_path E) s of
        (Died, s1) \<Rightarrow> (Died, s1)
      | (Raised e, s1) \<Rightarrow> injected_checks E False s1
      | (Value None, s1) \<Rightarrow> injected_checks E True s1
      | (Value (Some b), s1) \<Rightarrow>
          (case ae_decode E b of
             None \<Rightarrow> (Raised ''UnicodeDecodeError'', s1)
           | Some text \<Rightarrow> injected_checks E (ae_toml E text \<noteq> None) s1))"

text \<open>The loop: \<open>Inl\<close> the receipt of a plan rolled back, \<open>Inr\<close> every step applied and verified.\<close>

fun apply_mutations ::
  "'w apply_env \<Rightarrow> nat \<Rightarrow> mutation list \<Rightarrow> progress_list \<Rightarrow> journal_entry list \<Rightarrow> ('w, receipt + progress_list) act" where
  "apply_mutations E i [] steps es = give (Inr steps)"
| "apply_mutations E i (m # ms) steps es =
     then_do (build_step E m) (\<lambda>built. case built of
       Inl why \<Rightarrow> then_do (roll_back E (''build failed: '' @ why) steps) (\<lambda>r. give (Inl r))
     | Inr st \<Rightarrow>
         then_do (flush_journal E (es @ [entry_of i st])) (\<lambda>_ s.
           case forward E st s of
             (Died, s1) \<Rightarrow> (Died, s1)
           | (Raised e, s1) \<Rightarrow>
               then_do (roll_back E (''forward failed on '' @ mutation_kind m @ '': '' @ e) (steps @ [(st, False)]))
                 (\<lambda>r. give (Inl r)) s1
           | (Value _, s1) \<Rightarrow>
               then_do (verify_step E st) (\<lambda>ok.
                 if ok then apply_mutations E (Suc i) ms (steps @ [(st, True)]) (es @ [entry_of i st])
                 else then_do (roll_back E (''verify failed on '' @ mutation_kind m) (steps @ [(st, False)]))
                        (\<lambda>r. give (Inl r))) s1))"

definition persist_receipt :: "'w apply_env \<Rightarrow> receipt \<Rightarrow> ('w, unit) act" where
  "persist_receipt E r = then_do (syscall E (\<lambda>s. s)) (\<lambda>_. syscall E (\<lambda>s. s\<lparr>ho_receipts := ho_receipts s @ [r]\<rparr>))"

text \<open>The refusals come before any call; \<open>None\<close> is such a \<open>WizardError\<close>.\<close>

definition apply_plan :: "'w apply_env \<Rightarrow> init_plan \<Rightarrow> ('w, receipt option) act" where
  "apply_plan E plan =
     (if SDK_API < ip_sdk_api plan \<or> ip_mutations plan = [] then give None
      else then_do (begin_journal E) (\<lambda>_.
        then_do (apply_mutations E 0 (ip_mutations plan) [] []) (\<lambda>applied.
        then_do (case applied of
            Inl r \<Rightarrow> give r
          | Inr steps \<Rightarrow>
              then_do (post_apply_checks E) (\<lambda>ok.
                if ok then give \<lparr>rc_status = STATUS_COMMITTED,
                  rc_applied = map (\<lambda>x. receipt_line_of x None) steps, rc_failure = None\<rparr>
                else roll_back E ''post-apply checks failed'' steps)) (\<lambda>r.
        then_do (if rc_status r \<noteq> STATUS_PARTIAL_ROLLBACK then finalize_journal E else give ()) (\<lambda>_.
        then_do (persist_receipt E r) (\<lambda>_. give (Some r)))))))"

section \<open>Facts\<close>

text \<open>An action that leaves the journal alone and changes files only at the given paths.\<close>

definition touches :: "file_path set \<Rightarrow> ('w, 'a) act \<Rightarrow> bool" where
  "touches P m \<longleftrightarrow> (\<forall>s. ho_journal (snd (m s)) = ho_journal s \<and> (\<forall>p. p \<notin> P \<longrightarrow> ho_files (snd (m s)) p = ho_files s p))"

lemma touches_give [simp]: "touches P (give x)" "touches P (fail_with e)"
  by (simp_all add: touches_def give_def fail_with_def)

lemma touches_then_do:
  assumes "touches P m" "\<And>x. touches P (f x)"
  shows "touches P (then_do m f)"
  unfolding touches_def
proof
  fix s
  obtain r s1 where m: "m s = (r, s1)" by (metis prod.exhaust)
  with assms(1) have "ho_journal s1 = ho_journal s \<and> (\<forall>p. p \<notin> P \<longrightarrow> ho_files s1 p = ho_files s p)"
    unfolding touches_def by (metis snd_conv)
  with m assms(2) show "ho_journal (snd (then_do m f s)) = ho_journal s
      \<and> (\<forall>p. p \<notin> P \<longrightarrow> ho_files (snd (then_do m f s)) p = ho_files s p)"
    by (cases r) (auto simp: then_do_def touches_def)
qed

lemma touches_syscall:
  "(\<And>s. ho_journal (f s) = ho_journal s) \<Longrightarrow> (\<And>s p. p \<notin> P \<Longrightarrow> ho_files (f s) p = ho_files s p) \<Longrightarrow> touches P (syscall E f)"
  by (simp add: touches_def syscall_def Let_def split: fate.split)

lemma touches_pure: "touches P (\<lambda>s. (g s, s))"
  by (simp add: touches_def)

lemma touches_mono: "touches P m \<Longrightarrow> P \<subseteq> Q \<Longrightarrow> touches Q m"
  unfolding touches_def by blast

lemma touches_read: "touches P (read_bytes_or_none E p)"
  unfolding read_bytes_or_none_def
  by (intro touches_then_do touches_syscall touches_pure) simp_all

lemma touches_write: "touches {p} (atomic_write_bytes E p data mode)"
  unfolding atomic_write_bytes_def put_file_def
  by (intro touches_then_do touches_syscall) simp_all

lemma touches_restore: "touches {p} (restore_or_remove E p pre mode)"
  unfolding restore_or_remove_def
  by (cases pre) (auto intro!: touches_write touches_syscall split: if_splits)

lemma touches_claim: "touches {p} (claim_section E p name content)"
  unfolding claim_section_def
  by (intro touches_then_do touches_read) (auto intro: touches_write split: option.split)

lemma touches_service: "touches P (service E f)"
  unfolding service_def
  by (intro touches_then_do touches_syscall) (simp_all add: touches_def split: prod.split)

lemma touches_optional: "(\<And>x. touches P (f x)) \<Longrightarrow> touches P (optional f y)"
  by (cases y) (simp_all add: optional_def)

lemma touches_file_is: "touches P (file_is E p Q)"
  unfolding file_is_def by (intro touches_then_do touches_syscall touches_pure) simp_all

lemma touches_section_equals: "touches P (section_equals E p name content)"
  using touches_read [of P E p] unfolding touches_def section_equals_def
  by (auto split: prod.splits outcome.splits option.splits) (metis snd_conv)+

lemma touches_stay: "(\<And>s. snd (m s) = s) \<Longrightarrow> touches P m"
  by (simp add: touches_def)

lemma touches_asked: "touches P (asked f)"
  by (simp add: touches_def asked_def split: option.split)

lemma touches_verify: "touches P (verify_step E st)"
  by (cases "st_mutation st")
    (auto simp: verify_step_def touches_asked touches_file_is touches_section_equals intro!: touches_stay split: option.split)

text \<open>A step of a file kind has its path; the others have none.\<close>

definition wf_step :: "step \<Rightarrow> bool" where
  "wf_step st \<longleftrightarrow> (case st_mutation st of
     CaddyDropIn n c \<Rightarrow> st_path st = None | RestartOrReload u a \<Rightarrow> st_path st = None | VerifyProbe c \<Rightarrow> st_path st = None
   | _ \<Rightarrow> st_path st \<noteq> None)"

definition step_paths :: "step \<Rightarrow> file_path set" where
  "step_paths st = set_option (st_path st)"

lemma touches_forward: "wf_step st \<Longrightarrow> touches (step_paths st) (forward E st)"
  by (cases "st_mutation st"; cases "st_path st")
    (auto simp: forward_def wf_step_def step_paths_def install_forward_def
      intro!: touches_claim touches_then_do touches_syscall touches_write touches_optional touches_service
      split: option.split)

lemma touches_compensate: "wf_step st \<Longrightarrow> touches (step_paths st) (compensate E st)"
  by (cases "st_mutation st"; cases "st_path st")
    (auto simp: compensate_def wf_step_def step_paths_def
      intro!: touches_then_do touches_restore touches_optional touches_service)

text \<open>The bytes of every file, and what they are once every entry is undone: the oldest one of a path counts.\<close>

definition file_bytes :: "'w host \<Rightarrow> file_path \<rightharpoonup> string" where
  "file_bytes s = (\<lambda>p. map_option hf_bytes (ho_files s p))"

definition undone :: "journal_entry list \<Rightarrow> (file_path \<rightharpoonup> string) \<Rightarrow> file_path \<rightharpoonup> string" where
  "undone es b = (\<lambda>p. case find (\<lambda>e. je_path e = Some p) es of Some e \<Rightarrow> je_pre e | None \<Rightarrow> b p)"

lemma undone_Nil [simp]: "undone [] b = b"
  by (simp add: undone_def)

lemma find_append: "find P (xs @ ys) = (case find P xs of Some x \<Rightarrow> Some x | None \<Rightarrow> find P ys)"
  by (induction xs) auto

lemma undone_snoc: "undone (es @ [e]) b = undone es (case je_path e of None \<Rightarrow> b | Some p \<Rightarrow> b(p := je_pre e))"
  by (rule ext) (auto simp: undone_def find_append split: option.splits)

lemma find_path_mem: "find (\<lambda>e. je_path e = Some p) es = None \<longleftrightarrow> Some p \<notin> je_path ` set es"
  by (force simp: find_None_iff)

lemma undone_touched:
  assumes "\<And>p. Some p \<notin> je_path ` set es \<Longrightarrow> b' p = b p"
  shows "undone es b' = undone es b"
proof
  fix p
  show "undone es b' p = undone es b p"
    using assms [of p] find_path_mem [of p es] by (auto simp: undone_def split: option.split)
qed

lemma undone_after:
  assumes "touches P m" "m s = (x, s')" "\<And>p. p \<in> P \<Longrightarrow> Some p \<in> je_path ` set es"
  shows "undone es (file_bytes s') = undone es (file_bytes s)" "ho_journal s' = ho_journal s"
proof -
  from assms(1,2) have t: "ho_journal s' = ho_journal s" "\<And>p. p \<notin> P \<Longrightarrow> ho_files s' p = ho_files s p"
    unfolding touches_def by (metis snd_conv)+
  show "ho_journal s' = ho_journal s" by (fact t(1))
  show "undone es (file_bytes s') = undone es (file_bytes s)"
    by (rule undone_touched) (use t(2) assms(3) in \<open>force simp: file_bytes_def\<close>)
qed

lemma touches_none:
  assumes "touches {} m" "m s = (x, s')"
  shows "file_bytes s' = file_bytes s" "ho_journal s' = ho_journal s"
  using undone_after [OF assms, of "[]"] by simp_all

lemma syscall_Value: "syscall E f s = (Value x, s') \<Longrightarrow> s' = f (s\<lparr>ho_calls := Suc (ho_calls s)\<rparr>)"
  by (auto simp: syscall_def Let_def split: fate.splits)

lemma restore_bytes:
  assumes "restore_or_remove E p pre mode s = (Value x, s')"
  shows "file_bytes s' = (file_bytes s)(p := pre)" "ho_journal s' = ho_journal s"
proof -
  have "file_bytes s' = (file_bytes s)(p := pre) \<and> ho_journal s' = ho_journal s"
  proof (cases pre)
    case None
    with assms show ?thesis
      by (auto simp: restore_or_remove_def file_bytes_def fun_eq_iff dest!: syscall_Value)
  next
    case (Some data)
    with assms show ?thesis
      by (auto simp: restore_or_remove_def atomic_write_bytes_def put_file_def file_bytes_def fun_eq_iff
          elim!: then_do_Value dest!: syscall_Value)
  qed
  then show "file_bytes s' = (file_bytes s)(p := pre)" "ho_journal s' = ho_journal s" by auto
qed

lemma optional_service_bytes:
  assumes "optional (service E) f s = (x, s')"
  shows "file_bytes s' = file_bytes s" "ho_journal s' = ho_journal s"
  using touches_none [OF touches_optional [OF touches_service] assms] by auto

lemma compensate_bytes:
  assumes "compensate E st s = (Value x, s')" "wf_step st"
  shows "file_bytes s' = (case st_path st of None \<Rightarrow> file_bytes s | Some p \<Rightarrow> (file_bytes s)(p := st_pre st))"
proof (cases "st_path st")
  case None
  have "touches {} (compensate E st)" using touches_compensate [OF assms(2), of E] None by (simp add: step_paths_def)
  from touches_none(1) [OF this assms(1)] None show ?thesis by simp
next
  case (Some p)
  define restored where "restored mode = restore_or_remove E p (st_pre st) mode" for mode
  have "(\<exists>mode. compensate E st = restored mode)
      \<or> compensate E st = then_do (restored MODE_644) (\<lambda>_. optional (service E) (ae_daemon_reload E))"
    using Some assms(2) by (cases "st_mutation st") (auto simp: compensate_def wf_step_def restored_def)
  then obtain mode s1 y where "restored mode s = (Value y, s1)" "file_bytes s' = file_bytes s1"
  proof
    assume "\<exists>mode. compensate E st = restored mode"
    with assms(1) that show thesis by fastforce
  next
    assume "compensate E st = then_do (restored MODE_644) (\<lambda>_. optional (service E) (ae_daemon_reload E))"
    with assms(1) have "then_do (restored MODE_644) (\<lambda>_. optional (service E) (ae_daemon_reload E)) s = (Value x, s')" by simp
    then show thesis
    proof (rule then_do_Value)
      fix y s1
      assume "restored MODE_644 s = (Value y, s1)" "optional (service E) (ae_daemon_reload E) s1 = (Value x, s')"
      with optional_service_bytes(1) show thesis by (intro that [of MODE_644 y s1]) auto
    qed
  qed
  with Some show ?thesis using restore_bytes(1) [of E p "st_pre st" mode s y s1] by (simp add: restored_def)
qed

definition entries_of :: "nat \<Rightarrow> step list \<Rightarrow> journal_entry list" where
  "entries_of i sts = map2 entry_of [i..<i + length sts] sts"

lemma entries_snoc: "entries_of i (sts @ [st]) = entries_of i sts @ [entry_of (i + length sts) st]"
  by (simp add: entries_of_def)

lemma entries_paths: "je_path ` set (entries_of i sts) = st_path ` set sts"
proof -
  have "map je_path (entries_of i sts) = map st_path sts"
    by (rule nth_equalityI) (simp_all add: entries_of_def entry_of_def)
  then show ?thesis by (metis list.set_map)
qed

lemma entries_index: "map je_index (entries_of i sts) = [i..<i + length sts]"
  by (rule nth_equalityI) (simp_all add: entries_of_def entry_of_def)

text \<open>Compensating everything that succeeds brings the bytes to what undoing the entries says.\<close>

lemma compensate_all_bytes:
  assumes "compensate_all E (rev sts) s = (Value oks, s')" "\<forall>st\<in>set sts. wf_step st"
  shows "length oks = length sts" "list_all (\<lambda>b. b) oks \<Longrightarrow> file_bytes s' = undone (entries_of i sts) (file_bytes s)"
proof -
  have "length oks = length sts \<and> (list_all (\<lambda>b. b) oks \<longrightarrow> file_bytes s' = undone (entries_of i sts) (file_bytes s))"
    using assms
  proof (induction sts arbitrary: s oks rule: rev_induct)
    case Nil
    then show ?case by (simp add: give_def entries_of_def)
  next
    case (snoc st sts)
    obtain r s1 where comp: "compensate E st s = (r, s1)" by (metis prod.exhaust)
    with snoc.prems(1) obtain oks' where rest: "compensate_all E (rev sts) s1 = (Value oks', s')"
      "oks = (case r of Value x \<Rightarrow> True | _ \<Rightarrow> False) # oks'"
      by (cases r) (auto simp: give_def elim!: then_do_Value)
    note ih = snoc.IH [OF rest(1)]
    have "file_bytes s1 = (case st_path st of None \<Rightarrow> file_bytes s | Some p \<Rightarrow> (file_bytes s)(p := st_pre st))" if "r = Value x" for x
      using compensate_bytes comp that snoc.prems(2) by auto
    with ih rest(2) snoc.prems(2) show ?case
      by (cases r) (auto simp: entries_snoc undone_snoc entry_of_def split: option.splits)
  qed
  then show "length oks = length sts" "list_all (\<lambda>b. b) oks \<Longrightarrow> file_bytes s' = undone (entries_of i sts) (file_bytes s)" by auto
qed

lemma touches_compensate_all:
  "\<forall>st\<in>set sts. wf_step st \<Longrightarrow> touches (\<Union>(step_paths ` set sts)) (compensate_all E sts)"
proof (induction sts)
  case (Cons st sts)
  let ?P = "\<Union>(step_paths ` set (st # sts))"
  have c: "touches ?P (compensate E st)" by (rule touches_mono [OF touches_compensate]) (use Cons in auto)
  have r: "touches ?P (compensate_all E sts)" by (rule touches_mono [OF Cons.IH]) (use Cons in auto)
  show ?case
    unfolding touches_def
  proof
    fix s
    obtain x s1 where x: "compensate E st s = (x, s1)" by (metis prod.exhaust)
    from c x have s1: "ho_journal s1 = ho_journal s \<and> (\<forall>p. p \<notin> ?P \<longrightarrow> ho_files s1 p = ho_files s p)"
      unfolding touches_def by (metis snd_conv)
    have "touches ?P (then_do (compensate_all E sts) (\<lambda>oks. give (b # oks)))" for b
      by (intro touches_then_do r) simp
    with s1 x show "ho_journal (snd (compensate_all E (st # sts) s)) = ho_journal s
        \<and> (\<forall>p. p \<notin> ?P \<longrightarrow> ho_files (snd (compensate_all E (st # sts) s)) p = ho_files s p)"
      by (cases x) (simp_all add: touches_def)
  qed
qed (simp add: touches_def give_def)

text \<open>A host from which undoing the journal gives the bytes \<open>b\<close>, for applied steps in order.\<close>

definition recoverable :: "(file_path \<rightharpoonup> string) \<Rightarrow> step list \<Rightarrow> 'w host \<Rightarrow> bool" where
  "recoverable b sts s \<longleftrightarrow> ho_journal s = Some (entries_of 0 sts) \<and> undone (entries_of 0 sts) (file_bytes s) = b
     \<and> (\<forall>st\<in>set sts. wf_step st)"

lemma recoverable_after:
  assumes "recoverable b sts s" "touches P m" "m s = (x, s')" "P \<subseteq> \<Union>(step_paths ` set sts)"
  shows "recoverable b sts s'"
proof -
  have "Some p \<in> je_path ` set (entries_of 0 sts)" if "p \<in> P" for p
  proof -
    from that assms(4) obtain st where st: "st \<in> set sts" "p \<in> step_paths st" by auto
    then have "st_path st = Some p" by (cases "st_path st") (auto simp: step_paths_def)
    with st(1) show ?thesis unfolding entries_paths by (metis imageI)
  qed
  from undone_after [OF assms(2,3) this] assms(1) show ?thesis by (simp add: recoverable_def)
qed

lemma file_step_Value:
  assumes "file_step E m atomic p mode s = (Value st, s')"
  shows "st_mutation st = m \<and> st_path st = Some p \<and> st_pre st = file_bytes s' p"
  using assms
  by (auto simp: file_step_def read_bytes_or_none_def give_def file_bytes_def elim!: then_do_Value dest!: syscall_Value)

lemma touches_file_step: "touches P (file_step E m atomic p mode)"
  unfolding file_step_def by (intro touches_then_do touches_read) simp

lemma touches_build: "touches P (build_step E m)"
proof -
  have install: "touches P (build_install E m rel digest mode)" for m rel digest mode
    by (auto simp: build_install_def intro!: touches_then_do touches_file_step split: option.split)
  have capture: "touches P (build_step E (CaddyDropIn n c))" for n c
    by (auto intro!: touches_stay simp: give_def split: option.split)
  show ?thesis
    by (cases m) (auto simp: install capture simp del: build_step.simps(5) intro!: touches_then_do touches_file_step)
qed

lemma build_step_Value:
  assumes "build_step E m s = (Value (Inr st), s')"
  shows "wf_step st" "st_mutation st = m" "st_path st = Some p \<Longrightarrow> st_pre st = file_bytes s' p"
proof -
  have "wf_step st \<and> st_mutation st = m \<and> (\<forall>p. st_path st = Some p \<longrightarrow> st_pre st = file_bytes s' p)"
    using assms
    by (cases m) (auto simp: build_install_def wf_step_def plain_step_def give_def fail_with_def split: option.splits if_splits
        elim!: then_do_Value dest!: file_step_Value)
  then show "wf_step st" "st_mutation st = m" "st_path st = Some p \<Longrightarrow> st_pre st = file_bytes s' p" by auto
qed

text \<open>A flush leaves the old entries or the new ones; both can be undone.\<close>

lemma flush_recoverable:
  assumes "recoverable b sts s" "wf_step st" "\<And>p. st_path st = Some p \<Longrightarrow> st_pre st = file_bytes s p"
    and "flush_journal E (entries_of 0 sts @ [entry_of (length sts) st]) s = (x, s')"
  shows "recoverable b sts s' \<or> recoverable b (sts @ [st]) s'" "x = Value y \<Longrightarrow> recoverable b (sts @ [st]) s'"
proof -
  have same: "ho_files s' = ho_files s" and j: "ho_journal s' = ho_journal s \<or> ho_journal s' = Some (entries_of 0 (sts @ [st]))"
    "x = Value y \<Longrightarrow> ho_journal s' = Some (entries_of 0 (sts @ [st]))"
    using assms(4)
    by (auto simp: flush_journal_def then_do_def syscall_def Let_def entries_snoc split: fate.splits)
  have "undone (entries_of 0 (sts @ [st])) (file_bytes s) = undone (entries_of 0 sts) (file_bytes s)"
    using assms(3) by (auto simp: entries_snoc undone_snoc entry_of_def fun_upd_idem split: option.split)
  with assms(1,2) same j show "recoverable b sts s' \<or> recoverable b (sts @ [st]) s'" "x = Value y \<Longrightarrow> recoverable b (sts @ [st]) s'"
    by (auto simp: recoverable_def file_bytes_def)
qed

lemma status_distinct [simp]:
  "STATUS_COMMITTED \<noteq> STATUS_ROLLED_BACK" "STATUS_COMMITTED \<noteq> STATUS_PARTIAL_ROLLBACK"
  "STATUS_ROLLED_BACK \<noteq> STATUS_PARTIAL_ROLLBACK" "STATUS_ROLLED_BACK \<noteq> STATUS_COMMITTED"
  "STATUS_PARTIAL_ROLLBACK \<noteq> STATUS_COMMITTED" "STATUS_PARTIAL_ROLLBACK \<noteq> STATUS_ROLLED_BACK"
  by (simp_all add: STATUS_COMMITTED_def STATUS_ROLLED_BACK_def STATUS_PARTIAL_ROLLBACK_def)

lemma roll_back_recoverable:
  assumes "recoverable b (map fst steps) s" "roll_back E why steps s = (x, s')"
  shows "recoverable b (map fst steps) s'"
    and "x = Value r \<Longrightarrow> rc_status r = STATUS_ROLLED_BACK \<Longrightarrow> file_bytes s' = b"
    and "x = Value r \<Longrightarrow> rc_status r \<noteq> STATUS_COMMITTED"
proof -
  let ?sts = "map fst steps"
  obtain oks s1 where comp: "compensate_all E (rev ?sts) s = (oks, s1)" by (metis prod.exhaust)
  have wf: "\<forall>st\<in>set ?sts. wf_step st" using assms(1) by (simp add: recoverable_def)
  have s1: "s' = s1" "x = Value r \<Longrightarrow> \<exists>bs. oks = Value bs \<and> rc_status r = (if list_all (\<lambda>b. b) bs then STATUS_ROLLED_BACK else STATUS_PARTIAL_ROLLBACK)"
    using assms(2) comp by (cases oks; auto simp: roll_back_def then_do_def give_def)+
  show "recoverable b ?sts s'"
    unfolding s1 using touches_compensate_all [of "rev ?sts" E] wf
    by (intro recoverable_after [where m = "compensate_all E (rev ?sts)", OF assms(1) _ comp]) auto
  show "x = Value r \<Longrightarrow> rc_status r \<noteq> STATUS_COMMITTED" using s1(2) by (auto split: if_splits)
  assume "x = Value r" "rc_status r = STATUS_ROLLED_BACK"
  with s1(2) obtain bs where "oks = Value bs" "list_all (\<lambda>b. b) bs" by (auto split: if_splits)
  with compensate_all_bytes(2) [of E ?sts s bs s1 0] comp wf assms(1) show "file_bytes s' = b"
    by (simp add: s1 recoverable_def)
qed

text \<open>What the loop ends with, for the mutations of the whole plan.\<close>

definition loop_safe ::
  "(file_path \<rightharpoonup> string) \<Rightarrow> mutation list \<Rightarrow> (receipt + progress_list) outcome \<Rightarrow> 'w host \<Rightarrow> bool" where
  "loop_safe b ms x s \<longleftrightarrow> (\<exists>sts. recoverable b sts s) \<and>
     (case x of
        Value (Inr steps) \<Rightarrow> recoverable b (map fst steps) s \<and> list_all snd steps \<and> map (st_mutation \<circ> fst) steps = ms
      | Value (Inl r) \<Rightarrow> rc_status r \<noteq> STATUS_COMMITTED \<and> (rc_status r = STATUS_ROLLED_BACK \<longrightarrow> file_bytes s = b)
      | _ \<Rightarrow> True)"

lemma roll_back_safe:
  assumes "recoverable b (map fst steps) s"
    and "then_do (roll_back E why steps) (\<lambda>r. give (Inl r)) s = (x, s')"
  shows "loop_safe b ms x s'"
proof -
  obtain r s1 where rb: "roll_back E why steps s = (r, s1)" by (metis prod.exhaust)
  note safe = roll_back_recoverable [OF assms(1) rb]
  from assms(2) rb have "s' = s1" "x = (case r of Value y \<Rightarrow> Value (Inl y) | Raised e \<Rightarrow> Raised e | Died \<Rightarrow> Died)"
    by (auto simp: then_do_def give_def split: outcome.splits)
  with safe show ?thesis unfolding loop_safe_def by (auto split: outcome.splits)
qed

lemma apply_mutations_safe:
  assumes "recoverable b (map fst steps) s" "list_all snd steps"
    and "apply_mutations E (length steps) ms steps (entries_of 0 (map fst steps)) s = (x, s')"
  shows "loop_safe b (map (st_mutation \<circ> fst) steps @ ms) x s'"
  using assms
proof (induction ms arbitrary: steps s)
  case Nil
  then show ?case by (auto simp: give_def loop_safe_def)
next
  case (Cons m ms)
  let ?sts = "map fst steps" and ?all = "map (st_mutation \<circ> fst) steps @ m # ms"
  obtain built s1 where build: "build_step E m s = (built, s1)" by (metis prod.exhaust)
  have r1: "recoverable b ?sts s1" by (rule recoverable_after [OF Cons.prems(1) touches_build [where P = "{}"] build]) simp
  show ?case
  proof (cases "\<exists>st. built = Value (Inr st)")
    case False
    show ?thesis
    proof (cases "\<exists>why. built = Value (Inl why)")
      case True
      then obtain why where "built = Value (Inl why)" by auto
      with Cons.prems(3) build show ?thesis by (auto simp: then_do_def [of "build_step E m"] intro: roll_back_safe [OF r1])
    next
      case no: False
      with False have "(\<exists>e. built = Raised e) \<or> built = Died" by (cases built; cases "case built of Value v \<Rightarrow> v") auto
      with Cons.prems(3) build r1 show ?thesis by (auto simp: then_do_def [of "build_step E m"] loop_safe_def)
    qed
  next
    case True
    then obtain st where built: "built = Value (Inr st)" by auto
    note st = build_step_Value [OF build [unfolded built]]
    let ?steps = "\<lambda>ok. steps @ [(st, ok)]"
    have steps: "map fst (?steps ok) = ?sts @ [st]" for ok by simp
    define es where "es = entries_of 0 ?sts @ [entry_of (length ?sts) st]"
    have es': "entries_of 0 ?sts @ [entry_of (length steps) st] = es" by (simp add: es_def)
    have es: "es = entries_of 0 (map fst (?steps ok))" for ok by (simp add: es_def entries_snoc)
    obtain w s2 where flush: "flush_journal E es s1 = (w, s2)" by (metis prod.exhaust)
    have fl: "recoverable b ?sts s2 \<or> recoverable b (?sts @ [st]) s2" "w = Value y \<Longrightarrow> recoverable b (?sts @ [st]) s2" for y
      using flush_recoverable [OF r1 st(1) _ flush [unfolded es_def]] st(3) by blast+
    have x: "(x, s') = (case w of Died \<Rightarrow> (Died, s2) | Raised e \<Rightarrow> (Raised e, s2)
      | Value _ \<Rightarrow> (case forward E st s2 of
             (Died, s3) \<Rightarrow> (Died, s3)
           | (Raised e, s3) \<Rightarrow>
               then_do (roll_back E (''forward failed on '' @ mutation_kind m @ '': '' @ e) (?steps False)) (\<lambda>r. give (Inl r)) s3
           | (Value _, s3) \<Rightarrow>
               then_do (verify_step E st) (\<lambda>ok.
                 if ok then apply_mutations E (Suc (length steps)) ms (?steps True) es
                 else then_do (roll_back E (''verify failed on '' @ mutation_kind m) (?steps False)) (\<lambda>r. give (Inl r))) s3))"
      using Cons.prems(3)
      unfolding apply_mutations.simps then_do_step [where m = "build_step E m", OF build] built outcome.case sum.case es' then_do_step [where m = "flush_journal E es", OF flush]
      by (cases w) simp_all
    show ?thesis
    proof (cases w)
      case (Value y)
      have r2: "recoverable b (?sts @ [st]) s2" by (rule fl(2) [OF Value])
      obtain f s3 where fwd: "forward E st s2 = (f, s3)" by (metis prod.exhaust)
      have r3: "recoverable b (?sts @ [st]) s3"
        by (rule recoverable_after [OF r2 touches_forward [OF st(1)] fwd]) auto
      show ?thesis
      proof (cases f)
        case Died
        with x Value fwd r3 show ?thesis by (auto simp: loop_safe_def)
      next
        case (Raised e)
        with x Value fwd show ?thesis by (auto intro!: roll_back_safe [where steps = "?steps False"] simp: r3)
      next
        case (Value z)
        obtain v s4 where ver: "verify_step E st s3 = (v, s4)" by (metis prod.exhaust)
        have r4: "recoverable b (?sts @ [st]) s4" by (rule recoverable_after [OF r3 touches_verify [where P = "{}"] ver]) simp
        have x4: "(x, s') = (case v of Died \<Rightarrow> (Died, s4) | Raised e \<Rightarrow> (Raised e, s4)
            | Value ok \<Rightarrow> if ok then apply_mutations E (length (?steps True)) ms (?steps True) es s4
                else then_do (roll_back E (''verify failed on '' @ mutation_kind m) (?steps False)) (\<lambda>r. give (Inl r)) s4)"
          using x \<open>w = Value y\<close> fwd Value ver by (cases v) (auto simp: then_do_def [of "verify_step E st"])
        show ?thesis
        proof (cases v)
          case (Value ok)
          show ?thesis
          proof (cases ok)
            case True
            with x4 Value have "apply_mutations E (length (?steps True)) ms (?steps True) (entries_of 0 (map fst (?steps True))) s4 = (x, s')"
              using es by simp
            from Cons.IH [OF _ _ this] r4 Cons.prems(2) st(2) show ?thesis by simp
          next
            case False
            with x4 Value have "then_do (roll_back E (''verify failed on '' @ mutation_kind m) (?steps False)) (\<lambda>r. give (Inl r)) s4 = (x, s')"
              by simp
            then show ?thesis by (rule roll_back_safe [rotated]) (simp add: r4)
          qed
        qed (use x4 r4 in \<open>auto simp: loop_safe_def\<close>)
      qed
    qed (use x fl(1) in \<open>auto simp: loop_safe_def\<close>)
  qed
qed

section \<open>Recovery\<close>

lemma newest_first_entries: "newest_first (entries_of 0 sts) = rev (entries_of 0 sts)"
  unfolding newest_first_def
proof (rule sort_key_inj_key_eq)
  have "distinct (map je_index (entries_of 0 sts))" by (simp add: entries_index)
  then show "inj_on (\<lambda>e. - int (je_index e)) (set (entries_of 0 sts))"
    by (auto simp: distinct_map inj_on_def)
  have "map (\<lambda>e. - int (je_index e)) (rev (entries_of 0 sts)) = rev (map (\<lambda>i. - int i) (map je_index (entries_of 0 sts)))"
    by (simp add: rev_map)
  then show "sorted (map (\<lambda>e. - int (je_index e)) (rev (entries_of 0 sts)))"
    unfolding entries_index by (auto simp: sorted_wrt_iff_nth_less rev_nth)
qed simp

lemma touches_recover_entries:
  "touches (\<Union>e\<in>set es. set_option (je_path e)) (recover_entries E es)"
proof (induction es)
  case (Cons e es)
  have rest: "touches (\<Union>e\<in>set (e # es). set_option (je_path e)) (recover_entries E es)"
    by (rule touches_mono [OF Cons.IH]) auto
  show ?case
  proof (cases "je_path e")
    case None
    show ?thesis unfolding recover_entries.simps None option.case by (intro touches_then_do rest) simp
  next
    case (Some p)
    have "touches (\<Union>e\<in>set (e # es). set_option (je_path e)) (restore_or_remove E p pre mode)" for pre mode
      by (rule touches_mono [OF touches_restore]) (simp add: Some)
    then show ?thesis unfolding recover_entries.simps Some option.case by (intro touches_then_do rest) simp_all
  qed
qed simp

lemma recover_entries_bytes:
  "recover_entries E (rev es) s = (Value r, s') \<Longrightarrow> file_bytes s' = undone es (file_bytes s)"
proof (induction es arbitrary: s r rule: rev_induct)
  case Nil
  then show ?case by (simp add: give_def)
next
  case (snoc e es)
  show ?case
  proof (cases "je_path e")
    case None
    with snoc show ?thesis by (auto simp: undone_snoc give_def elim!: then_do_Value)
  next
    case (Some p)
    with snoc.prems obtain mode y s1 r1 where "restore_or_remove E p (je_pre e) mode s = (Value y, s1)"
      "recover_entries E (rev es) s1 = (Value r1, s')"
      by (auto simp: give_def elim!: then_do_Value)
    with snoc.IH restore_bytes(1) Some show ?thesis by (fastforce simp: undone_snoc)
  qed
qed

lemma recover_safe:
  assumes "recoverable b sts s" "recover E s = (x, s')"
  shows "recoverable b sts s' \<or> (ho_journal s' = None \<and> file_bytes s' = b)"
    and "x = Value y \<Longrightarrow> ho_journal s' = None \<and> file_bytes s' = b"
proof -
  let ?es = "entries_of 0 sts"
  obtain r s1 where run: "recover_entries E (rev ?es) s = (r, s1)" by (metis prod.exhaust)
  have r1: "recoverable b sts s1"
  proof (rule recoverable_after [OF assms(1) touches_recover_entries run])
    have "set_option (je_path e) \<subseteq> \<Union>(step_paths ` set sts)" if "e \<in> set ?es" for e
    proof -
      from that have "je_path e \<in> st_path ` set sts" by (metis entries_paths imageI)
      then show ?thesis by (auto simp: step_paths_def)
    qed
    then show "(\<Union>e\<in>set (rev ?es). set_option (je_path e)) \<subseteq> \<Union>(step_paths ` set sts)" by auto
  qed
  have rec: "(x, s') = (case r of Died \<Rightarrow> (Died, s1) | Raised e \<Rightarrow> (Raised e, s1)
      | Value v \<Rightarrow> then_do (finalize_journal E) (\<lambda>_. give (Some v)) s1)"
    using assms run by (simp add: recover_def recoverable_def newest_first_entries then_do_def split: outcome.splits)
  have b1: "file_bytes s1 = b" if "r = Value v" for v
    using recover_entries_bytes [OF run [unfolded that]] assms(1) by (simp add: recoverable_def)
  have fin: "(ho_files s' = ho_files s1 \<and> (ho_journal s' = ho_journal s1 \<or> ho_journal s' = None))
      \<and> (x = Value y \<longrightarrow> ho_journal s' = None)" if "r = Value v" for v y
    using rec that by (auto simp: finalize_journal_def then_do_def syscall_def give_def Let_def split: fate.splits)
  show "x = Value y \<Longrightarrow> ho_journal s' = None \<and> file_bytes s' = b"
    using rec fin b1 by (cases r) (auto simp: file_bytes_def)
  show "recoverable b sts s' \<or> (ho_journal s' = None \<and> file_bytes s' = b)"
  proof (cases r)
    case (Value v)
    with fin [OF Value] b1 [OF Value] r1 show ?thesis
      by (auto simp: file_bytes_def recoverable_def)
  qed (use rec r1 in auto)
qed

lemma works_syscall: "(\<And>n. ae_fate E n = Works) \<Longrightarrow> syscall E f s = (Value (), f (s\<lparr>ho_calls := Suc (ho_calls s)\<rparr>))"
  by (simp add: syscall_def Let_def)

lemma works_restore: "(\<And>n. ae_fate E n = Works) \<Longrightarrow> \<exists>s'. restore_or_remove E p pre mode s = (Value (), s')"
  by (cases pre) (simp_all add: restore_or_remove_def atomic_write_bytes_def then_do_def works_syscall)

lemma works_recover_entries: "(\<And>n. ae_fate E n = Works) \<Longrightarrow> \<exists>r s'. recover_entries E es s = (Value r, s')"
proof (induction es arbitrary: s)
  case (Cons e es)
  show ?case
  proof (cases "je_path e")
    case None
    with Cons.IH [OF Cons.prems, of s] show ?thesis by (auto simp: then_do_def give_def)
  next
    case (Some p)
    obtain s1 where "restore_or_remove E p (je_pre e) (if je_mode e = 0 then MODE_644 else je_mode e) s = (Value (), s1)"
      using works_restore [OF Cons.prems] by blast
    with Some Cons.IH [OF Cons.prems, of s1] show ?thesis by (auto simp: then_do_def give_def)
  qed
qed (simp add: give_def)

lemma works_recover:
  assumes "\<And>n. ae_fate E n = Works" "ho_journal s = Some es"
  shows "\<exists>r s'. recover E s = (Value (Some r), s')"
  using works_recover_entries [OF assms(1), of "newest_first es" s] assms
  by (auto simp: recover_def then_do_def give_def finalize_journal_def works_syscall)

section \<open>Properties\<close>

lemma begin_journal_cases:
  assumes "begin_journal E s = (x, s')"
  shows "ho_files s' = ho_files s" "ho_journal s' = ho_journal s \<or> ho_journal s' = Some []" "x = Value y \<Longrightarrow> ho_journal s' = Some []"
  using assms
  by (auto simp: begin_journal_def flush_journal_def then_do_def syscall_def Let_def split: fate.splits)

lemma recoverable_start: "ho_journal s = Some [] \<Longrightarrow> recoverable (file_bytes s) [] s"
  by (simp add: recoverable_def entries_of_def)

text \<open>The last stretch: the checks, the journal dropped or kept, the receipt.\<close>

definition conclude :: "'w apply_env \<Rightarrow> receipt + progress_list \<Rightarrow> ('w, receipt) act" where
  "conclude E applied =
     (case applied of
        Inl r \<Rightarrow> give r
      | Inr steps \<Rightarrow>
          then_do (post_apply_checks E) (\<lambda>ok.
            if ok then give \<lparr>rc_status = STATUS_COMMITTED,
              rc_applied = map (\<lambda>x. receipt_line_of x None) steps, rc_failure = None\<rparr>
            else roll_back E ''post-apply checks failed'' steps))"

lemma injected_checks_stay: "snd (injected_checks E parses s) = s"
  by (simp add: injected_checks_def then_do_def asked_def give_def split: option.split)

lemma touches_checks: "touches P (post_apply_checks E)"
  unfolding touches_def
proof
  fix s
  obtain x s1 where "read_bytes_or_none E (ae_config_path E) s = (x, s1)" by (metis prod.exhaust)
  moreover from this have "ho_journal s1 = ho_journal s \<and> (\<forall>p. p \<notin> P \<longrightarrow> ho_files s1 p = ho_files s p)"
    using touches_read [of P E "ae_config_path E"] unfolding touches_def by (metis snd_conv)
  ultimately show "ho_journal (snd (post_apply_checks E s)) = ho_journal s
      \<and> (\<forall>p. p \<notin> P \<longrightarrow> ho_files (snd (post_apply_checks E s)) p = ho_files s p)"
    by (simp add: post_apply_checks_def injected_checks_stay split: outcome.split option.split)
qed

lemma conclude_safe:
  assumes "loop_safe b ms (Value applied) s" "conclude E applied s = (x, s')"
  shows "\<exists>sts. recoverable b sts s'"
    and "x = Value r \<Longrightarrow> rc_status r = STATUS_ROLLED_BACK \<Longrightarrow> file_bytes s' = b"
    and "x = Value r \<Longrightarrow> rc_status r = STATUS_COMMITTED \<Longrightarrow>
      list_all rl_verified (rc_applied r) \<and> map rl_kind (rc_applied r) = map mutation_kind ms"
proof -
  have "(\<exists>sts. recoverable b sts s') \<and> (\<forall>r. x = Value r \<longrightarrow>
      (rc_status r = STATUS_ROLLED_BACK \<longrightarrow> file_bytes s' = b)
      \<and> (rc_status r = STATUS_COMMITTED \<longrightarrow>
          list_all rl_verified (rc_applied r) \<and> map rl_kind (rc_applied r) = map mutation_kind ms))"
  proof (cases applied)
    case (Inl r)
    with assms show ?thesis by (auto simp: conclude_def give_def loop_safe_def)
  next
    case (Inr steps)
    with assms(1) have steps: "recoverable b (map fst steps) s" "list_all snd steps" "map (st_mutation \<circ> fst) steps = ms"
      by (auto simp: loop_safe_def)
    obtain ok s1 where checks: "post_apply_checks E s = (ok, s1)" by (metis prod.exhaust)
    have r1: "recoverable b (map fst steps) s1"
      by (rule recoverable_after [OF steps(1) touches_checks [where P = "{}"] checks]) simp
    have "list_all rl_verified (map (\<lambda>x. receipt_line_of x None) steps)"
      "map rl_kind (map (\<lambda>x. receipt_line_of x None) steps) = map mutation_kind ms"
      using steps(2,3) by (auto simp: list_all_iff receipt_line_of_def)
    with assms(2) Inr checks r1 roll_back_recoverable [OF r1, of E _ x s'] show ?thesis
      by (auto simp: conclude_def then_do_step [where m = "post_apply_checks E", OF checks] give_def
          split: outcome.splits if_splits)
  qed
  then show "\<exists>sts. recoverable b sts s'"
    and "x = Value r \<Longrightarrow> rc_status r = STATUS_ROLLED_BACK \<Longrightarrow> file_bytes s' = b"
    and "x = Value r \<Longrightarrow> rc_status r = STATUS_COMMITTED \<Longrightarrow>
      list_all rl_verified (rc_applied r) \<and> map rl_kind (rc_applied r) = map mutation_kind ms" by auto
qed

lemma apply_plan_conclude:
  "apply_plan E plan =
     (if SDK_API < ip_sdk_api plan \<or> ip_mutations plan = [] then give None
      else then_do (begin_journal E) (\<lambda>_.
        then_do (apply_mutations E 0 (ip_mutations plan) [] []) (\<lambda>applied.
        then_do (conclude E applied) (\<lambda>r.
        then_do (if rc_status r \<noteq> STATUS_PARTIAL_ROLLBACK then finalize_journal E else give ()) (\<lambda>_.
        then_do (persist_receipt E r) (\<lambda>_. give (Some r)))))))"
  by (simp add: apply_plan_def conclude_def)

lemma persist_frame:
  "persist_receipt E r s = (x, s') \<Longrightarrow> ho_files s' = ho_files s \<and> ho_journal s' = ho_journal s"
  by (auto simp: persist_receipt_def then_do_def syscall_def Let_def split: fate.splits)

lemma finalize_cases:
  assumes "(if rc_status r \<noteq> STATUS_PARTIAL_ROLLBACK then finalize_journal E else give ()) s = (x, s')"
  shows "ho_files s' = ho_files s" "ho_journal s' = ho_journal s \<or> ho_journal s' = None"
    and "x = Value y \<Longrightarrow> ho_journal s' = (if rc_status r = STATUS_PARTIAL_ROLLBACK then ho_journal s else None)"
  using assms by (auto simp: finalize_journal_def syscall_def give_def Let_def split: if_splits fate.splits)

lemma apply_plan_stages:
  assumes "apply_plan E plan s = (x, s')"
  shows "(\<exists>sts. recoverable (file_bytes s) sts s')
    \<or> (ho_journal s' = ho_journal s \<and> file_bytes s' = file_bytes s) \<or> ho_journal s' = None" (is ?ends)
    and "x = Value (Some r) \<Longrightarrow>
      (rc_status r = STATUS_ROLLED_BACK \<longrightarrow> file_bytes s' = file_bytes s \<and> ho_journal s' = None)
      \<and> (rc_status r = STATUS_COMMITTED \<longrightarrow> ho_journal s' = None \<and> list_all rl_verified (rc_applied r)
          \<and> map rl_kind (rc_applied r) = map mutation_kind (ip_mutations plan))
      \<and> (rc_status r = STATUS_PARTIAL_ROLLBACK \<longrightarrow> (\<exists>sts. recoverable (file_bytes s) sts s'))"
proof -
  let ?b = "file_bytes s" and ?ms = "ip_mutations plan"
  let ?good = "\<lambda>r. (rc_status r = STATUS_ROLLED_BACK \<longrightarrow> file_bytes s' = ?b \<and> ho_journal s' = None)
      \<and> (rc_status r = STATUS_COMMITTED \<longrightarrow> ho_journal s' = None \<and> list_all rl_verified (rc_applied r)
          \<and> map rl_kind (rc_applied r) = map mutation_kind ?ms)
      \<and> (rc_status r = STATUS_PARTIAL_ROLLBACK \<longrightarrow> (\<exists>sts. recoverable ?b sts s'))"
  have "?ends \<and> (\<forall>r. x = Value (Some r) \<longrightarrow> ?good r)"
  proof (cases "SDK_API < ip_sdk_api plan \<or> ?ms = []")
    case True
    with assms show ?thesis by (auto simp: apply_plan_def give_def)
  next
    case False
    obtain x1 s1 where begun: "begin_journal E s = (x1, s1)" by (metis prod.exhaust)
    note b = begin_journal_cases [OF begun]
    have s1: "(\<exists>sts. recoverable ?b sts s1) \<or> (ho_journal s1 = ho_journal s \<and> file_bytes s1 = ?b)"
      using b(1,2) recoverable_start [of s1] by (auto simp: file_bytes_def)
    note plan1 = assms [unfolded apply_plan_conclude if_not_P [OF False] then_do_step [where m = "begin_journal E", OF begun]]
    show ?thesis
    proof (cases x1)
      case (Value y)
      with b have r1: "recoverable ?b [] s1" using recoverable_start [of s1] by (simp add: file_bytes_def)
      obtain x2 s2 where loop: "apply_mutations E 0 ?ms [] [] s1 = (x2, s2)" by (metis prod.exhaust)
      have safe: "loop_safe ?b ?ms x2 s2"
        using apply_mutations_safe [of ?b "[]" s1 E ?ms x2 s2] r1 loop by (simp add: entries_of_def)
      note plan2 = plan1 [unfolded Value outcome.case then_do_step [where m = "apply_mutations E 0 ?ms [] []", OF loop]]
      show ?thesis
      proof (cases x2)
        case (Value applied)
        obtain x3 s3 where con: "conclude E applied s2 = (x3, s3)" by (metis prod.exhaust)
        note c = conclude_safe [OF safe [unfolded Value] con]
        note plan3 = plan2 [unfolded Value outcome.case then_do_step [where m = "conclude E applied", OF con]]
        show ?thesis
        proof (cases x3)
          case (Value r)
          let ?fin = "if rc_status r \<noteq> STATUS_PARTIAL_ROLLBACK then finalize_journal E else give ()"
          obtain x4 s4 where fin: "?fin s3 = (x4, s4)" by (metis prod.exhaust)
          note f = finalize_cases [OF fin]
          note plan4 = plan3 [unfolded Value outcome.case then_do_step [where m = ?fin, OF fin]]
          obtain sts where r3: "recoverable ?b sts s3" using c(1) by auto
          show ?thesis
          proof (cases x4)
            case (Value u)
            obtain x5 s5 where per: "persist_receipt E r s4 = (x5, s5)" by (metis prod.exhaust)
            note p = persist_frame [OF per]
            have x5: "s' = s5" "x = Value (Some r') \<Longrightarrow> r' = r" for r'
              using plan4 Value by (cases x5; auto simp: then_do_step [where m = "persist_receipt E r", OF per] give_def)+
            have "?good r"
              using c(2,3) [OF \<open>x3 = Value r\<close>] f(1) f(3) [OF Value] p r3
              by (auto simp: x5(1) file_bytes_def recoverable_def)
            moreover have ?ends
              using f(1) f(3) [OF Value] p r3 by (auto simp: x5(1) file_bytes_def recoverable_def split: if_splits)
            ultimately show ?thesis using x5(2) by blast
          qed (use plan4 f r3 in \<open>auto simp: file_bytes_def recoverable_def\<close>)
        qed (use plan3 c(1) in auto)
      qed (use plan2 safe in \<open>auto simp: loop_safe_def\<close>)
    qed (use plan1 s1 in auto)
  qed
  then show ?ends and "x = Value (Some r) \<Longrightarrow> ?good r" by auto
qed

section \<open>A host to try them on\<close>

definition demo_env :: "(nat \<Rightarrow> fate) \<Rightarrow> unit apply_env" where
  "demo_env fate =
     \<lparr>ae_config_path = ''/c'', ae_base_dir = ''/b'', ae_systemd_dir = ''/u'',
      ae_content = [''sha256:new'' \<mapsto> ''new''], ae_caddy = None, ae_restart = None, ae_health = None, ae_probe = None,
      ae_daemon_reload = None, ae_post_check = None, ae_decode = Some, ae_encode = Some,
      ae_toml = (\<lambda>t. Some [(''s'', JObj [])]), ae_same = (\<lambda>a b. True), ae_sha256 = (\<lambda>d. d), ae_resolve = (\<lambda>p. p),
      ae_umask = (\<lambda>m. m), ae_fate = fate\<rparr>"

definition demo_plan :: "mutation list \<Rightarrow> init_plan" where
  "demo_plan ms = \<lparr>ip_sdk_api = 3, ip_mutations = ms\<rparr>"

definition demo_install :: mutation where
  "demo_install = InstallFile ''a'' ''sha256:new'' 420"

text \<open>A file to be replaced, and a private config.\<close>

definition demo_host :: "unit host" where
  "demo_host = \<lparr>ho_files = [''/b/a'' \<mapsto> \<lparr>hf_bytes = ''old'', hf_mode = 420\<rparr>, ''/c'' \<mapsto> \<lparr>hf_bytes = [], hf_mode = 384\<rparr>],
     ho_journal = None, ho_receipts = [], ho_world = (), ho_calls = 0\<rparr>"

definition all_work :: "nat \<Rightarrow> fate" where "all_work n = Works"

definition dies_at :: "nat \<Rightarrow> nat \<Rightarrow> fate" where "dies_at k n = (if n = k then Dies else Works)"

text \<open>
  C27. A crash can always be undone: wherever an apply dies or raises, and however many recoveries die or
  raise after it, if a journal is left then a recovery whose calls work ends, drops the journal and gives
  every file the bytes it had before the apply, or is absent again if it was. Only bytes: see the modes below.
\<close>

theorem interrupted_apply_recovers:
  assumes run: "apply_plan E plan s = (x, s')" "ho_journal s = None"
    and tries: "s1 = foldl (\<lambda>t R. snd (recover R t)) s' Rs" "ho_journal s1 \<noteq> None"
    and works: "\<And>n. ae_fate R n = Works"
  shows "\<exists>r s2. recover R s1 = (Value (Some r), s2) \<and> file_bytes s2 = file_bytes s \<and> ho_journal s2 = None"
proof -
  have kept: "(\<exists>sts. recoverable b sts t) \<or> ho_journal t = None \<Longrightarrow>
      (\<exists>sts. recoverable b sts (foldl (\<lambda>t R. snd (recover R t)) t Rs)) \<or> ho_journal (foldl (\<lambda>t R. snd (recover R t)) t Rs) = None"
    for b t
  proof (induction Rs arbitrary: t)
    case (Cons R Rs)
    have "(\<exists>sts. recoverable b sts (snd (recover R t))) \<or> ho_journal (snd (recover R t)) = None"
      using Cons.prems
    proof
      assume "\<exists>sts. recoverable b sts t"
      then show ?thesis using recover_safe(1) by (metis prod.collapse)
    qed (simp add: recover_def)
    from Cons.IH [OF this] show ?case by simp
  qed simp
  have "(\<exists>sts. recoverable (file_bytes s) sts s') \<or> ho_journal s' = None"
    using apply_plan_stages(1) [OF run(1)] run(2) by auto
  from kept [OF this] tries obtain sts where sts: "recoverable (file_bytes s) sts s1" by blast
  then obtain r s2 where rec: "recover R s1 = (Value (Some r), s2)"
    using works_recover [OF works] unfolding recoverable_def by blast
  from recover_safe(2) [OF sts rec refl] rec show ?thesis by auto
qed

text \<open>The apply dies between renaming the file and setting its mode, and the first recovery dies too.\<close>

definition demo_crash :: "unit host" where
  "demo_crash = snd (apply_plan (demo_env (dies_at 11)) (demo_plan [demo_install]) demo_host)"

definition demo_second_crash :: "unit host" where
  "demo_second_crash = snd (recover (demo_env (dies_at 13)) demo_crash)"

theorem interrupted_apply_recovers_witness:
  "file_bytes demo_second_crash ''/b/a'' = Some ''new''
   \<and> (\<exists>r s2. recover (demo_env all_work) demo_second_crash = (Value (Some r), s2)
        \<and> file_bytes s2 = file_bytes demo_host \<and> ho_journal s2 = None)"
proof -
  have a: "apply_plan (demo_env (dies_at 11)) (demo_plan [demo_install]) demo_host
      = (fst (apply_plan (demo_env (dies_at 11)) (demo_plan [demo_install]) demo_host), demo_crash)"
    by (simp add: demo_crash_def)
  have n: "ho_journal demo_host = None" by (simp add: demo_host_def)
  have f: "demo_second_crash = foldl (\<lambda>t R. snd (recover R t)) demo_crash [demo_env (dies_at 13)]"
    by (simp add: demo_second_crash_def)
  have j: "ho_journal demo_second_crash \<noteq> None" by code_simp
  have w: "ae_fate (demo_env all_work) i = Works" for i by (simp add: demo_env_def all_work_def)
  have b: "file_bytes demo_second_crash ''/b/a'' = Some ''new''" by code_simp
  from interrupted_apply_recovers [OF a n f j w] b show ?thesis by blast
qed

text \<open>
  C28. What a receipt says is so: a rolled back apply left every file with the bytes it had and no journal;
  a committed one has no journal and a line for each mutation of the plan, in order, each verified; a partial
  rollback keeps a journal from which the bytes can be brought back.
\<close>

theorem receipt_is_true:
  assumes "apply_plan E plan s = (Value (Some r), s')"
  shows "(rc_status r = STATUS_ROLLED_BACK \<longrightarrow> file_bytes s' = file_bytes s \<and> ho_journal s' = None)
    \<and> (rc_status r = STATUS_COMMITTED \<longrightarrow> ho_journal s' = None \<and> list_all rl_verified (rc_applied r)
        \<and> map rl_kind (rc_applied r) = map mutation_kind (ip_mutations plan))
    \<and> (rc_status r = STATUS_PARTIAL_ROLLBACK \<longrightarrow>
        (\<exists>es. ho_journal s' = Some es \<and> undone es (file_bytes s') = file_bytes s))"
  using apply_plan_stages(2) [OF assms refl] by (auto simp: recoverable_def)

theorem receipt_is_true_witness:
  "\<exists>r. fst (apply_plan (demo_env all_work) (demo_plan [demo_install]) demo_host) = Value (Some r)
     \<and> rc_status r = STATUS_COMMITTED \<and> map rl_kind (rc_applied r) = [''install_file'']"
proof -
  let ?run = "apply_plan (demo_env all_work) (demo_plan [demo_install]) demo_host"
  have c: "case fst ?run of Value (Some r) \<Rightarrow> rc_status r = STATUS_COMMITTED | _ \<Rightarrow> False" by code_simp
  then obtain r where r: "fst ?run = Value (Some r)" "rc_status r = STATUS_COMMITTED"
    by (auto split: outcome.splits option.splits)
  then have "?run = (Value (Some r), snd ?run)" by (metis prod.collapse)
  from receipt_is_true [OF this] r show ?thesis by (auto simp: demo_plan_def demo_install_def)
qed

text \<open>The permission bits that a claimed section leaves on the config.\<close>

definition has_mode :: "nat \<Rightarrow> file_path \<Rightarrow> 'w host \<Rightarrow> bool" where
  "has_mode mode p s \<longleftrightarrow> (\<exists>g. ho_files s p = Some g \<and> hf_mode g = mode)"

lemma write_mode: "atomic_write_bytes E p data mode s = (Value x, s') \<Longrightarrow> has_mode mode p s'"
  by (auto simp: atomic_write_bytes_def put_file_def has_mode_def elim!: then_do_Value dest!: syscall_Value)

lemma claim_mode: "claim_section E p name content s = (Value x, s') \<Longrightarrow> has_mode MODE_644 p s'"
  by (auto simp: claim_section_def fail_with_def elim!: then_do_Value split: option.splits intro: write_mode)

lemma restore_mode: "restore_or_remove E p (Some data) mode s = (Value x, s') \<Longrightarrow> has_mode mode p s'"
  by (auto simp: restore_or_remove_def intro: write_mode)

lemma untouched_files: "touches {} m \<Longrightarrow> m s = (x, s') \<Longrightarrow> ho_files s' = ho_files s"
  unfolding touches_def by (rule ext) (metis empty_iff snd_conv)

lemma roll_back_one:
  assumes "roll_back E why [(st, ok)] s = (Value r, s')" "rc_status r \<noteq> STATUS_PARTIAL_ROLLBACK"
  shows "\<exists>y. compensate E st s = (Value y, s')"
  using assms
  by (auto simp: roll_back_def then_do_def give_def split: prod.splits outcome.splits)

definition claim_step :: "'w apply_env \<Rightarrow> step \<Rightarrow> bool" where
  "claim_step E st \<longleftrightarrow> (\<exists>name content. st_mutation st = ClaimTomlSection name content)
     \<and> st_path st = Some (ae_config_path E) \<and> st_pre st \<noteq> None"

lemma claim_rolled_back:
  assumes "roll_back E why [(st, ok)] s = (Value r, s')" "rc_status r \<noteq> STATUS_PARTIAL_ROLLBACK" "claim_step E st"
  shows "has_mode MODE_644 (ae_config_path E) s'"
  using roll_back_one [OF assms(1,2)] assms(3)
  by (auto simp: claim_step_def compensate_def dest: restore_mode)

lemma claim_built:
  assumes "build_step E (ClaimTomlSection name content) s = (Value built, s')" "ho_files s (ae_config_path E) = Some f"
  shows "\<exists>st. built = Inr st \<and> claim_step E st"
  using assms
  by (auto simp: file_step_def read_bytes_or_none_def give_def claim_step_def elim!: then_do_Value dest!: syscall_Value)

lemma claim_forward: "claim_step E st \<Longrightarrow> forward E st s = (Value x, s') \<Longrightarrow> has_mode MODE_644 (ae_config_path E) s'"
  by (auto simp: claim_step_def forward_def intro: claim_mode)

lemma claim_loop:
  assumes "apply_mutations E 0 [ClaimTomlSection name content] [] [] s = (Value res, s')"
    and "ho_files s (ae_config_path E) = Some f"
  shows "case res of Inl r \<Rightarrow> rc_status r \<noteq> STATUS_PARTIAL_ROLLBACK \<longrightarrow> has_mode MODE_644 (ae_config_path E) s'
    | Inr steps \<Rightarrow> has_mode MODE_644 (ae_config_path E) s' \<and> (\<exists>st. steps = [(st, True)] \<and> claim_step E st)"
proof -
  from assms(1) [unfolded apply_mutations.simps] obtain b s1 where "build_step E (ClaimTomlSection name content) s = (Value b, s1)"
    by (rule then_do_Value)
  with claim_built [OF this assms(2)] obtain st where
    built: "build_step E (ClaimTomlSection name content) s = (Value (Inr st), s1)" and st: "claim_step E st" by blast
  obtain u s2 where flush: "flush_journal E [entry_of 0 st] s1 = (Value u, s2)"
    using assms(1) unfolding apply_mutations.simps then_do_step [where m = "build_step E (ClaimTomlSection name content)", OF built]
    by (auto elim: then_do_Value)
  note run = assms(1) [unfolded apply_mutations.simps then_do_step [where m = "build_step E (ClaimTomlSection name content)", OF built]
      outcome.case sum.case append_Nil then_do_step [where m = "flush_journal E [entry_of 0 st]", OF flush]]
  have undo: "case res of Inl r \<Rightarrow> rc_status r \<noteq> STATUS_PARTIAL_ROLLBACK \<longrightarrow> has_mode MODE_644 (ae_config_path E) s' | Inr _ \<Rightarrow> False"
    if "then_do (roll_back E why [(st, False)]) (\<lambda>r. give (Inl r)) t = (Value res, s')" for why t
    using that claim_rolled_back [OF _ _ st] by (auto simp: give_def elim!: then_do_Value)
  obtain y s3 where fwd: "forward E st s2 = (y, s3)" by (metis prod.exhaust)
  show ?thesis
  proof (cases y)
    case (Value v)
    from run fwd Value obtain ok s4 where ver: "verify_step E st s3 = (Value ok, s4)"
      and rest: "(if ok then give (Inr [(st, True)])
          else then_do (roll_back E (''verify failed on '' @ mutation_kind (ClaimTomlSection name content)) [(st, False)])
                 (\<lambda>r. give (Inl r))) s4 = (Value res, s')"
      by (auto elim: then_do_Value)
    have "has_mode MODE_644 (ae_config_path E) s4"
      using claim_forward [OF st fwd [unfolded Value]] untouched_files [OF touches_verify ver] by (simp add: has_mode_def)
    moreover have "\<not> ok \<Longrightarrow> case res of Inl r \<Rightarrow> rc_status r \<noteq> STATUS_PARTIAL_ROLLBACK \<longrightarrow> has_mode MODE_644 (ae_config_path E) s' | Inr _ \<Rightarrow> False"
      using rest undo by simp
    ultimately show ?thesis using rest st by (cases ok) (auto simp: give_def split: sum.splits)
  next
    case (Raised e)
    with run fwd have "then_do (roll_back E (''forward failed on '' @ mutation_kind (ClaimTomlSection name content) @ '': '' @ e) [(st, False)])
        (\<lambda>r. give (Inl r)) s3 = (Value res, s')" by simp
    from undo [OF this] show ?thesis by (auto split: sum.splits)
  qed (use run fwd in simp)
qed

text \<open>
  Claiming a section makes the config readable by everyone: after an apply of a claim over an existing
  config the file has mode 0644, whatever mode it had, committed or rolled back.
\<close>

theorem claim_opens_config:
  assumes "apply_plan E plan s = (Value (Some r), s')" "ip_mutations plan = [ClaimTomlSection name content]"
    and "ho_files s (ae_config_path E) = Some f" "rc_status r \<noteq> STATUS_PARTIAL_ROLLBACK"
  shows "\<exists>g. ho_files s' (ae_config_path E) = Some g \<and> hf_mode g = MODE_644"
proof -
  have "\<not> (SDK_API < ip_sdk_api plan \<or> ip_mutations plan = [])"
    using assms(1) by (auto simp: apply_plan_def give_def)
  note run = assms(1) [unfolded apply_plan_conclude if_not_P [OF this], unfolded assms(2)]
  from run obtain u s1 res s2 s3 where begun: "begin_journal E s = (Value u, s1)"
    and loop: "apply_mutations E 0 [ClaimTomlSection name content] [] [] s1 = (Value res, s2)"
    and con: "conclude E res s2 = (Value r, s3)" and after: "ho_files s' = ho_files s3"
    by (auto simp: give_def elim!: then_do_Value dest!: persist_frame finalize_cases(1)
        simp del: apply_mutations.simps)
  have "has_mode MODE_644 (ae_config_path E) s3"
  proof (cases res)
    case (Inl r')
    with claim_loop [OF loop] con begin_journal_cases(1) [OF begun] assms(3,4) show ?thesis
      by (auto simp: conclude_def give_def)
  next
    case (Inr steps)
    with claim_loop [OF loop] begin_journal_cases(1) [OF begun] assms(3) obtain st where
      s2: "has_mode MODE_644 (ae_config_path E) s2" and st: "steps = [(st, True)]" "claim_step E st" by auto
    from con Inr obtain ok s4 where checks: "post_apply_checks E s2 = (Value ok, s4)"
      and rest: "ok \<and> s3 = s4 \<or> roll_back E ''post-apply checks failed'' steps s4 = (Value r, s3)"
      by (auto simp: conclude_def give_def elim!: then_do_Value split: if_splits)
    have "has_mode MODE_644 (ae_config_path E) s4"
      using s2 untouched_files [OF touches_checks checks] by (simp add: has_mode_def)
    with rest claim_rolled_back [OF _ assms(4) st(2)] st(1) show ?thesis by auto
  qed
  with after show ?thesis by (simp add: has_mode_def)
qed

theorem claim_opens_config_witness:
  "map_option hf_mode (ho_files demo_host ''/c'') = Some 384
   \<and> (\<exists>g. ho_files (snd (apply_plan (demo_env all_work) (demo_plan [ClaimTomlSection ''s'' []]) demo_host)) ''/c'' = Some g
        \<and> hf_mode g = MODE_644)"
proof -
  let ?run = "apply_plan (demo_env all_work) (demo_plan [ClaimTomlSection ''s'' []]) demo_host"
  have c: "case fst ?run of Value (Some r) \<Rightarrow> rc_status r \<noteq> STATUS_PARTIAL_ROLLBACK | _ \<Rightarrow> False" by code_simp
  then obtain r where r: "fst ?run = Value (Some r)" "rc_status r \<noteq> STATUS_PARTIAL_ROLLBACK"
    by (auto split: outcome.splits option.splits)
  then have run: "?run = (Value (Some r), snd ?run)" by (metis prod.collapse)
  have ms: "ip_mutations (demo_plan [ClaimTomlSection ''s'' []]) = [ClaimTomlSection ''s'' []]"
    and f: "ho_files demo_host (ae_config_path (demo_env all_work)) = Some \<lparr>hf_bytes = [], hf_mode = 384\<rparr>"
    by (simp_all add: demo_plan_def demo_env_def demo_host_def)
  from claim_opens_config [OF run ms f r(2)] show ?thesis by (simp add: demo_env_def demo_host_def)
qed

text \<open>
  An apply forgets a pending journal: whatever interrupted apply is on record, a plan whose first mutation
  is refused ends rolled back, changes no file and drops the record, so nothing is left to recover.
\<close>

theorem pending_apply_forgotten:
  assumes "\<And>n. ae_fate E n = Works" "ip_sdk_api plan \<le> SDK_API"
    and "ip_mutations plan = m # ms" "build_step E m = give (Inl why)"
  shows "\<exists>r s'. apply_plan E plan s = (Value (Some r), s') \<and> rc_status r = STATUS_ROLLED_BACK
    \<and> ho_files s' = ho_files s \<and> recover R s' = (Value None, s')"
  using assms
  by (simp add: apply_plan_def begin_journal_def flush_journal_def finalize_journal_def persist_receipt_def
      roll_back_def then_do_def give_def works_syscall recover_def STATUS_ROLLED_BACK_def STATUS_PARTIAL_ROLLBACK_def)

theorem pending_apply_forgotten_witness:
  "\<exists>r s'. apply_plan (demo_env all_work) (demo_plan [RestartOrReload ''x'' ''stop'']) demo_crash = (Value (Some r), s')
     \<and> file_bytes s' ''/b/a'' = Some ''new'' \<and> recover (demo_env all_work) s' = (Value None, s')"
proof -
  have f: "file_bytes demo_crash ''/b/a'' = Some ''new''" by code_simp
  have w: "ae_fate (demo_env all_work) i = Works" for i by (simp add: demo_env_def all_work_def)
  have "build_step (demo_env all_work) (RestartOrReload ''x'' ''stop'') = give (Inl ''illegal restart action'')" by simp
  from pending_apply_forgotten [where plan = "demo_plan [RestartOrReload ''x'' ''stop'']" and s = demo_crash
      and R = "demo_env all_work", OF w _ _ this] f
  show ?thesis by (auto simp: demo_plan_def SDK_API_def file_bytes_def)
qed

end
