(* ===== verification/Caddy.thy ===== *)
theory Caddy
  imports Jobs Effects
begin

text \<open>
  The Caddy integration: \<open>caddy/sync.py\<close>. The drop-in directory is
  a dictionary of names and texts, changed by one system call at a time; the admin API is an arbitrary
  function of every exchange so far. The lock per directory is one run at a time; progress frames and
  wide log lines are left out.
\<close>

section \<open>The host\<close>

record caddy_post =
  cp_endpoint :: string
  cp_body :: string

text \<open>The text of the exception, or a status and a body; the latest exchange first.\<close>

type_synonym caddy_reply = "string + int \<times> string"
type_synonym caddy_log = "(caddy_post \<times> caddy_reply) list"

record caddy_host =
  cd_files :: "(string, string) dict"
  cd_main :: "string option"
  cd_posts :: caddy_log
  cd_calls :: nat

text \<open>
  The configured paths and what the code asks \<open>urlparse\<close>, \<open>pathlib\<close>, \<open>fnmatch\<close> and the admin API.
  \<open>ce_scheme\<close>, \<open>ce_hostname\<close> (empty for none) and \<open>ce_bad_port\<close> are of the admin URL; \<open>ce_decode\<close> reads UTF-8.
\<close>

record caddy_env =
  ce_admin_url :: string
  ce_scheme :: string
  ce_hostname :: string
  ce_bad_port :: bool
  ce_main_path :: string
  ce_drop_in :: string
  ce_drop_in_dir :: string
  ce_legacy :: string
  ce_base_join :: "string \<Rightarrow> string"
  ce_resolve :: "string \<Rightarrow> string"
  ce_parent :: "string \<Rightarrow> string"
  ce_name :: "string \<Rightarrow> string"
  ce_fnmatch :: "string \<Rightarrow> string \<Rightarrow> bool"
  ce_decode :: "string \<Rightarrow> string option"
  ce_net :: "caddy_log \<Rightarrow> caddy_post \<Rightarrow> caddy_reply"
  ce_fate :: "nat \<Rightarrow> fate"

definition disk_call :: "caddy_env \<Rightarrow> (caddy_host \<Rightarrow> caddy_host) \<Rightarrow> (caddy_host, unit) effect" where
  "disk_call E f s =
     (let s1 = s\<lparr>cd_calls := Suc (cd_calls s)\<rparr> in
      case ce_fate E (cd_calls s) of Works \<Rightarrow> (Value (), f s1) | Fails \<Rightarrow> (Raised ''OSError'', s1) | Dies \<Rightarrow> (Died, s1))"

section \<open>Imports of the main Caddyfile\<close>

definition before_comment :: "string \<Rightarrow> string" where
  "before_comment line = takeWhile (\<lambda>c. c \<noteq> CHR ''#'') line"

text \<open>The target of an import line, empty when the line is none.\<close>

definition import_target :: "string \<Rightarrow> string" where
  "import_target line =
     (if starts_with ''#'' (strip line) then []
      else let code = strip (before_comment (strip line)) in
        if starts_with ''import '' code then strip (drop (length ''import '') code) else [])"

definition imports_drop_in :: "caddy_env \<Rightarrow> string \<Rightarrow> bool" where
  "imports_drop_in E line =
     (let target = import_target line; drop_in = ce_resolve E (ce_drop_in E) in
      target \<noteq> [] \<and>
      (let p = (if starts_with ''/'' target then target else ce_base_join E target); name = ce_name E p in
       if list_ex (\<lambda>c. c \<in> set ''*?['') name
       then ce_resolve E (ce_parent E p) = ce_parent E drop_in \<and> ce_fnmatch E (ce_name E drop_in) name
       else ce_resolve E p = drop_in))"

text \<open>\<open>None\<close> when an import matches, else the error that blocks the start.\<close>

definition verify_drop_in_imported :: "caddy_env \<Rightarrow> (caddy_host, string option) effect" where
  "verify_drop_in_imported E s =
     (case cd_main s of
        None \<Rightarrow> (Value (Some (''Main Caddyfile not found: '' @ ce_main_path E)), s)
      | Some bytes \<Rightarrow>
          (case disk_call E (\<lambda>s. s) s of
             (Died, s1) \<Rightarrow> (Died, s1)
           | (Raised e, s1) \<Rightarrow> (Value (Some (''Could not read main Caddyfile '' @ ce_main_path E @ '': '' @ e)), s1)
           | (Value _, s1) \<Rightarrow>
               (case ce_decode E bytes of
                  None \<Rightarrow> (Raised ''UnicodeDecodeError'', s1)
                | Some content \<Rightarrow>
                    (Value (if list_ex (imports_drop_in E) (split_lines content) then None
                            else Some (''Main Caddyfile '' @ ce_main_path E @ '' does not import drop-in path ''
                                    @ ce_drop_in E @ ''. Add an '' @ quoted ''import'' @ '' directive (e.g. ''
                                    @ quoted (''import '' @ ce_drop_in E) @ '' or ''
                                    @ quoted (''import '' @ ce_drop_in_dir E @ ''/*.caddy'')
                                    @ '') and reload Caddy before starting the agent.'')),
                     s1))))"

text \<open>Snippet names, which stay named imports.\<close>

definition snippet_name :: "string \<Rightarrow> string" where
  "snippet_name raw =
     (let line = strip (before_comment raw) in
      if starts_with ''('' line \<and> CHR '')'' \<in> set line then strip (takeWhile (\<lambda>c. c \<noteq> CHR '')'') (tl line)) else [])"

definition snippet_names :: "string \<Rightarrow> string list" where
  "snippet_names content = filter (\<lambda>n. n \<noteq> []) (map snippet_name (split_lines content))"

definition absolutize_line :: "(string \<Rightarrow> string) \<Rightarrow> string list \<Rightarrow> string \<Rightarrow> string" where
  "absolutize_line base_join snippets line =
     (let target = import_target line in
      if target = [] \<or> target \<in> set snippets \<or> starts_with ''/'' target then line
      else replace_first target (base_join target) line)"

definition absolutize_imports :: "(string \<Rightarrow> string) \<Rightarrow> string \<Rightarrow> string" where
  "absolutize_imports base_join content =
     concat (map (absolutize_line base_join (snippet_names content)) (split_lines content))"

definition read_and_absolutize_imports :: "caddy_env \<Rightarrow> (caddy_host, string) effect" where
  "read_and_absolutize_imports E =
     then_do (disk_call E (\<lambda>s. s)) (\<lambda>_ s.
       case cd_main s of
         None \<Rightarrow> (Raised ''OSError'', s)
       | Some bytes \<Rightarrow>
           (case ce_decode E bytes of
              None \<Rightarrow> (Raised ''UnicodeDecodeError'', s)
            | Some content \<Rightarrow> (Value (absolutize_imports (ce_base_join E) content), s)))"

section \<open>The manifest and the plan\<close>

definition PER_TENANT_MAX_BYTES :: nat where "PER_TENANT_MAX_BYTES = 16384"

definition tenant_key_char :: "char \<Rightarrow> bool" where
  "tenant_key_char c \<longleftrightarrow> 48 \<le> ord_of c \<and> ord_of c \<le> 57 \<or> 65 \<le> ord_of c \<and> ord_of c \<le> 90
     \<or> 97 \<le> ord_of c \<and> ord_of c \<le> 122 \<or> c = CHR ''_'' \<or> c = CHR ''-''"

definition tenant_key_ok :: "string \<Rightarrow> bool" where
  "tenant_key_ok k \<longleftrightarrow> 1 \<le> length k \<and> length k \<le> 64 \<and> list_all tenant_key_char k"

definition tenant_entry_problem :: "string \<Rightarrow> json \<Rightarrow> string option" where
  "tenant_entry_problem k v =
     (case v of
        JStr frag \<Rightarrow>
          if \<not> tenant_key_ok k
          then Some (''tenant key '' @ py_repr k
                 @ '' is not a safe filename component (allowed: letters, digits, '' @ quoted ''_'' @ '', ''
                 @ quoted ''-'' @ ''; 1-64 chars)'')
          else if PER_TENANT_MAX_BYTES < utf8_len frag
          then Some (''tenant '' @ py_repr k @ '' fragment is '' @ nat_str (utf8_len frag)
                 @ '' bytes, exceeds per-bucket cap '' @ nat_str PER_TENANT_MAX_BYTES)
          else None
      | _ \<Rightarrow> Some ''tenants manifest keys and values must be strings'')"

definition fragment_of :: "json \<Rightarrow> string" where
  "fragment_of v = (case v of JStr s \<Rightarrow> s | _ \<Rightarrow> [])"

definition check_manifest :: "json \<Rightarrow> string + (string, string) dict" where
  "check_manifest v =
     (case v of
        JObj kvs \<Rightarrow>
          (case first_some (map (\<lambda>(k, v). tenant_entry_problem k v) kvs) of
             Some problem \<Rightarrow> Inl problem
           | None \<Rightarrow> Inr (map (\<lambda>(k, v). (k, fragment_of v)) kvs))
      | _ \<Rightarrow> Inl (''tenants manifest must be a JSON object, got '' @ type_name v))"

definition ends_with :: "string \<Rightarrow> string \<Rightarrow> bool" where
  "ends_with suffix s \<longleftrightarrow> starts_with (rev suffix) (rev s)"

text \<open>\<open>site-*.caddy\<close>; the star may stand for nothing.\<close>

definition managed :: "string \<Rightarrow> bool" where
  "managed n \<longleftrightarrow> starts_with ''site-'' n \<and> ends_with ''.caddy'' n \<and> 11 \<le> length n"

definition managed_name :: "string \<Rightarrow> string" where
  "managed_name k = ''site-'' @ k @ ''.caddy''"

definition INLINE_DELETE_CADENCE :: nat where "INLINE_DELETE_CADENCE = 1"

record reconcile_plan =
  pl_writes :: "(string, string) dict"
  pl_deletes :: "string list"
  pl_skipped :: "string list"
  pl_tripped :: bool

definition plan_reconcile :: "(string, string) dict \<Rightarrow> string list \<Rightarrow> string \<Rightarrow> bool \<Rightarrow> bool \<Rightarrow> reconcile_plan" where
  "plan_reconcile tenants on_disk legacy legacy_exists authorize_bulk =
     (let writes = map (\<lambda>(k, frag). (managed_name k, frag)) tenants;
          stale = filter (\<lambda>n. n \<notin> set (dict_keys writes)) on_disk;
          doomed = (if legacy \<noteq> [] \<and> legacy_exists \<and> legacy \<notin> set (dict_keys writes) then legacy # stale else stale);
          names = sort (remdups doomed)
      in if INLINE_DELETE_CADENCE < length names \<and> \<not> authorize_bulk
         then \<lparr>pl_writes = writes, pl_deletes = [], pl_skipped = names, pl_tripped = True\<rparr>
         else \<lparr>pl_writes = writes, pl_deletes = names, pl_skipped = [], pl_tripped = False\<rparr>)"

section \<open>The steps\<close>

text \<open>\<open>except OSError\<close>: the failed outcome of a step; other exceptions pass.\<close>

definition or_fail :: "(string \<Rightarrow> job_outcome) \<Rightarrow> (caddy_host, 'a) effect \<Rightarrow> (caddy_host, job_outcome + 'a) effect" where
  "or_fail k m s =
     (case m s of
        (Value x, s1) \<Rightarrow> (Value (Inr x), s1)
      | (Raised e, s1) \<Rightarrow> if e = ''OSError'' then (Value (Inl (k e)), s1) else (Raised e, s1)
      | (Died, s1) \<Rightarrow> (Died, s1))"

text \<open>\<open>_SyncFailure\<close> ends the steps.\<close>

definition next_step ::
  "(caddy_host, job_outcome + 'a) effect \<Rightarrow> ('a \<Rightarrow> (caddy_host, job_outcome) effect) \<Rightarrow> (caddy_host, job_outcome) effect" where
  "next_step m f = then_do m (\<lambda>x. case x of Inl outcome \<Rightarrow> give outcome | Inr y \<Rightarrow> f y)"

definition validate_manifest :: "string \<Rightarrow> json \<Rightarrow> job_outcome + (string, string) dict" where
  "validate_manifest region v =
     map_result (\<lambda>err. failure_outcome FConfigInvalid
       (''Rejected Caddy sync for region '' @ region @ '': '' @ err @ ''. The running Caddy is untouched.'') [])
       (check_manifest v)"

definition scan_and_plan :: "caddy_env \<Rightarrow> (string, string) dict \<Rightarrow> bool \<Rightarrow> (caddy_host, job_outcome + reconcile_plan) effect" where
  "scan_and_plan E tenants authorize =
     or_fail (\<lambda>e. failure_outcome FPersistFailed (''Failed to scan drop-in directory '' @ ce_drop_in_dir E @ '': '' @ e) [])
       (then_do (disk_call E (\<lambda>s. s)) (\<lambda>_.
        then_do (disk_call E (\<lambda>s. s)) (\<lambda>_ s.
          (Value (plan_reconcile tenants (filter managed (dict_keys (cd_files s))) (ce_legacy E)
             (dict_has (cd_files s) (ce_legacy E)) authorize), s))))"

definition tmp_name :: "string \<Rightarrow> string" where
  "tmp_name n = n @ ''.tmp''"

text \<open>The temporary file, then the rename; an empty fragment removes the file.\<close>

definition atomic_write_or_remove :: "caddy_env \<Rightarrow> string \<Rightarrow> string \<Rightarrow> (caddy_host, unit) effect" where
  "atomic_write_or_remove E n frag =
     (if frag = [] then disk_call E (\<lambda>s. s\<lparr>cd_files := dict_pop n (cd_files s)\<rparr>)
      else then_do (disk_call E (\<lambda>s. s\<lparr>cd_files := dict_set (tmp_name n) frag (cd_files s)\<rparr>)) (\<lambda>_.
        disk_call E (\<lambda>s. s\<lparr>cd_files := dict_set n frag (dict_pop (tmp_name n) (cd_files s))\<rparr>)))"

fun write_all :: "caddy_env \<Rightarrow> (string \<times> string) list \<Rightarrow> (caddy_host, unit) effect" where
  "write_all E [] = give ()"
| "write_all E ((n, frag) # ws) = then_do (atomic_write_or_remove E n frag) (\<lambda>_. write_all E ws)"

definition persist_plan :: "caddy_env \<Rightarrow> reconcile_plan \<Rightarrow> (caddy_host, job_outcome + unit) effect" where
  "persist_plan E plan =
     or_fail (\<lambda>e. failure_outcome FPersistFailed (''Failed to persist drop-in files to '' @ ce_drop_in_dir E @ '': '' @ e) [])
       (write_all E (pl_writes plan @ map (\<lambda>n. (n, [])) (pl_deletes plan)))"

text \<open>Whether the endpoint took the text, and the error. A failing call is a reply of the network.\<close>

definition post_caddyfile :: "caddy_env \<Rightarrow> string \<Rightarrow> string \<Rightarrow> (caddy_host, bool \<times> string) effect" where
  "post_caddyfile E endpoint fragment s =
     (if ce_scheme E \<notin> {''http'', ''https''} then (Value (False, ''Invalid admin URL scheme: '' @ py_repr (ce_scheme E)), s)
      else if ce_hostname E = [] then (Value (False, ''Admin URL missing hostname: '' @ py_repr (ce_admin_url E)), s)
      else if ce_bad_port E then (Raised ''ValueError'', s)
      else
        (let s1 = s\<lparr>cd_calls := Suc (cd_calls s)\<rparr>; p = \<lparr>cp_endpoint = endpoint, cp_body = fragment\<rparr>;
             reply = ce_net E (cd_posts s) p; s2 = s1\<lparr>cd_posts := (p, reply) # cd_posts s\<rparr>
         in if ce_fate E (cd_calls s) = Dies then (Died, s1)
            else case reply of
              Inl exc \<Rightarrow> (Value (False, ''Could not reach Caddy admin at '' @ ce_admin_url E @ '': '' @ exc), s2)
            | Inr (status, body) \<Rightarrow>
                (Value (if 200 \<le> status \<and> status < 300 then (True, [])
                        else (False, ''HTTP '' @ int_str status @ '': '' @ take 500 (strip body))), s2)))"

definition preflight_composed :: "caddy_env \<Rightarrow> (caddy_host, job_outcome + string) effect" where
  "preflight_composed E =
     then_do (or_fail (\<lambda>e. failure_outcome FReloadFailed (''Drop-in persisted but main Caddyfile read failed: '' @ e) [])
       (read_and_absolutize_imports E)) (\<lambda>r. case r of Inl outcome \<Rightarrow> give (Inl outcome) | Inr body \<Rightarrow>
         then_do (post_caddyfile E ''/adapt'' body) (\<lambda>(ok, err).
           give (if ok then Inr body
                 else Inl (failure_outcome FConfigInvalid
                   (''Composed Caddy config failed preflight (/adapt): '' @ err
                      @ ''. The running Caddy is untouched and still serves the old config. Common causes: an import target missing on disk, or two drop-ins declaring the same site address - check the files next to ''
                      @ ce_drop_in E @ ''.'') []))))"

definition reload_caddy :: "caddy_env \<Rightarrow> string \<Rightarrow> (caddy_host, job_outcome + unit) effect" where
  "reload_caddy E body =
     then_do (post_caddyfile E ''/load'' body) (\<lambda>(ok, err).
       give (if ok then Inr () else Inl (failure_outcome FReloadFailed (''Caddy admin /load rejected reload: '' @ err) [])))"

definition terminal_outcome :: "string \<Rightarrow> reconcile_plan \<Rightarrow> job_outcome" where
  "terminal_outcome region plan =
     (let extras = [(''region'', JStr region), (''tenants'', JInt (int (length (pl_writes plan)))),
                    (''deleted'', JInt (int (length (pl_deletes plan)))), (''rail_tripped'', JBool (pl_tripped plan))]
      in if pl_tripped plan
         then failure_outcome FDeleteRailTripped
           (''Delete rail tripped for region '' @ region @ '': the manifest would remove '' @ nat_str (length (pl_skipped plan))
              @ '' drop-in files ('' @ join '', '' (pl_skipped plan) @ ''), above the inline cadence of ''
              @ nat_str INLINE_DELETE_CADENCE
              @ ''. Writes were applied and those files keep serving; no delete was performed. If this is a deliberate bulk op (e.g. region decommission), re-dispatch with authorize_bulk set. Otherwise Storm''
              @ [CHR 0x27] @ ''s manifest is under-returning and should be investigated before the files are removed.'') extras
         else success_outcome (''Synced '' @ nat_str (length (pl_writes plan)) @ '' drop-in file(s), removed ''
                @ nat_str (length (pl_deletes plan)) @ '' for region '' @ region) extras)"

text \<open>One sync: the decoded params, then the steps.\<close>

definition sync_once :: "caddy_env \<Rightarrow> string \<Rightarrow> json \<Rightarrow> bool \<Rightarrow> (caddy_host, job_outcome) effect" where
  "sync_once E region tenants_raw authorize =
     next_step (give (validate_manifest region tenants_raw)) (\<lambda>tenants.
     next_step (scan_and_plan E tenants authorize) (\<lambda>plan.
     next_step (persist_plan E plan) (\<lambda>_.
     next_step (preflight_composed E) (\<lambda>body.
     next_step (reload_caddy E body) (\<lambda>_. give (terminal_outcome region plan))))))"

definition caddy_sync_handler :: "caddy_env \<Rightarrow> (string, json) dict \<Rightarrow> (caddy_host, job_outcome) effect" where
  "caddy_sync_handler E params =
     sync_once E (case dict_get params ''region'' of None \<Rightarrow> [] | Some v \<Rightarrow> json_to_str v)
       (case dict_get params ''tenants'' of None \<Rightarrow> JObj [] | Some v \<Rightarrow> v)
       (dict_get params ''authorize_bulk'' = Some (JStr ''true''))"

section \<open>Facts\<close>

definition is_tmp :: "string \<Rightarrow> bool" where
  "is_tmp n \<longleftrightarrow> ends_with ''.tmp'' n"

lemma is_tmp_tmp [simp]: "is_tmp (tmp_name n)"
  by (simp add: is_tmp_def ends_with_def tmp_name_def starts_with_def)

lemma managed_name_not_tmp [simp]: "\<not> is_tmp (managed_name k)"
  by (simp add: is_tmp_def ends_with_def managed_name_def starts_with_def)

lemma managed_managed_name [simp]: "managed (managed_name k)"
  by (simp add: managed_def managed_name_def ends_with_def starts_with_def)

lemma managed_not_tmp: "managed n \<Longrightarrow> \<not> is_tmp n"
  by (cases "rev n") (auto simp: managed_def is_tmp_def ends_with_def starts_with_def)

lemma managed_name_inj [simp]: "managed_name a = managed_name b \<longleftrightarrow> a = b"
  by (simp add: managed_name_def)

lemma disk_call_frame:
  "disk_call E f s = (x, t) \<Longrightarrow> x = Value () \<and> t = f (s\<lparr>cd_calls := Suc (cd_calls s)\<rparr>)
     \<or> (x = Raised ''OSError'' \<or> x = Died) \<and> t = s\<lparr>cd_calls := Suc (cd_calls s)\<rparr>"
  by (auto simp: disk_call_def Let_def split: fate.splits)

text \<open>What writing may do while it lasts, and what it has done when it returns.\<close>

definition keeps :: "string set \<Rightarrow> caddy_host \<Rightarrow> caddy_host \<Rightarrow> bool" where
  "keeps X s t \<longleftrightarrow> cd_posts t = cd_posts s \<and> cd_main t = cd_main s
     \<and> (\<forall>n. n \<notin> X \<longrightarrow> \<not> is_tmp n \<longrightarrow> dict_has (cd_files s) n \<longrightarrow> dict_has (cd_files t) n)"

lemma keeps_refl [simp]: "keeps X s s"
  by (simp add: keeps_def)

lemma keeps_trans: "keeps X s t \<Longrightarrow> keeps X t u \<Longrightarrow> keeps X s u"
  by (simp add: keeps_def)

lemma keeps_mono: "keeps X s t \<Longrightarrow> X \<subseteq> Y \<Longrightarrow> keeps Y s t"
  by (auto simp: keeps_def)

lemma has_set: "dict_has (dict_set k v d) n \<longleftrightarrow> n = k \<or> dict_has d n"
  by (auto simp: dict_has_def dict_simps)

lemma has_pop: "dict_has (dict_pop k d) n \<longleftrightarrow> n \<noteq> k \<and> dict_has d n"
  by (auto simp: dict_has_def dict_simps)

lemma keeps_write: "keeps {m. m = n \<and> frag = []} s (snd (atomic_write_or_remove E n frag s))"
proof (cases "frag = []")
  case True
  then show ?thesis
    by (auto simp: atomic_write_or_remove_def keeps_def disk_call_def Let_def has_pop split: fate.splits)
next
  case False
  then show ?thesis
    by (auto simp: atomic_write_or_remove_def keeps_def disk_call_def then_do_def Let_def has_set has_pop split: fate.splits)
qed

lemma keeps_write_all: "keeps {m. (m, []) \<in> set ws} s (snd (write_all E ws s))"
proof (induction ws arbitrary: s)
  case (Cons w ws)
  obtain n frag where w: "w = (n, frag)" by (cases w)
  let ?X = "{m. (m, []) \<in> set (w # ws)}"
  have "keeps ?X s (snd (then_do (atomic_write_or_remove E n frag) (\<lambda>_. write_all E ws) s))"
  proof (rule then_do_rel [where R = "keeps ?X"])
    show "keeps ?X t (snd (atomic_write_or_remove E n frag t))" for t
      by (rule keeps_mono [OF keeps_write]) (auto simp: w)
    show "keeps ?X t (snd (write_all E ws t))" for t
      by (rule keeps_mono [OF Cons.IH]) auto
  qed (rule keeps_trans)
  then show ?case by (simp add: w)
qed (simp add: give_def)

lemma write_Value:
  assumes "atomic_write_or_remove E n frag s = (Value u, t)" "\<not> is_tmp m"
  shows "dict_get (cd_files t) m = (if m = n then (if frag = [] then None else Some frag) else dict_get (cd_files s) m)"
proof (cases "frag = []")
  case True
  with assms(1) show ?thesis
    by (auto simp: atomic_write_or_remove_def dict_simps dest!: disk_call_frame)
next
  case False
  have "tmp_name n \<noteq> m" using assms(2) is_tmp_tmp by metis
  with assms(1) False show ?thesis
    by (auto simp: atomic_write_or_remove_def dict_simps elim!: then_do_Value dest!: disk_call_frame)
qed

lemma write_all_Value:
  assumes "write_all E ws s = (Value u, t)" "distinct (map fst ws)" "\<not> is_tmp m"
  shows "dict_get (cd_files t) m =
    (case map_of ws m of Some frag \<Rightarrow> if frag = [] then None else Some frag | None \<Rightarrow> dict_get (cd_files s) m)"
  using assms(1,2)
proof (induction ws arbitrary: s)
  case (Cons w ws)
  obtain n frag where w: "w = (n, frag)" by (cases w)
  from Cons.prems obtain y s1 where first: "atomic_write_or_remove E n frag s = (Value y, s1)"
    and rest: "write_all E ws s1 = (Value u, t)"
    by (auto simp: w elim!: then_do_Value)
  have "map_of ws n = None" using Cons.prems(2) by (auto simp: w map_of_eq_None_iff)
  with Cons.IH [OF rest] Cons.prems(2) write_Value [OF first assms(3)] show ?case
    by (auto simp: w split: option.split)
qed (simp add: give_def)

text \<open>The plan.\<close>

definition obsolete :: "(string, string) dict \<Rightarrow> string \<Rightarrow> (string, string) dict \<Rightarrow> string \<Rightarrow> bool" where
  "obsolete tenants legacy files n \<longleftrightarrow> dict_has files n \<and> (managed n \<or> n = legacy \<and> legacy \<noteq> [])
     \<and> n \<notin> managed_name ` set (dict_keys tenants)"

definition planned :: "caddy_env \<Rightarrow> (string, string) dict \<Rightarrow> bool \<Rightarrow> caddy_host \<Rightarrow> reconcile_plan" where
  "planned E tenants authorize s =
     plan_reconcile tenants (filter managed (dict_keys (cd_files s))) (ce_legacy E) (dict_has (cd_files s) (ce_legacy E)) authorize"

lemma plan_writes [simp]: "pl_writes (planned E tenants authorize s) = map (\<lambda>(k, frag). (managed_name k, frag)) tenants"
  by (simp add: planned_def plan_reconcile_def Let_def)

lemma plan_deletes:
  "set (pl_deletes (planned E tenants authorize s)) =
     (if pl_tripped (planned E tenants authorize s) then {} else {n. obsolete tenants (ce_legacy E) (cd_files s) n})"
  "distinct (pl_deletes (planned E tenants authorize s))"
  by (auto simp: planned_def plan_reconcile_def Let_def obsolete_def dict_has_iff image_iff)

lemma plan_rail: "length (pl_deletes (planned E tenants False s)) \<le> 1"
  by (simp add: planned_def plan_reconcile_def Let_def INLINE_DELETE_CADENCE_def)

definition plan_entries :: "reconcile_plan \<Rightarrow> (string \<times> string) list" where
  "plan_entries plan = pl_writes plan @ map (\<lambda>n. (n, [])) (pl_deletes plan)"

lemma managed_keys: "map fst (map (\<lambda>(k, frag). (managed_name k, frag)) tenants) = map managed_name (dict_keys tenants)"
  by (simp add: split_beta comp_def)

lemma plan_entries_distinct:
  assumes "dict_ok tenants"
  shows "distinct (map fst (plan_entries (planned E tenants authorize s)))"
proof -
  have "distinct (map managed_name (dict_keys tenants))"
    using assms by (simp add: distinct_map inj_on_def)
  moreover have "set (map managed_name (dict_keys tenants)) \<inter> set (pl_deletes (planned E tenants authorize s)) = {}"
    using plan_deletes(1) [of E tenants authorize s] by (auto simp: obsolete_def split: if_splits)
  ultimately show ?thesis
    unfolding plan_entries_def map_append plan_writes managed_keys
    using plan_deletes(2) [of E tenants authorize s] by (simp add: comp_def)
qed

lemma check_manifest_ok: "check_manifest (JObj kvs) = Inr tenants \<Longrightarrow> dict_ok kvs \<Longrightarrow> dict_ok tenants"
  by (auto simp: check_manifest_def comp_def split_beta split: option.splits)

text \<open>Each step: what it leaves, and that a failure of it is no success.\<close>

definition accepted :: "caddy_reply \<Rightarrow> bool" where
  "accepted reply \<longleftrightarrow> (case reply of Inl exc \<Rightarrow> False | Inr (status, body) \<Rightarrow> 200 \<le> status \<and> status < 300)"

definition main_body :: "caddy_env \<Rightarrow> caddy_host \<Rightarrow> string option" where
  "main_body E s = Option.bind (cd_main s) (\<lambda>bytes. map_option (absolutize_imports (ce_base_join E)) (ce_decode E bytes))"

definition not_done :: "(job_outcome + 'a) outcome \<Rightarrow> bool" where
  "not_done x \<longleftrightarrow> (case x of Value (Inl outcome) \<Rightarrow> \<not> jo_success outcome | Value (Inr y) \<Rightarrow> False | _ \<Rightarrow> True)"

lemma scan_step:
  assumes "scan_and_plan E tenants authorize s = (x, t)"
  shows "cd_files t = cd_files s \<and> cd_posts t = cd_posts s \<and> cd_main t = cd_main s
    \<and> (x = Value (Inr (planned E tenants authorize s)) \<or> not_done x)"
  using assms
  by (auto simp: scan_and_plan_def or_fail_def then_do_def disk_call_def planned_def not_done_def Let_def split: fate.splits)

lemma persist_step:
  assumes "persist_plan E plan s = (x, t)"
  shows "keeps {n. (n, []) \<in> set (plan_entries plan)} s t"
    and "x = Value (Inr ()) \<and> write_all E (plan_entries plan) s = (Value (), t) \<or> not_done x"
proof -
  obtain y t' where w: "write_all E (plan_entries plan) s = (y, t')" by (metis prod.exhaust)
  with assms have t: "t' = t" "x = Value (Inr ()) \<and> y = Value () \<or> not_done x"
    by (auto simp: persist_plan_def plan_entries_def or_fail_def not_done_def split: outcome.splits if_splits)
  show "keeps {n. (n, []) \<in> set (plan_entries plan)} s t"
    using keeps_write_all [of "plan_entries plan" s E] w t by simp
  show "x = Value (Inr ()) \<and> write_all E (plan_entries plan) s = (Value (), t) \<or> not_done x"
    using w t by auto
qed

definition posted :: "string \<Rightarrow> string \<Rightarrow> caddy_reply \<Rightarrow> caddy_post \<times> caddy_reply" where
  "posted endpoint body reply = (\<lparr>cp_endpoint = endpoint, cp_body = body\<rparr>, reply)"

lemma post_step:
  assumes "post_caddyfile E endpoint body s = (x, t)"
  shows "cd_files t = cd_files s \<and> cd_main t = cd_main s
    \<and> (cd_posts t = cd_posts s \<and> (\<forall>ok err. x = Value (ok, err) \<longrightarrow> \<not> ok)
       \<or> (\<exists>reply err. cd_posts t = posted endpoint body reply # cd_posts s \<and> x = Value (accepted reply, err)))"
proof -
  define reply where "reply = ce_net E (cd_posts s) \<lparr>cp_endpoint = endpoint, cp_body = body\<rparr>"
  have "cd_files t = cd_files s \<and> cd_main t = cd_main s
    \<and> (cd_posts t = cd_posts s \<and> (\<forall>ok err. x = Value (ok, err) \<longrightarrow> \<not> ok)
       \<or> cd_posts t = posted endpoint body reply # cd_posts s \<and> (\<exists>err. x = Value (accepted reply, err)))"
    using assms unfolding post_caddyfile_def Let_def posted_def reply_def [symmetric]
    by (auto simp: accepted_def split: if_splits sum.splits prod.splits)
  then show ?thesis by blast
qed

lemma read_main_step:
  assumes "read_and_absolutize_imports E s = (x, t)"
  shows "cd_files t = cd_files s \<and> cd_main t = cd_main s \<and> cd_posts t = cd_posts s
    \<and> (\<forall>body. x = Value body \<longrightarrow> main_body E s = Some body)"
  using assms
  by (auto simp: read_and_absolutize_imports_def then_do_def disk_call_def main_body_def Let_def split: fate.splits option.splits)

lemma preflight_step:
  assumes "preflight_composed E s = (x, t)"
  shows "cd_files t = cd_files s \<and> cd_main t = cd_main s
    \<and> (cd_posts t = cd_posts s \<and> not_done x
       \<or> (\<exists>body reply. cd_posts t = posted ''/adapt'' body reply # cd_posts s \<and> main_body E s = Some body
            \<and> (x = Value (Inr body) \<and> accepted reply \<or> not_done x)))"
proof -
  obtain y s1 where read: "read_and_absolutize_imports E s = (y, s1)" by (metis prod.exhaust)
  note r = read_main_step [OF read]
  show ?thesis
  proof (cases y)
    case (Value body)
    obtain z s2 where post: "post_caddyfile E ''/adapt'' body s1 = (z, s2)" by (metis prod.exhaust)
    from assms read Value post have x: "t = s2" "x = (case z of Value (ok, err) \<Rightarrow>
        Value (if ok then Inr body else Inl (failure_outcome FConfigInvalid
          (''Composed Caddy config failed preflight (/adapt): '' @ err
             @ ''. The running Caddy is untouched and still serves the old config. Common causes: an import target missing on disk, or two drop-ins declaring the same site address - check the files next to ''
             @ ce_drop_in E @ ''.'') [])) | Raised e \<Rightarrow> Raised e | Died \<Rightarrow> Died)"
      by (auto simp: preflight_composed_def then_do_def or_fail_def give_def split: outcome.splits prod.splits)
    with post_step [OF post] r Value show ?thesis
      by (auto simp: not_done_def split: outcome.splits if_splits)
  qed (use assms read r in \<open>auto simp: preflight_composed_def then_do_def or_fail_def give_def not_done_def split: if_splits\<close>)
qed

lemma reload_step:
  assumes "reload_caddy E body s = (x, t)"
  shows "cd_files t = cd_files s
    \<and> (cd_posts t = cd_posts s \<and> not_done x
       \<or> (\<exists>reply. cd_posts t = posted ''/load'' body reply # cd_posts s \<and> (x = Value (Inr ()) \<and> accepted reply \<or> not_done x)))"
proof -
  obtain z s2 where post: "post_caddyfile E ''/load'' body s = (z, s2)" by (metis prod.exhaust)
  with assms have "t = s2" "x = (case z of Value (ok, err) \<Rightarrow>
      Value (if ok then Inr () else Inl (failure_outcome FReloadFailed (''Caddy admin /load rejected reload: '' @ err) []))
      | Raised e \<Rightarrow> Raised e | Died \<Rightarrow> Died)"
    by (auto simp: reload_caddy_def then_do_def give_def split: outcome.splits prod.splits)
  with post_step [OF post] show ?thesis
    by (auto simp: not_done_def split: outcome.splits if_splits)
qed

text \<open>A step that is not done ends the run without success.\<close>

lemma next_not_done:
  assumes "m s = (x, s1)" "not_done x" "next_step m f s = (y, t)"
  shows "t = s1" "\<not> (\<exists>outcome. y = Value outcome \<and> jo_success outcome)"
  using assms by (auto simp: next_step_def then_do_def give_def not_done_def split: outcome.splits sum.splits)

lemma next_done: "m s = (Value (Inr v), s1) \<Longrightarrow> next_step m f s = f v s1"
  by (simp add: next_step_def then_do_def)

definition succeeded :: "job_outcome outcome \<Rightarrow> bool" where
  "succeeded x \<longleftrightarrow> (\<exists>outcome. x = Value outcome \<and> jo_success outcome)"

text \<open>The directory after a plan was written in full.\<close>

definition written :: "reconcile_plan \<Rightarrow> caddy_host \<Rightarrow> caddy_host \<Rightarrow> bool" where
  "written plan s t \<longleftrightarrow> (\<exists>E s1. cd_files s1 = cd_files s \<and> (\<exists>t1. write_all E (plan_entries plan) s1 = (Value (), t1)
     \<and> cd_files t1 = cd_files t))"

lemma sync_ends:
  assumes run: "sync_once E region v authorize s = (x, t)" and ok: "check_manifest v = Inr tenants"
  defines "plan \<equiv> planned E tenants authorize s"
  shows "(cd_posts t = cd_posts s \<and> \<not> succeeded x
      \<or> written plan s t \<and> (\<exists>body reply. main_body E s = Some body \<and>
           (cd_posts t = posted ''/adapt'' body reply # cd_posts s \<and> \<not> succeeded x
            \<or> accepted reply \<and> (\<exists>reply'. cd_posts t = posted ''/load'' body reply' # posted ''/adapt'' body reply # cd_posts s
                 \<and> (accepted reply' \<and> x = Value (terminal_outcome region plan) \<or> \<not> succeeded x)))))
    \<and> (\<forall>n. dict_has (cd_files s) n \<longrightarrow> \<not> is_tmp n \<longrightarrow> (n, []) \<notin> set (plan_entries plan) \<longrightarrow> dict_has (cd_files t) n)"
    (is "?posts t x \<and> ?kept t")
proof -
  have run1: "next_step (scan_and_plan E tenants authorize) (\<lambda>plan. next_step (persist_plan E plan) (\<lambda>_.
      next_step (preflight_composed E) (\<lambda>body. next_step (reload_caddy E body) (\<lambda>_. give (terminal_outcome region plan))))) s = (x, t)"
    using run ok by (simp add: sync_once_def next_step_def [of "give y" for y] validate_manifest_def then_do_def give_def)
  obtain x1 s1 where scan: "scan_and_plan E tenants authorize s = (x1, s1)" by (metis prod.exhaust)
  note f1 = scan_step [OF scan]
  show ?thesis
  proof (cases "not_done x1")
    case True
    from next_not_done [where m = "scan_and_plan E tenants authorize", OF scan True run1] f1 show ?thesis by (auto simp: succeeded_def)
  next
    case False
    with f1 scan have "scan_and_plan E tenants authorize s = (Value (Inr plan), s1)" by (auto simp: plan_def)
    note run2 = run1 [unfolded next_done [where m = "scan_and_plan E tenants authorize", OF this]]
    obtain x2 s2 where persist: "persist_plan E plan s1 = (x2, s2)" by (metis prod.exhaust)
    note f2 = persist_step [OF persist]
    from f2(1) f1 have keep: "cd_posts s2 = cd_posts s" "cd_main s2 = cd_main s" "?kept s2" by (auto simp: keeps_def)
    show ?thesis
    proof (cases "not_done x2")
      case True
      from next_not_done [where m = "persist_plan E plan", OF persist True run2] keep show ?thesis by (auto simp: succeeded_def)
    next
      case False
      with f2(2) have wr: "write_all E (plan_entries plan) s1 = (Value (), s2)" and x2: "x2 = Value (Inr ())" by auto
      note run3 = run2 [unfolded next_done [where m = "persist_plan E plan", OF persist [unfolded x2]]]
      have written: "written plan s u" if "cd_files u = cd_files s2" for u
        using wr f1 that unfolding written_def by metis
      obtain x3 s3 where pre: "preflight_composed E s2 = (x3, s3)" by (metis prod.exhaust)
      note f3 = preflight_step [OF pre]
      have body: "main_body E s2 = main_body E s" using keep(2) by (simp add: main_body_def)
      show ?thesis
      proof (cases "not_done x3")
        case True
        from next_not_done [where m = "preflight_composed E", OF pre True run3] have t: "t = s3" "\<not> succeeded x" by (auto simp: succeeded_def)
        from f3 True consider "cd_posts s3 = cd_posts s2"
          | b reply where "cd_posts s3 = posted ''/adapt'' b reply # cd_posts s2" "main_body E s2 = Some b" by blast
        then show ?thesis
        proof cases
          case 1
          with t f3 keep show ?thesis by auto
        next
          case 2
          with t f3 keep body written [of s3] show ?thesis by auto
        qed
      next
        case False
        with f3 obtain b reply where s3: "cd_posts s3 = posted ''/adapt'' b reply # cd_posts s2" "main_body E s2 = Some b"
          "x3 = Value (Inr b)" "accepted reply" by auto
        note run4 = run3 [unfolded next_done [where m = "preflight_composed E", OF pre [unfolded s3(3)]]]
        obtain x4 s4 where load: "reload_caddy E b s3 = (x4, s4)" by (metis prod.exhaust)
        note f4 = reload_step [OF load]
        have kept: "?kept s4" and wr: "written plan s s4" using f3 f4 keep(3) written [of s4] by auto
        show ?thesis
        proof (cases "not_done x4")
          case True
          from next_not_done [where m = "reload_caddy E b", OF load True run4] have t: "t = s4" "\<not> succeeded x" by (auto simp: succeeded_def)
          from f4 consider "cd_posts s4 = cd_posts s3" | reply' where "cd_posts s4 = posted ''/load'' b reply' # cd_posts s3" by blast
          then show ?thesis
          proof cases
            case 1
            with t s3 keep(1) body kept wr show ?thesis by auto
          next
            case 2
            with t s3 keep(1) body kept wr show ?thesis by auto
          qed
        next
          case False
          with f4 obtain reply' where s4: "cd_posts s4 = posted ''/load'' b reply' # cd_posts s3" "x4 = Value (Inr ())"
            "accepted reply'" by auto
          with run4 next_done [where m = "reload_caddy E b", OF load [unfolded s4(2)]] have "t = s4" "x = Value (terminal_outcome region plan)"
            by (auto simp: give_def)
          with s4 s3 keep(1) body kept wr show ?thesis by auto
        qed
      qed
    qed
  qed
qed

lemma sync_refused:
  assumes "sync_once E region v authorize s = (x, t)" "check_manifest v = Inl err"
  shows "t = s" "\<not> succeeded x"
  using assms by (auto simp: sync_once_def next_step_def validate_manifest_def then_do_def give_def succeeded_def)

lemma written_files:
  assumes "written (planned E tenants authorize s) s t" "dict_ok tenants" "\<not> is_tmp n"
  shows "dict_get (cd_files t) n = (case map_of (plan_entries (planned E tenants authorize s)) n of
     Some frag \<Rightarrow> if frag = [] then None else Some frag | None \<Rightarrow> dict_get (cd_files s) n)"
proof -
  from assms(1) obtain E' s1 t1 where files: "cd_files s1 = cd_files s" "cd_files t1 = cd_files t"
    and w: "write_all E' (plan_entries (planned E tenants authorize s)) s1 = (Value (), t1)" unfolding written_def by auto
  from write_all_Value [OF w plan_entries_distinct [OF assms(2)] assms(3)] show ?thesis unfolding files .
qed

lemma managed_files:
  assumes wr: "written (planned E tenants authorize s) s t" and ok: "dict_ok tenants"
    and good: "\<not> pl_tripped (planned E tenants authorize s)" and n: "managed n"
  shows "dict_get (cd_files t) n = (case map_of (map (\<lambda>(k, frag). (managed_name k, frag)) tenants) n of
     Some frag \<Rightarrow> if frag = [] then None else Some frag | None \<Rightarrow> None)"
proof -
  let ?plan = "planned E tenants authorize s" and ?ws = "map (\<lambda>(k, frag). (managed_name k, frag)) tenants"
  let ?ds = "map (\<lambda>n. (n, [])) (pl_deletes ?plan)"
  note files = written_files [OF wr ok managed_not_tmp [OF n]]
  show ?thesis
  proof (cases "map_of ?ws n")
    case None
    then have keys: "n \<notin> managed_name ` set (dict_keys tenants)" by (auto simp: map_of_eq_None_iff image_iff split_beta)
    show ?thesis
    proof (cases "dict_has (cd_files s) n")
      case True
      with keys n good have "n \<in> set (pl_deletes ?plan)" by (simp add: plan_deletes(1) obsolete_def)
      then have "map_of ?ds n = Some ([] :: string)" by (simp add: map_of_map_restrict)
      with files None show ?thesis by (simp add: plan_entries_def map_add_def)
    next
      case False
      then have "n \<notin> set (pl_deletes ?plan)" by (simp add: plan_deletes(1) obsolete_def)
      then have "map_of ?ds n = (None :: string option)" by (simp add: map_of_map_restrict)
      with files None False show ?thesis by (simp add: plan_entries_def map_add_def dict_has_def)
    qed
  next
    case (Some frag)
    then have "n \<in> managed_name ` set (dict_keys tenants)" by (force dest!: map_of_SomeD)
    then have "n \<notin> set (pl_deletes ?plan)" by (simp add: plan_deletes(1) obsolete_def)
    then have "map_of ?ds n = (None :: string option)" by (simp add: map_of_map_restrict)
    with files Some show ?thesis by (simp add: plan_entries_def map_add_def)
  qed
qed

text \<open>When every call works and Caddy takes what it is sent.\<close>

definition reachable_admin :: "caddy_env \<Rightarrow> bool" where
  "reachable_admin E \<longleftrightarrow> ce_scheme E \<in> {''http'', ''https''} \<and> ce_hostname E \<noteq> [] \<and> \<not> ce_bad_port E"

lemma works_disk: "(\<And>n. ce_fate E n = Works) \<Longrightarrow> disk_call E f s = (Value (), f (s\<lparr>cd_calls := Suc (cd_calls s)\<rparr>))"
  by (simp add: disk_call_def Let_def)

lemma works_write: "(\<And>n. ce_fate E n = Works) \<Longrightarrow> \<exists>t. atomic_write_or_remove E n frag s = (Value (), t)"
  by (cases "frag = []") (simp_all add: atomic_write_or_remove_def then_do_def works_disk)

lemma works_write_all: "(\<And>n. ce_fate E n = Works) \<Longrightarrow> \<exists>t. write_all E ws s = (Value (), t)"
proof (induction ws arbitrary: s)
  case (Cons w ws)
  obtain n frag where "w = (n, frag)" by (cases w)
  moreover obtain s1 where "atomic_write_or_remove E n frag s = (Value (), s1)"
    using works_write [OF Cons.prems] by blast
  moreover obtain t where "write_all E ws s1 = (Value (), t)" using Cons by blast
  ultimately show ?case by (auto simp: then_do_def)
qed (simp add: give_def)

lemma works_post:
  assumes "\<And>n. ce_fate E n = Works" "reachable_admin E" "\<And>h p. accepted (ce_net E h p)"
  shows "\<exists>err t. post_caddyfile E endpoint body s = (Value (True, err), t)"
  using assms(3) [of "cd_posts s" "\<lparr>cp_endpoint = endpoint, cp_body = body\<rparr>"] assms(1,2)
  by (auto simp: post_caddyfile_def Let_def reachable_admin_def accepted_def split: sum.splits)

lemma works_sync:
  assumes "\<And>n. ce_fate E n = Works" "reachable_admin E" "\<And>h p. accepted (ce_net E h p)"
    and body: "main_body E s = Some body" and ok: "check_manifest v = Inr tenants"
  shows "\<exists>t. sync_once E region v authorize s = (Value (terminal_outcome region (planned E tenants authorize s)), t)"
proof -
  let ?plan = "planned E tenants authorize s"
  obtain s1 where scan: "scan_and_plan E tenants authorize s = (Value (Inr ?plan), s1)"
    using assms(1) by (simp add: scan_and_plan_def or_fail_def then_do_def works_disk planned_def)
  obtain s2 where persist: "persist_plan E ?plan s1 = (Value (Inr ()), s2)"
    using works_write_all [OF assms(1), of "plan_entries ?plan" s1] by (auto simp: persist_plan_def plan_entries_def or_fail_def)
  have "main_body E s2 = main_body E s"
    using scan_step [OF scan] persist_step(1) [OF persist] by (simp add: main_body_def keeps_def)
  with body obtain bytes content where main: "cd_main s2 = Some bytes" "ce_decode E bytes = Some content"
    by (auto simp: main_body_def bind_eq_Some_conv)
  obtain s3 where read: "read_and_absolutize_imports E s2 = (Value (absolutize_imports (ce_base_join E) content), s3)"
    using assms(1) main by (simp add: read_and_absolutize_imports_def then_do_def works_disk)
  obtain err s4 where "post_caddyfile E ''/adapt'' (absolutize_imports (ce_base_join E) content) s3 = (Value (True, err), s4)"
    using works_post [OF assms(1-3)] by blast
  with read have pre: "preflight_composed E s2 = (Value (Inr (absolutize_imports (ce_base_join E) content)), s4)"
    by (simp add: preflight_composed_def then_do_def or_fail_def give_def)
  obtain err' s5 where "post_caddyfile E ''/load'' (absolutize_imports (ce_base_join E) content) s4 = (Value (True, err'), s5)"
    using works_post [OF assms(1-3)] by blast
  then have load: "reload_caddy E (absolutize_imports (ce_base_join E) content) s4 = (Value (Inr ()), s5)"
    by (simp add: reload_caddy_def then_do_def give_def)
  show ?thesis
    using scan persist pre load ok
    by (auto simp: sync_once_def next_step_def validate_manifest_def then_do_def give_def)
qed

text \<open>
  C29. The delete rail holds whatever fails: a sync that was not authorised to delete in bulk, of a manifest
  with no empty fragment, takes away at most one file of the directory, even if calls fail or the process
  dies half way.
\<close>

theorem caddy_rail_holds:
  assumes "sync_once E region v False s = (x, t)"
    and "\<And>kvs k. v = JObj kvs \<Longrightarrow> (k, JStr []) \<notin> set kvs"
  shows "card {n. dict_has (cd_files s) n \<and> \<not> dict_has (cd_files t) n \<and> \<not> is_tmp n} \<le> 1"
proof (cases "check_manifest v")
  case (Inl err)
  have "{n. dict_has (cd_files s) n \<and> \<not> dict_has (cd_files t) n \<and> \<not> is_tmp n} = {}"
    using sync_refused(1) [OF assms(1) Inl] by auto
  then show ?thesis by (metis card.empty zero_le_one)
next
  case (Inr tenants)
  let ?plan = "planned E tenants False s"
  obtain kvs where kvs: "v = JObj kvs" using Inr by (cases v) (auto simp: check_manifest_def)
  have frags: "frag \<noteq> []" if "(k, frag) \<in> set tenants" for k frag
  proof -
    from Inr kvs have t: "tenants = map (\<lambda>(k, v). (k, fragment_of v)) kvs"
      and none: "\<forall>p\<in>set kvs. tenant_entry_problem (fst p) (snd p) = None"
      by (auto simp: check_manifest_def split: option.splits)
    from that t obtain w where w: "(k, w) \<in> set kvs" "frag = fragment_of w" by auto
    with none have "tenant_entry_problem k w = None" by auto
    then obtain str where "w = JStr str" by (auto simp: tenant_entry_problem_def split: json.splits)
    with w assms(2) [OF kvs, of k] show ?thesis by (auto simp: fragment_of_def)
  qed
  have "{n. dict_has (cd_files s) n \<and> \<not> dict_has (cd_files t) n \<and> \<not> is_tmp n} \<subseteq> set (pl_deletes ?plan)"
  proof
    fix n assume "n \<in> {n. dict_has (cd_files s) n \<and> \<not> dict_has (cd_files t) n \<and> \<not> is_tmp n}"
    with sync_ends [OF assms(1) Inr] have "(n, []) \<in> set (plan_entries ?plan)" by blast
    with frags show "n \<in> set (pl_deletes ?plan)" by (auto simp: plan_entries_def)
  qed
  then have "card {n. dict_has (cd_files s) n \<and> \<not> dict_has (cd_files t) n \<and> \<not> is_tmp n} \<le> card (set (pl_deletes ?plan))"
    by (intro card_mono) auto
  also have "\<dots> \<le> length (pl_deletes ?plan)" by (rule card_length)
  finally show ?thesis using plan_rail [of E tenants s] by simp
qed

text \<open>
  C30. What Caddy is told to load is on disk and was checked: a sync posts at most a preflight and then a load
  of the same text, the composed main Caddyfile, the load only after the preflight was accepted, and either only once
  the whole plan is in the directory; a success means both were accepted and the directory holds exactly the
  manifest's fragments among the managed files.
\<close>

theorem caddy_loads_what_it_persisted:
  assumes "sync_once E region (JObj kvs) authorize s = (x, t)" "dict_ok kvs"
  shows "cd_posts t = cd_posts s \<and> \<not> succeeded x
    \<or> (\<exists>tenants body reply. check_manifest (JObj kvs) = Inr tenants \<and> main_body E s = Some body
        \<and> (let plan = planned E tenants authorize s in
           (\<forall>n. \<not> is_tmp n \<longrightarrow> dict_get (cd_files t) n =
              (case map_of (plan_entries plan) n of
                 Some frag \<Rightarrow> if frag = [] then None else Some frag | None \<Rightarrow> dict_get (cd_files s) n))
           \<and> (cd_posts t = posted ''/adapt'' body reply # cd_posts s \<and> \<not> succeeded x
              \<or> accepted reply \<and> (\<exists>reply'. cd_posts t = posted ''/load'' body reply' # posted ''/adapt'' body reply # cd_posts s
                   \<and> (succeeded x \<longrightarrow> accepted reply' \<and>
                       (\<forall>n. managed n \<longrightarrow> dict_get (cd_files t) n =
                          (case map_of (map (\<lambda>(k, frag). (managed_name k, frag)) tenants) n of
                             Some frag \<Rightarrow> if frag = [] then None else Some frag | None \<Rightarrow> None)))))))"
proof (cases "check_manifest (JObj kvs)")
  case (Inl err)
  with sync_refused [OF assms(1)] show ?thesis by simp
next
  case (Inr tenants)
  note ok = check_manifest_ok [OF Inr assms(2)]
  let ?plan = "planned E tenants authorize s"
  have fine: "\<not> pl_tripped ?plan" if "succeeded (Value (terminal_outcome region ?plan))"
    using that by (auto simp: succeeded_def terminal_outcome_def Let_def split: if_splits)
  from sync_ends [OF assms(1) Inr] consider "cd_posts t = cd_posts s" "\<not> succeeded x"
    | body reply where "written ?plan s t" "main_body E s = Some body"
        "cd_posts t = posted ''/adapt'' body reply # cd_posts s \<and> \<not> succeeded x
          \<or> accepted reply \<and> (\<exists>reply'. cd_posts t = posted ''/load'' body reply' # posted ''/adapt'' body reply # cd_posts s
               \<and> (accepted reply' \<and> x = Value (terminal_outcome region ?plan) \<or> \<not> succeeded x))"
    by blast
  then show ?thesis
  proof cases
    case 2
    have "\<forall>n. \<not> is_tmp n \<longrightarrow> dict_get (cd_files t) n =
        (case map_of (plan_entries ?plan) n of Some frag \<Rightarrow> if frag = [] then None else Some frag | None \<Rightarrow> dict_get (cd_files s) n)"
      using written_files [OF 2(1) ok] by blast
    moreover have "\<forall>n. managed n \<longrightarrow> dict_get (cd_files t) n =
        (case map_of (map (\<lambda>(k, frag). (managed_name k, frag)) tenants) n of
           Some frag \<Rightarrow> if frag = [] then None else Some frag | None \<Rightarrow> None)" if "succeeded (Value (terminal_outcome region ?plan))"
      using managed_files [OF 2(1) ok fine [OF that]] by blast
    ultimately show ?thesis
      using 2(2,3) by (intro disjI2 exI [of _ tenants] exI [of _ body] exI [of _ reply]) (auto simp: Let_def Inr)
  qed simp
qed

text \<open>
  C31. An empty fragment goes around the rail: a manifest that names every site with an empty fragment takes
  every managed file away without authorisation, and is reported as a success that deleted nothing.
\<close>

theorem empty_fragments_pass_the_rail:
  assumes "\<And>n. ce_fate E n = Works" "reachable_admin E" "\<And>h p. accepted (ce_net E h p)" "main_body E s = Some body"
    and keys: "list_all tenant_key_ok ks" "distinct ks"
    and sites: "\<And>n. dict_has (cd_files s) n \<Longrightarrow> managed n \<or> n = ce_legacy E \<Longrightarrow> n \<in> managed_name ` set ks"
  shows "\<exists>outcome t. sync_once E region (JObj (map (\<lambda>k. (k, JStr [])) ks)) False s = (Value outcome, t) \<and> jo_success outcome
    \<and> dict_get (jo_extras outcome) ''deleted'' = Some (JInt 0)
    \<and> dict_get (jo_extras outcome) ''rail_tripped'' = Some (JBool False)
    \<and> (\<forall>n. managed n \<longrightarrow> \<not> dict_has (cd_files t) n)"
proof -
  let ?v = "JObj (map (\<lambda>k. (k, JStr [])) ks)"
  define tenants where "tenants = map (\<lambda>k. (k, [] :: string)) ks"
  let ?plan = "planned E tenants False s"
  have "first_some (map (\<lambda>(k, v). tenant_entry_problem k v) (map (\<lambda>k. (k, JStr [])) ks)) = None"
    using keys(1) by (auto simp: list_all_iff tenant_entry_problem_def utf8_len_def)
  then have m: "check_manifest ?v = Inr tenants"
    unfolding check_manifest_def json.case by (simp only: option.case) (simp add: tenants_def fragment_of_def comp_def)
  have ok: "dict_ok tenants" using keys(2) by (simp add: tenants_def comp_def)
  have "\<not> obsolete tenants (ce_legacy E) (cd_files s) n" for n
    using sites [of n] by (auto simp: obsolete_def tenants_def comp_def)
  then have none: "set (pl_deletes ?plan) = {}" by (simp add: plan_deletes(1))
  have fine: "\<not> pl_tripped ?plan"
    using sites by (auto simp: planned_def plan_reconcile_def Let_def tenants_def comp_def dict_has_iff INLINE_DELETE_CADENCE_def
        filter_empty_conv image_iff split: if_splits)
  obtain t where run: "sync_once E region ?v False s = (Value (terminal_outcome region ?plan), t)"
    using works_sync [OF assms(1-4) m] by blast
  have good: "succeeded (Value (terminal_outcome region ?plan))"
    using fine by (simp add: succeeded_def terminal_outcome_def Let_def)
  then have "written ?plan s t" using sync_ends [OF run m] by blast
  then have "\<not> dict_has (cd_files t) n" if "managed n" for n
    using managed_files [OF _ ok fine that] by (auto simp: dict_has_def tenants_def split: option.splits dest!: map_of_SomeD)
  with run fine none good show ?thesis by (simp add: terminal_outcome_def Let_def)
qed

section \<open>A directory to try them on\<close>

definition demo_caddy :: "(nat \<Rightarrow> fate) \<Rightarrow> caddy_env" where
  "demo_caddy fate =
     \<lparr>ce_admin_url = ''http://localhost:2019'', ce_scheme = ''http'', ce_hostname = ''localhost'', ce_bad_port = False,
      ce_main_path = ''/c/Caddyfile'', ce_drop_in = ''/c/d/old.caddy'', ce_drop_in_dir = ''/c/d'', ce_legacy = ''old.caddy'',
      ce_base_join = (\<lambda>p. ''/c/'' @ p), ce_resolve = (\<lambda>p. p), ce_parent = (\<lambda>p. p), ce_name = (\<lambda>p. p),
      ce_fnmatch = (\<lambda>n p. n = p), ce_decode = Some, ce_net = (\<lambda>h p. Inr (200, [])), ce_fate = fate\<rparr>"

definition demo_dir :: caddy_host where
  "demo_dir = \<lparr>cd_files = [(''site-a.caddy'', ''A''), (''site-b.caddy'', ''B''), (''own.caddy'', ''C'')],
     cd_main = Some ''import d/x'', cd_posts = [], cd_calls = 0\<rparr>"

definition no_fault :: "nat \<Rightarrow> fate" where "no_fault n = Works"

definition fails_at :: "nat \<Rightarrow> nat \<Rightarrow> fate" where "fails_at k n = (if n = k then Fails else Works)"

text \<open>The plan removes one file; reading the main Caddyfile then fails.\<close>

theorem caddy_rail_holds_witness:
  "card {n. dict_has (cd_files demo_dir) n
      \<and> \<not> dict_has (cd_files (snd (sync_once (demo_caddy (fails_at 5)) ''r'' (JObj [(''a'', JStr ''Z'')]) False demo_dir))) n
      \<and> \<not> is_tmp n} \<le> 1
   \<and> \<not> dict_has (cd_files (snd (sync_once (demo_caddy (fails_at 5)) ''r'' (JObj [(''a'', JStr ''Z'')]) False demo_dir))) ''site-b.caddy''"
proof -
  let ?run = "sync_once (demo_caddy (fails_at 5)) ''r'' (JObj [(''a'', JStr ''Z'')]) False demo_dir"
  have run: "?run = (fst ?run, snd ?run)" by simp
  have "card {n. dict_has (cd_files demo_dir) n \<and> \<not> dict_has (cd_files (snd ?run)) n \<and> \<not> is_tmp n} \<le> 1"
    by (rule caddy_rail_holds [OF run]) auto
  moreover have "\<not> dict_has (cd_files (snd ?run)) ''site-b.caddy''" by code_simp
  ultimately show ?thesis by blast
qed

theorem caddy_loads_what_it_persisted_witness:
  "\<exists>t body reply reply'. snd (sync_once (demo_caddy no_fault) ''r'' (JObj [(''a'', JStr ''Z'')]) False demo_dir) = t
     \<and> main_body (demo_caddy no_fault) demo_dir = Some body
     \<and> cd_posts t = [posted ''/load'' body reply', posted ''/adapt'' body reply] \<and> accepted reply \<and> accepted reply'
     \<and> dict_get (cd_files t) ''site-a.caddy'' = Some ''Z'' \<and> dict_get (cd_files t) ''site-b.caddy'' = None"
proof -
  let ?kvs = "[(''a'', JStr ''Z'')]"
  let ?run = "sync_once (demo_caddy no_fault) ''r'' (JObj ?kvs) False demo_dir"
  have run: "?run = (fst ?run, snd ?run)" and ok: "dict_ok ?kvs" by simp_all
  have "case fst ?run of Value outcome \<Rightarrow> jo_success outcome | _ \<Rightarrow> False" by code_simp
  then have s: "succeeded (fst ?run)" by (auto simp: succeeded_def split: outcome.splits)
  have m: "check_manifest (JObj ?kvs) = Inr [(''a'', ''Z'')]" by code_simp
  have n: "managed ''site-a.caddy''" "managed ''site-b.caddy''" by code_simp+
  have e: "cd_posts demo_dir = []" by (simp add: demo_dir_def)
  from caddy_loads_what_it_persisted [OF run ok] s obtain body reply reply' where
    "main_body (demo_caddy no_fault) demo_dir = Some body" "accepted reply" "accepted reply'"
    "cd_posts (snd ?run) = posted ''/load'' body reply' # posted ''/adapt'' body reply # cd_posts demo_dir"
    "\<forall>n. managed n \<longrightarrow> dict_get (cd_files (snd ?run)) n =
       (case map_of (map (\<lambda>(k, frag). (managed_name k, frag)) [(''a'', ''Z'')]) n of
          Some frag \<Rightarrow> if frag = [] then None else Some frag | None \<Rightarrow> None)"
    unfolding Let_def m by auto
  with n e show ?thesis by (intro exI [of _ "snd ?run"] exI [of _ body] exI [of _ reply] exI [of _ reply']) (simp add: managed_name_def)
qed

theorem empty_fragments_pass_the_rail_witness:
  "dict_has (cd_files demo_dir) ''site-a.caddy'' \<and> dict_has (cd_files demo_dir) ''site-b.caddy''
   \<and> (\<exists>outcome t. sync_once (demo_caddy no_fault) ''r'' (JObj [(''a'', JStr []), (''b'', JStr [])]) False demo_dir = (Value outcome, t)
        \<and> jo_success outcome \<and> (\<forall>n. managed n \<longrightarrow> \<not> dict_has (cd_files t) n))"
proof -
  have a: "ce_fate (demo_caddy no_fault) n = Works" for n by (simp add: demo_caddy_def no_fault_def)
  have b: "reachable_admin (demo_caddy no_fault)" by code_simp
  have c: "accepted (ce_net (demo_caddy no_fault) h p)" for h p by (simp add: demo_caddy_def accepted_def)
  have d: "main_body (demo_caddy no_fault) demo_dir = Some ''import /c/d/x''" by code_simp
  have e: "list_all tenant_key_ok [''a'', ''b'']" "distinct [''a'', ''b'']" by code_simp+
  have f: "n \<in> managed_name ` set [''a'', ''b'']"
    if "dict_has (cd_files demo_dir) n" "managed n \<or> n = ce_legacy (demo_caddy no_fault)" for n
  proof -
    have "\<not> managed ''own.caddy''" by code_simp
    with that show ?thesis
      by (auto simp: demo_dir_def demo_caddy_def dict_has_def managed_name_def split: if_splits)
  qed
  from empty_fragments_pass_the_rail [OF a b c d e f, of "''r''"] show ?thesis
    by (auto simp: demo_dir_def dict_has_def)
qed

end
