(* ===== verification/Config.thy ===== *)
theory Config
  imports Commands Auth
begin

text \<open>
  The configuration file: \<open>config/__init__.py\<close> and the sections the integrations parse themselves
  (\<open>garage/config.py\<close>, \<open>caddy/config.py\<close>, \<open>rclone/config.py\<close>). The text has been read into TOML values;
  a path is its text, and \<open>path_of\<close> its parts where the code looks at them. Warnings are left out.
\<close>

section \<open>TOML values\<close>

text \<open>A float is a rational or one of the three values TOML spells \<open>inf\<close>, \<open>-inf\<close> and \<open>nan\<close>.\<close>

datatype number = Fin rat | PosInf | NegInf | NaN

datatype toml =
    TStr string
  | TInt int
  | TFloat number
  | TBool bool
  | TDate string
  | TArr "toml list"
  | TTab "(string \<times> toml) list"

type_synonym table = "(string, toml) dict"

fun num_less :: "number \<Rightarrow> number \<Rightarrow> bool" where
  "num_less (Fin a) (Fin b) \<longleftrightarrow> a < b"
| "num_less NegInf (Fin b) \<longleftrightarrow> True"
| "num_less NegInf PosInf \<longleftrightarrow> True"
| "num_less (Fin a) PosInf \<longleftrightarrow> True"
| "num_less a b \<longleftrightarrow> False"

definition num_le :: "number \<Rightarrow> number \<Rightarrow> bool" where
  "num_le a b \<longleftrightarrow> num_less a b \<or> a = b \<and> a \<noteq> NaN"

text \<open>A \<open>ConfigError\<close> with its text, or another exception.\<close>

datatype config_error = ConfigError string | OtherError string

type_synonym 'a loaded = "config_error + 'a"

definition refuse :: "string \<Rightarrow> 'a loaded" where
  "refuse msg = Inl (ConfigError msg)"

abbreviation demand :: "bool \<Rightarrow> string \<Rightarrow> unit loaded" where
  "demand b msg \<equiv> (if b then Inr () else refuse msg)"

definition in_section :: "string \<Rightarrow> string \<Rightarrow> string" where
  "in_section key ctx = quoted key @ '' in ['' @ ctx @ '']''"

datatype key_type = KStr | KInt | KFloat | KBool | KList | KTable

fun type_label :: "key_type \<Rightarrow> string" where
  "type_label KStr = ''string''"
| "type_label KInt = ''int''"
| "type_label KFloat = ''float''"
| "type_label KBool = ''bool''"
| "type_label KList = ''list''"
| "type_label KTable = ''table''"

fun toml_type :: "toml \<Rightarrow> string" where
  "toml_type (TStr s) = ''str''"
| "toml_type (TInt i) = ''int''"
| "toml_type (TFloat f) = ''float''"
| "toml_type (TBool b) = ''bool''"
| "toml_type (TDate kind) = kind"
| "toml_type (TArr vs) = ''list''"
| "toml_type (TTab kvs) = ''dict''"

text \<open>\<open>isinstance\<close>; a bool is an int.\<close>

fun instance_of :: "toml \<Rightarrow> key_type \<Rightarrow> bool" where
  "instance_of (TStr s) k \<longleftrightarrow> k = KStr"
| "instance_of (TInt i) k \<longleftrightarrow> k = KInt"
| "instance_of (TFloat f) k \<longleftrightarrow> k = KFloat"
| "instance_of (TBool b) k \<longleftrightarrow> k = KBool \<or> k = KInt"
| "instance_of (TDate s) k \<longleftrightarrow> False"
| "instance_of (TArr vs) k \<longleftrightarrow> k = KList"
| "instance_of (TTab kvs) k \<longleftrightarrow> k = KTable"

fun is_bool :: "toml \<Rightarrow> bool" where
  "is_bool (TBool b) \<longleftrightarrow> True"
| "is_bool v \<longleftrightarrow> False"

definition check_toml_type :: "toml \<Rightarrow> string \<Rightarrow> key_type list \<Rightarrow> string \<Rightarrow> toml loaded" where
  "check_toml_type v key types ctx =
     (if \<not> list_ex (instance_of v) types \<or> (is_bool v \<and> KBool \<notin> set types)
      then refuse (''Key '' @ quoted key @ '' in ['' @ ctx @ ''] must be '' @ join ''/'' (map type_label types)
             @ '', got '' @ toml_type v)
      else Inr v)"

definition require_key :: "table \<Rightarrow> string \<Rightarrow> key_type list \<Rightarrow> string \<Rightarrow> toml loaded" where
  "require_key section key types ctx =
     (case dict_get section key of
        None \<Rightarrow> refuse (''Missing required key '' @ quoted key @ '' in ['' @ ctx @ '']'')
      | Some v \<Rightarrow> check_toml_type v key types ctx)"

definition optional_key :: "table \<Rightarrow> string \<Rightarrow> key_type list \<Rightarrow> toml \<Rightarrow> string \<Rightarrow> toml loaded" where
  "optional_key section key types dflt ctx =
     (case dict_get section key of None \<Rightarrow> Inr dflt | Some v \<Rightarrow> check_toml_type v key types ctx)"

definition require_section :: "table \<Rightarrow> string \<Rightarrow> table loaded" where
  "require_section raw name =
     (case dict_get raw name of
        None \<Rightarrow> refuse (''Missing required config section: ['' @ name @ '']'')
      | Some (TTab section) \<Rightarrow> Inr section
      | Some v \<Rightarrow> refuse (''Config section ['' @ name @ ''] must be a table''))"

text \<open>What a checked value holds.\<close>

fun text_of :: "toml \<Rightarrow> string" where
  "text_of (TStr s) = s"
| "text_of v = []"

fun truth_of :: "toml \<Rightarrow> bool" where
  "truth_of (TBool b) = b"
| "truth_of v = False"

fun int_of :: "toml \<Rightarrow> int" where
  "int_of (TInt i) = i"
| "int_of v = 0"

fun items_of :: "toml \<Rightarrow> toml list" where
  "items_of (TArr vs) = vs"
| "items_of v = []"

definition require_text :: "table \<Rightarrow> string \<Rightarrow> string \<Rightarrow> string loaded" where
  "require_text section key ctx = map_sum id text_of (require_key section key [KStr] ctx)"

definition require_bool :: "table \<Rightarrow> string \<Rightarrow> string \<Rightarrow> bool loaded" where
  "require_bool section key ctx = map_sum id truth_of (require_key section key [KBool] ctx)"

definition optional_text :: "table \<Rightarrow> string \<Rightarrow> string \<Rightarrow> string \<Rightarrow> string loaded" where
  "optional_text section key dflt ctx = map_sum id text_of (optional_key section key [KStr] (TStr dflt) ctx)"

definition optional_bool :: "table \<Rightarrow> string \<Rightarrow> bool \<Rightarrow> string \<Rightarrow> bool loaded" where
  "optional_bool section key dflt ctx = map_sum id truth_of (optional_key section key [KBool] (TBool dflt) ctx)"

text \<open>\<open>float(v)\<close>; an int beyond the largest double raises. The rounding of a large int is left out.\<close>

definition FLOAT_LIMIT :: int where "FLOAT_LIMIT = 2 ^ 1024 - 2 ^ 970"

definition to_float :: "toml \<Rightarrow> number loaded" where
  "to_float v =
     (case v of
        TInt i \<Rightarrow> if FLOAT_LIMIT \<le> \<bar>i\<bar> then Inl (OtherError ''OverflowError'') else Inr (Fin (of_int i))
      | TFloat f \<Rightarrow> Inr f
      | _ \<Rightarrow> Inl (OtherError ''TypeError''))"

definition require_float :: "table \<Rightarrow> string \<Rightarrow> string \<Rightarrow> number loaded" where
  "require_float section key ctx = res_bind (require_key section key [KInt, KFloat] ctx) to_float"

text \<open>\<open>int(v)\<close> truncates towards zero; an infinity and \<open>nan\<close> raise.\<close>

definition to_int :: "toml \<Rightarrow> int loaded" where
  "to_int v =
     (case v of
        TInt i \<Rightarrow> Inr i
      | TFloat (Fin q) \<Rightarrow> Inr (if q < 0 then - \<lfloor>- q\<rfloor> else \<lfloor>q\<rfloor>)
      | TFloat NaN \<Rightarrow> Inl (OtherError ''ValueError'')
      | TFloat f \<Rightarrow> Inl (OtherError ''OverflowError'')
      | _ \<Rightarrow> Inl (OtherError ''TypeError''))"

text \<open>An int or a float that is at most zero.\<close>

definition not_positive :: "toml \<Rightarrow> bool" where
  "not_positive v = (case v of TInt i \<Rightarrow> i \<le> 0 | TFloat f \<Rightarrow> num_le f (Fin 0) | _ \<Rightarrow> False)"

section \<open>The core sections\<close>

record agent_config =
  ac_id :: string
  ac_pulse_token :: string
  ac_disabled :: "string list"

record dashboard_config =
  dc_url :: string
  dc_reconnect_min :: number
  dc_reconnect_max :: number
  dc_heartbeat :: number

record tls_config =
  tc_ca_cert :: string
  tc_client_cert :: string
  tc_client_key :: string

record auth_config =
  uc_hmac_secret :: string
  uc_max_age :: int

record metrics_config =
  mc_interval :: number
  mc_containers :: bool

record project_config =
  pc_project_dir :: string
  pc_compose_file :: string
  pc_service :: string
  pc_env_file :: "string option"

fun first_non_text :: "nat \<Rightarrow> toml list \<Rightarrow> (nat \<times> toml) option" where
  "first_non_text i [] = None"
| "first_non_text i (v # vs) = (if instance_of v KStr then first_non_text (Suc i) vs else Some (i, v))"

definition parse_agent :: "table \<Rightarrow> agent_config loaded" where
  "parse_agent raw =
     res_bind (require_section raw ''agent'') (\<lambda>s.
     res_bind (case dict_get s ''disabled_commands'' of
         None \<Rightarrow> Inr []
       | Some (TArr vs) \<Rightarrow>
           (case first_non_text 0 vs of
              None \<Rightarrow> Inr (map text_of vs)
            | Some (i, v) \<Rightarrow> refuse (quoted (''disabled_commands['' @ nat_str i @ '']'')
                @ '' in [agent] must be a string, got '' @ toml_type v))
       | Some v \<Rightarrow> refuse (in_section ''disabled_commands'' ''agent'' @ '' must be a list'')) (\<lambda>disabled.
     res_bind (require_text s ''id'' ''agent'') (\<lambda>id.
     res_bind (require_text s ''pulse_token'' ''agent'') (\<lambda>token.
     Inr \<lparr>ac_id = id, ac_pulse_token = token, ac_disabled = disabled\<rparr>))))"

definition parse_dashboard :: "table \<Rightarrow> dashboard_config loaded" where
  "parse_dashboard raw =
     res_bind (require_section raw ''dashboard'') (\<lambda>s.
     res_bind (require_text s ''url'' ''dashboard'') (\<lambda>url.
     res_bind (require_float s ''reconnect_min_seconds'' ''dashboard'') (\<lambda>rmin.
     res_bind (require_float s ''reconnect_max_seconds'' ''dashboard'') (\<lambda>rmax.
     res_bind (require_float s ''heartbeat_interval_seconds'' ''dashboard'') (\<lambda>heartbeat.
     res_bind (demand (\<not> (num_le rmin (Fin 0) \<or> num_le rmax (Fin 0))) ''Reconnect intervals must be positive'') (\<lambda>_.
     res_bind (demand (\<not> num_le heartbeat (Fin 0)) ''heartbeat_interval_seconds must be positive'') (\<lambda>_.
     res_bind (demand (\<not> num_less rmax rmin) ''reconnect_min_seconds must be <= reconnect_max_seconds'') (\<lambda>_.
     Inr \<lparr>dc_url = url, dc_reconnect_min = rmin, dc_reconnect_max = rmax, dc_heartbeat = heartbeat\<rparr>))))))))"

definition parse_tls :: "table \<Rightarrow> tls_config loaded" where
  "parse_tls raw =
     res_bind (require_section raw ''tls'') (\<lambda>s.
     res_bind (require_text s ''ca_cert'' ''tls'') (\<lambda>ca.
     res_bind (require_text s ''client_cert'' ''tls'') (\<lambda>cert.
     res_bind (require_text s ''client_key'' ''tls'') (\<lambda>key.
     Inr \<lparr>tc_ca_cert = ca, tc_client_cert = cert, tc_client_key = key\<rparr>))))"

definition parse_auth :: "table \<Rightarrow> auth_config loaded" where
  "parse_auth raw =
     res_bind (require_section raw ''auth'') (\<lambda>s.
     res_bind (require_key s ''command_max_age_seconds'' [KInt, KFloat] ''auth'') (\<lambda>max_age.
     res_bind (demand (\<not> not_positive max_age) ''command_max_age_seconds must be positive'') (\<lambda>_.
     res_bind (require_text s ''hmac_secret'' ''auth'') (\<lambda>secret.
     res_bind (to_int max_age) (\<lambda>age.
     Inr \<lparr>uc_hmac_secret = secret, uc_max_age = age\<rparr>)))))"

definition parse_metrics :: "table \<Rightarrow> metrics_config loaded" where
  "parse_metrics raw =
     res_bind (require_section raw ''metrics'') (\<lambda>s.
     res_bind (require_float s ''push_interval_seconds'' ''metrics'') (\<lambda>interval.
     res_bind (demand (\<not> num_le interval (Fin 0)) ''push_interval_seconds must be positive'') (\<lambda>_.
     res_bind (require_bool s ''collect_containers'' ''metrics'') (\<lambda>containers.
     Inr \<lparr>mc_interval = interval, mc_containers = containers\<rparr>))))"

text \<open>\<open>None\<close> as a dflt passes no type check, so an absent env file stays absent.\<close>

definition parse_project :: "table \<Rightarrow> project_config loaded" where
  "parse_project raw =
     res_bind (require_section raw ''project'') (\<lambda>s.
     res_bind (case dict_get s ''env_file'' of None \<Rightarrow> Inr None
                | Some v \<Rightarrow> map_sum id (\<lambda>t. Some (text_of t)) (check_toml_type v ''env_file'' [KStr] ''project'')) (\<lambda>env_file.
     res_bind (require_text s ''project_dir'' ''project'') (\<lambda>dir.
     res_bind (require_text s ''compose_file'' ''project'') (\<lambda>compose.
     res_bind (require_text s ''docker_service_name'' ''project'') (\<lambda>service.
     Inr \<lparr>pc_project_dir = dir, pc_compose_file = compose, pc_service = service, pc_env_file = env_file\<rparr>)))))"

definition parse_storage :: "table \<Rightarrow> string loaded" where
  "parse_storage raw = res_bind (require_section raw ''storage'') (\<lambda>s. require_text s ''db_path'' ''storage'')"

section \<open>Commands of the file\<close>

definition PROTECTED_PLACEHOLDERS :: "string list" where
  "PROTECTED_PLACEHOLDERS = [''project_dir'', ''compose_file'', ''env_file'']"

text \<open>The two things \<open>re\<close> decides: whether a pattern compiles, and its error.\<close>

definition parse_one_param :: "regex \<Rightarrow> string \<Rightarrow> toml \<Rightarrow> string \<Rightarrow> param_def loaded" where
  "parse_one_param rx pname pentry label =
     (let plabel = label @ ''.params.'' @ pname in
      case pentry of
        TTab t \<Rightarrow>
          res_bind (require_text t ''placeholder'' plabel) (\<lambda>placeholder.
          res_bind (demand (placeholder = pname) (in_section ''placeholder'' plabel @ '' must match the table key ''
            @ py_repr pname @ '', got '' @ py_repr placeholder)) (\<lambda>_.
          res_bind (demand (placeholder \<notin> set PROTECTED_PLACEHOLDERS) (in_section ''placeholder'' plabel
            @ '' must not override a protected placeholder: '' @ py_repr placeholder)) (\<lambda>_.
          res_bind (case dict_get t ''default'' of None \<Rightarrow> Inr JNull
                     | Some v \<Rightarrow> map_sum id (\<lambda>t. JStr (text_of t)) (check_toml_type v ''default'' [KStr] plabel)) (\<lambda>dflt.
          res_bind (require_text t ''pattern'' plabel) (\<lambda>pattern.
          res_bind (case re_error rx pattern of None \<Rightarrow> Inr ()
                     | Some err \<Rightarrow> refuse (in_section ''pattern'' plabel @ '' is not valid regex: '' @ err)) (\<lambda>_.
          res_bind (optional_text t ''description'' [] plabel) (\<lambda>description.
          res_bind (optional_bool t ''secret'' False plabel) (\<lambda>secret.
          (let p = \<lparr>pd_placeholder = placeholder, pd_default = dflt, pd_pattern = Some pattern,
                    pd_description = description, pd_max_bytes = None, pd_secret = secret, pd_schema = None\<rparr>
           in if param_def_fault rx p = None then Inr p else refuse (''['' @ plabel @ '']''))))))))))
      | v \<Rightarrow> refuse (''['' @ plabel @ ''] must be a table''))"

fun parse_params :: "regex \<Rightarrow> (string \<times> toml) list \<Rightarrow> string \<Rightarrow> (string, param_def) dict \<Rightarrow> (string, param_def) dict loaded" where
  "parse_params rx [] label acc = Inr acc"
| "parse_params rx ((pname, pentry) # ps) label acc =
     res_bind (parse_one_param rx pname pentry label) (\<lambda>p. parse_params rx ps label (dict_set (pd_placeholder p) p acc))"

text \<open>A spec of a subprocess; the confirmation flag and the description are checked and not kept.\<close>

definition parse_one_command :: "regex \<Rightarrow> string \<Rightarrow> toml \<Rightarrow> command_spec loaded" where
  "parse_one_command rx name entry =
     (let label = ''commands.'' @ name in
      case entry of
        TTab t \<Rightarrow>
          res_bind (require_text t ''group'' label) (\<lambda>grp.
          res_bind (demand (grp \<noteq> []) (in_section ''group'' label @ '' must not be empty'')) (\<lambda>_.
          res_bind (map_sum id items_of (require_key t ''command'' [KList] label)) (\<lambda>argv.
          res_bind (demand (argv \<noteq> []) (in_section ''command'' label @ '' must be a non-empty list'')) (\<lambda>_.
          res_bind (case first_non_text 0 argv of None \<Rightarrow> Inr (map text_of argv)
                     | Some (i, v) \<Rightarrow> refuse (in_section (''command['' @ nat_str i @ '']'') label
                         @ '' must be a string, got '' @ toml_type v)) (\<lambda>cmd.
          res_bind (demand (starts_with ''/'' (hd cmd)) (in_section ''command[0]'' label
            @ '' must be an absolute path (starts with /), got '' @ py_repr (hd cmd))) (\<lambda>_.
          res_bind (map_sum id int_of (require_key t ''timeout'' [KInt] label)) (\<lambda>timeout.
          res_bind (demand (0 < timeout) (in_section ''timeout'' label @ '' must be positive, got '' @ int_str timeout)) (\<lambda>_.
          res_bind (optional_bool t ''requires_confirmation'' False label) (\<lambda>confirmation.
          res_bind (optional_bool t ''sensitive_output'' False label) (\<lambda>sensitive.
          res_bind (optional_bool t ''long_running'' False label) (\<lambda>long_run.
          res_bind (demand (\<not> long_run) (''['' @ label @ '']: '' @ quoted ''long_running''
            @ '' is not supported for config-defined commands. Long-running (job) commands are contributed by integrations, which supply the handler; a config command is always a subprocess. Remove the key.'')) (\<lambda>_.
          res_bind (optional_text t ''description'' [] label) (\<lambda>description.
          res_bind (case dict_get t ''params'' of
              None \<Rightarrow> Inr []
            | Some (TTab ps) \<Rightarrow> parse_params rx ps label []
            | Some v \<Rightarrow> refuse (in_section ''params'' label @ '' must be a table'')) (\<lambda>params.
          Inr \<lparr>cs_group = grp, cs_command = cmd, cs_timeout = timeout, cs_mode = SubprocessMode,
               cs_sensitive_output = sensitive, cs_read_only = False, cs_self_reconciling = False, cs_handler = None,
               cs_params = params, cs_result = None, cs_retry_window_s = None, cs_authorize = False\<rparr>))))))))))))))
      | v \<Rightarrow> refuse (''['' @ label @ ''] must be a table''))"

fun parse_command_list :: "regex \<Rightarrow> (string \<times> toml) list \<Rightarrow> command_registry loaded" where
  "parse_command_list rx [] = Inr []"
| "parse_command_list rx ((name, entry) # es) =
     res_bind (parse_one_command rx name entry) (\<lambda>spec.
     res_bind (parse_command_list rx es) (\<lambda>rest. Inr ((name, spec) # rest)))"

definition parse_commands :: "regex \<Rightarrow> table \<Rightarrow> command_registry loaded" where
  "parse_commands rx raw =
     (case dict_get raw ''commands'' of
        None \<Rightarrow> Inr []
      | Some (TTab es) \<Rightarrow> parse_command_list rx es
      | Some v \<Rightarrow> refuse ''[commands] must be a table'')"

section \<open>Deploy probes\<close>

text \<open>
  \<open>Path(s).parts\<close> of an absolute path: the root, two slashes being a root of their own, then the parts
  that are neither empty nor a single dot. A relative path has no root.
\<close>

definition path_of :: "string \<Rightarrow> string list" where
  "path_of s =
     (let parts = filter (\<lambda>p. p \<noteq> [] \<and> p \<noteq> ''.'') (split_on (CHR ''/'') s) in
      if starts_with ''//'' s \<and> \<not> starts_with ''///'' s then ''//'' # parts
      else if starts_with ''/'' s then ''/'' # parts else parts)"

definition path_str :: "string list \<Rightarrow> string" where
  "path_str p = (case p of [] \<Rightarrow> ''.'' | base # parts \<Rightarrow>
     if base = ''/'' \<or> base = ''//'' then base @ join ''/'' parts else join ''/'' p)"

text \<open>\<open>candidate == root or root in candidate.parents\<close>.\<close>

definition is_within :: "string list \<Rightarrow> string list \<Rightarrow> bool" where
  "is_within candidate base \<longleftrightarrow> take (length base) candidate = base"

definition DEPLOY_MAX_DEPTH_CEILING :: int where "DEPLOY_MAX_DEPTH_CEILING = 8"
definition DEPLOY_MAX_BYTES_CEILING :: int where "DEPLOY_MAX_BYTES_CEILING = 1048576"
definition DEPLOY_DEFAULT_DEPTH :: int where "DEPLOY_DEFAULT_DEPTH = 3"
definition DEPLOY_DEFAULT_BYTES :: int where "DEPLOY_DEFAULT_BYTES = 65536"

record deploy_probe =
  dp_subject :: string
  dp_units :: "string list"
  dp_expected_root :: "string list"
  dp_search_roots :: "string list list"
  dp_ports :: "int list"
  dp_max_depth :: int
  dp_max_bytes :: int

definition word_char :: "char \<Rightarrow> bool" where
  "word_char c \<longleftrightarrow> 48 \<le> ord_of c \<and> ord_of c \<le> 57 \<or> 65 \<le> ord_of c \<and> ord_of c \<le> 90
     \<or> 97 \<le> ord_of c \<and> ord_of c \<le> 122 \<or> c = CHR ''_'' \<or> c = CHR ''-''"

definition subject_ok :: "string \<Rightarrow> bool" where
  "subject_ok s \<longleftrightarrow> 1 \<le> length s \<and> length s \<le> 64 \<and> list_all (\<lambda>c. word_char c \<or> c = CHR ''.'') s"

fun toml_repr :: "toml \<Rightarrow> string" where
  "toml_repr (TStr s) = py_repr s"
| "toml_repr (TInt i) = int_str i"
| "toml_repr (TBool b) = (if b then ''True'' else ''False'')"
| "toml_repr v = ''...''"

definition require_str_list :: "table \<Rightarrow> string \<Rightarrow> string \<Rightarrow> string list loaded" where
  "require_str_list entry key ctx =
     res_bind (map_sum id items_of (require_key entry key [KList] ctx)) (\<lambda>values.
     res_bind (demand (values \<noteq> []) (in_section key ctx @ '' must not be empty'')) (\<lambda>_.
     case find (\<lambda>v. \<not> instance_of v KStr \<or> strip (text_of v) = []) values of
       Some v \<Rightarrow> refuse (in_section key ctx @ '' must be a list of non-empty strings, got '' @ toml_repr v)
     | None \<Rightarrow> Inr (map text_of values)))"

definition abs_path :: "string \<Rightarrow> string \<Rightarrow> string \<Rightarrow> string list loaded" where
  "abs_path value key ctx =
     res_bind (demand (starts_with ''/'' value) (in_section key ctx @ '' must be absolute, got '' @ py_repr value)) (\<lambda>_.
     res_bind (demand (''..'' \<notin> set (path_of value))
       (in_section key ctx @ '' must not contain '' @ quoted ''..'' @ '', got '' @ py_repr value)) (\<lambda>_.
     Inr (path_of value)))"

fun abs_paths :: "string list \<Rightarrow> string \<Rightarrow> string \<Rightarrow> string list list loaded" where
  "abs_paths [] key ctx = Inr []"
| "abs_paths (v # vs) key ctx =
     res_bind (abs_path v key ctx) (\<lambda>p. res_bind (abs_paths vs key ctx) (\<lambda>ps. Inr (p # ps)))"

fun check_ports :: "toml list \<Rightarrow> string \<Rightarrow> int list loaded" where
  "check_ports [] ctx = Inr []"
| "check_ports (v # vs) ctx =
     (case v of
        TInt i \<Rightarrow>
          if 1 \<le> i \<and> i \<le> 65535 then res_bind (check_ports vs ctx) (\<lambda>ps. Inr (i # ps))
          else refuse (in_section ''ports'' ctx @ '' must be 1-65535, got '' @ int_str i)
      | _ \<Rightarrow> refuse (in_section ''ports'' ctx @ '' must be integers, got '' @ toml_repr v))"

definition bounded_int :: "table \<Rightarrow> string \<Rightarrow> string \<Rightarrow> int \<Rightarrow> int \<Rightarrow> int \<Rightarrow> int loaded" where
  "bounded_int entry key ctx dflt low high =
     res_bind (map_sum id int_of (optional_key entry key [KInt] (TInt dflt) ctx)) (\<lambda>v.
     res_bind (demand (low \<le> v \<and> v \<le> high)
       (in_section key ctx @ '' must be '' @ int_str low @ ''-'' @ int_str high @ '', got '' @ int_str v)) (\<lambda>_. Inr v))"

definition parse_one_deploy_probe :: "string \<Rightarrow> table \<Rightarrow> deploy_probe loaded" where
  "parse_one_deploy_probe subject entry =
     (let ctx = ''investigate.deploy.'' @ subject in
      res_bind (demand (subject_ok subject)
        (''subject name must be alphanumeric/underscore/hyphen/dot, 1-64 chars, got '' @ py_repr subject)) (\<lambda>_.
      res_bind (require_str_list entry ''units'' ctx) (\<lambda>units.
      res_bind (case find (\<lambda>u. CHR ''/'' \<in> set u) units of None \<Rightarrow> Inr ()
                 | Some u \<Rightarrow> refuse (in_section ''units'' ctx @ '' holds systemd unit names, not paths; got '' @ py_repr u)) (\<lambda>_.
      res_bind (res_bind (require_text entry ''expected_root'' ctx) (\<lambda>v. abs_path v ''expected_root'' ctx)) (\<lambda>base.
      res_bind (res_bind (require_str_list entry ''search_roots'' ctx) (\<lambda>vs. abs_paths vs ''search_roots'' ctx)) (\<lambda>search.
      res_bind (demand (list_ex (is_within base) search)
        (quoted ''expected_root'' @ '' '' @ py_repr (path_str base) @ '' in ['' @ ctx @ ''] is not inside any of ''
           @ quoted ''search_roots'' @ ''; the probe could never look at it'')) (\<lambda>_.
      res_bind (res_bind (map_sum id items_of (optional_key entry ''ports'' [KList] (TArr []) ctx)) (\<lambda>vs. check_ports vs ctx)) (\<lambda>ports.
      res_bind (bounded_int entry ''max_depth'' ctx DEPLOY_DEFAULT_DEPTH 1 DEPLOY_MAX_DEPTH_CEILING) (\<lambda>depth.
      res_bind (bounded_int entry ''max_bytes'' ctx DEPLOY_DEFAULT_BYTES 1024 DEPLOY_MAX_BYTES_CEILING) (\<lambda>bytes.
      Inr \<lparr>dp_subject = subject, dp_units = units, dp_expected_root = base, dp_search_roots = search, dp_ports = ports,
           dp_max_depth = depth, dp_max_bytes = bytes\<rparr>))))))))))"

text \<open>The subjects' table; a container that is no table is fatal.\<close>

definition deploy_subjects :: "table \<Rightarrow> (string, toml) dict loaded" where
  "deploy_subjects raw =
     (case (case dict_get raw ''investigate'' of None \<Rightarrow> TTab [] | Some v \<Rightarrow> v) of
        TTab t \<Rightarrow>
          (case (case dict_get t ''deploy'' of None \<Rightarrow> TTab [] | Some v \<Rightarrow> v) of
             TTab subjects \<Rightarrow> Inr subjects
           | _ \<Rightarrow> refuse (quoted ''investigate.deploy'' @ '' must be a table of subjects''))
      | _ \<Rightarrow> refuse (quoted ''investigate'' @ '' must be a table''))"

text \<open>An invalid subject is skipped; only a \<open>ConfigError\<close> is caught.\<close>

fun probes_of :: "(string \<times> table) list \<Rightarrow> (string, deploy_probe) dict loaded" where
  "probes_of [] = Inr []"
| "probes_of ((subject, t) # ts) =
     (case parse_one_deploy_probe subject t of
        Inr p \<Rightarrow> res_bind (probes_of ts) (\<lambda>ps. Inr ((subject, p) # ps))
      | Inl (ConfigError msg) \<Rightarrow> probes_of ts
      | Inl e \<Rightarrow> Inl e)"

definition tables_only :: "(string \<times> toml) list \<Rightarrow> (string \<times> table) list" where
  "tables_only kvs = List.map_filter (\<lambda>(k, v). case v of TTab t \<Rightarrow> Some (k, t) | _ \<Rightarrow> None) kvs"

definition parse_deploy_probes :: "table \<Rightarrow> (string, deploy_probe) dict loaded" where
  "parse_deploy_probes raw = res_bind (deploy_subjects raw) (\<lambda>subjects. probes_of (tables_only subjects))"

definition deploy_probe_tables :: "table \<Rightarrow> (string, table) dict loaded" where
  "deploy_probe_tables raw = map_sum id tables_only (deploy_subjects raw)"

text \<open>A subject an integration contributes.\<close>

record sdk_subject =
  ss_subject :: string
  ss_units :: "string list"
  ss_expected_root :: string
  ss_search_roots :: "string list"
  ss_ports :: "int list"
  ss_max_depth :: "int option"
  ss_max_bytes :: "int option"

definition subject_as_table :: "sdk_subject \<Rightarrow> table" where
  "subject_as_table s =
     [(''units'', TArr (map TStr (ss_units s))), (''expected_root'', TStr (ss_expected_root s)),
      (''search_roots'', TArr (map TStr (ss_search_roots s))), (''ports'', TArr (map TInt (ss_ports s)))]
     @ (case ss_max_depth s of None \<Rightarrow> [] | Some d \<Rightarrow> [(''max_depth'', TInt d)])
     @ (case ss_max_bytes s of None \<Rightarrow> [] | Some b \<Rightarrow> [(''max_bytes'', TInt b)])"

definition overlay :: "(string, table) dict \<Rightarrow> string \<times> table \<Rightarrow> (string, table) dict" where
  "overlay merged nt =
     dict_set (fst nt) (dict_update (case dict_get merged (fst nt) of None \<Rightarrow> [] | Some t \<Rightarrow> t) (snd nt)) merged"

definition merged_tables :: "(string, table) dict \<Rightarrow> sdk_subject list \<Rightarrow> (string, table) dict" where
  "merged_tables tables contributed =
     foldl overlay (fold (\<lambda>s. dict_set (ss_subject s) (subject_as_table s)) contributed []) tables"

definition enabled_tables :: "(string, table) dict \<Rightarrow> (string, table) dict" where
  "enabled_tables merged =
     map (\<lambda>(name, t). (name, filter (\<lambda>(k, v). k \<noteq> ''enabled'') t))
       (filter (\<lambda>(name, t). dict_get t ''enabled'' \<noteq> Some (TBool False)) merged)"

definition merge_deploy_probes :: "(string, table) dict \<Rightarrow> sdk_subject list \<Rightarrow> (string, deploy_probe) dict loaded" where
  "merge_deploy_probes tables contributed = probes_of (enabled_tables (merged_tables tables contributed))"

section \<open>Log groups\<close>

definition LOG_PARSERS :: "string list" where
  "LOG_PARSERS = [''garage_s3'', ''stormpulse'', ''caddy_json'', ''docker_raw'', ''django'', ''journald'']"

definition LOG_SOURCE_TYPES :: "string list" where
  "LOG_SOURCE_TYPES = [''file'', ''docker'', ''docker_stream'', ''journald'']"

definition DEFAULT_DOCKER_BINARY :: string where "DEFAULT_DOCKER_BINARY = ''/usr/bin/docker''"

definition log_name_ok :: "string \<Rightarrow> bool" where
  "log_name_ok s \<longleftrightarrow> 1 \<le> length s \<and> length s \<le> 50 \<and> list_all word_char s"

record log_group_config =
  lc_name :: string
  lc_enabled :: bool
  lc_source_type :: string
  lc_source_path :: string
  lc_filter :: string
  lc_parser :: string
  lc_interval :: number
  lc_max_lines :: int
  lc_container :: string
  lc_docker_binary :: string
  lc_unit :: string

text \<open>The keys of one kind of source: path, unit, container and docker binary.\<close>

definition list_repr :: "string list \<Rightarrow> string" where
  "list_repr xs = ''['' @ join '', '' (map py_repr (sort xs)) @ '']''"

definition parse_source :: "string \<Rightarrow> table \<Rightarrow> string \<Rightarrow> (string \<times> string \<times> string \<times> string) loaded" where
  "parse_source kind t ctx =
     (if kind = ''file'' then
        res_bind (require_text t ''source_path'' ctx) (\<lambda>path.
        res_bind (demand (starts_with ''/'' path)
          (quoted ''source_path'' @ '' in '' @ ctx @ '' must be an absolute path, got '' @ py_repr path)) (\<lambda>_.
        Inr (path, [], [], DEFAULT_DOCKER_BINARY)))
      else if kind = ''journald'' then
        res_bind (require_text t ''unit'' ctx) (\<lambda>unit.
        res_bind (demand (strip unit \<noteq> []) (quoted ''unit'' @ '' in '' @ ctx @ '' must be non-empty for journald sources'')) (\<lambda>_.
        res_bind (demand (\<not> list_ex is_space unit)
          (quoted ''unit'' @ '' in '' @ ctx @ '' must not contain whitespace, got '' @ py_repr unit)) (\<lambda>_.
        Inr ([], unit, [], DEFAULT_DOCKER_BINARY))))
      else
        res_bind (require_text t ''container_name'' ctx) (\<lambda>container.
        res_bind (demand (strip container \<noteq> [])
          (quoted ''container_name'' @ '' in '' @ ctx @ '' must be non-empty for docker sources'')) (\<lambda>_.
        res_bind (optional_text t ''docker_binary'' DEFAULT_DOCKER_BINARY ctx) (\<lambda>docker.
        res_bind (demand (starts_with ''/'' docker) (quoted ''docker_binary'' @ '' in '' @ ctx @ '' must be an absolute path'')) (\<lambda>_.
        Inr ([], [], container, docker))))))"

definition parse_one_log_group :: "nat \<Rightarrow> toml \<Rightarrow> string list \<Rightarrow> log_group_config loaded" where
  "parse_one_log_group i entry seen_names =
     (let ctx = ''log_groups['' @ nat_str i @ '']'' in
      case entry of
        TTab t \<Rightarrow>
          res_bind (require_text t ''name'' ctx) (\<lambda>name.
          res_bind (demand (log_name_ok name) (quoted ''name'' @ '' in '' @ ctx
            @ '' must be alphanumeric/underscore/hyphen, 1-50 chars, got '' @ py_repr name)) (\<lambda>_.
          res_bind (demand (name \<notin> set seen_names) (''Duplicate log group name: '' @ py_repr name)) (\<lambda>_.
          res_bind (require_text t ''source_type'' ctx) (\<lambda>kind.
          res_bind (demand (kind \<in> set LOG_SOURCE_TYPES) (quoted ''source_type'' @ '' in '' @ ctx @ '' must be one of ''
            @ list_repr LOG_SOURCE_TYPES @ '', got '' @ py_repr kind)) (\<lambda>_.
          res_bind (parse_source kind t ctx) (\<lambda>(path, unit, container, docker).
          res_bind (require_text t ''parser'' ctx) (\<lambda>parser.
          res_bind (demand (parser \<in> set LOG_PARSERS) (quoted ''parser'' @ '' in '' @ ctx @ '' must be one of ''
            @ list_repr LOG_PARSERS @ '', got '' @ py_repr parser)) (\<lambda>_.
          res_bind (require_float t ''ship_interval_seconds'' ctx) (\<lambda>interval.
          res_bind (demand (\<not> num_less interval (Fin 2))
            (quoted ''ship_interval_seconds'' @ '' in '' @ ctx @ '' must be >= 2.0'')) (\<lambda>_.
          res_bind (map_sum id int_of (require_key t ''max_lines_per_batch'' [KInt] ctx)) (\<lambda>lines.
          res_bind (demand (1 \<le> lines \<and> lines \<le> 200)
            (quoted ''max_lines_per_batch'' @ '' in '' @ ctx @ '' must be 1-200, got '' @ int_str lines)) (\<lambda>_.
          res_bind (optional_text t ''filter_contains'' [] ctx) (\<lambda>filter_text.
          res_bind (require_bool t ''enabled'' ctx) (\<lambda>enabled.
          Inr \<lparr>lc_name = name, lc_enabled = enabled, lc_source_type = kind, lc_source_path = path, lc_filter = filter_text,
               lc_parser = parser, lc_interval = interval, lc_max_lines = lines, lc_container = container,
               lc_docker_binary = docker, lc_unit = unit\<rparr>))))))))))))))
      | v \<Rightarrow> refuse (ctx @ '' must be a table''))"

fun collect_log_groups :: "nat \<Rightarrow> toml list \<Rightarrow> string list \<Rightarrow> log_group_config list loaded" where
  "collect_log_groups i [] seen_names = Inr []"
| "collect_log_groups i (entry # es) seen_names =
     (case parse_one_log_group i entry seen_names of
        Inr g \<Rightarrow> res_bind (collect_log_groups (Suc i) es (lc_name g # seen_names)) (\<lambda>gs. Inr (g # gs))
      | Inl (ConfigError msg) \<Rightarrow> collect_log_groups (Suc i) es seen_names
      | Inl e \<Rightarrow> Inl e)"

definition parse_log_groups :: "table \<Rightarrow> log_group_config list loaded" where
  "parse_log_groups raw =
     (case (case dict_get raw ''log_groups'' of None \<Rightarrow> TArr [] | Some v \<Rightarrow> v) of
        TArr entries \<Rightarrow> collect_log_groups 0 entries []
      | _ \<Rightarrow> refuse (quoted ''log_groups'' @ '' must be an array of tables''))"

section \<open>The whole file\<close>

definition CORE_SECTIONS :: "string list" where
  "CORE_SECTIONS = [''agent'', ''dashboard'', ''tls'', ''auth'', ''metrics'', ''project'', ''storage'', ''commands'', ''investigate'']"

definition parse_integrations :: "table \<Rightarrow> (string, table) dict" where
  "parse_integrations raw = tables_only (filter (\<lambda>(k, v). k \<notin> set CORE_SECTIONS \<and> k \<noteq> ''log_groups'') raw)"

record config =
  cf_agent :: agent_config
  cf_dashboard :: dashboard_config
  cf_tls :: tls_config
  cf_auth :: auth_config
  cf_metrics :: metrics_config
  cf_project :: project_config
  cf_db_path :: string
  cf_commands :: command_registry
  cf_integrations :: "(string, table) dict"
  cf_log_groups :: "log_group_config list"
  cf_deploy_probes :: "(string, deploy_probe) dict"
  cf_deploy_probe_tables :: "(string, table) dict"

text \<open>What became of reading the file: absent, no TOML (with the error), or its top table.\<close>

datatype config_text = NoFile | BadToml string | Toml table

definition load_config :: "regex \<Rightarrow> string \<Rightarrow> config_text \<Rightarrow> config loaded" where
  "load_config rx path src =
     (case src of
        NoFile \<Rightarrow> refuse (''Config file not found: '' @ path)
      | BadToml err \<Rightarrow> refuse (''Invalid TOML in '' @ path @ '': '' @ err)
      | Toml raw \<Rightarrow>
          res_bind (parse_agent raw) (\<lambda>agent.
          res_bind (parse_dashboard raw) (\<lambda>dashboard.
          res_bind (parse_tls raw) (\<lambda>tls.
          res_bind (parse_auth raw) (\<lambda>auth.
          res_bind (parse_metrics raw) (\<lambda>metrics.
          res_bind (parse_project raw) (\<lambda>project.
          res_bind (parse_storage raw) (\<lambda>db.
          res_bind (parse_commands rx raw) (\<lambda>commands.
          res_bind (parse_log_groups raw) (\<lambda>groups.
          res_bind (parse_deploy_probes raw) (\<lambda>probes.
          res_bind (deploy_probe_tables raw) (\<lambda>tables.
          Inr \<lparr>cf_agent = agent, cf_dashboard = dashboard, cf_tls = tls, cf_auth = auth, cf_metrics = metrics,
               cf_project = project, cf_db_path = db, cf_commands = commands, cf_integrations = parse_integrations raw,
               cf_log_groups = groups, cf_deploy_probes = probes, cf_deploy_probe_tables = tables\<rparr>))))))))))))"

text \<open>\<open>validate_paths\<close>: what is missing, in order.\<close>

definition missing_paths :: "(string \<Rightarrow> bool) \<Rightarrow> (string \<Rightarrow> bool) \<Rightarrow> (string \<Rightarrow> string) \<Rightarrow> config \<Rightarrow> string list" where
  "missing_paths is_file is_dir parent c =
     filter (\<lambda>p. \<not> is_file p)
       [tc_ca_cert (cf_tls c), tc_client_cert (cf_tls c), tc_client_key (cf_tls c), uc_hmac_secret (cf_auth c),
        pc_compose_file (cf_project c)]
     @ (case pc_env_file (cf_project c) of None \<Rightarrow> [] | Some p \<Rightarrow> if is_file p then [] else [p])
     @ (if is_dir (pc_project_dir (cf_project c)) then [] else [pc_project_dir (cf_project c) @ '' (directory)''])
     @ (if is_dir (parent (cf_db_path c)) then [] else [parent (cf_db_path c) @ '' (directory for db)''])"

definition validate_paths :: "(string \<Rightarrow> bool) \<Rightarrow> (string \<Rightarrow> bool) \<Rightarrow> (string \<Rightarrow> string) \<Rightarrow> config \<Rightarrow> unit loaded" where
  "validate_paths is_file is_dir parent c =
     demand (missing_paths is_file is_dir parent c = [])
       (''Missing files/directories: '' @ join '', '' (missing_paths is_file is_dir parent c))"

section \<open>Sections of the integrations\<close>

record caddy_config =
  cc_enabled :: bool
  cc_admin_url :: string
  cc_main_caddyfile :: string
  cc_drop_in_path :: string

definition http_url :: "string \<Rightarrow> bool" where
  "http_url url \<longleftrightarrow> starts_with ''http://'' url \<or> starts_with ''https://'' url"

definition parse_caddy_config :: "table \<Rightarrow> caddy_config loaded" where
  "parse_caddy_config section =
     res_bind (require_bool section ''enabled'' ''caddy'') (\<lambda>enabled.
     res_bind (require_text section ''admin_url'' ''caddy'') (\<lambda>url.
     res_bind (demand (http_url url)
       (in_section ''admin_url'' ''caddy'' @ '' must start with http:// or https://, got '' @ py_repr url)) (\<lambda>_.
     res_bind (require_text section ''main_caddyfile'' ''caddy'') (\<lambda>main.
     res_bind (demand (starts_with ''/'' main)
       (in_section ''main_caddyfile'' ''caddy'' @ '' must be an absolute path, got '' @ py_repr main)) (\<lambda>_.
     res_bind (require_text section ''drop_in_path'' ''caddy'') (\<lambda>drop_in.
     res_bind (demand (starts_with ''/'' drop_in)
       (in_section ''drop_in_path'' ''caddy'' @ '' must be an absolute path, got '' @ py_repr drop_in)) (\<lambda>_.
     Inr \<lparr>cc_enabled = enabled, cc_admin_url = url, cc_main_caddyfile = main, cc_drop_in_path = drop_in\<rparr>)))))))"

record garage_config =
  gc_enabled :: bool
  gc_container :: string
  gc_garage_binary :: string
  gc_docker_binary :: string
  gc_config_path :: string
  gc_admin_url :: string
  gc_admin_token :: string
  gc_hint_file :: string

definition parse_hint_file :: "toml \<Rightarrow> string" where
  "parse_hint_file v = (case v of TStr s \<Rightarrow> if s = [] \<or> starts_with ''/'' s then s else [] | _ \<Rightarrow> [])"

text \<open>
  \<open>read\<close> is the token file: its text, \<open>Some None\<close> when reading raised \<open>OSError\<close>, which only turns the admin
  API off, and \<open>None\<close> on any other exception.
\<close>

definition parse_garage_config :: "(string \<Rightarrow> string option option) \<Rightarrow> table \<Rightarrow> garage_config loaded" where
  "parse_garage_config read section =
     res_bind (require_bool section ''enabled'' ''garage'') (\<lambda>enabled.
     res_bind (require_text section ''container_name'' ''garage'') (\<lambda>container.
     res_bind (demand (container \<noteq> []) (in_section ''container_name'' ''garage'' @ '' must not be empty'')) (\<lambda>_.
     res_bind (require_text section ''garage_binary'' ''garage'') (\<lambda>garage.
     res_bind (demand (garage \<noteq> []) (in_section ''garage_binary'' ''garage'' @ '' must not be empty'')) (\<lambda>_.
     res_bind (require_text section ''docker_binary'' ''garage'') (\<lambda>docker.
     res_bind (demand (starts_with ''/'' docker)
       (in_section ''docker_binary'' ''garage'' @ '' must be an absolute path, got '' @ py_repr docker)) (\<lambda>_.
     res_bind (require_text section ''config_path'' ''garage'') (\<lambda>path.
     res_bind (optional_text section ''admin_url'' [] ''garage'') (\<lambda>url.
     res_bind (demand (url = [] \<or> http_url url)
       (in_section ''admin_url'' ''garage'' @ '' must start with http:// or https://, got '' @ py_repr url)) (\<lambda>_.
     res_bind (optional_text section ''admin_token'' [] ''garage'') (\<lambda>inline.
     res_bind (optional_text section ''admin_token_file'' [] ''garage'') (\<lambda>token_file.
     res_bind (if token_file \<noteq> [] \<and> inline = [] then
                 (case read token_file of
                    None \<Rightarrow> Inl (OtherError ''UnicodeDecodeError'')
                  | Some None \<Rightarrow> Inr []
                  | Some (Some text) \<Rightarrow> Inr (strip text))
               else Inr inline) (\<lambda>token.
     Inr \<lparr>gc_enabled = enabled, gc_container = container, gc_garage_binary = garage, gc_docker_binary = docker,
          gc_config_path = path, gc_admin_url = url, gc_admin_token = token,
          gc_hint_file = (case dict_get section ''hint_file'' of None \<Rightarrow> [] | Some v \<Rightarrow> parse_hint_file v)\<rparr>)))))))))))))"

record rclone_config =
  rc_enabled :: bool
  rc_binary_path :: string

definition DEFAULT_RCLONE_BINARY :: string where "DEFAULT_RCLONE_BINARY = ''/usr/bin/rclone''"

definition parse_rclone_config :: "table \<Rightarrow> rclone_config loaded" where
  "parse_rclone_config section =
     res_bind (require_bool section ''enabled'' ''rclone'') (\<lambda>enabled.
     res_bind (optional_text section ''binary_path'' DEFAULT_RCLONE_BINARY ''rclone'') (\<lambda>binary.
     res_bind (demand (starts_with ''/'' binary)
       (in_section ''binary_path'' ''rclone'' @ '' must be an absolute path, got '' @ py_repr binary)) (\<lambda>_.
     Inr \<lparr>rc_enabled = enabled, rc_binary_path = binary\<rparr>)))"

section \<open>Facts\<close>

lemma refuse_not_Inr [simp]: "refuse msg \<noteq> Inr x" "Inr x \<noteq> refuse msg"
  by (simp_all add: refuse_def)

lemma demand_Inr [simp]: "demand b msg = Inr u \<longleftrightarrow> b"
  by simp

lemma optional_text_Inr: "optional_text t key dflt ctx = Inr s \<Longrightarrow> s = (case dict_get t key of None \<Rightarrow> dflt | Some v \<Rightarrow> text_of v)"
  by (auto simp: optional_text_def optional_key_def check_toml_type_def refuse_def split: option.splits if_splits)

lemma parse_dashboard_wf:
  "parse_dashboard raw = Inr d \<Longrightarrow>
    \<not> num_le (dc_reconnect_min d) (Fin 0) \<and> \<not> num_less (dc_reconnect_max d) (dc_reconnect_min d)"
  by (auto simp: parse_dashboard_def)

definition log_group_wf :: "log_group_config \<Rightarrow> bool" where
  "log_group_wf g \<longleftrightarrow> log_name_ok (lc_name g) \<and> lc_source_type g \<in> set LOG_SOURCE_TYPES \<and> lc_parser g \<in> set LOG_PARSERS
     \<and> \<not> num_less (lc_interval g) (Fin 2) \<and> 1 \<le> lc_max_lines g \<and> lc_max_lines g \<le> 200
     \<and> (lc_source_type g = ''file'' \<longrightarrow> starts_with ''/'' (lc_source_path g))
     \<and> (lc_source_type g = ''journald'' \<longrightarrow> strip (lc_unit g) \<noteq> [] \<and> \<not> list_ex is_space (lc_unit g))
     \<and> (lc_source_type g \<in> {''docker'', ''docker_stream''} \<longrightarrow>
          strip (lc_container g) \<noteq> [] \<and> starts_with ''/'' (lc_docker_binary g))"

lemma parse_source_wf:
  assumes "parse_source kind t ctx = Inr (path, unit, container, docker)"
  shows "(kind = ''file'' \<longrightarrow> starts_with ''/'' path) \<and> (kind = ''journald'' \<longrightarrow> strip unit \<noteq> [] \<and> \<not> list_ex is_space unit)
    \<and> (kind \<in> {''docker'', ''docker_stream''} \<longrightarrow> strip container \<noteq> [] \<and> starts_with ''/'' docker)"
  using assms by (auto simp: parse_source_def split: if_splits)

lemma parse_one_log_group_wf:
  assumes "parse_one_log_group i entry seen_names = Inr g"
  shows "log_group_wf g \<and> lc_name g \<notin> set seen_names"
proof -
  obtain t where t: "entry = TTab t" using assms by (cases entry) (auto simp: parse_one_log_group_def Let_def)
  from assms obtain src where "parse_source (lc_source_type g) t (''log_groups['' @ nat_str i @ '']'') = Inr src"
    "src = (lc_source_path g, lc_unit g, lc_container g, lc_docker_binary g)"
    and "log_name_ok (lc_name g)" "lc_name g \<notin> set seen_names" "lc_source_type g \<in> set LOG_SOURCE_TYPES"
    "lc_parser g \<in> set LOG_PARSERS" "\<not> num_less (lc_interval g) (Fin 2)" "1 \<le> lc_max_lines g" "lc_max_lines g \<le> 200"
    by (auto simp: parse_one_log_group_def Let_def t)
  then show ?thesis using parse_source_wf by (auto simp: log_group_wf_def)
qed

lemma collect_log_groups_wf:
  assumes "collect_log_groups i es seen_names = Inr gs"
  shows "list_all log_group_wf gs \<and> distinct (map lc_name gs) \<and> set (map lc_name gs) \<inter> set seen_names = {}"
  using assms
proof (induction es arbitrary: i seen_names gs)
  case (Cons entry es)
  show ?case
  proof (cases "parse_one_log_group i entry seen_names")
    case (Inl e)
    with Cons show ?thesis by (cases e) auto
  next
    case (Inr g)
    with Cons.prems obtain gs' where gs: "gs = g # gs'" "collect_log_groups (Suc i) es (lc_name g # seen_names) = Inr gs'"
      by auto
    from Cons.IH [OF gs(2)] parse_one_log_group_wf [OF Inr] gs(1) show ?thesis by auto
  qed
qed simp

definition probe_wf :: "deploy_probe \<Rightarrow> bool" where
  "probe_wf p \<longleftrightarrow> subject_ok (dp_subject p) \<and> dp_units p \<noteq> [] \<and> (\<forall>u\<in>set (dp_units p). CHR ''/'' \<notin> set u)
     \<and> (\<forall>q\<in>set (dp_expected_root p # dp_search_roots p). ''..'' \<notin> set q)
     \<and> list_ex (is_within (dp_expected_root p)) (dp_search_roots p)
     \<and> (\<forall>port\<in>set (dp_ports p). 1 \<le> port \<and> port \<le> 65535)
     \<and> 1 \<le> dp_max_depth p \<and> dp_max_depth p \<le> DEPLOY_MAX_DEPTH_CEILING
     \<and> 1024 \<le> dp_max_bytes p \<and> dp_max_bytes p \<le> DEPLOY_MAX_BYTES_CEILING"

lemma abs_path_Inr: "abs_path v key ctx = Inr p \<Longrightarrow> ''..'' \<notin> set p"
  by (auto simp: abs_path_def)

lemma abs_paths_Inr: "abs_paths vs key ctx = Inr ps \<Longrightarrow> \<forall>p\<in>set ps. ''..'' \<notin> set p"
  by (induction vs arbitrary: ps) (auto dest: abs_path_Inr)

lemma check_ports_Inr: "check_ports vs ctx = Inr ps \<Longrightarrow> \<forall>p\<in>set ps. 1 \<le> p \<and> p \<le> 65535"
  by (induction vs arbitrary: ps) (auto split: toml.splits if_splits)

lemma bounded_int_Inr: "bounded_int entry key ctx dflt low high = Inr v \<Longrightarrow> low \<le> v \<and> v \<le> high"
  by (auto simp: bounded_int_def)

lemma require_str_list_Inr: "require_str_list entry key ctx = Inr vs \<Longrightarrow> vs \<noteq> []"
  by (auto simp: require_str_list_def split: option.splits)

lemma parse_one_deploy_probe_wf:
  assumes "parse_one_deploy_probe subject entry = Inr p"
  shows "probe_wf p \<and> dp_subject p = subject"
proof -
  let ?ctx = "''investigate.deploy.'' @ subject"
  from assms obtain v vs pvs where
    p: "subject_ok subject" "dp_subject p = subject" "require_str_list entry ''units'' ?ctx = Inr (dp_units p)"
      "find (\<lambda>u. CHR ''/'' \<in> set u) (dp_units p) = None"
      "abs_path v ''expected_root'' ?ctx = Inr (dp_expected_root p)"
      "abs_paths vs ''search_roots'' ?ctx = Inr (dp_search_roots p)"
      "list_ex (is_within (dp_expected_root p)) (dp_search_roots p)" "check_ports pvs ?ctx = Inr (dp_ports p)"
      "bounded_int entry ''max_depth'' ?ctx DEPLOY_DEFAULT_DEPTH 1 DEPLOY_MAX_DEPTH_CEILING = Inr (dp_max_depth p)"
      "bounded_int entry ''max_bytes'' ?ctx DEPLOY_DEFAULT_BYTES 1024 DEPLOY_MAX_BYTES_CEILING = Inr (dp_max_bytes p)"
    by (auto simp: parse_one_deploy_probe_def Let_def split: option.splits)
  from require_str_list_Inr [OF p(3)] p(4) abs_path_Inr [OF p(5)] abs_paths_Inr [OF p(6)] check_ports_Inr [OF p(8)]
    bounded_int_Inr [OF p(9)] bounded_int_Inr [OF p(10)] p(1,2,7)
  show ?thesis by (auto simp: probe_wf_def find_None_iff)
qed

lemma probes_of_wf: "probes_of ts = Inr ps \<Longrightarrow> (subject, p) \<in> set ps \<Longrightarrow>
    \<exists>t. (subject, t) \<in> set ts \<and> parse_one_deploy_probe subject t = Inr p"
proof (induction ts arbitrary: ps)
  case (Cons st ts)
  obtain s t where st: "st = (s, t)" by (cases st)
  show ?case
  proof (cases "parse_one_deploy_probe s t")
    case (Inl e)
    with Cons st show ?thesis by (cases e) auto
  next
    case (Inr q)
    with Cons.prems st obtain qs where "ps = (s, q) # qs" "probes_of ts = Inr qs" by auto
    with Cons.IH Cons.prems(2) Inr st show ?thesis by auto
  qed
qed simp

definition param_wf :: "regex \<Rightarrow> string \<times> param_def \<Rightarrow> bool" where
  "param_wf rx kp \<longleftrightarrow> fst kp = pd_placeholder (snd kp) \<and> fst kp \<notin> set PROTECTED_PLACEHOLDERS
     \<and> param_def_fault rx (snd kp) = None \<and> pd_pattern (snd kp) \<noteq> None"

lemma parse_one_param_wf:
  assumes "parse_one_param rx pname pentry label = Inr p"
  shows "param_wf rx (pd_placeholder p, p)"
proof -
  obtain t where "pentry = TTab t" using assms by (cases pentry) (auto simp: parse_one_param_def Let_def)
  with assms show ?thesis
    by (auto simp: parse_one_param_def Let_def param_wf_def split: if_splits)
qed

lemma parse_params_wf:
  assumes "parse_params rx ps label acc = Inr params" "\<forall>kp\<in>set acc. param_wf rx kp"
  shows "\<forall>kp\<in>set params. param_wf rx kp"
  using assms
proof (induction ps arbitrary: acc)
  case (Cons kv ps)
  obtain k v where kv: "kv = (k, v)" by (cases kv)
  with Cons.prems(1) obtain p where p: "parse_one_param rx k v label = Inr p"
    "parse_params rx ps label (dict_set (pd_placeholder p) p acc) = Inr params" by auto
  have "\<forall>kp\<in>set (dict_set (pd_placeholder p) p acc). param_wf rx kp"
    using set_dict_set [of "pd_placeholder p" p acc] parse_one_param_wf [OF p(1)] Cons.prems(2) by auto
  from Cons.IH [OF p(2) this] show ?case .
qed simp

definition command_wf :: "regex \<Rightarrow> command_spec \<Rightarrow> bool" where
  "command_wf rx spec \<longleftrightarrow> command_spec_fault spec = None \<and> cs_mode spec = SubprocessMode \<and> 0 < cs_timeout spec
     \<and> (\<forall>kp\<in>set (cs_params spec). param_wf rx kp)"

lemma parse_one_command_wf:
  assumes "parse_one_command rx name entry = Inr spec"
  shows "command_wf rx spec"
proof -
  obtain t where t: "entry = TTab t" using assms by (cases entry) (auto simp: parse_one_command_def Let_def)
  from assms have spec: "cs_command spec \<noteq> [] \<and> starts_with ''/'' (hd (cs_command spec)) \<and> 0 < cs_timeout spec
      \<and> cs_mode spec = SubprocessMode \<and> cs_handler spec = None \<and> cs_retry_window_s spec = None \<and> cs_result spec = None"
    by (auto simp: parse_one_command_def Let_def t split: option.splits)
  from assms have "cs_params spec = [] \<or> (\<exists>ps label. parse_params rx ps label [] = Inr (cs_params spec))"
    by (auto simp: parse_one_command_def Let_def t split: option.splits toml.splits)
  then have "\<forall>kp\<in>set (cs_params spec). param_wf rx kp" using parse_params_wf by fastforce
  with spec show ?thesis
    by (cases "cs_command spec") (auto simp: command_wf_def command_spec_fault_def)
qed

lemma parse_command_list_wf:
  assumes "parse_command_list rx es = Inr specs"
  shows "\<forall>(name, spec)\<in>set specs. command_wf rx spec"
  using assms
proof (induction es arbitrary: specs)
  case (Cons ne es)
  obtain name entry where ne: "ne = (name, entry)" by (cases ne)
  with Cons.prems obtain spec rest where "parse_one_command rx name entry = Inr spec" "parse_command_list rx es = Inr rest"
    "specs = (name, spec) # rest" by auto
  with Cons.IH [of rest] parse_one_command_wf [of rx name entry spec] show ?case by simp
qed simp

text \<open>What a merge makes of a subject's keys.\<close>

lemma contributed_tables:
  "dict_ok (fold (\<lambda>s. dict_set (ss_subject s) (subject_as_table s)) contributed acc) = dict_ok acc"
  if "dict_ok acc" for contributed acc
  using that by (induction contributed arbitrary: acc) (auto simp: dict_simps)

lemma overlay_get:
  "dict_get (overlay merged nt) name =
     (if name = fst nt then Some (dict_update (case dict_get merged name of None \<Rightarrow> [] | Some t \<Rightarrow> t) (snd nt))
      else dict_get merged name)"
  by (auto simp: overlay_def dict_simps)

lemma overlay_ok: "dict_ok merged \<Longrightarrow> dict_ok (foldl overlay merged tables)"
  by (induction tables arbitrary: merged) (auto simp: overlay_def dict_simps)

lemma foldl_overlay_get:
  assumes "dict_ok tables"
  shows "dict_get (foldl overlay merged tables) name =
    (case dict_get tables name of None \<Rightarrow> dict_get merged name
     | Some t \<Rightarrow> Some (dict_update (case dict_get merged name of None \<Rightarrow> [] | Some u \<Rightarrow> u) t))"
  using assms
proof (induction tables arbitrary: merged)
  case (Cons nt tables)
  obtain n t where nt: "nt = (n, t)" by (cases nt)
  with Cons.prems have "dict_get tables n = None" by (auto simp: map_of_eq_None_iff)
  with Cons nt show ?case by (auto simp: overlay_get split: option.splits)
qed simp

definition contribution :: "sdk_subject list \<Rightarrow> string \<Rightarrow> table" where
  "contribution contributed name =
     (case dict_get (fold (\<lambda>s. dict_set (ss_subject s) (subject_as_table s)) contributed []) name of None \<Rightarrow> [] | Some t \<Rightarrow> t)"

text \<open>Two results that differ in the text of a \<open>ConfigError\<close> at most.\<close>

definition alike :: "'a loaded \<Rightarrow> 'a loaded \<Rightarrow> bool" where
  "alike a b \<longleftrightarrow> (case a of
     Inr x \<Rightarrow> b = Inr x
   | Inl (ConfigError msg) \<Rightarrow> (\<exists>msg'. b = Inl (ConfigError msg'))
   | Inl (OtherError e) \<Rightarrow> b = Inl (OtherError e))"

lemma alike_refl [simp]: "alike a a"
  by (simp add: alike_def split: sum.split config_error.split)

lemma alike_refuse [simp]: "alike (refuse m) (refuse m')"
  by (simp add: alike_def refuse_def)

lemma alike_demand [simp]: "alike (demand b m) (demand b m')"
  by (simp add: alike_def refuse_def)

lemma alike_bind: "alike a b \<Longrightarrow> (\<And>x. alike (f x) (g x)) \<Longrightarrow> alike (res_bind a f) (res_bind b g)"
proof (cases a)
  case (Inl e)
  then show "alike a b \<Longrightarrow> ?thesis" by (cases e) (auto simp: alike_def)
next
  case (Inr x)
  then show "alike a b \<Longrightarrow> (\<And>x. alike (f x) (g x)) \<Longrightarrow> ?thesis" by (simp add: alike_def [of "Inr x"])
qed

lemma alike_map: "alike a b \<Longrightarrow> alike (map_sum id f a) (map_sum id f b)"
  by (auto simp: alike_def split: sum.splits config_error.splits)

lemma alike_Inr: "alike a b \<Longrightarrow> a = Inr x \<longleftrightarrow> b = Inr x"
  by (auto simp: alike_def split: sum.splits config_error.splits)

lemma alike_check: "alike (check_toml_type v key types c) (check_toml_type v key types c')"
  by (simp add: check_toml_type_def)

lemma alike_require: "alike (require_key t key types c) (require_key t key types c')"
  by (simp add: require_key_def alike_check split: option.split)

lemma alike_optional: "alike (optional_key t key types d c) (optional_key t key types d c')"
  by (simp add: optional_key_def alike_check split: option.split)

lemma alike_text: "alike (require_text t key c) (require_text t key c')"
  by (simp add: require_text_def alike_map alike_require)

lemma alike_bool: "alike (require_bool t key c) (require_bool t key c')"
  by (simp add: require_bool_def alike_map alike_require)

lemma alike_opt_text: "alike (optional_text t key d c) (optional_text t key d c')"
  by (simp add: optional_text_def alike_map alike_optional)

lemma alike_float: "alike (require_float t key c) (require_float t key c')"
  by (simp add: require_float_def alike_bind alike_require)

lemmas alike_rules = alike_bind alike_map alike_require alike_text alike_bool alike_opt_text alike_float alike_demand alike_refl

lemma alike_source: "alike (parse_source kind t c) (parse_source kind t c')"
  unfolding parse_source_def by (auto intro!: alike_rules)

lemma alike_log_group: "alike (parse_one_log_group i entry seen_names) (parse_one_log_group j entry seen_names)"
proof (cases entry)
  case (TTab t)
  have branch: "alike (case x of (path, unit, container, docker) \<Rightarrow> f path unit container docker)
      (case x of (path, unit, container, docker) \<Rightarrow> g path unit container docker)"
    if "\<And>path unit container docker. alike (f path unit container docker) (g path unit container docker)" for f g and x :: "'a \<times> 'b \<times> 'c \<times> 'd"
    using that by (simp split: prod.split)
  show ?thesis
    unfolding parse_one_log_group_def Let_def TTab toml.case
    by (intro alike_rules alike_source branch)
qed (simp_all add: parse_one_log_group_def Let_def)

lemma collect_index: "alike (collect_log_groups i es seen_names) (collect_log_groups j es seen_names)"
proof (induction es arbitrary: i j seen_names)
  case (Cons entry es)
  show ?case
  proof (cases "parse_one_log_group i entry seen_names")
    case (Inl e)
    with alike_log_group [of i entry seen_names j] Cons.IH [of "Suc i" seen_names "Suc j"] show ?thesis
      by (cases e) (auto simp: alike_def [of "Inl e" for e])
  next
    case (Inr g)
    with alike_Inr [OF alike_log_group [of i entry seen_names j]] have "parse_one_log_group j entry seen_names = Inr g" by blast
    with Inr Cons.IH show ?thesis by (auto intro!: alike_bind)
  qed
qed simp

lemma collect_append:
  "collect_log_groups i (xs @ ys) seen_names =
     res_bind (collect_log_groups i xs seen_names) (\<lambda>gs.
     res_bind (collect_log_groups (i + length xs) ys (rev (map lc_name gs) @ seen_names)) (\<lambda>hs. Inr (gs @ hs)))"
proof (induction xs arbitrary: i seen_names)
  case (Cons entry xs)
  show ?case
  proof (cases "parse_one_log_group i entry seen_names")
    case (Inl e)
    with Cons show ?thesis by (cases e) simp_all
  next
    case (Inr g)
    let ?rest = "\<lambda>gs. collect_log_groups (Suc i + length xs) ys (rev (map lc_name gs) @ lc_name g # seen_names)"
    show ?thesis
    proof (cases "collect_log_groups (Suc i) xs (lc_name g # seen_names)")
      case r: (Inr gs)
      show ?thesis using Inr r Cons [of "Suc i" "lc_name g # seen_names"] by (cases "?rest gs") simp_all
    qed (use Inr Cons in simp)
  qed
next
  case Nil
  show ?case by (cases "collect_log_groups i ys seen_names") simp_all
qed

lemma search_roots_Inr:
  assumes "require_str_list t key ctx = Inr vs" "abs_paths vs key ctx = Inr ps" "dict_get t key = Some (TArr items)"
  shows "ps = map (path_of \<circ> text_of) items"
proof -
  have "abs_paths vs key ctx = Inr ps \<Longrightarrow> ps = map path_of vs" for vs ps
    by (induction vs arbitrary: ps) (auto simp: abs_path_def)
  moreover have "vs = map text_of items"
    using assms(1,3) by (auto simp: require_str_list_def require_key_def check_toml_type_def split: option.splits if_splits)
  ultimately show ?thesis using assms(2) by (metis map_map)
qed

section \<open>Properties\<close>


text \<open>
  C34. A bad log group costs no other: leaving out an entry that is refused where it stands changes neither
  which groups load nor what they are.
\<close>

theorem bad_log_group_costs_no_other:
  assumes "collect_log_groups 0 xs [] = Inr before"
    and "parse_one_log_group (length xs) bad (rev (map lc_name before)) = Inl (ConfigError msg)"
  shows "parse_log_groups [(''log_groups'', TArr (xs @ bad # ys))] = Inr gs
    \<longleftrightarrow> parse_log_groups [(''log_groups'', TArr (xs @ ys))] = Inr gs"
  using assms collect_index [of "Suc (length xs)" ys "rev (map lc_name before)" "length xs"]
  by (auto simp: parse_log_groups_def collect_append alike_Inr)

text \<open>
  C33. A package can widen nothing the operator narrowed: a merged probe comes from a table in which every key
  of the node's own table wins over the contributed one, its search roots are the operator's where given, and
  a subject the operator disabled is gone.
\<close>

theorem operator_overrides_package:
  assumes "merge_deploy_probes tables contributed = Inr ps" "(name, p) \<in> set ps"
    and "dict_ok tables" "\<And>n t. (n, t) \<in> set tables \<Longrightarrow> dict_ok t"
  shows "\<exists>t. parse_one_deploy_probe name t = Inr p
    \<and> (let own = (case dict_get tables name of None \<Rightarrow> [] | Some u \<Rightarrow> u) in
        dict_get own ''enabled'' \<noteq> Some (TBool False)
        \<and> (\<forall>k. k \<noteq> ''enabled'' \<longrightarrow> dict_get t k =
             (case dict_get own k of Some v \<Rightarrow> Some v | None \<Rightarrow> dict_get (contribution contributed name) k))
        \<and> (\<forall>vs. dict_get own ''search_roots'' = Some (TArr vs) \<longrightarrow> dp_search_roots p = map (path_of \<circ> text_of) vs))"
proof -
  let ?own = "case dict_get tables name of None \<Rightarrow> [] | Some u \<Rightarrow> u"
  from assms(1) [unfolded merge_deploy_probes_def] obtain t where t: "(name, t) \<in> set (enabled_tables (merged_tables tables contributed))"
    and p: "parse_one_deploy_probe name t = Inr p" using probes_of_wf assms(2) by metis
  then obtain m where m: "(name, m) \<in> set (merged_tables tables contributed)" "dict_get m ''enabled'' \<noteq> Some (TBool False)"
    "t = filter (\<lambda>(k, v). k \<noteq> ''enabled'') m"
    by (auto simp: enabled_tables_def)
  have "dict_ok (merged_tables tables contributed)"
    unfolding merged_tables_def using contributed_tables [of "[]" contributed] by (intro overlay_ok) simp
  with m(1) have get: "dict_get (merged_tables tables contributed) name = Some m" by simp
  have own: "dict_ok ?own" using assms(4) by (auto split: option.split dest: map_of_SomeD)
  have mk: "dict_get m k = (case dict_get ?own k of Some v \<Rightarrow> Some v | None \<Rightarrow> dict_get (contribution contributed name) k)" for k
    using get own unfolding merged_tables_def foldl_overlay_get [OF assms(3)]
    by (auto simp: contribution_def dict_get_update split: option.splits)
  have "dp_search_roots p = map (path_of \<circ> text_of) vs" if "dict_get ?own ''search_roots'' = Some (TArr vs)" for vs
  proof -
    from that mk have "dict_get t ''search_roots'' = Some (TArr vs)" by (simp add: m(3) dict_get_filter_key)
    with p show ?thesis by (auto simp: parse_one_deploy_probe_def Let_def dest: search_roots_Inr)
  qed
  with p m(2) mk show ?thesis
    by (intro exI [of _ t]) (auto simp: Let_def m(3) dict_get_filter_key split: option.splits)
qed

text \<open>
  A fraction of a second is no time at all: a \<open>command_max_age_seconds\<close> between 0 and 1 passes the check
  that it is positive, is stored as 0, and then every command dated before the clock's reading is refused.
\<close>

theorem fraction_refuses_every_command:
  assumes "require_section raw ''auth'' = Inr s" "dict_get s ''command_max_age_seconds'' = Some (TFloat (Fin q))" "0 < q" "q < 1"
    and "dict_get s ''hmac_secret'' = Some (TStr path)"
  shows "parse_auth raw = Inr \<lparr>uc_hmac_secret = path, uc_max_age = 0\<rparr>
    \<and> (dt_micros (env_ts e) < now \<longrightarrow> check_age e now 0 \<noteq> Inr ())"
proof -
  have "\<lfloor>q\<rfloor> = 0" using assms(3,4) by (simp add: floor_eq_iff)
  with assms show ?thesis
    by (auto simp: parse_auth_def require_key_def check_toml_type_def not_positive_def num_le_def require_text_def
        to_int_def check_age_def Let_def)
qed

section \<open>A file to try them on\<close>

lemma not_isl_iff: "\<not> isl r \<longleftrightarrow> (\<exists>x. r = Inr x)"
  by (cases r) auto

definition any_rx :: regex where
  "any_rx = \<lparr>re_error = (\<lambda>p. None), re_fullmatch = (\<lambda>p s. True)\<rparr>"

definition demo_group :: "string \<Rightarrow> toml" where
  "demo_group name = TTab [(''name'', TStr name), (''source_type'', TStr ''file''), (''source_path'', TStr ''/l''),
     (''parser'', TStr ''django''), (''ship_interval_seconds'', TFloat (Fin 5)), (''max_lines_per_batch'', TInt 9), (''enabled'', TBool True)]"

definition demo_subject :: table where
  "demo_subject = [(''units'', TArr [TStr ''a.service'']), (''expected_root'', TStr ''/srv/a''),
     (''search_roots'', TArr [TStr ''/srv''])]"

definition demo_raw :: table where
  "demo_raw =
     [(''agent'', TTab [(''id'', TStr ''a''), (''pulse_token'', TStr ''t'')]),
      (''dashboard'', TTab [(''url'', TStr ''u''), (''reconnect_min_seconds'', TFloat (Fin 1)), (''reconnect_max_seconds'', TFloat (Fin 2)),
         (''heartbeat_interval_seconds'', TFloat (Fin 3))]),
      (''tls'', TTab [(''ca_cert'', TStr ''c''), (''client_cert'', TStr ''c''), (''client_key'', TStr ''k'')]),
      (''auth'', TTab [(''command_max_age_seconds'', TFloat (Fin (1 / 2))), (''hmac_secret'', TStr ''/h'')]),
      (''metrics'', TTab [(''push_interval_seconds'', TFloat (Fin 2)), (''collect_containers'', TBool False)]),
      (''project'', TTab [(''project_dir'', TStr ''/p''), (''compose_file'', TStr ''/c''), (''docker_service_name'', TStr ''w'')]),
      (''storage'', TTab [(''db_path'', TStr ''/d'')]),
      (''log_groups'', TArr [demo_group ''x'', TInt 0, demo_group ''x'', demo_group ''y'']),
      (''investigate'', TTab [(''deploy'', TTab [(''a'', TTab demo_subject)])])]"


theorem bad_log_group_costs_no_other_witness:
  "\<exists>gs. parse_log_groups [(''log_groups'', TArr [demo_group ''x'', demo_group ''x'', demo_group ''y''])] = Inr gs
     \<and> map lc_name gs = [''x'', ''y'']"
proof -
  obtain before where b: "collect_log_groups 0 [demo_group ''x''] [] = Inr before" "map lc_name before = [''x'']"
  proof -
    have "case collect_log_groups 0 [demo_group ''x''] [] of Inr gs \<Rightarrow> map lc_name gs = [''x''] | _ \<Rightarrow> False" by code_simp
    with that show thesis by (auto split: sum.splits)
  qed
  have "case parse_one_log_group 1 (demo_group ''x'') [''x''] of Inl (ConfigError msg) \<Rightarrow> True | _ \<Rightarrow> False" by code_simp
  then obtain msg where m: "parse_one_log_group (length [demo_group ''x'']) (demo_group ''x'') (rev (map lc_name before)) = Inl (ConfigError msg)"
    by (auto simp: b(2) split: sum.splits config_error.splits)
  have "case parse_log_groups [(''log_groups'', TArr [demo_group ''x'', demo_group ''y''])] of
      Inr gs \<Rightarrow> map lc_name gs = [''x'', ''y''] | _ \<Rightarrow> False" by code_simp
  then obtain gs where "parse_log_groups [(''log_groups'', TArr ([demo_group ''x''] @ [demo_group ''y'']))] = Inr gs"
    "map lc_name gs = [''x'', ''y'']" by (auto split: sum.splits)
  with bad_log_group_costs_no_other [OF b(1) m, of "[demo_group ''y'']" gs] show ?thesis by auto
qed

text \<open>The package offers a wide root, the node narrows it.\<close>

definition demo_contributed :: sdk_subject where
  "demo_contributed = \<lparr>ss_subject = ''a'', ss_units = [''a.service''], ss_expected_root = ''/srv/a'', ss_search_roots = [''/''],
     ss_ports = [], ss_max_depth = None, ss_max_bytes = None\<rparr>"

theorem operator_overrides_package_witness:
  "\<exists>ps p. merge_deploy_probes [(''a'', [(''search_roots'', TArr [TStr ''/srv''])])] [demo_contributed] = Inr ps
     \<and> (''a'', p) \<in> set ps \<and> dp_search_roots p = [[''/'', ''srv'']]"
proof -
  let ?tables = "[(''a'', [(''search_roots'', TArr [TStr ''/srv''])])]"
  have "case merge_deploy_probes ?tables [demo_contributed] of Inr ((n, p) # _) \<Rightarrow> n = ''a'' | _ \<Rightarrow> False" by code_simp
  then obtain qs p where "merge_deploy_probes ?tables [demo_contributed] = Inr ((''a'', p) # qs)"
    by (auto split: sum.splits list.splits)
  then obtain ps where m: "merge_deploy_probes ?tables [demo_contributed] = Inr ps" "(''a'', p) \<in> set ps" by auto
  have w: "path_of ''/srv'' = [''/'', ''srv'']" by code_simp
  from operator_overrides_package [OF m] have "dp_search_roots p = map (path_of \<circ> text_of) [TStr ''/srv'']"
    unfolding Let_def by fastforce
  with m w show ?thesis by auto
qed

theorem fraction_refuses_every_command_witness:
  "parse_auth demo_raw = Inr \<lparr>uc_hmac_secret = ''/h'', uc_max_age = 0\<rparr>"
proof -
  have "require_section demo_raw ''auth'' = Inr [(''command_max_age_seconds'', TFloat (Fin (1 / 2))), (''hmac_secret'', TStr ''/h'')]"
    by (simp add: demo_raw_def require_section_def)
  from fraction_refuses_every_command [OF this, of "1 / 2" "''/h''"] show ?thesis by simp
qed

end
