(* ===== verification/S3.thy ===== *)
theory S3
  imports Garage "HOL-Library.Product_Lexorder"
begin

text \<open>
  The S3 client: \<open>garage/s3.py\<close>, the SigV4 signature and the operations over it. The server is an arbitrary
  function of every request made so far, latest first; hashing, the XML parser, \<open>urlparse\<close> and the clock are
  parameters. A request body is the text whose UTF-8 encoding is sent, a response body its bytes.
\<close>

section \<open>Signing\<close>

definition unreserved :: "char \<Rightarrow> bool" where
  "unreserved c \<longleftrightarrow> 48 \<le> ord_of c \<and> ord_of c \<le> 57 \<or> 65 \<le> ord_of c \<and> ord_of c \<le> 90
     \<or> 97 \<le> ord_of c \<and> ord_of c \<le> 122 \<or> c \<in> set ''_.-~''"

definition hex_upper :: "nat \<Rightarrow> char" where
  "hex_upper n = (if n < 10 then char_of (48 + n) else char_of (55 + n))"

definition pct_byte :: "nat \<Rightarrow> string" where
  "pct_byte n = [CHR ''%'', hex_upper (n div 16), hex_upper (n mod 16)]"

text \<open>\<open>quote(s, safe="")\<close>: the UTF-8 bytes of what is not unreserved.\<close>

definition quote_char :: "char \<Rightarrow> string" where
  "quote_char c =
     (if unreserved c then [c]
      else if ord_of c < 128 then pct_byte (ord_of c)
      else pct_byte (192 + ord_of c div 64) @ pct_byte (128 + ord_of c mod 64))"

definition url_quote :: "string \<Rightarrow> string" where
  "url_quote s = concat (map quote_char s)"

type_synonym query = "(string \<times> string) list"

text \<open>Sorted by key, then by value.\<close>

definition canonical_query :: "query \<Rightarrow> string" where
  "canonical_query q =
     join ''&'' (map (\<lambda>(k, v). k @ ''='' @ v)
       (sort (map (\<lambda>(k, v). (url_quote k, url_quote v)) q)))"

definition header_items :: "(string, string) dict \<Rightarrow> (string \<times> string) list" where
  "header_items headers = sort (map (\<lambda>(k, v). (map lower_char k, strip v)) headers)"

definition canonical_headers :: "(string, string) dict \<Rightarrow> string \<times> string" where
  "canonical_headers headers =
     (concat (map (\<lambda>(k, v). k @ '':'' @ v @ [CHR 0x0A]) (header_items headers)), join '';'' (map fst (header_items headers)))"

text \<open>\<open>sg_mac\<close> is HMAC-SHA256 on bytes, \<open>sg_hex\<close> its hexadecimal digits, \<open>sg_sha\<close> the hex digest of a text.\<close>

record signer =
  sg_mac :: "string \<Rightarrow> string \<Rightarrow> string"
  sg_hex :: "string \<Rightarrow> string"
  sg_sha :: "string \<Rightarrow> string"

definition derive_signing_key :: "signer \<Rightarrow> string \<Rightarrow> string \<Rightarrow> string \<Rightarrow> string \<Rightarrow> string" where
  "derive_signing_key G secret date region service =
     sg_mac G (sg_mac G (sg_mac G (sg_mac G (''AWS4'' @ secret) date) region) service) ''aws4_request''"

definition ALGORITHM :: string where "ALGORITHM = ''AWS4-HMAC-SHA256''"

definition canonical_request :: "string \<Rightarrow> string \<Rightarrow> query \<Rightarrow> (string, string) dict \<Rightarrow> string \<Rightarrow> string" where
  "canonical_request method path q headers body_sha =
     join [CHR 0x0A] [method, path, canonical_query q, fst (canonical_headers headers), snd (canonical_headers headers), body_sha]"

definition build_authorization ::
  "signer \<Rightarrow> string \<Rightarrow> string \<Rightarrow> query \<Rightarrow> (string, string) dict \<Rightarrow> string \<Rightarrow> string \<Rightarrow> string \<Rightarrow> string \<Rightarrow> string
    \<Rightarrow> string \<Rightarrow> string \<Rightarrow> string" where
  "build_authorization G method path q headers body_sha access secret region amz_date date service =
     (let scope = date @ ''/'' @ region @ ''/'' @ service @ ''/aws4_request'';
          text = ALGORITHM @ [CHR 0x0A] @ amz_date @ [CHR 0x0A] @ scope @ [CHR 0x0A]
                 @ sg_sha G (canonical_request method path q headers body_sha)
      in ALGORITHM @ '' Credential='' @ access @ ''/'' @ scope @ '', SignedHeaders='' @ snd (canonical_headers headers)
         @ '', Signature='' @ sg_hex G (sg_mac G (derive_signing_key G secret date region service) text))"

section \<open>Requests\<close>

record s3_request =
  sr_method :: string
  sr_path :: string
  sr_query :: query
  sr_body :: string
  sr_headers :: "(string, string) dict"

text \<open>An \<open>OSError\<close> or \<open>HTTPException\<close>, any other exception, or a status and a body.\<close>

datatype s3_reply = Unreachable string | Raised string | Answer int string

type_synonym s3_log = "(s3_request \<times> s3_reply) list"

text \<open>An element: its tag, its text and its children.\<close>

datatype xml = Xml string "string option" "xml list"

text \<open>
  A client and what it asks of the outside: \<open>sc_xml\<close> is \<open>ElementTree.fromstring\<close>, \<open>sc_int\<close> is \<open>int\<close> of a
  text, \<open>sc_decode\<close> decodes UTF-8 with replacement, \<open>sc_now\<close> gives the two date texts at a request.
\<close>

record s3_client =
  sc_scheme :: string
  sc_host :: string
  sc_port :: int
  sc_region :: string
  sc_access :: string
  sc_secret :: string
  sc_signer :: signer
  sc_xml :: "string \<Rightarrow> xml option"
  sc_int :: "string \<Rightarrow> int option"
  sc_decode :: "string \<Rightarrow> string"
  sc_now :: "s3_log \<Rightarrow> string \<times> string"
  sc_net :: "s3_log \<Rightarrow> s3_request \<Rightarrow> s3_reply"

text \<open>An \<open>S3AuthError\<close>, another \<open>S3Error\<close>, or an exception outside that family.\<close>

datatype s3_fault = S3Auth string | S3Fault string | S3Crash string

definition default_port :: "string \<Rightarrow> int" where
  "default_port scheme = (if scheme = ''https'' then 443 else 80)"

text \<open>
  The constructor over the parsed endpoint: scheme, host (empty for none) and port, each \<open>Inl\<close> a
  \<open>ValueError\<close>.
\<close>

type_synonym parsed_url = "string + string \<times> string \<times> (string + int option)"

definition s3_endpoint :: "string \<Rightarrow> parsed_url \<Rightarrow> string + string \<times> string \<times> int" where
  "s3_endpoint endpoint parsed =
     res_bind parsed (\<lambda>(scheme, host, port).
       if scheme \<notin> {''http'', ''https''} then Inl (''endpoint must use http or https, got '' @ py_repr endpoint)
       else if host = [] then Inl (''endpoint missing host: '' @ py_repr endpoint)
       else res_bind port (\<lambda>p. Inr (scheme, host, case p of None \<Rightarrow> default_port scheme
              | Some n \<Rightarrow> if n = 0 then default_port scheme else n)))"

definition s3_init :: "s3_client \<Rightarrow> (string \<Rightarrow> parsed_url) \<Rightarrow> string \<Rightarrow> string \<Rightarrow> string \<Rightarrow> string \<Rightarrow> string + s3_client" where
  "s3_init W parse endpoint region access secret =
     res_bind (s3_endpoint endpoint (parse endpoint)) (\<lambda>(scheme, host, port).
       Inr (W\<lparr>sc_scheme := scheme, sc_host := host, sc_port := port, sc_region := region,
              sc_access := access, sc_secret := secret\<rparr>))"

definition strip_ns :: "string \<Rightarrow> string" where
  "strip_ns tag = (if starts_with ''{'' tag then last (split_on (CHR ''}'') tag) else tag)"

text \<open>Children with a text, by tag; a repeated tag keeps its last text.\<close>

definition sub_texts :: "xml list \<Rightarrow> (string, string) dict" where
  "sub_texts children =
     fold (\<lambda>e d. case e of Xml tag text cs \<Rightarrow>
       (case text of None \<Rightarrow> d | Some s \<Rightarrow> if s = [] then d else dict_set (strip_ns tag) s d)) children []"

definition text_at :: "(string, string) dict \<Rightarrow> string \<Rightarrow> string" where
  "text_at d k = (case dict_get d k of None \<Rightarrow> [] | Some s \<Rightarrow> s)"

text \<open>Code and message of an error body, the last of each.\<close>

definition parse_error_response :: "s3_client \<Rightarrow> string \<Rightarrow> string option \<times> string option" where
  "parse_error_response C body =
     (if body = [] then (None, None)
      else case sc_xml C body of
        None \<Rightarrow> (None, Some (sc_decode C (take 200 body)))
      | Some (Xml tag text children) \<Rightarrow> (dict_get (sub_texts children) ''Code'', dict_get (sub_texts children) ''Message''))"

definition request_headers :: "s3_client \<Rightarrow> string \<Rightarrow> string \<Rightarrow> query \<Rightarrow> string \<Rightarrow> string option \<Rightarrow> s3_log \<Rightarrow> (string, string) dict" where
  "request_headers C method path q body content_type h =
     (case sc_now C h of (amz_date, date) \<Rightarrow>
       (let host = (if sc_port C = default_port (sc_scheme C) then sc_host C else sc_host C @ '':'' @ int_str (sc_port C));
            sha = sg_sha (sc_signer C) body;
            headers = [(''Host'', host), (''X-Amz-Date'', amz_date), (''X-Amz-Content-SHA256'', sha)]
              @ (case content_type of None \<Rightarrow> [] | Some t \<Rightarrow> [(''Content-Type'', t)])
              @ (if body = [] then [] else [(''Content-Length'', nat_str (utf8_len body))])
        in headers @ [(''Authorization'', build_authorization (sc_signer C) method path q headers sha (sc_access C) (sc_secret C)
                         (sc_region C) amz_date date ''s3'')]))"

text \<open>
  The request line: \<open>http.client\<close> refuses blanks and control characters with \<open>InvalidURL\<close>, then encodes
  the line as ASCII.
\<close>

definition request_target :: "string \<Rightarrow> query \<Rightarrow> string" where
  "request_target path q = (if canonical_query q = [] then path else path @ ''?'' @ canonical_query q)"

definition bad_url_char :: "char \<Rightarrow> bool" where
  "bad_url_char c \<longleftrightarrow> ord_of c \<le> 32 \<or> ord_of c = 127"

definition line_problem :: "string \<Rightarrow> string \<Rightarrow> s3_fault option" where
  "line_problem about target =
     (if list_ex bad_url_char target
      then Some (S3Fault (about @ '' -> transport error: URL can't contain control characters. '' @ py_repr target
             @ '' (found at least '' @ py_repr (take 1 (filter bad_url_char target)) @ '')''))
      else if list_ex (\<lambda>c. 128 \<le> ord_of c) target then Some (S3Crash ''UnicodeEncodeError'')
      else None)"

definition error_of :: "s3_client \<Rightarrow> string \<Rightarrow> int \<Rightarrow> string \<Rightarrow> s3_fault" where
  "error_of C about status resp =
     (case parse_error_response C resp of (code, message) \<Rightarrow>
       (let msg = about @ '' -> HTTP '' @ int_str status @ '': '' @ or_text code ''Unknown'' @ '': '' @ or_text message ''no message''
        in if status = 401 \<or> status = 403 then S3Auth msg else S3Fault msg))"

definition s3_call ::
  "s3_client \<Rightarrow> string \<Rightarrow> string \<Rightarrow> query \<Rightarrow> string \<Rightarrow> string option \<Rightarrow> s3_log \<Rightarrow> s3_request" where
  "s3_call C method path q body content_type h =
     \<lparr>sr_method = method, sr_path = path, sr_query = q, sr_body = body,
      sr_headers = request_headers C method path q body content_type h\<rparr>"

definition signed_request ::
  "s3_client \<Rightarrow> string \<Rightarrow> string \<Rightarrow> query \<Rightarrow> string \<Rightarrow> string option \<Rightarrow> s3_log \<Rightarrow> (s3_fault + string) \<times> s3_log" where
  "signed_request C method path q body content_type h =
     (let about = method @ '' '' @ path; r = s3_call C method path q body content_type h; reply = sc_net C h r
      in case line_problem about (request_target path q) of
           Some fault \<Rightarrow> (Inl fault, h)
         | None \<Rightarrow>
             (case reply of
                Unreachable exc \<Rightarrow> Inl (S3Fault (about @ '' -> transport error: '' @ exc))
              | Raised exc \<Rightarrow> Inl (S3Crash exc)
              | Answer status resp \<Rightarrow> if success_status status then Inr resp else Inl (error_of C about status resp),
              (r, reply) # h))"

section \<open>Operations\<close>

record list_page =
  lp_contents :: "(string \<times> int) list"
  lp_truncated :: bool
  lp_next :: "string option"
  lp_key_count :: int

definition empty_page :: list_page where
  "empty_page = \<lparr>lp_contents = [], lp_truncated = False, lp_next = None, lp_key_count = 0\<rparr>"

definition is_true :: "string \<Rightarrow> bool" where
  "is_true s \<longleftrightarrow> map lower_char (strip s) = ''true''"

fun contents_of :: "s3_client \<Rightarrow> xml list \<Rightarrow> s3_fault + (string \<times> int) list" where
  "contents_of C [] = Inr []"
| "contents_of C (Xml tag text children # es) =
     (if strip_ns tag \<noteq> ''Contents'' then contents_of C es
      else let d = sub_texts children in
        if text_at d ''Key'' = [] then contents_of C es
        else case (case dict_get d ''Size'' of None \<Rightarrow> Some 0 | Some s \<Rightarrow> sc_int C s) of
          None \<Rightarrow> Inl (S3Crash ''ValueError'')
        | Some n \<Rightarrow> res_bind (contents_of C es) (\<lambda>rest. Inr ((text_at d ''Key'', n) # rest)))"

definition parse_list_response :: "s3_client \<Rightarrow> string \<Rightarrow> s3_fault + list_page" where
  "parse_list_response C body =
     (if body = [] then Inr empty_page
      else case sc_xml C body of
        None \<Rightarrow> Inl (S3Crash ''ParseError'')
      | Some (Xml tag text children) \<Rightarrow>
          res_bind (contents_of C children) (\<lambda>contents.
          (let d = sub_texts children in
           case (case dict_get d ''KeyCount'' of None \<Rightarrow> Some 0 | Some s \<Rightarrow> sc_int C s) of
             None \<Rightarrow> Inl (S3Crash ''ValueError'')
           | Some n \<Rightarrow> Inr \<lparr>lp_contents = contents, lp_truncated = is_true (text_at d ''IsTruncated''),
                lp_next = dict_get d ''NextContinuationToken'',
                lp_key_count = (if n = 0 then int (length contents) else n)\<rparr>)))"

definition head_bucket :: "s3_client \<Rightarrow> string \<Rightarrow> s3_log \<Rightarrow> (s3_fault + unit) \<times> s3_log" where
  "head_bucket C bucket h =
     apfst (\<lambda>r. res_bind r (\<lambda>_. Inr ())) (signed_request C ''HEAD'' (''/'' @ bucket) [] [] None h)"

definition list_query :: "string option \<Rightarrow> nat \<Rightarrow> string option \<Rightarrow> query" where
  "list_query token max_keys prefix =
     [(''list-type'', ''2''), (''max-keys'', nat_str max_keys)]
       @ (case token of None \<Rightarrow> [] | Some t \<Rightarrow> if t = [] then [] else [(''continuation-token'', t)])
       @ (case prefix of None \<Rightarrow> [] | Some p \<Rightarrow> if p = [] then [] else [(''prefix'', p)])"

definition list_objects_v2 ::
  "s3_client \<Rightarrow> string \<Rightarrow> string option \<Rightarrow> nat \<Rightarrow> string option \<Rightarrow> s3_log \<Rightarrow> (s3_fault + list_page) \<times> s3_log" where
  "list_objects_v2 C bucket token max_keys prefix h =
     apfst (\<lambda>r. res_bind r (parse_list_response C))
       (signed_request C ''GET'' (''/'' @ bucket)
          (list_query token max_keys prefix) [] None h)"

record s3_error_entry =
  ee_key :: string
  ee_code :: string
  ee_message :: string

record delete_result =
  dr_deleted :: "string list"
  dr_errors :: "s3_error_entry list"

definition xml_escape :: "string \<Rightarrow> string" where
  "xml_escape s = concat (map (\<lambda>c. if c = CHR ''&'' then ''&amp;'' else if c = CHR ''<'' then ''&lt;''
     else if c = CHR ''>'' then ''&gt;'' else [c]) s)"

definition build_delete_xml :: "string list \<Rightarrow> string" where
  "build_delete_xml keys =
     ''<?xml version='' @ [CHR 0x22] @ ''1.0'' @ [CHR 0x22] @ '' encoding='' @ [CHR 0x22] @ ''UTF-8'' @ [CHR 0x22] @ ''?><Delete>''
     @ concat (map (\<lambda>k. ''<Object>'' @ (if k = [] then ''<Key />'' else ''<Key>'' @ xml_escape k @ ''</Key>'') @ ''</Object>'') keys)
     @ ''<Quiet>false</Quiet></Delete>''"

fun deleted_of :: "xml list \<Rightarrow> delete_result" where
  "deleted_of [] = \<lparr>dr_deleted = [], dr_errors = []\<rparr>"
| "deleted_of (Xml tag text children # es) =
     (let rest = deleted_of es; d = sub_texts children in
      if strip_ns tag = ''Deleted'' then
        (if text_at d ''Key'' = [] then rest else rest\<lparr>dr_deleted := text_at d ''Key'' # dr_deleted rest\<rparr>)
      else if strip_ns tag = ''Error'' then
        rest\<lparr>dr_errors := \<lparr>ee_key = text_at d ''Key'', ee_code = text_at d ''Code'', ee_message = text_at d ''Message''\<rparr> # dr_errors rest\<rparr>
      else rest)"

definition parse_delete_response :: "s3_client \<Rightarrow> string \<Rightarrow> s3_fault + delete_result" where
  "parse_delete_response C body =
     (if body = [] then Inr \<lparr>dr_deleted = [], dr_errors = []\<rparr>
      else case sc_xml C body of
        None \<Rightarrow> Inl (S3Crash ''ParseError'')
      | Some (Xml tag text children) \<Rightarrow> Inr (deleted_of children))"

definition delete_objects :: "s3_client \<Rightarrow> string \<Rightarrow> string list \<Rightarrow> s3_log \<Rightarrow> (s3_fault + delete_result) \<times> s3_log" where
  "delete_objects C bucket keys h =
     (if keys = [] then (Inr \<lparr>dr_deleted = [], dr_errors = []\<rparr>, h)
      else if 1000 < length keys then (Inl (S3Crash ''ValueError''), h)
      else apfst (\<lambda>r. res_bind r (parse_delete_response C))
        (signed_request C ''POST'' (''/'' @ bucket) [(''delete'', [])] (build_delete_xml keys) (Some ''application/xml'') h))"

record upload_page =
  up_uploads :: "(string \<times> string) list"
  up_truncated :: bool

fun uploads_of :: "xml list \<Rightarrow> (string \<times> string) list" where
  "uploads_of [] = []"
| "uploads_of (Xml tag text children # es) =
     (let d = sub_texts children in
      if strip_ns tag = ''Upload'' \<and> text_at d ''Key'' \<noteq> [] \<and> text_at d ''UploadId'' \<noteq> []
      then (text_at d ''Key'', text_at d ''UploadId'') # uploads_of es else uploads_of es)"

definition parse_multipart_list_response :: "s3_client \<Rightarrow> string \<Rightarrow> s3_fault + upload_page" where
  "parse_multipart_list_response C body =
     (if body = [] then Inr \<lparr>up_uploads = [], up_truncated = False\<rparr>
      else case sc_xml C body of
        None \<Rightarrow> Inl (S3Crash ''ParseError'')
      | Some (Xml tag text children) \<Rightarrow>
          Inr \<lparr>up_uploads = uploads_of children, up_truncated = is_true (text_at (sub_texts children) ''IsTruncated'')\<rparr>)"

definition list_multipart_uploads :: "s3_client \<Rightarrow> string \<Rightarrow> s3_log \<Rightarrow> (s3_fault + upload_page) \<times> s3_log" where
  "list_multipart_uploads C bucket h =
     apfst (\<lambda>r. res_bind r (parse_multipart_list_response C))
       (signed_request C ''GET'' (''/'' @ bucket) [(''uploads'', []), (''max-uploads'', ''1000'')] [] None h)"

definition abort_multipart_upload :: "s3_client \<Rightarrow> string \<Rightarrow> string \<Rightarrow> string \<Rightarrow> s3_log \<Rightarrow> (s3_fault + unit) \<times> s3_log" where
  "abort_multipart_upload C bucket key upload_id h =
     apfst (\<lambda>r. res_bind r (\<lambda>_. Inr ()))
       (signed_request C ''DELETE'' (''/'' @ bucket @ ''/'' @ key) [(''uploadId'', upload_id)] [] None h)"

section \<open>Facts\<close>

definition answered_ok :: "s3_reply \<Rightarrow> bool" where
  "answered_ok reply \<longleftrightarrow> (case reply of Answer status body \<Rightarrow> success_status status | _ \<Rightarrow> False)"

text \<open>What a call adds to the log: nothing, or one exchange.\<close>

lemma signed_request_cases:
  assumes "signed_request C method path q body ct h = (x, h')"
  obtains (asked) reply where "h' = (s3_call C method path q body ct h, reply) # h"
      "reply = sc_net C h (s3_call C method path q body ct h)"
      "\<And>resp. x = Inr resp \<Longrightarrow> \<exists>status. reply = Answer status resp \<and> success_status status"
      "\<And>fault. x = Inl fault \<Longrightarrow> \<not> answered_ok reply"
  | (unsent) fault where "h' = h" "x = Inl fault"
  using assms
  by (auto simp: signed_request_def Let_def answered_ok_def split: option.splits s3_reply.splits if_splits)

text \<open>Quoting loses nothing and leaves no separator.\<close>

lemma ord_of_hex_upper: "n < 16 \<Longrightarrow> ord_of (hex_upper n) = (if n < 10 then 48 + n else 55 + n)"
  by (simp add: ord_of_def hex_upper_def of_char_of)

lemma hex_upper_inject: "m < 16 \<Longrightarrow> n < 16 \<Longrightarrow> hex_upper m = hex_upper n \<longleftrightarrow> m = n"
proof -
  assume mn: "m < 16" "n < 16"
  have "ord_of (hex_upper m) = ord_of (hex_upper n) \<longleftrightarrow> m = n"
    using mn by (auto simp: ord_of_hex_upper split: if_splits)
  then show ?thesis by simp
qed

lemma pct_byte_inject: "m < 256 \<Longrightarrow> n < 256 \<Longrightarrow> pct_byte m = pct_byte n \<longleftrightarrow> m = n"
  by (auto simp: pct_byte_def hex_upper_inject less_mult_imp_div_less) (metis div_mult_mod_eq)

lemma quote_char_chars: "d \<in> set (quote_char c) \<Longrightarrow> unreserved d \<or> d = CHR ''%''"
proof -
  have "unreserved (hex_upper n)" if "n < 16" for n
    using that by (auto simp: unreserved_def ord_of_hex_upper)
  moreover have "n div 16 < 16" if "n < 256" for n :: nat
    using that by simp
  moreover have "192 + ord_of c div 64 < 256" "128 + ord_of c mod 64 < 256"
    using ord_of_less [of c] by auto
  ultimately show "d \<in> set (quote_char c) \<Longrightarrow> unreserved d \<or> d = CHR ''%''"
    using ord_of_less [of c] by (auto simp: quote_char_def pct_byte_def split: if_splits)
qed

lemma separators_reserved: "\<not> unreserved (CHR ''%'')" "\<not> unreserved (CHR ''&'')" "\<not> unreserved (CHR ''='')"
  by (simp_all add: unreserved_def ord_of_def)

lemma url_quote_chars: "CHR ''&'' \<notin> set (url_quote s)" "CHR ''='' \<notin> set (url_quote s)"
  using quote_char_chars separators_reserved by (fastforce simp: url_quote_def)+

lemma quote_char_prefix: "quote_char c @ x = quote_char d @ y \<Longrightarrow> c = d \<and> x = y"
proof -
  assume eq: "quote_char c @ x = quote_char d @ y"
  have hd: "unreserved (hd (quote_char e)) \<longleftrightarrow> unreserved e" for e
    using separators_reserved by (simp add: quote_char_def pct_byte_def)
  have ne: "quote_char e \<noteq> []" for e by (simp add: quote_char_def pct_byte_def)
  have u: "unreserved c \<longleftrightarrow> unreserved d"
    using eq hd ne by (metis hd_append2)
  have b: "ord_of e < 256" "192 + ord_of e div 64 < 256" "128 + ord_of e mod 64 < 256" for e
    using ord_of_less [of e] by auto
  have three: "length (pct_byte n) = 3" for n by (simp add: pct_byte_def)
  consider "unreserved c" | "\<not> unreserved c" "ord_of c < 128" "ord_of d < 128"
    | "\<not> unreserved c" "ord_of c < 128" "\<not> ord_of d < 128" | "\<not> unreserved c" "\<not> ord_of c < 128" "ord_of d < 128"
    | "\<not> unreserved c" "\<not> ord_of c < 128" "\<not> ord_of d < 128" by blast
  then show "c = d \<and> x = y"
  proof cases
    case 5
    with eq u have "192 + ord_of c div 64 = 192 + ord_of d div 64" "128 + ord_of c mod 64 = 128 + ord_of d mod 64" "x = y"
      by (auto simp: quote_char_def append_eq_append_conv three pct_byte_inject b)
    then show ?thesis by (metis add_left_cancel div_mult_mod_eq ord_of_inject)
  qed (use eq u b [of c] b [of d] in \<open>auto simp: quote_char_def append_eq_append_conv three pct_byte_inject\<close>)
qed

lemma url_quote_inject: "url_quote s = url_quote t \<longleftrightarrow> s = t"
proof (induction s arbitrary: t)
  case Nil
  then show ?case by (cases t) (auto simp: url_quote_def quote_char_def pct_byte_def)
next
  case (Cons c s)
  show ?case
  proof (cases t)
    case Nil
    then show ?thesis by (auto simp: url_quote_def quote_char_def pct_byte_def)
  next
    case (Cons d t')
    then show ?thesis using Cons.IH [of t'] quote_char_prefix [of c "url_quote s" d "url_quote t'"]
      by (auto simp: url_quote_def)
  qed
qed

lemma split_on_free: "c \<notin> set x \<Longrightarrow> split_on c x = [x]" "c \<notin> set x \<Longrightarrow> split_on c (x @ c # y) = x # split_on c y"
  by (induction x) auto

lemma split_on_join: "xs \<noteq> [] \<Longrightarrow> \<forall>x\<in>set xs. c \<notin> set x \<Longrightarrow> split_on c (join [c] xs) = xs"
proof (induction xs)
  case (Cons x xs)
  then show ?case by (cases xs) (simp_all add: split_on_free)
qed simp

definition query_item :: "string \<times> string \<Rightarrow> string" where
  "query_item p = url_quote (fst p) @ ''='' @ url_quote (snd p)"

lemma query_item_inject: "query_item p = query_item p' \<longleftrightarrow> p = p'"
proof
  assume "query_item p = query_item p'"
  then have "split_on (CHR ''='') (query_item p) = split_on (CHR ''='') (query_item p')" by simp
  then show "p = p'"
    by (simp add: query_item_def split_on_free url_quote_chars url_quote_inject prod_eq_iff)
qed simp

lemma canonical_query_items:
  "\<exists>items. canonical_query q = join ''&'' items \<and> mset items = image_mset query_item (mset q)"
proof -
  let ?q = "map (\<lambda>(k, v). (url_quote k, url_quote v)) q"
  let ?item = "\<lambda>(k, v). k @ ''='' @ v"
  have "mset (map ?item (sort ?q)) = image_mset ?item (mset ?q)" by simp
  also have "\<dots> = image_mset query_item (mset q)"
    by (simp add: image_mset.compositionality query_item_def [abs_def] comp_def case_prod_unfold)
  finally show ?thesis unfolding canonical_query_def by blast
qed

text \<open>
  C35. The text a query is signed under tells its params: two queries have the same canonical text exactly
  when they hold the same pairs, each as often, in whatever order they were given; so a signature
  neither depends on the order of the params nor covers two different sets of them.
\<close>

theorem signed_query_tells_params: "canonical_query q = canonical_query q' \<longleftrightarrow> mset q = mset q'"
proof
  assume eq: "canonical_query q = canonical_query q'"
  obtain xs ys where xs: "canonical_query q = join ''&'' xs" "mset xs = image_mset query_item (mset q)"
    and ys: "canonical_query q' = join ''&'' ys" "mset ys = image_mset query_item (mset q')"
    using canonical_query_items by metis
  have item: "x \<noteq> [] \<and> CHR ''&'' \<notin> set x" if "x \<in># image_mset query_item m" for x m
    using that by (auto simp: query_item_def url_quote_chars)
  have free: "\<forall>x\<in>set zs. x \<noteq> [] \<and> CHR ''&'' \<notin> set x" if "mset zs = image_mset query_item m" for zs m
    using item by (metis that set_mset_mset)
  have empty: "join ''&'' zs = [] \<longleftrightarrow> zs = []" if "\<forall>x\<in>set zs. x \<noteq> []" for zs
    using that by (cases "(''&'', zs)" rule: join.cases) auto
  have "xs = ys"
  proof (cases "xs = [] \<or> ys = []")
    case True
    with eq xs(1) ys(1) free [OF xs(2)] free [OF ys(2)] show ?thesis by (metis empty)
  next
    case False
    with eq xs(1) ys(1) free [OF xs(2)] free [OF ys(2)] show ?thesis by (metis split_on_join)
  qed
  then have "image_mset query_item (mset q) = image_mset query_item (mset q')" using xs(2) ys(2) by simp
  then show "mset q = mset q'"
    using multiset.inj_map [of query_item] query_item_inject by (simp add: inj_def)
next
  assume "mset q = mset q'"
  then have "mset (map (\<lambda>(k, v). (url_quote k, url_quote v)) q) = mset (map (\<lambda>(k, v). (url_quote k, url_quote v)) q')"
    by (simp only: mset_map)
  then have "sort (map (\<lambda>(k, v). (url_quote k, url_quote v)) q) = sort (map (\<lambda>(k, v). (url_quote k, url_quote v)) q')"
    by (intro properties_for_sort) simp_all
  then show "canonical_query q = canonical_query q'" by (simp add: canonical_query_def)
qed

text \<open>What an operation got when it returned a result.\<close>

lemma list_step:
  assumes "list_objects_v2 C bucket token n prefix h = (x, h')"
  shows "\<exists>new. h' = new @ h \<and> length new \<le> 1 \<and> (\<forall>y\<in>set new. sr_method (fst y) = ''GET'')
    \<and> (\<forall>page. x = Inr page \<longrightarrow> (\<exists>r status body. new = [(r, Answer status body)] \<and> success_status status
        \<and> sr_path r = ''/'' @ bucket \<and> sr_query r = list_query token n prefix \<and> parse_list_response C body = Inr page))"
  using assms unfolding list_objects_v2_def apfst_def map_prod_def
  by (auto simp: s3_call_def split: prod.splits sum.splits elim!: signed_request_cases)

lemma parse_delete_crash: "parse_delete_response C body = Inl fault \<Longrightarrow> \<exists>exc. fault = S3Crash exc"
  by (auto simp: parse_delete_response_def split: if_splits option.splits xml.splits)

lemma delete_step:
  assumes "delete_objects C bucket keys h = (x, h')"
  shows "\<exists>new. h' = new @ h \<and> length new \<le> 1
    \<and> (\<forall>y\<in>set new. sr_method (fst y) = ''POST'' \<and> sr_path (fst y) = ''/'' @ bucket \<and> sr_body (fst y) = build_delete_xml keys
        \<and> keys \<noteq> [])
    \<and> (\<forall>d. keys \<noteq> [] \<and> x = Inr d \<longrightarrow> (\<exists>r status body. new = [(r, Answer status body)] \<and> success_status status
        \<and> parse_delete_response C body = Inr d))
    \<and> (\<forall>fault. x = Inl fault \<and> (\<forall>exc. fault \<noteq> S3Crash exc) \<longrightarrow> (\<forall>y\<in>set new. \<not> answered_ok (snd y)))"
  using assms unfolding delete_objects_def apfst_def map_prod_def
  by (auto simp: s3_call_def split: prod.splits sum.splits if_splits dest!: parse_delete_crash elim!: signed_request_cases)

lemma uploads_step:
  assumes "list_multipart_uploads C bucket h = (x, h')"
  shows "\<exists>new. h' = new @ h \<and> length new \<le> 1 \<and> (\<forall>y\<in>set new. sr_method (fst y) = ''GET'')"
  using assms unfolding list_multipart_uploads_def apfst_def map_prod_def
  by (auto simp: s3_call_def split: prod.splits elim!: signed_request_cases)

text \<open>The key of an upload goes into the path as it is, so one with a blank can never be aborted.\<close>

lemma blank_key_never_aborted:
  assumes "c \<in> set key" "bad_url_char c"
  shows "\<exists>msg. abort_multipart_upload C bucket key upload h = (Inl (S3Fault msg), h)"
proof -
  have "list_ex bad_url_char (request_target (''/'' @ bucket @ ''/'' @ key) [(''uploadId'', upload)])"
    using assms by (auto simp: request_target_def list_ex_iff)
  then show ?thesis
    by (simp add: abort_multipart_upload_def signed_request_def Let_def line_problem_def apfst_def map_prod_def)
qed

end
