(* ===== verification/GarageClear.thy ===== *)
theory GarageClear
  imports GarageJobs S3
begin

text \<open>
  Clearing and walking a bucket over S3: \<open>garage/jobs/clear_bucket.py\<close> and \<open>garage/jobs/walk_bucket_stats.py\<close>.
  A loop that may not end is a partial function, \<open>None\<close> for not returning; within a result \<open>None\<close> is an
  exception the job manager turns into its crash outcome. The clock reads the milliseconds since the job
  began at a point of its log of exchanges. Progress frames are left out.
\<close>

section \<open>Clearing a bucket\<close>

definition DELETE_BATCH_SIZE :: nat where "DELETE_BATCH_SIZE = 250"
definition MAX_REPORTED_ERRORS :: nat where "MAX_REPORTED_ERRORS = 10"
definition MAX_NO_PROGRESS_ROUNDS :: nat where "MAX_NO_PROGRESS_ROUNDS = 3"
definition MAX_WALL_SECONDS :: int where "MAX_WALL_SECONDS = 1800"

text \<open>\<open>ck_text\<close> is the elapsed seconds as they are rendered.\<close>

record clock =
  ck_ms :: "s3_log \<Rightarrow> int"
  ck_text :: "s3_log \<Rightarrow> string"

record clear_state =
  cs_deleted :: nat
  cs_freed :: int
  cs_stuck :: nat
  cs_errors :: "json list"
  cs_transport :: "string option"

definition no_progress_yet :: clear_state where
  "no_progress_yet = \<lparr>cs_deleted = 0, cs_freed = 0, cs_stuck = 0, cs_errors = [], cs_transport = None\<rparr>"

definition error_json :: "s3_error_entry \<Rightarrow> json" where
  "error_json e = JObj [(''Key'', JStr (ee_key e)), (''Code'', JStr (ee_code e)), (''Message'', JStr (ee_message e))]"

definition auth_failure :: "clock \<Rightarrow> string \<Rightarrow> s3_log \<Rightarrow> job_outcome option" where
  "auth_failure K msg h =
     failed_with FAuthFailed (''Authentication failed: '' @ msg)
       [(''deleted_count'', JInt 0), (''bytes_freed'', JInt 0), (''failed_count'', JInt 0), (''errors'', JArr []),
        (''duration_seconds'', JFloat (ck_text K h)),
        (''error'', JStr ''Could not authenticate. Check your Admin secret key.'')]"

definition clear_stalled :: "clock \<Rightarrow> clear_state \<Rightarrow> string \<Rightarrow> s3_log \<Rightarrow> job_outcome option" where
  "clear_stalled K st detail h =
     failed_with FClearStalled (''Clear stalled after freeing '' @ nat_str (cs_deleted st) @ '' object(s): '' @ detail)
       [(''deleted_count'', JInt (int (cs_deleted st))), (''bytes_freed'', JInt (cs_freed st)),
        (''failed_count'', JInt (int (length (cs_errors st)))), (''errors'', JArr (take MAX_REPORTED_ERRORS (cs_errors st))),
        (''duration_seconds'', JFloat (ck_text K h)),
        (''error'', JStr (''Cleared '' @ nat_str (cs_deleted st) @ '' object(s) but could not finish ('' @ detail @ ''). Retry to continue.''))]"

definition size_by_key :: "(string \<times> int) list \<Rightarrow> (string, int) dict" where
  "size_by_key contents = fold (\<lambda>(k, n). dict_set k n) contents []"

definition key_batches :: "string list \<Rightarrow> string list list" where
  "key_batches keys =
     map (\<lambda>i. take DELETE_BATCH_SIZE (drop (i * DELETE_BATCH_SIZE) keys))
       [0..<(length keys + DELETE_BATCH_SIZE - 1) div DELETE_BATCH_SIZE]"

definition count_deleted :: "(string, int) dict \<Rightarrow> delete_result \<Rightarrow> clear_state \<Rightarrow> clear_state" where
  "count_deleted sizes r st =
     st\<lparr>cs_deleted := cs_deleted st + length (dr_deleted r),
        cs_freed := cs_freed st + sum_list (map (\<lambda>k. case dict_get sizes k of None \<Rightarrow> 0 | Some n \<Rightarrow> n) (dr_deleted r)),
        cs_errors := cs_errors st @ map error_json (dr_errors r)\<rparr>"

text \<open>The batches of one page: an \<open>S3Error\<close> ends the page, \<open>None\<close> is any other exception.\<close>

fun delete_batches ::
  "s3_client \<Rightarrow> string \<Rightarrow> (string, int) dict \<Rightarrow> string list list \<Rightarrow> clear_state \<Rightarrow> s3_log \<Rightarrow> clear_state option \<times> s3_log" where
  "delete_batches C bucket sizes [] st h = (Some st, h)"
| "delete_batches C bucket sizes (batch # rest) st h =
     (case delete_objects C bucket batch h of
        (Inl (S3Crash exc), h1) \<Rightarrow> (None, h1)
      | (Inl (S3Auth msg), h1) \<Rightarrow> (Some (st\<lparr>cs_transport := Some msg\<rparr>), h1)
      | (Inl (S3Fault msg), h1) \<Rightarrow> (Some (st\<lparr>cs_transport := Some msg\<rparr>), h1)
      | (Inr r, h1) \<Rightarrow> delete_batches C bucket sizes rest (count_deleted sizes r st) h1)"

text \<open>How the body of the loop ends: with an outcome, on an empty listing, or for another round.\<close>

datatype clear_round = Ended "job_outcome option" | Drained clear_state | Again clear_state

definition stuck_round :: "clock \<Rightarrow> clear_state \<Rightarrow> string \<Rightarrow> s3_log \<Rightarrow> clear_round" where
  "stuck_round K st detail h =
     (let st1 = st\<lparr>cs_stuck := Suc (cs_stuck st)\<rparr>
      in if MAX_NO_PROGRESS_ROUNDS \<le> cs_stuck st1 then Ended (clear_stalled K st1 detail h) else Again st1)"

definition clear_round :: "s3_client \<Rightarrow> clock \<Rightarrow> string \<Rightarrow> clear_state \<Rightarrow> s3_log \<Rightarrow> clear_round \<times> s3_log" where
  "clear_round C K bucket st h =
     (if 1000 * MAX_WALL_SECONDS < ck_ms K h
      then (Ended (clear_stalled K st (or_text (cs_transport st) (''clear exceeded '' @ int_str MAX_WALL_SECONDS @ ''s'')) h), h)
      else case list_objects_v2 C bucket None 1000 None h of
        (Inl (S3Auth msg), h1) \<Rightarrow> (Ended (auth_failure K msg h1), h1)
      | (Inl (S3Crash exc), h1) \<Rightarrow> (Ended None, h1)
      | (Inl (S3Fault msg), h1) \<Rightarrow> (stuck_round K (st\<lparr>cs_transport := Some msg\<rparr>) msg h1, h1)
      | (Inr page, h1) \<Rightarrow>
          if lp_contents page = [] then (Drained st, h1)
          else let sizes = size_by_key (lp_contents page) in
            case delete_batches C bucket sizes (key_batches (dict_keys sizes)) (st\<lparr>cs_errors := []\<rparr>) h1 of
              (None, h2) \<Rightarrow> (Ended None, h2)
            | (Some st1, h2) \<Rightarrow>
                (if cs_deleted st1 = cs_deleted st
                 then stuck_round K st1 (or_text (cs_transport st1) ''no objects could be deleted'') h2
                 else Again (st1\<lparr>cs_stuck := 0\<rparr>), h2))"

partial_function (option) clear_loop ::
  "s3_client \<Rightarrow> clock \<Rightarrow> string \<Rightarrow> clear_state \<Rightarrow> s3_log \<Rightarrow> ((job_outcome option + clear_state) \<times> s3_log) option" where
  "clear_loop C K bucket st h =
     (case clear_round C K bucket st h of
        (Ended out, h1) \<Rightarrow> Some (Inl out, h1)
      | (Drained st1, h1) \<Rightarrow> Some (Inr st1, h1)
      | (Again st1, h1) \<Rightarrow> clear_loop C K bucket st1 h1)"

text \<open>The uploads in flight; the inner \<open>None\<close> is not known, the outer one an exception.\<close>

definition count_unfinished_uploads :: "s3_client \<Rightarrow> string \<Rightarrow> s3_log \<Rightarrow> nat option option \<times> s3_log" where
  "count_unfinished_uploads C bucket h =
     apfst (\<lambda>r. case r of Inl (S3Crash exc) \<Rightarrow> None | Inl _ \<Rightarrow> Some None | Inr page \<Rightarrow> Some (Some (length (up_uploads page))))
       (list_multipart_uploads C bucket h)"

definition clear_summary :: "nat \<Rightarrow> nat option \<Rightarrow> string" where
  "clear_summary deleted unfinished =
     (let base = ''Cleared '' @ nat_str deleted @ '' object(s)'' in
      case unfinished of
        None \<Rightarrow> base @ ''; could not check for incomplete multipart uploads''
      | Some n \<Rightarrow>
          if n = 0 then base
          else base @ ''; '' @ nat_str n @ '' incomplete multipart upload(s) still hold ''
            @ ''data in this bucket. They are invisible to the object list and ''
            @ ''are not counted against the bucket quota. Abort them with ''
            @ ''garage_bucket_cleanup_uploads.'')"

definition opt_count :: "nat option \<Rightarrow> json" where
  "opt_count n = (case n of None \<Rightarrow> JNull | Some k \<Rightarrow> JInt (int k))"

definition clear_done :: "clock \<Rightarrow> clear_state \<Rightarrow> nat option \<Rightarrow> s3_log \<Rightarrow> job_outcome option" where
  "clear_done K st unfinished h =
     done_with (clear_summary (cs_deleted st) unfinished)
       [(''deleted_count'', JInt (int (cs_deleted st))), (''bytes_freed'', JInt (cs_freed st)), (''failed_count'', JInt 0),
        (''errors'', JArr []), (''unfinished_uploads'', opt_count unfinished), (''duration_seconds'', JFloat (ck_text K h))]"

type_synonym s3_run = "(job_outcome option \<times> s3_log) option"

definition run_clear_bucket :: "s3_client \<Rightarrow> clock \<Rightarrow> string \<Rightarrow> s3_log \<Rightarrow> s3_run" where
  "run_clear_bucket C K bucket h =
     Option.bind (clear_loop C K bucket no_progress_yet h) (\<lambda>(ending, h1). Some (
       case ending of
         Inl out \<Rightarrow> (out, h1)
       | Inr st \<Rightarrow>
           (case count_unfinished_uploads C bucket h1 of
              (None, h2) \<Rightarrow> (None, h2)
            | (Some unfinished, h2) \<Rightarrow> (clear_done K st unfinished h2, h2))))"

section \<open>Clearing without a customer's credential\<close>

text \<open>Aborting every upload of the first page; \<open>None\<close> is an exception that is no \<open>S3Error\<close>.\<close>

fun abort_uploads :: "s3_client \<Rightarrow> string \<Rightarrow> (string \<times> string) list \<Rightarrow> nat \<Rightarrow> s3_log \<Rightarrow> nat option \<times> s3_log" where
  "abort_uploads C bucket [] n h = (Some n, h)"
| "abort_uploads C bucket ((key, upload) # rest) n h =
     (case abort_multipart_upload C bucket key upload h of
        (Inl (S3Crash exc), h1) \<Rightarrow> (None, h1)
      | (Inl _, h1) \<Rightarrow> abort_uploads C bucket rest n h1
      | (Inr _, h1) \<Rightarrow> abort_uploads C bucket rest (Suc n) h1)"

definition abort_all_uploads :: "s3_client \<Rightarrow> string \<Rightarrow> s3_log \<Rightarrow> nat option \<times> s3_log" where
  "abort_all_uploads C bucket h =
     (case list_multipart_uploads C bucket h of
        (Inl (S3Crash exc), h1) \<Rightarrow> (None, h1)
      | (Inl _, h1) \<Rightarrow> (Some 0, h1)
      | (Inr page, h1) \<Rightarrow> abort_uploads C bucket (up_uploads page) 0 h1)"

definition credential_less_failure :: "clock \<Rightarrow> failure_reason \<Rightarrow> string \<Rightarrow> s3_log \<Rightarrow> job_outcome option" where
  "credential_less_failure K reason err h =
     failed_with reason err
       [(''deleted_count'', JInt 0), (''bytes_freed'', JInt 0), (''failed_count'', JInt 0), (''errors'', JArr []),
        (''duration_seconds'', JFloat (ck_text K h)), (''error'', JStr err)]"

text \<open>
  The admin side and the S3 side each answer from their own log; one run fixes what either has seen, so
  this leaves no behaviour of the pair out.
\<close>

record purge_env =
  pe_admin :: admin
  pe_base :: s3_client
  pe_parse :: "string \<Rightarrow> parsed_url"
  pe_clock :: clock

type_synonym purge_run = "(job_outcome option \<times> http_log \<times> s3_log) option"

definition with_extras :: "(string, json) dict \<Rightarrow> job_outcome \<Rightarrow> job_outcome" where
  "with_extras new out = out\<lparr>jo_extras := dict_update (jo_extras out) new\<rparr>"

definition purge_via :: "s3_client \<Rightarrow> clock \<Rightarrow> string \<Rightarrow> s3_log \<Rightarrow> s3_run" where
  "purge_via C K bucket h =
     Option.bind (run_clear_bucket C K bucket h) (\<lambda>(out, h1). Some (
       case out of
         None \<Rightarrow> (None, h1)
       | Some result \<Rightarrow>
           (case abort_all_uploads C bucket h1 of
              (None, h2) \<Rightarrow> (None, h2)
            | (Some n, h2) \<Rightarrow>
                (Some (with_extras ((''uploads_aborted'', JInt (int n)) # (if n = 0 then [] else [(''unfinished_uploads'', JInt 0)]))
                   result), h2))))"

text \<open>A secret that is no text raises when the first request is signed.\<close>

definition clear_with_temp_key ::
  "purge_env \<Rightarrow> string \<Rightarrow> string \<Rightarrow> string \<Rightarrow> json \<Rightarrow> json \<Rightarrow> string \<Rightarrow> http_log \<times> s3_log \<Rightarrow> purge_run" where
  "clear_with_temp_key E bucket_id endpoint region key secret alias logs =
     (case logs of (ha, hs) \<Rightarrow>
      (let fail = credential_less_failure (pe_clock E) in
       case allow_bucket_key (pe_admin E) bucket_id key (True, True, False) ha of
         ((False, err), h1) \<Rightarrow>
           Some (fail FPurgeKeyGrantFailed (''AllowBucketKey failed for bucket '' @ take 16 bucket_id @ '': '' @ err) hs, h1, hs)
       | ((True, _), h1) \<Rightarrow>
           (case add_bucket_alias_local (pe_admin E) bucket_id key (JStr alias) h1 of
              ((False, err), h2) \<Rightarrow>
                Some (fail FPurgeAliasFailed (''AddBucketAlias (local) failed for bucket '' @ take 16 bucket_id @ '': '' @ err
                        @ ''. Without a key-scoped alias the minted key cannot address the bucket over S3.'') hs, h2, hs)
            | ((True, _), h2) \<Rightarrow>
                (case s3_init (pe_base E) (pe_parse E) endpoint region (json_to_str key) (json_to_str secret) of
                   Inl problem \<Rightarrow>
                     Some (fail FOsError (''Failed to construct S3 client for purge clear: '' @ problem) hs, h2, hs)
                 | Inr C \<Rightarrow>
                     if \<not> is_str secret then Some (None, h2, hs)
                     else map_option (\<lambda>(out, h3). (out, h2, h3)) (purge_via C (pe_clock E) alias hs)))))"

definition run_clear_bucket_credential_less ::
  "purge_env \<Rightarrow> string \<Rightarrow> string \<Rightarrow> string \<Rightarrow> http_log \<times> s3_log \<Rightarrow> purge_run" where
  "run_clear_bucket_credential_less E bucket_id endpoint region logs =
     (case logs of (ha, hs) \<Rightarrow>
      (let A = pe_admin E; name = take 8 bucket_id @ ''-purge'' in
       if \<not> configured A then Some (credential_less_failure (pe_clock E) FAdminApiUnconfigured unconfigured hs, ha, hs)
       else case create_key A name False ha of
         ((info, err), h1) \<Rightarrow>
           (let d = (case info of None \<Rightarrow> [] | Some i \<Rightarrow> i);
                key = text_or_empty (get_or_null d ''accessKeyId'');
                secret = text_or_empty (get_or_null d ''secretAccessKey'')
            in if \<not> (truthy key \<and> truthy secret)
               then Some (credential_less_failure (pe_clock E) FPurgeKeyMintFailed
                      (''CreateKey failed for purge key '' @ py_repr name @ '': ''
                       @ (if err = [] then ''no key material in response'' else err)) hs, h1, hs)
               else Option.bind (clear_with_temp_key E bucket_id endpoint region key secret name (h1, hs))
                 (\<lambda>(out, h2, hs2).
                   case delete_key A (json_to_str key) h2 of
                     ((deleted, _), h3) \<Rightarrow>
                       Some (map_option (\<lambda>result.
                          (let r = with_extras [(''credential_less'', JBool True), (''purge_key_id'', key)] result
                           in if \<not> deleted then with_extras [(''manual_cleanup_required'', JArr [cleanup_key key])] r
                              else if dict_has (jo_extras r) ''manual_cleanup_required'' then r
                              else with_extras [(''manual_cleanup_required'', JArr [])] r)) out, h3, hs2)))))"

definition make_clear_bucket_handler :: "purge_env \<Rightarrow> job_params \<Rightarrow> (http_log \<times> s3_log \<Rightarrow> purge_run) option" where
  "make_clear_bucket_handler E p =
     (let has = (\<lambda>k. has_params [k] p) in
      if has ''access_key_id'' \<noteq> has ''secret_access_key'' then None
      else if \<not> (has ''s3_endpoint'' \<and> has ''region'') then None
      else if \<not> has ''access_key_id''
      then (if \<not> has ''bucket_id'' then None
            else Some (run_clear_bucket_credential_less E (ptext p ''bucket_id'') (ptext p ''s3_endpoint'') (ptext p ''region'')))
      else if \<not> has ''bucket_name'' then None
      else case s3_init (pe_base E) (pe_parse E) (ptext p ''s3_endpoint'') (ptext p ''region'')
             (ptext p ''access_key_id'') (ptext p ''secret_access_key'') of
        Inl problem \<Rightarrow> None
      | Inr C \<Rightarrow> Some (\<lambda>(ha, hs). map_option (\<lambda>(out, h). (out, ha, h))
           (run_clear_bucket C (pe_clock E) (ptext p ''bucket_name'') hs)))"

section \<open>Walking a bucket\<close>

definition DEFAULT_MAX_OBJECTS :: int where "DEFAULT_MAX_OBJECTS = 100000"

text \<open>One page: the count, the bytes, and whether the cap was reached.\<close>

fun count_objects :: "int \<Rightarrow> (string \<times> int) list \<Rightarrow> int \<Rightarrow> int \<Rightarrow> int \<times> int \<times> bool" where
  "count_objects cap [] n b = (n, b, False)"
| "count_objects cap ((k, sz) # rest) n b =
     (if cap \<le> n + 1 then (n + 1, b + sz, True) else count_objects cap rest (n + 1) (b + sz))"

definition walk_extras :: "clock \<Rightarrow> int \<Rightarrow> int \<Rightarrow> bool \<Rightarrow> s3_log \<Rightarrow> (string, json) dict" where
  "walk_extras K n b truncated h =
     [(''count'', JInt n), (''bytes'', JInt b), (''truncated'', JBool truncated), (''duration_seconds'', JFloat (ck_text K h))]"

definition walk_failed :: "clock \<Rightarrow> failure_reason \<Rightarrow> string \<Rightarrow> string \<Rightarrow> int \<Rightarrow> int \<Rightarrow> s3_log \<Rightarrow> job_outcome option" where
  "walk_failed K reason err why n b h = failed_with reason err (walk_extras K n b False h @ [(''error'', JStr why)])"

definition walk_done :: "clock \<Rightarrow> string \<Rightarrow> int \<Rightarrow> int \<Rightarrow> bool \<Rightarrow> s3_log \<Rightarrow> job_outcome option" where
  "walk_done K prefix n b truncated h =
     done_with (''Walked '' @ int_str n @ '' object(s) under prefix='' @ py_repr prefix) (walk_extras K n b truncated h)"

partial_function (option) walk_loop ::
  "s3_client \<Rightarrow> clock \<Rightarrow> string \<Rightarrow> string \<Rightarrow> int \<Rightarrow> int \<Rightarrow> int \<Rightarrow> string option \<Rightarrow> s3_log \<Rightarrow> s3_run" where
  "walk_loop C K bucket prefix cap n b continuation h =
     (case list_objects_v2 C bucket continuation 1000 (if prefix = [] then None else Some prefix) h of
        (Inl (S3Crash exc), h1) \<Rightarrow> Some (None, h1)
      | (Inl (S3Auth msg), h1) \<Rightarrow> Some (walk_failed K FOsError (''List failed: '' @ msg) msg n b h1, h1)
      | (Inl (S3Fault msg), h1) \<Rightarrow> Some (walk_failed K FOsError (''List failed: '' @ msg) msg n b h1, h1)
      | (Inr page, h1) \<Rightarrow>
          (case count_objects cap (lp_contents page) n b of
             (n1, b1, truncated) \<Rightarrow>
               if truncated \<or> \<not> lp_truncated page then Some (walk_done K prefix n1 b1 truncated h1, h1)
               else walk_loop C K bucket prefix cap n1 b1 (lp_next page) h1))"

definition run_walk_bucket_stats :: "s3_client \<Rightarrow> clock \<Rightarrow> string \<Rightarrow> string \<Rightarrow> int \<Rightarrow> s3_log \<Rightarrow> s3_run" where
  "run_walk_bucket_stats C K bucket prefix cap h =
     (case head_bucket C bucket h of
        (Inl (S3Crash exc), h1) \<Rightarrow> Some (None, h1)
      | (Inl (S3Auth msg), h1) \<Rightarrow>
          Some (walk_failed K FAuthFailed (''Authentication failed: '' @ msg)
                  ''Could not authenticate. Check the key/secret pair.'' 0 0 h1, h1)
      | (Inl (S3Fault msg), h1) \<Rightarrow> Some (walk_failed K FOsError (''Bucket pre-flight failed: '' @ msg) msg 0 0 h1, h1)
      | (Inr _, h1) \<Rightarrow> walk_loop C K bucket prefix cap 0 0 None h1)"

text \<open>\<open>int_of\<close> is \<open>int\<close> of the param; an unreadable or non-positive cap is the default.\<close>

definition walk_cap :: "(json \<Rightarrow> int option) \<Rightarrow> job_params \<Rightarrow> int" where
  "walk_cap int_of p =
     (case (if has_params [''max_objects''] p then int_of (get_or_null p ''max_objects'') else None) of
        None \<Rightarrow> DEFAULT_MAX_OBJECTS
      | Some n \<Rightarrow> if n \<le> 0 then DEFAULT_MAX_OBJECTS else n)"

definition make_walk_bucket_stats_handler ::
  "purge_env \<Rightarrow> (json \<Rightarrow> int option) \<Rightarrow> job_params \<Rightarrow> (s3_log \<Rightarrow> s3_run) option" where
  "make_walk_bucket_stats_handler E int_of p =
     (if \<not> has_params [''bucket_name'', ''s3_endpoint'', ''region'', ''access_key_id'', ''secret_access_key''] p then None
      else case s3_init (pe_base E) (pe_parse E) (ptext p ''s3_endpoint'') (ptext p ''region'')
             (ptext p ''access_key_id'') (ptext p ''secret_access_key'') of
        Inl problem \<Rightarrow> None
      | Inr C \<Rightarrow> Some (run_walk_bucket_stats C (pe_clock E) (ptext p ''bucket_name'')
          (if has_params [''prefix''] p then ptext p ''prefix'' else []) (walk_cap int_of p)))"

section \<open>Facts\<close>

text \<open>The page an exchange delivered, and the deletions it confirmed.\<close>

definition listed :: "s3_client \<Rightarrow> string \<Rightarrow> s3_request \<times> s3_reply \<Rightarrow> list_page option" where
  "listed C bucket x =
     (case x of
        (r, Answer status body) \<Rightarrow>
          if sr_method r = ''GET'' \<and> sr_path r = ''/'' @ bucket \<and> sr_query r = list_query None 1000 None \<and> success_status status
          then (case parse_list_response C body of Inr page \<Rightarrow> Some page | Inl fault \<Rightarrow> None)
          else None
      | _ \<Rightarrow> None)"

definition deleted_in :: "s3_client \<Rightarrow> s3_request \<times> s3_reply \<Rightarrow> nat" where
  "deleted_in C x =
     (case x of
        (r, Answer status body) \<Rightarrow>
          if sr_method r = ''POST'' \<and> success_status status
          then (case parse_delete_response C body of Inr d \<Rightarrow> length (dr_deleted d) | Inl fault \<Rightarrow> 0)
          else 0
      | _ \<Rightarrow> 0)"

definition confirmed :: "s3_client \<Rightarrow> s3_log \<Rightarrow> nat" where
  "confirmed C new = sum_list (map (deleted_in C) new)"

lemma confirmed_simps [simp]:
  "confirmed C [] = 0" "confirmed C (x # new) = deleted_in C x + confirmed C new"
  "confirmed C (a @ b) = confirmed C a + confirmed C b"
  by (simp_all add: confirmed_def)

text \<open>A deletion of at most 250 keys, each in a page listed before it.\<close>

definition backed :: "s3_client \<Rightarrow> string \<Rightarrow> s3_log \<Rightarrow> s3_request \<Rightarrow> bool" where
  "backed C bucket before r \<longleftrightarrow> sr_path r = ''/'' @ bucket
     \<and> (\<exists>keys page. sr_body r = build_delete_xml keys \<and> keys \<noteq> [] \<and> length keys \<le> DELETE_BATCH_SIZE
          \<and> (\<exists>x\<in>set before. listed C bucket x = Some page) \<and> set keys \<subseteq> fst ` set (lp_contents page))"

fun deletes_backed :: "s3_client \<Rightarrow> string \<Rightarrow> s3_log \<Rightarrow> bool" where
  "deletes_backed C bucket [] \<longleftrightarrow> True"
| "deletes_backed C bucket (x # before) \<longleftrightarrow>
     (sr_method (fst x) = ''POST'' \<longrightarrow> backed C bucket before (fst x)) \<and> deletes_backed C bucket before"

lemma backed_more: "backed C bucket before r \<Longrightarrow> backed C bucket (before @ older) r"
  unfolding backed_def by fastforce

lemma deletes_backed_append: "deletes_backed C bucket a \<Longrightarrow> deletes_backed C bucket b \<Longrightarrow> deletes_backed C bucket (a @ b)"
  by (induction a) (auto intro: backed_more)

lemma deletes_backed_reads: "\<forall>x\<in>set new. sr_method (fst x) = ''GET'' \<Longrightarrow> deletes_backed C bucket new"
  by (induction new) auto

lemma confirmed_reads: "\<forall>x\<in>set new. sr_method (fst x) = ''GET'' \<Longrightarrow> confirmed C new = 0"
  by (induction new) (auto simp: deleted_in_def split: s3_reply.splits)

lemma size_by_key_keys: "set (dict_keys (size_by_key contents)) = fst ` set contents"
proof -
  have "fst ` set (fold (\<lambda>(k, n). dict_set k n) xs d) = fst ` set d \<union> fst ` set xs"
    for xs :: "(string \<times> int) list" and d
    by (induction xs arbitrary: d) (simp_all add: case_prod_unfold dict_keys_set)
  then show ?thesis by (simp add: size_by_key_def)
qed

lemma key_batches_bound: "b \<in> set (key_batches keys) \<Longrightarrow> length b \<le> DELETE_BATCH_SIZE \<and> set b \<subseteq> set keys"
  by (auto simp: key_batches_def dest: in_set_takeD in_set_dropD)

text \<open>The batches of a page: what they add to the log is deletions of keys of the page, and the count is the server's.\<close>

lemma delete_batches_log:
  assumes "delete_batches C bucket sizes bs st h = (st', h')"
    and "x \<in> set before" "listed C bucket x = Some page"
    and "\<forall>b\<in>set bs. length b \<le> DELETE_BATCH_SIZE \<and> set b \<subseteq> fst ` set (lp_contents page)"
  shows "\<exists>new. h' = new @ h \<and> deletes_backed C bucket (new @ before) = deletes_backed C bucket before
    \<and> (\<forall>st1. st' = Some st1 \<longrightarrow> cs_deleted st1 = cs_deleted st + confirmed C new \<and> cs_stuck st1 = cs_stuck st)"
  using assms
proof (induction C bucket sizes bs st h arbitrary: before rule: delete_batches.induct)
  case (1 C bucket sizes st h)
  then show ?case by auto
next
  case (2 C bucket sizes batch rest st h)
  obtain d h1 where call: "delete_objects C bucket batch h = (d, h1)" by (metis prod.exhaust)
  from delete_step [OF call] obtain new where new: "h1 = new @ h" "length new \<le> 1"
      "\<forall>y\<in>set new. sr_method (fst y) = ''POST'' \<and> sr_path (fst y) = ''/'' @ bucket
        \<and> sr_body (fst y) = build_delete_xml batch \<and> batch \<noteq> []"
    and ok: "\<And>r. batch \<noteq> [] \<Longrightarrow> d = Inr r \<Longrightarrow> \<exists>q status body. new = [(q, Answer status body)] \<and> success_status status
        \<and> parse_delete_response C body = Inr r"
    and refused: "\<And>fault. d = Inl fault \<Longrightarrow> (\<And>exc. fault \<noteq> S3Crash exc) \<Longrightarrow> \<forall>y\<in>set new. \<not> answered_ok (snd y)"
    by blast
  have kept: "deletes_backed C bucket (new @ before) = deletes_backed C bucket before"
    using new(2,3) "2.prems"(2-4)
    by (cases new) (auto simp: backed_def intro!: exI [of _ batch] exI [of _ page])
  have fail: "confirmed C new = 0" if "d = Inl fault" "\<And>exc. fault \<noteq> S3Crash exc" for fault
    using refused [OF that] new(2) by (cases new) (auto simp: deleted_in_def answered_ok_def split: s3_reply.splits)
  show ?case
  proof (cases d)
    case (Inl fault)
    with "2.prems"(1) call new(1) kept fail show ?thesis
      by (cases fault) (auto intro!: exI [of _ new])
  next
    case (Inr r)
    have "confirmed C new = length (dr_deleted r)"
    proof (cases "batch = []")
      case True
      with call Inr new(1) show ?thesis by (auto simp: delete_objects_def)
    next
      case False
      with ok [OF _ Inr] new(3) show ?thesis by (auto simp: deleted_in_def)
    qed
    moreover from "2.prems"(1) call Inr
    have rest: "delete_batches C bucket sizes rest (count_deleted sizes r st) h1 = (st', h')" by simp
    from "2.IH" [OF call [symmetric] Inr rest, of "new @ before"] "2.prems"(2-4) obtain new' where
      new': "h' = new' @ h1" "deletes_backed C bucket (new' @ new @ before) = deletes_backed C bucket (new @ before)"
      "\<And>st1. st' = Some st1 \<Longrightarrow> cs_deleted st1 = cs_deleted st + length (dr_deleted r) + confirmed C new'
        \<and> cs_stuck st1 = cs_stuck st"
      by (auto simp: count_deleted_def)
    ultimately show ?thesis using new(1) kept
      by (intro exI [of _ "new' @ new"] conjI allI impI) (auto simp: new'(1,2) dest!: new'(3))
  qed
qed

definition deleted_count :: "job_outcome \<Rightarrow> json" where
  "deleted_count out = get_or_null (jo_extras out) ''deleted_count''"

text \<open>A job that ends early says no more than what was confirmed; a rejected credential says nothing was.\<close>

definition ended_count :: "nat \<Rightarrow> job_outcome \<Rightarrow> bool" where
  "ended_count n out \<longleftrightarrow> \<not> jo_success out
     \<and> deleted_count out = JInt (if jo_failure_reason out = Some FAuthFailed then 0 else int n)"

lemma ended_count_simps:
  "auth_failure K msg h = Some out \<Longrightarrow> ended_count n out"
  "clear_stalled K st detail h = Some out \<Longrightarrow> n = cs_deleted st \<Longrightarrow> ended_count n out"
  by (auto simp: auth_failure_def clear_stalled_def failed_with_def ended_count_def deleted_count_def get_or_null_def)

definition round_ok :: "s3_client \<Rightarrow> string \<Rightarrow> clear_state \<Rightarrow> s3_log \<Rightarrow> clear_round \<Rightarrow> bool" where
  "round_ok C bucket st new r \<longleftrightarrow>
     (case r of
        Ended out \<Rightarrow> (\<forall>o'. out = Some o' \<longrightarrow> ended_count (cs_deleted st + confirmed C new) o')
      | Drained st1 \<Rightarrow> st1 = st \<and> (\<exists>x page. new = [x] \<and> listed C bucket x = Some page \<and> lp_contents page = [])
      | Again st1 \<Rightarrow> cs_deleted st1 = cs_deleted st + confirmed C new
          \<and> (cs_stuck st1 = 0 \<and> new \<noteq> [] \<or> cs_stuck st1 = Suc (cs_stuck st) \<and> cs_stuck st1 < MAX_NO_PROGRESS_ROUNDS))"

lemma stuck_round_ok:
  "cs_deleted st1 = cs_deleted st + confirmed C new \<Longrightarrow> cs_stuck st1 = cs_stuck st \<Longrightarrow>
    round_ok C bucket st new (stuck_round K st1 detail h)"
  by (auto simp: round_ok_def stuck_round_def Let_def intro: ended_count_simps)

lemma clear_round_log:
  assumes "clear_round C K bucket st h = (r, h')"
  shows "\<exists>new. h' = new @ h \<and> deletes_backed C bucket new \<and> round_ok C bucket st new r"
proof (cases "1000 * MAX_WALL_SECONDS < ck_ms K h")
  case True
  with assms show ?thesis
    by (auto simp: clear_round_def round_ok_def intro: ended_count_simps)
next
  case False
  obtain x h1 where call: "list_objects_v2 C bucket None 1000 None h = (x, h1)" by (metis prod.exhaust)
  from list_step [OF call] obtain new where new: "h1 = new @ h" "\<forall>y\<in>set new. sr_method (fst y) = ''GET''"
    and page: "\<And>page. x = Inr page \<Longrightarrow> \<exists>q status body. new = [(q, Answer status body)] \<and> success_status status
      \<and> sr_path q = ''/'' @ bucket \<and> sr_query q = list_query None 1000 None \<and> parse_list_response C body = Inr page"
    by auto
  note reads = deletes_backed_reads [OF new(2), of C bucket] confirmed_reads [OF new(2), of C]
  show ?thesis
  proof (cases x)
    case (Inl fault)
    with assms call False new(1) reads show ?thesis
      by (cases fault)
        (auto simp: clear_round_def intro!: exI [of _ new] stuck_round_ok, auto simp: round_ok_def intro: ended_count_simps)
  next
    case (Inr p)
    from page [OF this] new(2) obtain y where y: "new = [y]" "listed C bucket y = Some p"
      by (auto simp: listed_def)
    show ?thesis
    proof (cases "lp_contents p = []")
      case True
      with assms call False Inr new(1) y reads show ?thesis
        by (auto simp: clear_round_def round_ok_def)
    next
      case contents: False
      let ?sizes = "size_by_key (lp_contents p)"
      obtain st' h2 where run: "delete_batches C bucket ?sizes (key_batches (dict_keys ?sizes)) (st\<lparr>cs_errors := []\<rparr>) h1 = (st', h2)"
        by (metis prod.exhaust)
      have "\<forall>b\<in>set (key_batches (dict_keys ?sizes)). length b \<le> DELETE_BATCH_SIZE \<and> set b \<subseteq> fst ` set (lp_contents p)"
        using key_batches_bound [of _ "dict_keys ?sizes"] by (simp only: size_by_key_keys) blast
      from delete_batches_log [OF run _ y(2) this, of new] y(1) obtain new' where
        new': "h2 = new' @ h1" "deletes_backed C bucket (new' @ new) = deletes_backed C bucket new"
        "\<forall>st1. st' = Some st1 \<longrightarrow> cs_deleted st1 = cs_deleted st + confirmed C new' \<and> cs_stuck st1 = cs_stuck st"
        by auto
      have "round_ok C bucket st (new' @ new) r"
      proof (cases st')
        case None
        with assms call False Inr contents run show ?thesis by (auto simp: clear_round_def round_ok_def)
      next
        case (Some st1)
        with new'(3) reads(2) have "cs_deleted st1 = cs_deleted st + confirmed C (new' @ new)" "cs_stuck st1 = cs_stuck st"
          by simp_all
        with assms call False Inr contents run Some y(1) show ?thesis
          by (auto simp: clear_round_def intro!: stuck_round_ok split: if_splits) (auto simp: round_ok_def)
      qed
      moreover have "h' = h2"
        using assms call False Inr contents run by (auto simp: clear_round_def split: option.splits)
      ultimately show ?thesis using new(1) new'(1,2) reads(1) by (intro exI [of _ "new' @ new"]) simp
    qed
  qed
qed

definition empty_listing :: "s3_client \<Rightarrow> string \<Rightarrow> s3_request \<times> s3_reply \<Rightarrow> bool" where
  "empty_listing C bucket x \<longleftrightarrow> (\<exists>page. listed C bucket x = Some page \<and> lp_contents page = [])"

definition loop_ok :: "s3_client \<Rightarrow> string \<Rightarrow> clear_state \<Rightarrow> s3_log \<Rightarrow> job_outcome option + clear_state \<Rightarrow> bool" where
  "loop_ok C bucket st new ending \<longleftrightarrow>
     (case ending of
        Inl out \<Rightarrow> (\<forall>o'. out = Some o' \<longrightarrow> ended_count (cs_deleted st + confirmed C new) o')
      | Inr st1 \<Rightarrow> cs_deleted st1 = cs_deleted st + confirmed C new
          \<and> (\<exists>x earlier. new = x # earlier \<and> empty_listing C bucket x))"

lemma listed_reads: "round_ok C bucket st new (Drained st1) \<Longrightarrow> \<forall>x\<in>set new. sr_method (fst x) = ''GET''"
proof -
  have "listed C bucket x = Some page \<Longrightarrow> sr_method (fst x) = ''GET''" for x page
    by (auto simp: listed_def split: prod.splits s3_reply.splits if_splits)
  then show "round_ok C bucket st new (Drained st1) \<Longrightarrow> \<forall>x\<in>set new. sr_method (fst x) = ''GET''"
    by (auto simp: round_ok_def)
qed

lemma loop_ok_round:
  "round_ok C bucket st new (Ended out) \<Longrightarrow> loop_ok C bucket st new (Inl out)"
  "round_ok C bucket st new (Drained st1) \<Longrightarrow> loop_ok C bucket st new (Inr st1)"
  "round_ok C bucket st new (Again st1) \<Longrightarrow> loop_ok C bucket st1 new' ending \<Longrightarrow> loop_ok C bucket st (new' @ new) ending"
  using listed_reads [of C bucket st new st1]
  by (auto simp: round_ok_def loop_ok_def empty_listing_def confirmed_reads ac_simps split: sum.splits)

lemma clear_loop_log:
  assumes "clear_loop C K bucket st h = Some y"
  shows "\<exists>new. snd y = new @ h \<and> deletes_backed C bucket new \<and> loop_ok C bucket st new (fst y)"
  using _ assms
proof (rule clear_loop.raw_induct [where P = "\<lambda>C K bucket st h y.
    \<exists>new. snd y = new @ h \<and> deletes_backed C bucket new \<and> loop_ok C bucket st new (fst y)"])
  fix loop C K bucket st h y
  assume IH: "\<And>C K bucket st h y. loop C K bucket st h = Some y \<Longrightarrow>
      \<exists>new. snd y = new @ h \<and> deletes_backed C bucket new \<and> loop_ok C bucket st new (fst y)"
    and body: "(case clear_round C K bucket st h of (Ended out, h1) \<Rightarrow> Some (Inl out, h1)
      | (Drained st1, h1) \<Rightarrow> Some (Inr st1, h1) | (Again st1, h1) \<Rightarrow> loop C K bucket st1 h1) = Some y"
  obtain r h1 where round: "clear_round C K bucket st h = (r, h1)" by (metis prod.exhaust)
  from clear_round_log [OF this] obtain new where new: "h1 = new @ h" "deletes_backed C bucket new" "round_ok C bucket st new r"
    by blast
  show "\<exists>new. snd y = new @ h \<and> deletes_backed C bucket new \<and> loop_ok C bucket st new (fst y)"
  proof (cases r)
    case (Again st1)
    with body round have "loop C K bucket st1 h1 = Some y" by simp
    from IH [OF this] obtain new' where "snd y = new' @ h1" "deletes_backed C bucket new'" "loop_ok C bucket st1 new' (fst y)"
      by blast
    with new Again show ?thesis
      by (intro exI [of _ "new' @ new"]) (auto intro: loop_ok_round deletes_backed_append)
  qed (use body round new in \<open>auto intro!: exI [of _ new] loop_ok_round\<close>)
qed

lemma clear_loop_ends:
  assumes "\<And>h. N \<le> length h \<Longrightarrow> 1000 * MAX_WALL_SECONDS < ck_ms K h"
  shows "\<exists>ending h'. clear_loop C K bucket st h = Some (ending, h')"
proof (induction "4 * (N - length h) + (3 - cs_stuck st)" arbitrary: st h rule: less_induct)
  case less
  obtain r h1 where round: "clear_round C K bucket st h = (r, h1)" by (metis prod.exhaust)
  from clear_round_log [OF this] obtain new where new: "h1 = new @ h" "round_ok C bucket st new r" by blast
  show ?case
  proof (cases r)
    case (Again st1)
    have "\<not> N \<le> length h"
      using assms [of h] round Again by (auto simp: clear_round_def)
    with new Again have "4 * (N - length h1) + (3 - cs_stuck st1) < 4 * (N - length h) + (3 - cs_stuck st)"
      by (cases new) (auto simp: round_ok_def MAX_NO_PROGRESS_ROUNDS_def)
    from less [OF this] round Again show ?thesis by (subst clear_loop.simps) simp
  qed (use round in \<open>simp_all add: clear_loop.simps\<close>)
qed

section \<open>Properties\<close>

text \<open>
  C36. A clear ends: whatever the server answers, if the clock passes the cap of 1800 s after finitely
  many exchanges, the drain loop returns, since a round that frees nothing can repeat three times at most.
\<close>

theorem clear_ends:
  assumes "\<And>h. N \<le> length h \<Longrightarrow> 1000 * MAX_WALL_SECONDS < ck_ms K h"
  shows "\<exists>out h'. run_clear_bucket C K bucket h = Some (out, h')"
proof -
  obtain ending h1 where "clear_loop C K bucket no_progress_yet h = Some (ending, h1)"
    using clear_loop_ends [of N K C bucket no_progress_yet h, OF assms] by blast
  then show ?thesis by (simp add: run_clear_bucket_def split: sum.split prod.split option.split)
qed

text \<open>
  C37. What a clear says is so: every deletion it sends names at most 250 keys of one page listed before,
  a success means the last listing of the bucket held no object and only the upload check came after it,
  and the count it reports is the number of keys the server confirmed; except that a credential refused
  half-way reports none, whatever was deleted before.
\<close>

theorem cleared_bucket_was_listed_empty:
  assumes "run_clear_bucket C K bucket h = Some (Some out, h')"
  shows "\<exists>new. h' = new @ h \<and> deletes_backed C bucket new
    \<and> (jo_success out \<longrightarrow> deleted_count out = JInt (int (confirmed C new))
         \<and> (\<exists>check x earlier. new = check @ x # earlier \<and> empty_listing C bucket x
              \<and> length check \<le> 1 \<and> (\<forall>y\<in>set check. sr_method (fst y) = ''GET'')))
    \<and> (\<not> jo_success out \<longrightarrow>
         deleted_count out = JInt (if jo_failure_reason out = Some FAuthFailed then 0 else int (confirmed C new)))"
proof -
  from assms obtain ending h1 where loop: "clear_loop C K bucket no_progress_yet h = Some (ending, h1)"
    by (auto simp: run_clear_bucket_def split: bind_splits)
  from clear_loop_log [OF this] obtain new where new: "h1 = new @ h" "deletes_backed C bucket new"
    "loop_ok C bucket no_progress_yet new ending" by auto
  show ?thesis
  proof (cases ending)
    case (Inl out')
    with assms loop new show ?thesis
      by (intro exI [of _ new]) (auto simp: run_clear_bucket_def loop_ok_def ended_count_def no_progress_yet_def)
  next
    case (Inr st)
    obtain x h2 where uploads: "list_multipart_uploads C bucket h1 = (x, h2)" by (metis prod.exhaust)
    from uploads_step [OF this] obtain check where check: "h2 = check @ h1" "length check \<le> 1"
      "\<forall>y\<in>set check. sr_method (fst y) = ''GET''" by blast
    from assms loop Inr uploads obtain n where out: "h' = h2" "clear_done K st n h2 = Some out"
      by (auto simp: run_clear_bucket_def count_unfinished_uploads_def split: option.splits)
    from new(3) Inr obtain y earlier where y: "new = y # earlier" "empty_listing C bucket y"
      "cs_deleted st = confirmed C new" by (auto simp: loop_ok_def no_progress_yet_def)
    have "jo_success out" "deleted_count out = JInt (int (confirmed C (check @ new)))"
      using out(2) y(3) confirmed_reads [OF check(3), of C]
      by (auto simp: clear_done_def done_with_def deleted_count_def get_or_null_def)
    moreover have "deletes_backed C bucket (check @ new)"
      using new(2) deletes_backed_reads [OF check(3)] by (rule deletes_backed_append [rotated])
    ultimately show ?thesis using new(1) check y(1,2) out(1)
      by (intro exI [of _ "check @ new"] conjI impI exI [of _ check] exI [of _ y] exI [of _ earlier]) auto
  qed
qed

lemma create_key_url: "create_key A name b h = ((Some info, err), h1) \<Longrightarrow> ad_url_problem A = None"
  by (auto simp: create_key_def post_json_def request_def decoded_def object_of_def apfst_def map_prod_def Let_def
      split: prod.splits option.splits)

lemma delete_key_asks:
  "ad_url_problem A = None \<Longrightarrow> delete_key A key h = ((ok, err), h') \<Longrightarrow>
    \<exists>reply. h' = (delete_key_request A key, reply) # h
      \<and> ok = (case reply of Inl exc \<Rightarrow> False | Inr (status, text) \<Rightarrow> success_status status)"
  by (auto simp: delete_key_def delete_key_request_def post_def request_def Let_def split: sum.splits if_splits)

lemma with_extras_get:
  "get_or_null (jo_extras (with_extras [(k, v)] out)) k' = (if k = k' then v else get_or_null (jo_extras out) k')"
  by (simp add: with_extras_def get_or_null_def dict_update_def dict_simps)

definition purge_name :: "string \<Rightarrow> string" where
  "purge_name bucket_id = take 8 bucket_id @ ''-purge''"


text \<open>Told a key but no secret, the job ends without asking for the key's deletion and without naming it.\<close>

lemma half_minted_key_stays:
  assumes "configured (pe_admin E)"
    and "create_key (pe_admin E) (purge_name bucket_id) False ha = ((Some info, err), h1)"
    and "\<not> truthy (get_or_null info ''secretAccessKey'')"
  shows "\<exists>result. run_clear_bucket_credential_less E bucket_id endpoint region (ha, hs) = Some (Some result, h1, hs)
    \<and> manual_cleanup result = [] \<and> get_or_null (jo_extras result) ''purge_key_id'' = JNull"
  using assms
  by (simp add: run_clear_bucket_credential_less_def Let_def purge_name_def text_or_empty_def credential_less_failure_def
      failed_with_def manual_cleanup_def get_or_null_def cong: if_cong)

text \<open>One upload aborted is enough to report none unfinished, however many were listed.\<close>

lemma partial_abort_reports_none:
  assumes "run_clear_bucket C K bucket h = Some (Some result, h1)" "abort_all_uploads C bucket h1 = (Some n, h2)" "0 < n"
  shows "\<exists>out. purge_via C K bucket h = Some (Some out, h2) \<and> get_or_null (jo_extras out) ''unfinished_uploads'' = JInt 0"
  using assms by (simp add: purge_via_def with_extras_def dict_update_def get_or_null_def dict_simps)

section \<open>Walks\<close>

text \<open>The objects of the pages in a log, oldest first.\<close>

definition page_objects :: "s3_client \<Rightarrow> s3_request \<times> s3_reply \<Rightarrow> (string \<times> int) list" where
  "page_objects C x =
     (case x of
        (r, Answer status body) \<Rightarrow>
          if sr_method r = ''GET'' \<and> success_status status
          then (case parse_list_response C body of Inr page \<Rightarrow> lp_contents page | Inl fault \<Rightarrow> []) else []
      | _ \<Rightarrow> [])"

definition objects_in :: "s3_client \<Rightarrow> s3_log \<Rightarrow> (string \<times> int) list" where
  "objects_in C new = concat (map (page_objects C) (rev new))"

lemma count_objects_take:
  "n < cap \<Longrightarrow> count_objects cap xs n b =
     (n + int (length (take (nat (cap - n)) xs)), b + sum_list (map snd (take (nat (cap - n)) xs)), cap \<le> n + int (length xs))"
proof (induction cap xs n b rule: count_objects.induct)
  case (2 cap k sz rest n b)
  then have "nat (cap - n) = Suc (nat (cap - (n + 1)))" by simp
  with 2 show ?case by (cases "cap \<le> n + 1") (auto simp: ac_simps)
qed simp

definition walk_result :: "int \<Rightarrow> int \<Rightarrow> int \<Rightarrow> (string \<times> int) list \<Rightarrow> job_outcome \<Rightarrow> bool" where
  "walk_result cap n b objs out \<longleftrightarrow>
     get_or_null (jo_extras out) ''count'' = JInt (n + int (length (take (nat (cap - n)) objs)))
     \<and> get_or_null (jo_extras out) ''bytes'' = JInt (b + sum_list (map snd (take (nat (cap - n)) objs)))
     \<and> get_or_null (jo_extras out) ''truncated'' = JBool (cap \<le> n + int (length objs))"

lemma walk_result_done:
  "walk_done K prefix n1 b1 truncated h = Some out \<Longrightarrow> n1 = n + int (length (take (nat (cap - n)) objs)) \<Longrightarrow>
    b1 = b + sum_list (map snd (take (nat (cap - n)) objs)) \<Longrightarrow> truncated = (cap \<le> n + int (length objs)) \<Longrightarrow>
    walk_result cap n b objs out"
  by (auto simp: walk_result_def walk_done_def walk_extras_def done_with_def get_or_null_def)

lemma walk_result_more:
  assumes "n + int (length xs) < cap" "walk_result cap (n + int (length xs)) (b + sum_list (map snd xs)) objs out"
  shows "walk_result cap n b (xs @ objs) out"
proof -
  have "nat (cap - n) = length xs + nat (cap - (n + int (length xs)))" using assms(1) by simp
  with assms show ?thesis by (simp add: walk_result_def ac_simps)
qed

text \<open>No truncated page is empty.\<close>

definition pages_advance :: "s3_client \<Rightarrow> bool" where
  "pages_advance C \<longleftrightarrow> (\<forall>body page. parse_list_response C body = Inr page \<and> lp_truncated page \<longrightarrow> lp_contents page \<noteq> [])"

lemma walk_failed_not_success [simp]: "walk_failed K reason err why n b h = Some out \<Longrightarrow> \<not> jo_success out"
  by (auto simp: walk_failed_def failed_with_def)

lemma walk_loop_spec:
  assumes "pages_advance C" "n < cap"
  shows "\<exists>out new. walk_loop C K bucket prefix cap n b token h = Some (out, new @ h) \<and> length new \<le> nat (cap - n)
    \<and> (\<forall>o'. out = Some o' \<and> jo_success o' \<longrightarrow> walk_result cap n b (objects_in C new) o')"
  using assms(2)
proof (induction "nat (cap - n)" arbitrary: n b token h rule: less_induct)
  case less
  let ?prefix = "if prefix = [] then None else Some prefix"
  obtain x h1 where call: "list_objects_v2 C bucket token 1000 ?prefix h = (x, h1)" by (metis prod.exhaust)
  from list_step [OF call] obtain new where new: "h1 = new @ h" "length new \<le> 1" "\<forall>y\<in>set new. sr_method (fst y) = ''GET''"
    and got: "\<forall>page. x = Inr page \<longrightarrow> (\<exists>r status body. new = [(r, Answer status body)] \<and> success_status status
      \<and> sr_path r = ''/'' @ bucket \<and> sr_query r = list_query token 1000 ?prefix \<and> parse_list_response C body = Inr page)"
    by blast
  show ?case
  proof (cases x)
    case (Inl fault)
    with call new(1,2) less(2) show ?thesis
      by (cases fault) (auto simp: walk_loop.simps intro!: exI [of _ new])
  next
    case (Inr page)
    with got new(3) obtain body where body: "parse_list_response C body = Inr page" "objects_in C new = lp_contents page"
      by (auto simp: objects_in_def page_objects_def)
    let ?objs = "lp_contents page"
    note counts = count_objects_take [OF less(2), of ?objs b]
    show ?thesis
    proof (cases "cap \<le> n + int (length ?objs) \<or> \<not> lp_truncated page")
      case True
      with call Inr counts new(1,2) less(2) body(2) show ?thesis
        by (auto simp: walk_loop.simps intro!: exI [of _ new] elim!: walk_result_done)
    next
      case False
      with assms(1) body(1) have pos: "0 < length ?objs" by (auto simp: pages_advance_def)
      let ?n = "n + int (length ?objs)" and ?b = "b + sum_list (map snd ?objs)"
      have "nat (cap - ?n) < nat (cap - n)" "?n < cap" using pos False by auto
      from less(1) [OF this, of ?b "lp_next page" h1] obtain out new' where
        rest: "walk_loop C K bucket prefix cap ?n ?b (lp_next page) h1 = Some (out, new' @ h1)"
          "length new' \<le> nat (cap - ?n)"
          "\<forall>o'. out = Some o' \<and> jo_success o' \<longrightarrow> walk_result cap ?n ?b (objects_in C new') o'" by blast
      have "take (nat (cap - n)) ?objs = ?objs" using False by (intro take_all) linarith
      then have "walk_loop C K bucket prefix cap n b token h = Some (out, (new' @ new) @ h)"
        using call Inr False rest(1) new(1) counts by (subst walk_loop.simps) (simp del: length_take)
      moreover have "length (new' @ new) \<le> nat (cap - n)"
        using rest(2) new(2) \<open>nat (cap - ?n) < nat (cap - n)\<close> unfolding length_append by linarith
      moreover have "objects_in C (new' @ new) = ?objs @ objects_in C new'"
        using body(2) by (simp add: objects_in_def)
      ultimately show ?thesis
        using rest(3) walk_result_more [OF \<open>?n < cap\<close>] by (intro exI [of _ out] exI [of _ "new' @ new"]) simp
    qed
  qed
qed


text \<open>
  A walk may never end: on a server whose every listing is an empty page that calls itself
  truncated, the walk does not return, since neither an empty page nor the same continuation ends it and
  no clock is read.
\<close>

theorem endless_walk:
  assumes "\<And>token h. token \<in> {None, lp_next page} \<Longrightarrow>
      \<exists>h1. list_objects_v2 C bucket token 1000 (if prefix = [] then None else Some prefix) h = (Inr page, h1)"
    and "lp_truncated page" "lp_contents page = []"
    and "fst (head_bucket C bucket h) = Inr ()" "0 < cap"
  shows "run_walk_bucket_stats C K bucket prefix cap h = None"
proof -
  let ?P = "\<lambda>C' K' bucket' prefix' (cap' :: int) (n :: int) (b :: int) (token :: string option) (h :: s3_log)
    (y :: job_outcome option \<times> s3_log). (C', bucket', prefix') = (C, bucket, prefix) \<longrightarrow> token \<in> {None, lp_next page} \<longrightarrow> cap' \<le> 0"
  have never: "walk_loop C K bucket prefix cap n b token h = None"
    if "0 < cap" "token \<in> {None, lp_next page}" for n b token h
  proof (rule ccontr)
    assume "walk_loop C K bucket prefix cap n b token h \<noteq> None"
    then obtain y where "walk_loop C K bucket prefix cap n b token h = Some y" by blast
    then have "?P C K bucket prefix cap n b token h y"
    proof (rule walk_loop.raw_induct [where P = ?P, rotated])
      fix loop C' and K' :: clock and bucket' prefix' and cap' n b :: int and token h and y :: "job_outcome option \<times> s3_log"
      assume IH: "\<And>C' K' bucket' prefix' cap' n b token h y. loop C' K' bucket' prefix' cap' n b token h = Some y \<Longrightarrow>
          ?P C' K' bucket' prefix' cap' n b token h y"
        and body: "(case list_objects_v2 C' bucket' token 1000 (if prefix' = [] then None else Some prefix') h of
            (Inl (S3Crash exc), h1) \<Rightarrow> Some (None, h1)
          | (Inl (S3Auth msg), h1) \<Rightarrow> Some (walk_failed K' FOsError (''List failed: '' @ msg) msg n b h1, h1)
          | (Inl (S3Fault msg), h1) \<Rightarrow> Some (walk_failed K' FOsError (''List failed: '' @ msg) msg n b h1, h1)
          | (Inr page, h1) \<Rightarrow>
              (case count_objects cap' (lp_contents page) n b of
                 (n1, b1, truncated) \<Rightarrow>
                   if truncated \<or> \<not> lp_truncated page then Some (walk_done K' prefix' n1 b1 truncated h1, h1)
                   else loop C' K' bucket' prefix' cap' n1 b1 (lp_next page) h1)) = Some y"
      show "?P C' K' bucket' prefix' cap' n b token h y"
      proof (intro impI)
        assume same: "(C', bucket', prefix') = (C, bucket, prefix)" and token: "token \<in> {None, lp_next page}"
        from same have eqs: "C' = C" "bucket' = bucket" "prefix' = prefix" by simp_all
        obtain h1 where "list_objects_v2 C bucket token 1000 (if prefix = [] then None else Some prefix) h = (Inr page, h1)"
          using assms(1) [OF token] by blast
        with body [unfolded eqs] assms(2,3) have "loop C' K' bucket' prefix' cap' n b (lp_next page) h1 = Some y"
          by (simp add: eqs)
        from IH [OF this] same show "cap' \<le> 0" by blast
      qed
    qed
    with that show False by simp
  qed
  from never [OF assms(5), of None] assms(4) show ?thesis
    by (auto simp: run_walk_bucket_stats_def split: prod.split sum.split)
qed

section \<open>A small server\<close>

text \<open>One object \<open>k\<close> until a deletion was sent; the purge admin answers with a key and its secret.\<close>

definition key_entry :: "string \<Rightarrow> xml" where
  "key_entry tag = Xml ''R'' None [Xml tag None [Xml ''Key'' (Some ''k'') []]]"

definition demo_s3 :: s3_client where
  "demo_s3 = \<lparr>sc_scheme = ''http'', sc_host = ''h'', sc_port = 80, sc_region = ''r'', sc_access = ''a'', sc_secret = ''s'',
     sc_signer = \<lparr>sg_mac = (\<lambda>k m. []), sg_hex = (\<lambda>m. m), sg_sha = (\<lambda>m. [])\<rparr>,
     sc_xml = (\<lambda>b. Some (if b = ''L'' then key_entry ''Contents'' else if b = ''D'' then key_entry ''Deleted'' else Xml ''R'' None [])),
     sc_int = (\<lambda>t. None), sc_decode = (\<lambda>b. b), sc_now = (\<lambda>h. ([], [])),
     sc_net = (\<lambda>h r. Answer 200 (if sr_method r = ''POST'' then ''D''
       else if list_ex (\<lambda>(q, x). sr_method q = ''POST'') h then ''E'' else ''L''))\<rparr>"

definition demo_clock :: clock where
  "demo_clock = \<lparr>ck_ms = (\<lambda>h. 1000000 * int (length h)), ck_text = (\<lambda>h. [])\<rparr>"

lemma clear_ends_witness: "\<exists>out h'. run_clear_bucket demo_s3 demo_clock ''b'' [] = Some (out, h')"
  by (rule clear_ends [of 2]) (simp add: demo_clock_def MAX_WALL_SECONDS_def)

definition quick_clock :: clock where
  "quick_clock = \<lparr>ck_ms = (\<lambda>h. int (length h)), ck_text = (\<lambda>h. [])\<rparr>"

definition posted :: "s3_log \<Rightarrow> bool" where
  "posted h \<longleftrightarrow> list_ex (\<lambda>(q, x). sr_method q = ''POST'') h"

lemma plain_line:
  assumes "list_all (\<lambda>c. \<not> bad_url_char c \<and> \<not> 128 \<le> ord_of c) (request_target path q)"
  shows "line_problem about (request_target path q) = None"
  using assms by (auto simp: line_problem_def list_all_iff list_ex_iff)

lemma demo_request:
  assumes "list_all (\<lambda>c. \<not> bad_url_char c \<and> \<not> 128 \<le> ord_of c) (request_target path q)"
    and "body' = (if method = ''POST'' then ''D'' else if posted h then ''E'' else ''L'')"
  shows "signed_request demo_s3 method path q body ct h
     = (Inr body', (s3_call demo_s3 method path q body ct h, Answer 200 body') # h)"
proof -
  have "sc_net demo_s3 h (s3_call demo_s3 method path q body ct h) = Answer 200 body'"
    using assms(2) by (simp add: demo_s3_def s3_call_def posted_def)
  with plain_line [OF assms(1)] show ?thesis by (simp add: signed_request_def Let_def success_status_def)
qed

lemma demo_parses:
  "parse_list_response demo_s3 ''L'' = Inr \<lparr>lp_contents = [(''k'', 0)], lp_truncated = False, lp_next = None, lp_key_count = 1\<rparr>"
  "parse_list_response demo_s3 ''E'' = Inr empty_page"
  "parse_delete_response demo_s3 ''D'' = Inr \<lparr>dr_deleted = [''k''], dr_errors = []\<rparr>"
  "parse_multipart_list_response demo_s3 ''E'' = Inr \<lparr>up_uploads = [], up_truncated = False\<rparr>"
  by code_simp+

lemma demo_lines:
  "list_all (\<lambda>c. \<not> bad_url_char c \<and> \<not> 128 \<le> ord_of c) (request_target ''/b'' (list_query None 1000 None))"
  "list_all (\<lambda>c. \<not> bad_url_char c \<and> \<not> 128 \<le> ord_of c) (request_target ''/b'' [(''delete'', [])])"
  "list_all (\<lambda>c. \<not> bad_url_char c \<and> \<not> 128 \<le> ord_of c) (request_target ''/b'' [(''uploads'', []), (''max-uploads'', ''1000'')])"
  by code_simp+

lemma demo_calls:
  "list_objects_v2 demo_s3 ''b'' None 1000 None h = (parse_list_response demo_s3 (if posted h then ''E'' else ''L''),
     (s3_call demo_s3 ''GET'' ''/b'' (list_query None 1000 None) [] None h, Answer 200 (if posted h then ''E'' else ''L'')) # h)"
  "delete_objects demo_s3 ''b'' [''k''] h = (Inr \<lparr>dr_deleted = [''k''], dr_errors = []\<rparr>,
     (s3_call demo_s3 ''POST'' ''/b'' [(''delete'', [])] (build_delete_xml [''k'']) (Some ''application/xml'') h, Answer 200 ''D'') # h)"
  "list_multipart_uploads demo_s3 ''b'' h = (parse_multipart_list_response demo_s3 (if posted h then ''E'' else ''L''),
     (s3_call demo_s3 ''GET'' ''/b'' [(''uploads'', []), (''max-uploads'', ''1000'')] [] None h,
      Answer 200 (if posted h then ''E'' else ''L'')) # h)"
  by (simp_all add: list_objects_v2_def delete_objects_def list_multipart_uploads_def demo_request [OF demo_lines(1)]
      demo_request [OF demo_lines(2)] demo_request [OF demo_lines(3)] demo_parses)

lemma demo_rounds:
  "\<exists>st1 h1 st2 h2 h3. clear_round demo_s3 quick_clock ''b'' no_progress_yet [] = (Again st1, h1)
     \<and> clear_round demo_s3 quick_clock ''b'' st1 h1 = (Drained st2, h2)
     \<and> count_unfinished_uploads demo_s3 ''b'' h2 = (Some (Some 0), h3) \<and> cs_deleted st2 = 1"
  by (simp add: clear_round_def quick_clock_def MAX_WALL_SECONDS_def demo_calls demo_parses posted_def s3_call_def
      size_by_key_def key_batches_def DELETE_BATCH_SIZE_def no_progress_yet_def count_deleted_def empty_page_def
      count_unfinished_uploads_def)

lemma cleared_bucket_was_listed_empty_witness:
  "\<exists>out new. run_clear_bucket demo_s3 quick_clock ''b'' [] = Some (Some out, new)
     \<and> (\<exists>x\<in>set new. empty_listing demo_s3 ''b'' x) \<and> confirmed demo_s3 new = 1"
proof -
  obtain st1 h1 st2 h2 h3 where rounds: "clear_round demo_s3 quick_clock ''b'' no_progress_yet [] = (Again st1, h1)"
    "clear_round demo_s3 quick_clock ''b'' st1 h1 = (Drained st2, h2)"
    "count_unfinished_uploads demo_s3 ''b'' h2 = (Some (Some 0), h3)" "cs_deleted st2 = 1"
    using demo_rounds by blast
  have "clear_loop demo_s3 quick_clock ''b'' no_progress_yet [] = Some (Inr st2, h2)"
    by (subst clear_loop.simps, simp add: rounds(1), subst clear_loop.simps, simp add: rounds(2))
  then obtain out where run: "run_clear_bucket demo_s3 quick_clock ''b'' [] = Some (Some out, h3)"
    "jo_success out" "deleted_count out = JInt 1"
    using rounds(3,4)
    by (simp add: run_clear_bucket_def clear_done_def done_with_def deleted_count_def get_or_null_def)
  from cleared_bucket_was_listed_empty [OF run(1)] run show ?thesis by fastforce
qed

definition purge_admin :: admin where
  "purge_admin = demo_admin\<lparr>ad_loads := (\<lambda>t. Some (JObj [(''id'', JStr ''ab12''), (''accessKeyId'', JStr ''K1''),
     (''secretAccessKey'', JStr ''S1'')]))\<rparr>"

definition demo_purge :: purge_env where
  "demo_purge = \<lparr>pe_admin = purge_admin, pe_base = demo_s3, pe_parse = (\<lambda>u. Inl ''Invalid IPv6 URL''), pe_clock = quick_clock\<rparr>"

lemma demo_purge_run:
  "case run_clear_bucket_credential_less demo_purge ''ab12'' ''http://['' ''r'' ([], []) of
     Some (Some out, ha, hs) \<Rightarrow> jo_failure_reason out = Some FOsError | _ \<Rightarrow> False"
  by code_simp


lemma demo_walks: "pages_advance demo_s3"
  by (auto simp: pages_advance_def parse_list_response_def demo_s3_def key_entry_def is_true_def text_at_def sub_texts_def
      empty_page_def Let_def strip_def split: if_splits option.splits)


definition stuck_s3 :: s3_client where
  "stuck_s3 = demo_s3\<lparr>sc_xml := (\<lambda>b. Some (Xml ''R'' None [Xml ''IsTruncated'' (Some ''true'') []])), sc_net := (\<lambda>h r. Answer 200 ''T'')\<rparr>"

lemma endless_walk_witness: "run_walk_bucket_stats stuck_s3 quick_clock ''b'' [] 5 [] = None"
proof (rule endless_walk [where page = "\<lparr>lp_contents = [], lp_truncated = True, lp_next = None, lp_key_count = 0\<rparr>"])
  let ?page = "\<lparr>lp_contents = [], lp_truncated = True, lp_next = None, lp_key_count = 0\<rparr>"
  have page: "parse_list_response stuck_s3 ''T'' = Inr ?page" by code_simp
  show "\<exists>h1. list_objects_v2 stuck_s3 ''b'' token 1000 (if [] = [] then None else Some []) h = (Inr ?page, h1)"
    if "token \<in> {None, lp_next ?page}" for token h
    using that plain_line [OF demo_lines(1)] page
    by (simp add: list_objects_v2_def signed_request_def Let_def stuck_s3_def success_status_def apfst_def map_prod_def)
  show "fst (head_bucket stuck_s3 ''b'' []) = Inr ()" by code_simp
qed simp_all

end
