(* ===== verification/GarageReads.thy ===== *)
theory GarageReads
  imports GarageJobs
begin

text \<open>
  The Garage jobs that read, and the compare-and-swap on CORS rules: \<open>garage/jobs/bucket_cors.py\<close>,
  \<open>garage/jobs/get_bucket_owners.py\<close> and \<open>garage/jobs/get_key_buckets.py\<close>.
\<close>

section \<open>CORS rules\<close>

definition LIST_KEYS :: "string list" where
  "LIST_KEYS = [''AllowedOrigin'', ''AllowedMethod'', ''AllowedHeader'', ''ExposeHeader'']"

definition SCALAR_KEYS :: "string list" where "SCALAR_KEYS = [''ID'', ''MaxAgeSeconds'']"

definition RULE_KEYS :: "string set" where "RULE_KEYS = set LIST_KEYS \<union> set SCALAR_KEYS"

fun rules_problem_from :: "nat \<Rightarrow> json list \<Rightarrow> string option" where
  "rules_problem_from i [] = None"
| "rules_problem_from i (JObj rule # rest) =
     (let unknown = sort (filter (\<lambda>k. k \<notin> RULE_KEYS) (remdups (dict_keys rule)))
      in if unknown \<noteq> [] then Some (''['' @ nat_str i @ ''] carries unknown keys '' @ json_repr (JArr (map JStr unknown)))
         else rules_problem_from (Suc i) rest)"
| "rules_problem_from i (v # rest) = Some (''['' @ nat_str i @ ''] is '' @ type_name v @ '', expected a rule object'')"

definition cors_rules_shape_problem :: "json \<Rightarrow> string option" where
  "cors_rules_shape_problem rules =
     (case rules of JArr items \<Rightarrow> rules_problem_from 0 items
      | v \<Rightarrow> Some (''is '' @ type_name v @ '', expected a list of rule objects''))"

text \<open>One rule: the scalars that are set, then every list; \<open>None\<close> is the \<open>TypeError\<close> of a list that is a number or true.\<close>

fun list_entries :: "string list \<Rightarrow> (string, json) dict \<Rightarrow> (string, json) dict option" where
  "list_entries [] rule = Some []"
| "list_entries (k # ks) rule =
     (case (list_of (get_or_null rule k), list_entries ks rule) of
        (Some xs, Some rest) \<Rightarrow> Some ((k, JArr xs) # rest)
      | _ \<Rightarrow> None)"

definition clean_rule :: "(string, json) dict \<Rightarrow> json option" where
  "clean_rule rule =
     map_option (\<lambda>lists. JObj (map (\<lambda>k. (k, get_or_null rule k)) (filter (\<lambda>k. get_or_null rule k \<noteq> JNull) SCALAR_KEYS) @ lists))
       (list_entries LIST_KEYS rule)"

fun normalize_cors_rules :: "json list \<Rightarrow> json list option" where
  "normalize_cors_rules [] = Some []"
| "normalize_cors_rules (JObj rule # rest) =
     (case (clean_rule rule, normalize_cors_rules rest) of (Some r, Some rs) \<Rightarrow> Some (r # rs) | _ \<Rightarrow> None)"
| "normalize_cors_rules (v # rest) = None"

text \<open>
  Python's \<open>==\<close>: true is 1 and the order of an object's keys does not matter. A comparison with a float is
  a parameter.
\<close>

fun number_of :: "json \<Rightarrow> int option" where
  "number_of (JBool b) = Some (if b then 1 else 0)"
| "number_of (JInt i) = Some i"
| "number_of v = None"

fun is_float :: "json \<Rightarrow> bool" where
  "is_float (JFloat s) = True"
| "is_float v = False"

definition leaf_eq :: "(json \<Rightarrow> json \<Rightarrow> bool) \<Rightarrow> json \<Rightarrow> json \<Rightarrow> bool" where
  "leaf_eq float_eq v w =
     (if is_float v \<or> is_float w then float_eq v w
      else case (number_of v, number_of w) of (Some i, Some j) \<Rightarrow> i = j | _ \<Rightarrow> v = w)"

fun value_eq :: "(json \<Rightarrow> json \<Rightarrow> bool) \<Rightarrow> json \<Rightarrow> json \<Rightarrow> bool"
  and values_eq :: "(json \<Rightarrow> json \<Rightarrow> bool) \<Rightarrow> json list \<Rightarrow> json list \<Rightarrow> bool"
  and entries_eq :: "(json \<Rightarrow> json \<Rightarrow> bool) \<Rightarrow> (string \<times> json) list \<Rightarrow> (string \<times> json) list \<Rightarrow> bool" where
  "value_eq F (JArr xs) w = (case w of JArr ys \<Rightarrow> values_eq F xs ys | _ \<Rightarrow> False)"
| "value_eq F (JObj d) w = (case w of JObj e \<Rightarrow> length d = length e \<and> entries_eq F d e | _ \<Rightarrow> False)"
| "value_eq F v w = leaf_eq F v w"
| "values_eq F [] ys = (ys = [])"
| "values_eq F (x # xs) ys = (case ys of [] \<Rightarrow> False | y # ys' \<Rightarrow> value_eq F x y \<and> values_eq F xs ys')"
| "entries_eq F [] e = True"
| "entries_eq F ((k, v) # d) e = ((case dict_get e k of None \<Rightarrow> False | Some w \<Rightarrow> value_eq F v w) \<and> entries_eq F d e)"

definition cors_success :: "string \<Rightarrow> string \<Rightarrow> json list \<Rightarrow> string \<Rightarrow> job_outcome option" where
  "cors_success el bucket rules out =
     done_with out [(''bucket_id'', JStr bucket), (''rules'', JArr rules), (''duration_seconds'', JFloat el)]"

definition cors_failure :: "string \<Rightarrow> failure_reason \<Rightarrow> string \<Rightarrow> string \<Rightarrow> json list option \<Rightarrow> job_outcome option" where
  "cors_failure el reason bucket err rules =
     failed_with reason err
       ([(''bucket_id'', JStr bucket), (''error'', JStr err), (''duration_seconds'', JFloat el)]
        @ (case rules of None \<Rightarrow> [] | Some rs \<Rightarrow> [(''rules'', JArr rs)]))"

text \<open>The rules in a reply, or the failure; \<open>None\<close> is an exception.\<close>

definition rules_in :: "string \<Rightarrow> string \<Rightarrow> (string, json) dict \<Rightarrow> (job_outcome option + json list) option" where
  "rules_in el bucket info =
     (let raw = get_or_null info ''corsRules'' in
      if raw = JNull then Some (Inr [])
      else case cors_rules_shape_problem raw of
        Some problem \<Rightarrow> Some (Inl (cors_failure el FCorsRulesUnreadable bucket (''GetBucketInfo corsRules '' @ problem) None))
      | None \<Rightarrow> map_option Inr (normalize_cors_rules (case raw of JArr items \<Rightarrow> items | _ \<Rightarrow> [])))"

definition read_current_rules ::
  "string \<Rightarrow> admin \<Rightarrow> string \<Rightarrow> http_log \<Rightarrow> (job_outcome option + json list) option \<times> http_log" where
  "read_current_rules el A bucket h =
     (case get_bucket_info A bucket h of
        ((None, err), h1) \<Rightarrow>
          (Some (Inl (cors_failure el (if is_not_found err then FBucketNotFound else FBucketInfoFailed) bucket err None)), h1)
      | ((Some info, _), h1) \<Rightarrow> (rules_in el bucket info, h1))"

definition run_bucket_cors_get :: "string \<Rightarrow> admin \<Rightarrow> string \<Rightarrow> job_run" where
  "run_bucket_cors_get el A bucket h =
     (case read_current_rules el A bucket h of
        (None, h1) \<Rightarrow> (None, h1)
      | (Some (Inl out), h1) \<Rightarrow> (out, h1)
      | (Some (Inr current), h1) \<Rightarrow>
          (cors_success el bucket current
             (''Bucket '' @ bucket @ '' has '' @ nat_str (length current) @ '' CORS rule(s)''), h1))"

definition run_bucket_cors_set ::
  "(json \<Rightarrow> json \<Rightarrow> bool) \<Rightarrow> string \<Rightarrow> admin \<Rightarrow> string \<Rightarrow> json list \<Rightarrow> json list \<Rightarrow> job_run" where
  "run_bucket_cors_set F el A bucket rules expected h =
     (case read_current_rules el A bucket h of
        (None, h1) \<Rightarrow> (None, h1)
      | (Some (Inl out), h1) \<Rightarrow> (out, h1)
      | (Some (Inr current), h1) \<Rightarrow>
          if \<not> values_eq F current expected
          then (cors_failure el FCorsRulesStale bucket
                  ''Bucket CORS rules changed since they were loaded; reload and retry.'' (Some current), h1)
          else (case set_bucket_cors A bucket rules h1 of
                  ((False, err), h2) \<Rightarrow>
                    (cors_failure el FCorsUpdateFailed bucket (''UpdateBucket corsRules failed: '' @ err) None, h2)
                | ((True, _), h2) \<Rightarrow>
                    (cors_success el bucket rules
                       ((if rules = [] then ''Cleared CORS rules on''
                         else ''Set '' @ nat_str (length rules) @ '' CORS rule(s) on'') @ '' '' @ bucket), h2)))"

definition make_bucket_cors_get_handler :: "string \<Rightarrow> admin \<Rightarrow> job_params \<Rightarrow> job_run option" where
  "make_bucket_cors_get_handler el A p =
     (if \<not> has_params [''bucket_id''] p \<or> \<not> configured A then None
      else Some (run_bucket_cors_get el A (ptext p ''bucket_id'')))"

definition make_bucket_cors_set_handler ::
  "(json \<Rightarrow> json \<Rightarrow> bool) \<Rightarrow> string \<Rightarrow> admin \<Rightarrow> job_params \<Rightarrow> job_run option" where
  "make_bucket_cors_set_handler F el A p =
     (if \<not> has_params [''bucket_id''] p \<or> \<not> dict_has p ''rules'' \<or> \<not> dict_has p ''expected_rules'' \<or> \<not> configured A then None
      else case (get_or_null p ''rules'', get_or_null p ''expected_rules'') of
        (JArr rules, JArr expected) \<Rightarrow>
          if cors_rules_shape_problem (JArr rules) \<noteq> None \<or> cors_rules_shape_problem (JArr expected) \<noteq> None then None
          else Some (\<lambda>h. case (normalize_cors_rules rules, normalize_cors_rules expected) of
                 (Some rs, Some es) \<Rightarrow> run_bucket_cors_set F el A (ptext p ''bucket_id'') rs es h
               | _ \<Rightarrow> (None, h))
      | _ \<Rightarrow> None)"

section \<open>The owners of a bucket\<close>

text \<open>The entries of a reply that name a key, with the key's grant; an entry of another shape raises.\<close>

fun key_grants_of :: "json list \<Rightarrow> (json \<times> perms) list option" where
  "key_grants_of [] = Some []"
| "key_grants_of (JObj e # rest) =
     (let key = text_or_empty (get_or_null e ''accessKeyId'') in
      if \<not> truthy key then key_grants_of rest
      else case dict_of (get_or_null e ''permissions'') of
        None \<Rightarrow> None
      | Some p \<Rightarrow> map_option (Cons (key, perm_bits p)) (key_grants_of rest))"
| "key_grants_of (v # rest) = None"

definition grant_json :: "json \<times> perms \<Rightarrow> json" where
  "grant_json g =
     (case g of (key, r, w, own) \<Rightarrow>
        JObj [(''key_id'', key), (''read'', JBool r), (''write'', JBool w), (''owner'', JBool own)])"

definition owner_keys :: "(json \<times> perms) list \<Rightarrow> json list" where
  "owner_keys gs = map fst (filter (\<lambda>(key, r, w, own). own) gs)"

definition owners_success :: "string \<Rightarrow> string \<Rightarrow> (json \<times> perms) list \<Rightarrow> job_outcome option" where
  "owners_success el bucket gs =
     done_with (''Bucket '' @ take 16 bucket @ '' has '' @ nat_str (length (owner_keys gs)) @ '' owner key(s)'')
       [(''bucket_id'', JStr (take 16 bucket)), (''owner_key_ids'', JArr (owner_keys gs)),
        (''key_grants'', JArr (map grant_json gs)), (''garage_stderr'', JStr []), (''duration_seconds'', JFloat el)]"

definition owners_failure :: "string \<Rightarrow> failure_reason \<Rightarrow> string \<Rightarrow> string \<Rightarrow> job_outcome option" where
  "owners_failure el reason bucket err =
     failed_with reason err
       [(''bucket_id'', JStr (take 16 bucket)), (''owner_key_ids'', JArr []), (''garage_stderr'', JStr err),
        (''duration_seconds'', JFloat el)]"

definition run_get_bucket_owners :: "string \<Rightarrow> admin \<Rightarrow> string \<Rightarrow> job_run" where
  "run_get_bucket_owners el A bucket h =
     (if \<not> configured A then (owners_failure el FAdminApiUnconfigured bucket unconfigured, h)
      else case get_bucket_info A bucket h of
        ((None, err), h1) \<Rightarrow>
          (if is_not_found err then owners_success el bucket [] else owners_failure el FBucketReadFailed bucket err, h1)
      | ((Some info, _), h1) \<Rightarrow>
          (Option.bind (Option.bind (items_of (get_or_null info ''keys'')) key_grants_of) (owners_success el bucket), h1))"

definition make_get_bucket_owners_handler :: "string \<Rightarrow> admin \<Rightarrow> job_params \<Rightarrow> job_run option" where
  "make_get_bucket_owners_handler el A p =
     (if \<not> has_params [''bucket_id''] p then None else Some (run_get_bucket_owners el A (ptext p ''bucket_id'')))"

section \<open>The buckets of a key\<close>

record key_bucket =
  kb_id :: json
  kb_alias :: json
  kb_perms :: perms

text \<open>A grant with no permission is a detached bucket.\<close>

fun key_buckets_of :: "json list \<Rightarrow> key_bucket list option" where
  "key_buckets_of [] = Some []"
| "key_buckets_of (JObj e # rest) =
     (let full = text_or_empty (get_or_null e ''id'') in
      if \<not> truthy full then key_buckets_of rest
      else case dict_of (get_or_null e ''permissions'') of
        None \<Rightarrow> None
      | Some p \<Rightarrow>
          if \<not> any_perm (perm_bits p) then key_buckets_of rest
          else (case first_alias (get_or_null e ''localAliases'') of
                  None \<Rightarrow> None
                | Some alias \<Rightarrow>
                    map_option (Cons \<lparr>kb_id = full, kb_alias = alias, kb_perms = perm_bits p\<rparr>) (key_buckets_of rest)))"
| "key_buckets_of (v # rest) = None"

definition bucket_grant_json :: "key_bucket \<Rightarrow> json" where
  "bucket_grant_json b =
     (case kb_perms b of (r, w, own) \<Rightarrow>
        JObj [(''id'', kb_id b), (''alias'', kb_alias b), (''read'', JBool r), (''write'', JBool w), (''owner'', JBool own)])"

definition owned_buckets :: "key_bucket list \<Rightarrow> json list" where
  "owned_buckets bs = map (\<lambda>b. JObj [(''id'', kb_id b), (''alias'', kb_alias b)]) (filter (\<lambda>b. snd (snd (kb_perms b))) bs)"

definition key_buckets_success :: "string \<Rightarrow> string \<Rightarrow> key_bucket list \<Rightarrow> job_outcome option" where
  "key_buckets_success el key bs =
     done_with (''Key '' @ key @ '' reaches '' @ nat_str (length bs) @ '' bucket(s), owns '' @ nat_str (length (owned_buckets bs)))
       [(''key_id'', JStr key), (''owned_buckets'', JArr (owned_buckets bs)),
        (''bucket_grants'', JArr (map bucket_grant_json bs)), (''garage_stderr'', JStr []), (''duration_seconds'', JFloat el)]"

definition key_buckets_failure :: "string \<Rightarrow> failure_reason \<Rightarrow> string \<Rightarrow> string \<Rightarrow> job_outcome option" where
  "key_buckets_failure el reason key err =
     failed_with reason err
       [(''key_id'', JStr key), (''owned_buckets'', JArr []), (''bucket_grants'', JArr []), (''garage_stderr'', JStr err),
        (''duration_seconds'', JFloat el)]"

definition run_get_key_buckets :: "string \<Rightarrow> admin \<Rightarrow> string \<Rightarrow> job_run" where
  "run_get_key_buckets el A key h =
     (if \<not> configured A then (key_buckets_failure el FAdminApiUnconfigured key unconfigured, h)
      else case get_key_info A key h of
        ((None, err), h1) \<Rightarrow>
          (if is_not_found err then key_buckets_success el key [] else key_buckets_failure el FKeyReadFailed key err, h1)
      | ((Some info, _), h1) \<Rightarrow>
          (Option.bind (Option.bind (items_of (get_or_null info ''buckets'')) key_buckets_of) (key_buckets_success el key), h1))"

definition make_get_key_buckets_handler :: "string \<Rightarrow> admin \<Rightarrow> job_params \<Rightarrow> job_run option" where
  "make_get_key_buckets_handler el A p =
     (if \<not> has_params [''key_id''] p then None else Some (run_get_key_buckets el A (ptext p ''key_id'')))"

section \<open>Facts\<close>

lemma list_of_list [simp]: "list_of (JArr xs) = Some xs"
  by (cases xs) (auto simp: list_of_def)

lemma clean_rule_again: "clean_rule rule = Some (JObj d) \<Longrightarrow> clean_rule d = Some (JObj d)"
proof -
  assume clean: "clean_rule rule = Some (JObj d)"
  let ?id = "get_or_null rule ''ID''" and ?age = "get_or_null rule ''MaxAgeSeconds''"
  from clean obtain a b c e where "d = map (\<lambda>k. (k, get_or_null rule k)) (filter (\<lambda>k. get_or_null rule k \<noteq> JNull) SCALAR_KEYS)
      @ [(''AllowedOrigin'', JArr a), (''AllowedMethod'', JArr b), (''AllowedHeader'', JArr c), (''ExposeHeader'', JArr e)]"
    by (auto simp: clean_rule_def LIST_KEYS_def split: option.splits)
  then show "clean_rule d = Some (JObj d)"
    by (cases "?id = JNull"; cases "?age = JNull")
      (simp_all add: clean_rule_def LIST_KEYS_def SCALAR_KEYS_def, simp_all add: get_or_null_def)
qed

lemma clean_rule_keys: "clean_rule rule = Some r \<Longrightarrow> \<exists>d. r = JObj d \<and> set (dict_keys d) \<subseteq> RULE_KEYS"
  by (auto simp: clean_rule_def LIST_KEYS_def SCALAR_KEYS_def RULE_KEYS_def split: option.splits)

lemma normalize_again: "normalize_cors_rules rules = Some rs \<Longrightarrow> normalize_cors_rules rs = Some rs"
proof (induction rules arbitrary: rs rule: normalize_cors_rules.induct)
  case (2 rule rest)
  then obtain r rs' where "clean_rule rule = Some r" "normalize_cors_rules rest = Some rs'" "rs = r # rs'"
    by (auto split: option.splits)
  with 2 clean_rule_keys [of rule r] clean_rule_again [of rule] show ?case by auto
qed auto

lemma normalized_shape: "normalize_cors_rules rules = Some rs \<Longrightarrow> rules_problem_from i rs = None"
proof (induction rules arbitrary: i rs rule: normalize_cors_rules.induct)
  case (2 rule rest)
  then obtain r rs' where r: "clean_rule rule = Some r" "normalize_cors_rules rest = Some rs'" "rs = r # rs'"
    by (auto split: option.splits)
  from clean_rule_keys [OF r(1)] obtain d where d: "r = JObj d" "set (dict_keys d) \<subseteq> RULE_KEYS" by blast
  have "filter (\<lambda>k. k \<notin> RULE_KEYS) (remdups (dict_keys d)) = []"
    using d(2) by (auto simp: filter_empty_conv)
  with 2 r d(1) show ?case by (simp add: Let_def)
qed auto

lemma bucket_info_exchange:
  assumes "get_bucket_info A ref h = ((info, err), h')"
  shows "\<exists>new. h' = new @ h \<and> (\<forall>x\<in>set new. is_get (fst x)) \<and> (\<forall>d. info = Some d \<longrightarrow> answered A new (bucket_info_request A ref) d)"
  using assms
  by (auto simp: get_bucket_info_def get_json_def request_def decoded_def object_of_def answered_def bucket_info_request_def
      apfst_def map_prod_def Let_def split: prod.splits option.splits sum.splits json.splits if_splits)

lemma key_info_exchange: "get_key_info A key h = (x, h') \<Longrightarrow> grows is_get h h'"
  by (rule object_reads)

definition cors_write :: "admin \<Rightarrow> string \<Rightarrow> json list \<Rightarrow> http_request \<Rightarrow> bool" where
  "cors_write A bucket rules r \<longleftrightarrow>
     (\<exists>full. full \<noteq> [] \<and> starts_with bucket full
        \<and> r = a_request A ''POST'' ''/v2/UpdateBucket'' [(''id'', full)] (Some (JObj [(''corsRules'', JArr rules)])))"

lemma set_cors_grows: "set_bucket_cors A bucket rules h = (x, h') \<Longrightarrow> grows (\<lambda>r. is_get r \<or> cors_write A bucket rules r) h h'"
  unfolding set_bucket_cors_def update_bucket_def
  by (erule bucket_post_grows) (auto simp: cors_write_def)

lemma set_cors_ok:
  "set_bucket_cors A bucket rules h = ((True, err), h') \<Longrightarrow>
    \<exists>r status body h1. h' = (r, Inr (status, body)) # h1 \<and> cors_write A bucket rules r \<and> success_status status \<and> grows is_get h h1"
  unfolding set_bucket_cors_def update_bucket_def by (auto simp: cors_write_def dest!: bucket_post_ok)

text \<open>The two reading jobs and the CORS read send nothing but reads.\<close>

lemma reads_only_read:
  "run_get_bucket_owners el A bucket h = (out, h') \<Longrightarrow> grows is_get h h'"
  "run_get_key_buckets el A key h = (out, h') \<Longrightarrow> grows is_get h h'"
  "run_bucket_cors_get el A bucket h = (out, h') \<Longrightarrow> grows is_get h h'"
  by (auto simp: run_get_bucket_owners_def run_get_key_buckets_def run_bucket_cors_get_def read_current_rules_def
      split: if_splits prod.splits option.splits sum.splits dest: object_reads)

lemma cors_failure_fails:
  "cors_failure el reason bucket err rules = Some out \<Longrightarrow> \<not> jo_success out"
  "rules_in el bucket info = Some (Inl (Some out)) \<Longrightarrow> \<not> jo_success out"
  by (auto simp: cors_failure_def failed_with_def rules_in_def Let_def split: if_splits option.splits)

section \<open>Properties\<close>

text \<open>
  What a CORS write sends is what reads back: the normal form of rules passes the shape check, is its
  own normal form, and a reply that carries it is read as exactly those rules.
\<close>

theorem written_rules_read_back:
  assumes "normalize_cors_rules rules = Some rs" "get_or_null info ''corsRules'' = JArr rs"
  shows "rules_in el bucket info = Some (Inr rs) \<and> normalize_cors_rules rs = Some rs"
  using normalize_again [OF assms(1)] normalized_shape [OF assms(1)] assms(2)
  by (simp_all add: rules_in_def cors_rules_shape_problem_def)

text \<open>
  C40. Rules are never written over rules the caller did not see: everything a set adds to the log is a
  read, or the update of a bucket the reference names with exactly the rules given, and then a read of
  that job was answered with rules equal to the expected ones; a success means the update was answered
  with a 2xx status after nothing but reads.
\<close>

theorem cors_compare_and_swap:
  assumes "run_bucket_cors_set F el A bucket rules expected h = (out, h')"
  shows "\<exists>new. h' = new @ h
    \<and> (\<forall>(r, reply)\<in>set new. is_get r \<or> cors_write A bucket rules r
         \<and> (\<exists>info current. answered A new (bucket_info_request A bucket) info \<and> rules_in el bucket info = Some (Inr current)
              \<and> values_eq F current expected))
    \<and> (\<forall>o'. out = Some o' \<and> jo_success o' \<longrightarrow> (\<exists>r status body reads. new = (r, Inr (status, body)) # reads
         \<and> cors_write A bucket rules r \<and> success_status status \<and> (\<forall>x\<in>set reads. is_get (fst x))))"
proof -
  obtain info err h1 where read: "get_bucket_info A bucket h = ((info, err), h1)" by (metis prod.exhaust)
  from bucket_info_exchange [OF this] obtain new where new: "h1 = new @ h" "\<forall>x\<in>set new. is_get (fst x)"
    "\<And>d. info = Some d \<Longrightarrow> answered A new (bucket_info_request A bucket) d" by blast
  show ?thesis
  proof (cases "\<exists>d current. info = Some d \<and> rules_in el bucket d = Some (Inr current) \<and> values_eq F current expected")
    case False
    have "h' = h1 \<and> (\<forall>o'. out = Some o' \<longrightarrow> \<not> jo_success o')"
    proof (cases info)
      case None
      with assms read show ?thesis
        by (auto simp: run_bucket_cors_set_def read_current_rules_def dest: cors_failure_fails)
    next
      case (Some d)
      with assms read False show ?thesis
        by (auto simp: run_bucket_cors_set_def read_current_rules_def split: option.splits sum.splits
            dest: cors_failure_fails)
    qed
    with new show ?thesis by (intro exI [of _ new]) auto
  next
    case True
    then obtain d current where d: "info = Some d" "rules_in el bucket d = Some (Inr current)" "values_eq F current expected" by blast
    obtain ok err' h2 where set: "set_bucket_cors A bucket rules h1 = ((ok, err'), h2)" by (metis prod.exhaust)
    from set_cors_grows [OF this] obtain w where w: "h2 = w @ h1" "\<forall>(r, reply)\<in>set w. is_get r \<or> cors_write A bucket rules r"
      by (auto simp: grows_def)
    have out: "h' = h2" "\<And>o'. out = Some o' \<Longrightarrow> jo_success o' \<Longrightarrow> ok"
      using assms read d set
      by (auto simp: run_bucket_cors_set_def read_current_rules_def cors_failure_def failed_with_def split: bool.splits)
    have answered: "answered A (w @ new) (bucket_info_request A bucket) d"
      using new(3) [OF d(1)] by (rule answered_mono) auto
    have "\<exists>r status body reads. w @ new = (r, Inr (status, body)) # reads \<and> cors_write A bucket rules r
        \<and> success_status status \<and> (\<forall>x\<in>set reads. is_get (fst x))" if ok
    proof -
      from set_cors_ok [of A bucket rules h1 err' h2] set that obtain r status body h3 where
        "h2 = (r, Inr (status, body)) # h3" "cors_write A bucket rules r" "success_status status" "grows is_get h1 h3" by auto
      with w(1) new(1,2) show ?thesis by (cases w) (auto simp: grows_def)
    qed
    moreover have "\<forall>(r, reply)\<in>set (w @ new). is_get r \<or> cors_write A bucket rules r
         \<and> (\<exists>info current. answered A (w @ new) (bucket_info_request A bucket) info \<and> rules_in el bucket info = Some (Inr current)
              \<and> values_eq F current expected)"
      using w(2) new(2) answered d(2,3) by (simp add: ball_Un case_prod_unfold) blast
    ultimately show ?thesis using out w(1) new(1)
      by (intro exI [of _ "w @ new"]) auto
  qed
qed

section \<open>Concrete runs\<close>

lemma written_rules_read_back_witness:
  "rules_in [] ''b'' [(''corsRules'', JArr [JObj [(''AllowedOrigin'', JArr [JStr ''*'']), (''AllowedMethod'', JArr []),
     (''AllowedHeader'', JArr []), (''ExposeHeader'', JArr [])]])]
   = Some (Inr [JObj [(''AllowedOrigin'', JArr [JStr ''*'']), (''AllowedMethod'', JArr []),
     (''AllowedHeader'', JArr []), (''ExposeHeader'', JArr [])]])"
proof -
  have "normalize_cors_rules [JObj [(''ExposeHeader'', JNull), (''AllowedOrigin'', JArr [JStr ''*''])]]
     = Some [JObj [(''AllowedOrigin'', JArr [JStr ''*'']), (''AllowedMethod'', JArr []),
         (''AllowedHeader'', JArr []), (''ExposeHeader'', JArr [])]]"
    by code_simp
  from written_rules_read_back [OF this, of "[(''corsRules'', JArr [JObj [(''AllowedOrigin'', JArr [JStr ''*'']),
      (''AllowedMethod'', JArr []), (''AllowedHeader'', JArr []), (''ExposeHeader'', JArr [])]])]"] show ?thesis
    by (simp add: get_or_null_def)
qed

lemma cors_compare_and_swap_witness:
  "\<exists>r reply reads. snd (run_bucket_cors_set (\<lambda>v w. v = w) [] demo_admin ''ab'' [JObj []] [] []) = (r, reply) # reads
     \<and> cors_write demo_admin ''ab'' [JObj []] r"
proof -
  obtain out h' where run: "run_bucket_cors_set (\<lambda>v w. v = w) [] demo_admin ''ab'' [JObj []] [] [] = (Some out, h')" "jo_success out"
    by (simp add: run_bucket_cors_set_def read_current_rules_def rules_in_def get_bucket_info_def get_json_def decoded_def
        object_of_def set_bucket_cors_def update_bucket_def bucket_post_def resolve_full_bucket_id_def FULL_BUCKET_ID_LEN_def
        request_def demo_admin_def demo_info_def success_status_def starts_with_def post_def a_request_def get_or_null_def
        cors_success_def done_with_def apfst_def map_prod_def)
  from cors_compare_and_swap [OF run(1)] run(2) obtain r status body reads where
    "h' = (r, Inr (status, body)) # reads" "cors_write demo_admin ''ab'' [JObj []] r" by auto
  with run(1) show ?thesis by simp
qed

end
