(* ===== verification/Spec2Isabelle.thy ===== *)
theory Spec2Isabelle
  imports Dispatch Logs Spool GarageState Wizard Caddy Config GarageClear GarageReads
begin

text \<open>
  A verification development for the Storm Pulse agent, the rootless daemon of \<open>src/stormpulse/\<close> that
  connects outbound to a dashboard, pushes metrics, logs and events, and runs whitelisted commands.

  \<^bold>\<open>The parts and how they interact.\<close> A frame from the socket enters \<open>agent/dispatch.py\<close>, is read by
  \<open>protocol/envelope.py\<close> and \<open>protocol/codec.py\<close>, verified by \<open>auth.py\<close>, passed through the admission
  checks of \<open>agent/admission.py\<close> (sign-off seal, grant fence, pending restart), and runs a command of
  \<open>commands/registry.py\<close> whose params \<open>config/param_schema.py\<close> validated, or starts a long-running
  job of \<open>commands/jobs.py\<close>. Acknowledgements go to the event buffer (\<open>events.py\<close>), the integrations'
  push receipts (\<open>agent/integrations_runtime.py\<close>) and the log shippers (\<open>logging/\<close>).

  \<^bold>\<open>Theories.\<close>
  \<^item> Prelude: insertion-ordered dictionaries, the result type \<open>error + 'a\<close>, and \<open>machine\<close>, the locale of
    a transition system with an invariant that every stateful component interprets.
  \<^item> Python, Json: what the code uses of the language: text, \<open>repr\<close>, \<open>str.format_map\<close>, decoded JSON and
    the canonical encoder of \<open>sdk/declaration.py\<close>, with its injectivity up to Python equality.
  \<^item> Codec, Payloads, Envelope: \<open>protocol/\<close>. Payload classes are data (class name and annotations) read
    by one decoder, as \<open>from_dict\<close> reads a dataclass. Round trips and the rules of \<open>command.result\<close>.
  \<^item> Auth: \<open>auth.py\<close>. The gate as an \<open>iff\<close>, the nonce store as a locale, replay protection.
  \<^item> Events: the registry of declared shapes, the buffer as a machine (conservation, bounds, an event
    that left never returns), the walks.
  \<^item> Schema, Commands: the declaration and value walks of \<open>config/param_schema.py\<close> (equal to a
    reference predicate), the registry, templates and execution.
  \<^item> Jobs: \<open>commands/jobs.py\<close>; each task is the phase it is suspended in, every resumption is a step,
    so the theorems hold under every interleaving.
  \<^item> Signoff: the two seal files, a crash being a prefix of the writes, and the push loop.
  \<^item> Integrations: runtimes, writers, reports, push receipts.
  \<^item> Dispatch: every handler of the table over one agent state with a trace of effects and a clock that
    every read of the world advances.
  \<^item> Logs: the position store, file and journal tailers, shipper, batch tracker, and one group's machine,
    which refines an abstract delivery promise.
  \<^item> Spool: \<open>agent/event_spool.py\<close>, one system call at a time with an emitter between any two, and
    \<open>bounded_read.py\<close>.
  \<^item> Garage, GarageJobs: the admin client over a server that is an arbitrary function of the exchanges so
    far, and the jobs of \<open>garage/jobs/\<close> that change keys, grants and buckets. A job maps the log of
    exchanges to an outcome and a longer log; the lemmas say what a log may grow by.
  \<^item> GarageState: the hint file, the mapping of replies, the cadenced reader with its cache and the hooks
    of other threads scripted between any two exchanges, and the resolver of access-log lines.
  \<^item> S3, GarageClear, GarageReads: the S3 client of \<open>garage/s3.py\<close> with its signature, over a server that is
    an arbitrary function of the requests so far; the drain loop, the purge with a key of its own and the
    walk over it, as partial functions; the compare-and-swap on CORS rules and the reading jobs.
  \<^item> Effects, Wizard: the mutation engine of \<open>wizard/\<close> over a host whose every system call works, raises
    or is the last one of the process (a \<open>fate\<close>); journal, rollback and recovery, and what a crash leaves
    to recover from. Effects holds the sequencing both it and Caddy use.
  \<^item> Caddy: one run of \<open>caddy/sync.py\<close>, from the manifest to the load: scan, the deletion rail, the
    preflight of the composed text, the files one by one, the reload; every call has a fate.
  \<^item> Config: \<open>config/__init__.py\<close> and the section parsers of caddy, garage and rclone, from the decoded
    TOML document to the records the agent runs with.

  \<^bold>\<open>Groups of lemmas.\<close> Each theory has its definitions first, in the order of the code, then facts
  (introduction rules, \<open>iff\<close> characterisations, the step lemmas of its machine), then the properties,
  each after a text that names it, then their witnesses on concrete values.

  \<^bold>\<open>Parameters.\<close> What is not under \<open>src/\<close> is an argument: \<open>json.loads\<close>, the ISO routines of
  \<open>datetime\<close>, HMAC and digests, \<open>re\<close>, the process a command starts, the clock, journalctl's output,
  the log parsers, the spool's system calls, the Garage servers, the XML parser. A hypothesis about one states its documented behaviour, and a witness shows it can hold.

  \<^bold>\<open>Bounds.\<close> No definition takes fuel: recursion is structural or has a measure, and the two loops that may
  not end are partial functions whose ending is a theorem. Python integers are
  \<open>int\<close> or \<open>nat\<close>; instants are microseconds or milliseconds as \<open>int\<close>.

  \<^bold>\<open>Not modelled.\<close> Pure I/O and glue (the CLI, the prompts, enrolment, systemd and TOML generation, the
  TLS and socket set-up), the rclone handlers, Caddy's certificate status, the docker
  tailers, the log parsers, the external integration loader, and logging calls. The manifest gives the reason for each.
\<close>

end
